(* ===== verification/Prelude.thy ===== *)
theory Prelude
  imports Complex_Main "HOL-Library.AList" "HOL-Library.Char_ord" "HOL-Library.List_Lexorder"
    "HOL-Library.Product_Lexorder"
begin

text \<open>
  Shared vocabulary of the development: ruble amounts and Python's \<open>round\<close>, Python strings
  (UTF-8 encoded, measured in code points), \<open>min\<close>/\<open>max\<close> with a key, dictionaries as
  association lists, and the effectful operations (state with exceptions) that the
  asynchronous code is translated into.

  Amounts and durations are floats in the source. They are modelled as exact rationals, and
  every call of \<open>round\<close> in the source is a call of \<open>py_round\<close> here, with the same
  round-half-to-even rule. Binary rounding of the individual float operations is not modelled.
\<close>

named_theorems py_simps \<open>evaluation of the Python vocabulary\<close>
named_theorems grid_simps \<open>amounts that are whole numbers of the last kept decimal\<close>

type_synonym money = rat
type_synonym time = rat

section \<open>Rounding\<close>

lemma rat_floor_numeral [simp, py_simps]:
  "\<lfloor>(numeral a / numeral b :: rat)\<rfloor> = numeral a div numeral b"
  "\<lfloor>(1 / numeral b :: rat)\<rfloor> = 1 div numeral b"
  "\<lfloor>(- (numeral a / numeral b) :: rat)\<rfloor> = - numeral a div numeral b"
  "\<lfloor>(- (1 / numeral b) :: rat)\<rfloor> = - 1 div numeral b"
proof -
  have f: "\<lfloor>(of_int k / of_int l :: rat)\<rfloor> = k div l" for k l
    by (rule floor_divide_of_int_eq)
  show "\<lfloor>(numeral a / numeral b :: rat)\<rfloor> = numeral a div numeral b"
    using f [of "numeral a" "numeral b"] by simp
  show "\<lfloor>(1 / numeral b :: rat)\<rfloor> = 1 div numeral b"
    using f [of 1 "numeral b"] by simp
  show "\<lfloor>(- (numeral a / numeral b) :: rat)\<rfloor> = - numeral a div numeral b"
    using f [of "- numeral a" "numeral b"] by simp
  show "\<lfloor>(- (1 / numeral b) :: rat)\<rfloor> = - 1 div numeral b"
    using f [of "- 1" "numeral b"] by simp
qed

text \<open>Python's \<open>round(x)\<close>: to the nearest integer, ties to the even one.\<close>

definition round_half_even :: "rat \<Rightarrow> int" where
  "round_half_even x =
     (let f = \<lfloor>x\<rfloor>; d = x - of_int f
      in if d < 1 / 2 then f
         else if 1 / 2 < d then f + 1
         else if even f then f else f + 1)"

definition py_round :: "nat \<Rightarrow> rat \<Rightarrow> rat" where
  "py_round n x = of_int (round_half_even (x * 10 ^ n)) / 10 ^ n"

abbreviation round4 :: "rat \<Rightarrow> rat" where
  "round4 \<equiv> py_round 4"

abbreviation round2 :: "rat \<Rightarrow> rat" where
  "round2 \<equiv> py_round 2"

definition on_grid :: "nat \<Rightarrow> rat \<Rightarrow> bool" where
  "on_grid n x \<longleftrightarrow> py_round n x = x"

lemma round_half_even_of_int [simp]: "round_half_even (of_int k) = k"
  by (simp add: round_half_even_def)

lemma round_half_even_bounds:
  "x - 1 / 2 \<le> of_int (round_half_even x)" "of_int (round_half_even x) \<le> x + 1 / 2"
  using floor_correct [of x]
  by (simp_all add: round_half_even_def Let_def, linarith+)

lemma round_half_even_mono:
  assumes "x \<le> y"
  shows "round_half_even x \<le> round_half_even y"
proof (cases "\<lfloor>x\<rfloor> = \<lfloor>y\<rfloor>")
  case True
  with assms show ?thesis by (auto simp: round_half_even_def Let_def)
next
  case False
  with floor_mono [OF assms] have "\<lfloor>x\<rfloor> + 1 \<le> \<lfloor>y\<rfloor>" by simp
  moreover have "round_half_even x \<le> \<lfloor>x\<rfloor> + 1" "\<lfloor>y\<rfloor> \<le> round_half_even y"
    by (auto simp: round_half_even_def Let_def)
  ultimately show ?thesis by linarith
qed

lemma round_half_even_near:
  assumes "\<bar>e\<bar> < 1 / 2"
  shows "round_half_even (of_int k + e) = k"
proof -
  have "of_int (round_half_even (of_int k + e)) \<le> of_int k + e + 1 / 2"
    and "of_int k + e - 1 / 2 \<le> of_int (round_half_even (of_int k + e))"
    using round_half_even_bounds by blast+
  with assms have "of_int (round_half_even (of_int k + e)) < (of_int (k + 1) :: rat)"
    and "(of_int (k - 1) :: rat) < of_int (round_half_even (of_int k + e))"
    by (auto simp: abs_less_iff)
  then show ?thesis unfolding of_int_less_iff by linarith
qed

lemma py_round_mono: "x \<le> y \<Longrightarrow> py_round n x \<le> py_round n y"
  unfolding py_round_def
  by (intro divide_right_mono) (auto intro: round_half_even_mono)

lemma py_round_error: "\<bar>py_round n x - x\<bar> \<le> 1 / (2 * 10 ^ n)"
proof -
  have "\<bar>of_int (round_half_even (x * 10 ^ n)) - x * 10 ^ n\<bar> \<le> (1 / 2 :: rat)"
    using round_half_even_bounds [of "x * 10 ^ n"] by linarith
  then have "\<bar>of_int (round_half_even (x * 10 ^ n)) - x * 10 ^ n\<bar> / 10 ^ n \<le> (1 / 2 :: rat) / 10 ^ n"
    by (intro divide_right_mono) simp_all
  moreover have "\<bar>of_int (round_half_even (x * 10 ^ n)) - x * 10 ^ n\<bar> / 10 ^ n
      = \<bar>(of_int (round_half_even (x * 10 ^ n)) - x * 10 ^ n) / (10 ^ n :: rat)\<bar>"
    by simp
  moreover have "(of_int (round_half_even (x * 10 ^ n)) - x * 10 ^ n) / (10 ^ n :: rat) = py_round n x - x"
    by (simp add: py_round_def field_simps)
  ultimately show ?thesis by (simp add: field_simps)
qed

lemma py_round_idem [simp]: "py_round n (py_round n x) = py_round n x"
  by (simp add: py_round_def)

lemma on_grid_round [simp, grid_simps]: "on_grid n (py_round n x)"
  by (simp add: on_grid_def)

lemma on_grid_iff: "on_grid n x \<longleftrightarrow> (\<exists>k. x = of_int k / 10 ^ n)"
proof
  assume "on_grid n x"
  then show "\<exists>k. x = of_int k / 10 ^ n" unfolding on_grid_def py_round_def by metis
next
  assume "\<exists>k. x = of_int k / 10 ^ n"
  then show "on_grid n x" by (auto simp: on_grid_def py_round_def)
qed

lemma on_grid_of_int [simp, grid_simps]: "on_grid n (of_int k)"
proof -
  have "of_int k = (of_int (k * 10 ^ n) / 10 ^ n :: rat)" by simp
  then show ?thesis unfolding on_grid_iff by blast
qed

lemma on_grid_0 [simp, grid_simps]: "on_grid n 0"
  using on_grid_of_int [of n 0] by simp

lemma on_grid_add [grid_simps]: "on_grid n x \<Longrightarrow> on_grid n y \<Longrightarrow> on_grid n (x + y)"
  unfolding on_grid_iff by (metis add_divide_distrib of_int_add)

lemma on_grid_diff [grid_simps]: "on_grid n x \<Longrightarrow> on_grid n y \<Longrightarrow> on_grid n (x - y)"
  unfolding on_grid_iff by (metis diff_divide_distrib of_int_diff)

lemma on_grid_sum_list [grid_simps]: "list_all (on_grid n) xs \<Longrightarrow> on_grid n (sum_list xs)"
  by (induction xs) (auto intro: on_grid_add)

lemma py_round_grid: "on_grid n x \<Longrightarrow> py_round n x = x"
  by (simp add: on_grid_def)

lemma py_round_numeral [simp]: "py_round n (numeral k) = numeral k"
  using py_round_grid [OF on_grid_of_int, of n "numeral k"] by simp

lemma py_round_neg_numeral [simp]: "py_round n (- numeral k) = - numeral k"
  using py_round_grid [OF on_grid_of_int, of n "- numeral k"] by simp

lemma py_round_0 [simp]: "py_round n 0 = 0"
  by (rule py_round_grid) simp

lemma py_round_nonneg: "0 \<le> x \<Longrightarrow> 0 \<le> py_round n x"
  using py_round_mono [of 0 x n] by simp

lemma py_round_near:
  assumes "on_grid n g" and "\<bar>e\<bar> < 1 / (2 * 10 ^ n)"
  shows "py_round n (g + e) = g"
proof -
  obtain k where k: "g = of_int k / 10 ^ n" using assms(1) unfolding on_grid_iff by blast
  have "\<bar>e * 10 ^ n\<bar> < 1 / 2"
    using assms(2) by (simp add: abs_mult field_simps)
  moreover have "(g + e) * 10 ^ n = of_int k + e * 10 ^ n" by (simp add: k field_simps)
  ultimately show ?thesis by (simp add: py_round_def round_half_even_near k)
qed

text \<open>
  The comparison pattern of the budget code: an amount that fits a grid ceiling up to an
  epsilon below half a grid step still fits it after rounding.
\<close>

lemma py_round_le_grid:
  assumes "on_grid n g" and "x \<le> g + e" and "0 \<le> e" and "e < 1 / (2 * 10 ^ n)"
  shows "py_round n x \<le> g"
proof -
  have "py_round n x \<le> py_round n (g + e)" using assms(2) by (rule py_round_mono)
  also have "\<dots> = g" using assms by (intro py_round_near) auto
  finally show ?thesis .
qed


section \<open>Minimum and maximum by key\<close>

text \<open>
  Python's \<open>min(xs, key=f)\<close> and \<open>max(xs, key=f)\<close> return the first element with the
  extreme key; on an empty sequence they raise, which is \<open>None\<close> here.
\<close>

fun min_by :: "('a \<Rightarrow> 'b::linorder) \<Rightarrow> 'a \<Rightarrow> 'a list \<Rightarrow> 'a" where
  "min_by f b [] = b"
| "min_by f b (x # xs) = min_by f (if f x < f b then x else b) xs"

fun py_min_by :: "('a \<Rightarrow> 'b::linorder) \<Rightarrow> 'a list \<Rightarrow> 'a option" where
  "py_min_by f [] = None"
| "py_min_by f (x # xs) = Some (min_by f x xs)"

fun max_by :: "('a \<Rightarrow> 'b::linorder) \<Rightarrow> 'a \<Rightarrow> 'a list \<Rightarrow> 'a" where
  "max_by f b [] = b"
| "max_by f b (x # xs) = max_by f (if f b < f x then x else b) xs"

fun py_max_by :: "('a \<Rightarrow> 'b::linorder) \<Rightarrow> 'a list \<Rightarrow> 'a option" where
  "py_max_by f [] = None"
| "py_max_by f (x # xs) = Some (max_by f x xs)"

lemma min_by_in: "min_by f b xs \<in> insert b (set xs)"
  by (induction f b xs rule: min_by.induct) (auto split: if_splits)

lemma max_by_in: "max_by f b xs \<in> insert b (set xs)"
  by (induction f b xs rule: max_by.induct) (auto split: if_splits)

lemma min_by_le: "y \<in> insert b (set xs) \<Longrightarrow> f (min_by f b xs) \<le> f y"
proof (induction xs arbitrary: b y)
  case (Cons x xs)
  let ?b = "if f x < f b then x else b"
  have b: "f (min_by f ?b xs) \<le> f ?b" using Cons.IH [of ?b ?b] by simp
  from Cons.prems consider "y = b" | "y = x" | "y \<in> set xs" by auto
  then show ?case
  proof cases
    case 3
    then show ?thesis using Cons.IH [of y ?b] by simp
  qed (use b in \<open>auto split: if_splits intro: order_trans\<close>)
qed simp

lemma max_by_ge: "y \<in> insert b (set xs) \<Longrightarrow> f y \<le> f (max_by f b xs)"
proof (induction xs arbitrary: b y)
  case (Cons x xs)
  let ?b = "if f b < f x then x else b"
  have b: "f ?b \<le> f (max_by f ?b xs)" using Cons.IH [of ?b ?b] by simp
  from Cons.prems consider "y = b" | "y = x" | "y \<in> set xs" by auto
  then show ?case
  proof cases
    case 3
    then show ?thesis using Cons.IH [of y ?b] by simp
  qed (use b in \<open>auto split: if_splits intro: order_trans\<close>)
qed simp

lemma py_min_by_None [simp]: "py_min_by f xs = None \<longleftrightarrow> xs = []"
  by (cases xs) auto

lemma py_max_by_None [simp]: "py_max_by f xs = None \<longleftrightarrow> xs = []"
  by (cases xs) auto

lemma py_min_by_in: "py_min_by f xs = Some x \<Longrightarrow> x \<in> set xs"
  using min_by_in by (cases xs) force+

lemma py_max_by_in: "py_max_by f xs = Some x \<Longrightarrow> x \<in> set xs"
  using max_by_in by (cases xs) force+

lemma py_min_by_le: "py_min_by f xs = Some x \<Longrightarrow> y \<in> set xs \<Longrightarrow> f x \<le> f y"
  using min_by_le by (cases xs) force+

lemma py_max_by_ge: "py_max_by f xs = Some x \<Longrightarrow> y \<in> set xs \<Longrightarrow> f y \<le> f x"
  using max_by_ge by (cases xs) force+

section \<open>Dictionaries and lists\<close>

text \<open>
  A Python dictionary is an association list in insertion order: \<open>map_of\<close> reads it,
  \<open>AList.update\<close> writes it (an existing key keeps its place), and \<open>{**a, **b}\<close> is
  \<open>dict_merge a b\<close>.
\<close>

type_synonym ('k, 'v) dict = "('k \<times> 'v) list"

definition keys_of :: "('k, 'v) dict \<Rightarrow> 'k set" where
  "keys_of d = fst ` set d"

lemma keys_of_simps [simp]:
  "keys_of [] = {}" "keys_of ((k, v) # d) = insert k (keys_of d)"
  "keys_of (AList.update k v d) = insert k (keys_of d)" "keys_of (d @ e) = keys_of d \<union> keys_of e"
  by (auto simp: keys_of_def dom_update)

lemma keys_of_map_of: "k \<in> keys_of d \<longleftrightarrow> map_of d k \<noteq> None"
  by (simp add: keys_of_def map_of_eq_None_iff)

definition dict_merge :: "('k, 'v) dict \<Rightarrow> ('k, 'v) dict \<Rightarrow> ('k, 'v) dict" where
  "dict_merge a b = fold (\<lambda>(k, v). AList.update k v) b a"

lemma map_of_fold_update:
  "map_of (fold (\<lambda>(k, v). AList.update k v) b a) k =
     (case map_of (rev b) k of None \<Rightarrow> map_of a k | Some v \<Rightarrow> Some v)"
  by (induction b arbitrary: a)
     (auto simp: AList.update_conv' map_add_def split: option.splits)

lemma map_of_rev_distinct: "distinct (map fst xs) \<Longrightarrow> map_of (rev xs) = map_of xs"
proof (induction xs)
  case (Cons p xs)
  obtain k v where p: "p = (k, v)" by (cases p)
  have "map_of xs k = None" using Cons.prems p by (auto simp: map_of_eq_None_iff)
  with Cons p show ?case by (auto simp: map_add_def fun_eq_iff split: option.splits)
qed simp

lemma map_of_dict_merge:
  "distinct (map fst b) \<Longrightarrow>
     map_of (dict_merge a b) k = (case map_of b k of None \<Rightarrow> map_of a k | Some v \<Rightarrow> Some v)"
  by (simp add: dict_merge_def map_of_fold_update map_of_rev_distinct)

text \<open>Replace the first element that satisfies \<open>P\<close>: the object a search over a list returned,
  mutated in place.\<close>

fun upd_first :: "('a \<Rightarrow> bool) \<Rightarrow> ('a \<Rightarrow> 'a) \<Rightarrow> 'a list \<Rightarrow> 'a list" where
  "upd_first P f [] = []"
| "upd_first P f (x # xs) = (if P x then f x # xs else x # upd_first P f xs)"

lemma length_upd_first [simp]: "length (upd_first P f xs) = length xs"
  by (induction xs) auto

lemma map_upd_first:
  "(\<And>x. g (f x) = g x) \<Longrightarrow> map g (upd_first P f xs) = map g xs"
  by (induction xs) auto

lemma find_upd_first:
  "(\<And>x. P x \<Longrightarrow> P (f x)) \<Longrightarrow> find P (upd_first P f xs) = map_option f (find P xs)"
  by (induction xs) auto

lemma upd_first_none: "find P xs = None \<Longrightarrow> upd_first P f xs = xs"
  by (induction xs) (auto split: if_splits)

lemma find_in: "find P xs = Some x \<Longrightarrow> x \<in> set xs \<and> P x"
  by (auto simp: find_Some_iff)

lemma update_new: "k \<notin> set (map fst al) \<Longrightarrow> AList.update k v al = al @ [(k, v)]"
  by (induction al) auto

end
