(* ===== verification/PyStr.thy ===== *)
theory PyStr
  imports Prelude
begin

text \<open>
  Python strings. A \<open>str\<close> is represented by its UTF-8 encoding, a HOL \<open>string\<close>; equality,
  concatenation, prefix tests and the ordering by code point are those of the byte lists.
  Whatever the source measures or cuts in characters (\<open>len\<close>, \<open>s[:n]\<close>, \<open>strip\<close>,
  \<open>fnmatch\<close>) goes through \<open>py_chars\<close>, the list of encoded code points. Case conversion and
  digit tests cover ASCII, which is where the source's vocabulary lies.
\<close>

definition utf8_cont :: "char \<Rightarrow> bool" where
  "utf8_cont c \<longleftrightarrow> 128 \<le> (of_char c :: nat) \<and> (of_char c :: nat) < 192"

function py_chars :: "string \<Rightarrow> string list" where
  "py_chars [] = []"
| "py_chars (c # cs) = (c # takeWhile utf8_cont cs) # py_chars (dropWhile utf8_cont cs)"
  by pat_completeness auto
termination
  by (relation "measure length") (auto simp: le_imp_less_Suc length_dropWhile_le)

definition py_len :: "string \<Rightarrow> nat" where
  "py_len s = length (py_chars s)"

text \<open>\<open>s[:n]\<close>\<close>

definition py_take :: "nat \<Rightarrow> string \<Rightarrow> string" where
  "py_take n s = concat (take n (py_chars s))"

text \<open>\<open>s[-n:]\<close> for a positive \<open>n\<close>\<close>

definition py_last :: "nat \<Rightarrow> string \<Rightarrow> string" where
  "py_last n s = concat (drop (length (py_chars s) - n) (py_chars s))"

lemma concat_py_chars [simp]: "concat (py_chars s) = s"
  by (induction s rule: py_chars.induct) auto

text \<open>A list of groups is a decomposition into code points when every group is a leading
  byte followed by continuation bytes, and every group but the first starts with a byte that
  is not a continuation byte.\<close>

fun starts_new :: "string list \<Rightarrow> bool" where
  "starts_new [] = True"
| "starts_new (g # gs) = (case g of [] \<Rightarrow> False
     | c # cs \<Rightarrow> \<not> utf8_cont c \<and> list_all utf8_cont cs \<and> starts_new gs)"

fun char_groups :: "string list \<Rightarrow> bool" where
  "char_groups [] = True"
| "char_groups (g # gs) = (case g of [] \<Rightarrow> False | c # cs \<Rightarrow> list_all utf8_cont cs \<and> starts_new gs)"

lemma starts_new_dropWhile: "starts_new (py_chars (dropWhile utf8_cont cs))"
proof (induction "length cs" arbitrary: cs rule: less_induct)
  case less
  show ?case
  proof (cases "dropWhile utf8_cont cs")
    case (Cons d ds)
    then have "\<not> utf8_cont d" by (metis hd_dropWhile list.sel(1) list.distinct(1))
    moreover have "length ds < length cs"
      using Cons length_dropWhile_le [of utf8_cont cs] by simp
    moreover have "list_all utf8_cont (takeWhile utf8_cont ds)"
      by (auto simp: list_all_iff dest: set_takeWhileD)
    ultimately show ?thesis using less Cons by simp
  next
    case Nil
    show ?thesis unfolding Nil by simp
  qed
qed

lemma char_groups_py_chars: "char_groups (py_chars s)"
  using starts_new_dropWhile
  by (cases s) (auto simp: list_all_iff dest: set_takeWhileD)

lemma takeWhile_groups:
  "list_all utf8_cont cs \<Longrightarrow> starts_new gs \<Longrightarrow>
     takeWhile utf8_cont (cs @ concat gs) = cs \<and> dropWhile utf8_cont (cs @ concat gs) = concat gs"
  by (induction cs) (cases gs; auto split: list.splits)+

lemma py_chars_concat_new: "starts_new gs \<Longrightarrow> py_chars (concat gs) = gs"
  by (induction gs) (auto split: list.splits simp: takeWhile_groups)

lemma py_chars_concat: "char_groups gs \<Longrightarrow> py_chars (concat gs) = gs"
  by (cases gs) (auto split: list.splits simp: takeWhile_groups py_chars_concat_new)

lemma starts_new_take: "starts_new gs \<Longrightarrow> starts_new (take n gs)"
  by (induction gs arbitrary: n) (auto simp: take_Cons split: list.splits nat.splits)

lemma char_groups_take: "char_groups gs \<Longrightarrow> char_groups (take n gs)"
  by (cases gs; cases n) (auto split: list.splits intro: starts_new_take)

lemma py_chars_take: "py_chars (py_take n s) = take n (py_chars s)"
  unfolding py_take_def by (rule py_chars_concat [OF char_groups_take [OF char_groups_py_chars]])

lemma py_len_take [simp]: "py_len (py_take n s) = min (py_len s) n"
  by (simp add: py_len_def py_chars_take)

lemma py_take_all: "py_len s \<le> n \<Longrightarrow> py_take n s = s"
  by (simp add: py_take_def py_len_def)

lemma py_take_prefix: "\<exists>t. s = py_take n s @ t"
proof -
  have "s = py_take n s @ concat (drop n (py_chars s))"
    unfolding py_take_def by (metis append_take_drop_id concat_append concat_py_chars)
  then show ?thesis by blast
qed

lemma py_len_0 [simp]: "py_len s = 0 \<longleftrightarrow> s = []"
  by (cases s) (auto simp: py_len_def)

lemma py_len_Nil [simp]: "py_len [] = 0"
  by simp

text \<open>Text without continuation bytes (ASCII in particular) is measured by its bytes.\<close>

lemma py_chars_ascii: "list_all (\<lambda>c. \<not> utf8_cont c) s \<Longrightarrow> py_chars s = map (\<lambda>c. [c]) s"
proof (induction s)
  case (Cons c s)
  then show ?case by (cases s) auto
qed simp

lemma py_len_ascii: "list_all (\<lambda>c. \<not> utf8_cont c) s \<Longrightarrow> py_len s = length s"
  by (simp add: py_len_def py_chars_ascii)

section \<open>Whitespace, case, digits\<close>

text \<open>The code points \<open>str.isspace\<close> accepts, in UTF-8.\<close>

definition bytes :: "nat list \<Rightarrow> string" where
  "bytes = map char_of"

definition space_chars :: "string list" where
  "space_chars = map bytes
     ([[9], [10], [11], [12], [13], [28], [29], [30], [31], [32], [194, 133], [194, 160],
       [225, 154, 128], [226, 128, 168], [226, 128, 169], [226, 128, 175], [226, 129, 159],
       [227, 128, 128]] @ map (\<lambda>k. [226, 128, k]) [128 ..< 139])"

definition is_space :: "string \<Rightarrow> bool" where
  "is_space g \<longleftrightarrow> g \<in> set space_chars"

definition py_lstrip :: "string \<Rightarrow> string" where
  "py_lstrip s = concat (dropWhile is_space (py_chars s))"

definition py_rstrip :: "string \<Rightarrow> string" where
  "py_rstrip s = concat (rev (dropWhile is_space (rev (py_chars s))))"

definition py_strip :: "string \<Rightarrow> string" where
  "py_strip s = py_lstrip (py_rstrip s)"

text \<open>\<open>s.lstrip(c)\<close> and \<open>s.rstrip(c)\<close> for one ASCII character\<close>

definition lstrip_char :: "char \<Rightarrow> string \<Rightarrow> string" where
  "lstrip_char c s = dropWhile (\<lambda>d. d = c) s"

definition rstrip_char :: "char \<Rightarrow> string \<Rightarrow> string" where
  "rstrip_char c s = rev (dropWhile (\<lambda>d. d = c) (rev s))"

definition lower_char :: "char \<Rightarrow> char" where
  "lower_char c = (if CHR ''A'' \<le> c \<and> c \<le> CHR ''Z'' then char_of ((of_char c :: nat) + 32) else c)"

definition py_lower :: "string \<Rightarrow> string" where
  "py_lower = map lower_char"

definition is_digit :: "char \<Rightarrow> bool" where
  "is_digit c \<longleftrightarrow> CHR ''0'' \<le> c \<and> c \<le> CHR ''9''"

definition py_isdigit :: "string \<Rightarrow> bool" where
  "py_isdigit s \<longleftrightarrow> s \<noteq> [] \<and> list_all is_digit s"

definition digit_val :: "char \<Rightarrow> nat" where
  "digit_val c = (of_char c :: nat) - 48"

text \<open>\<open>int(s)\<close> on a string of digits\<close>

definition digits_val :: "string \<Rightarrow> nat" where
  "digits_val s = foldl (\<lambda>n c. 10 * n + digit_val c) 0 s"

definition py_startswith :: "string \<Rightarrow> string \<Rightarrow> bool" where
  "py_startswith s p \<longleftrightarrow> take (length p) s = p"

fun py_replace1 :: "char \<Rightarrow> string \<Rightarrow> string \<Rightarrow> string" where
  "py_replace1 c r [] = []"
| "py_replace1 c r (x # xs) = (if x = c then r @ py_replace1 c r xs else x # py_replace1 c r xs)"

text \<open>\<open>s.split(c)\<close> for one character\<close>

fun py_split :: "char \<Rightarrow> string \<Rightarrow> string list" where
  "py_split c [] = [[]]"
| "py_split c (x # xs) =
     (if x = c then [] # py_split c xs
      else case py_split c xs of [] \<Rightarrow> [[x]] | w # ws \<Rightarrow> (x # w) # ws)"

fun py_join :: "string \<Rightarrow> string list \<Rightarrow> string" where
  "py_join sep [] = []"
| "py_join sep [w] = w"
| "py_join sep (w # ws) = w @ sep @ py_join sep ws"

text \<open>\<open>s in t\<close>, and \<open>t.replace(s, r)\<close> (left to right, non-overlapping)\<close>

fun py_contains :: "string \<Rightarrow> string \<Rightarrow> bool" where
  "py_contains s [] = (s = [])"
| "py_contains s (x # xs) = (py_startswith (x # xs) s \<or> py_contains s xs)"

function py_replace :: "string \<Rightarrow> string \<Rightarrow> string \<Rightarrow> string" where
  "py_replace s r [] = []"
| "py_replace s r (x # xs) =
     (if s \<noteq> [] \<and> py_startswith (x # xs) s
      then r @ py_replace s r (drop (length s) (x # xs))
      else x # py_replace s r xs)"
  by pat_completeness auto
termination
  by (relation "measure (\<lambda>(s, r, t). length t)") auto

lemma py_split_nonempty [simp]: "py_split c s \<noteq> []"
  by (cases s) (auto split: list.splits)

lemma py_join_split: "py_join [c] (py_split c s) = s"
proof (induction c s rule: py_split.induct)
  case (2 c x xs)
  then show ?case
    by (cases "py_split c xs") (auto, (metis append_Cons append_Nil neq_Nil_conv py_join.simps(2,3))+)
qed simp

lemma py_lower_idem [simp]: "py_lower (py_lower s) = py_lower s"
proof -
  have "lower_char (lower_char c) = lower_char c" for c
    by (auto simp: lower_char_def less_eq_char_def)
  then show ?thesis by (simp add: py_lower_def)
qed

end
