(* ===== verification/Json.thy ===== *)
theory Json
  imports PyStr
begin

text \<open>
  JSON values as Python sees them after parsing: numbers are \<open>int\<close> or \<open>float\<close> (finite),
  objects are dictionaries in insertion order. The readers below are the type tests the source
  makes; \<open>bool\<close> is a subclass of \<open>int\<close> in Python, so \<open>isinstance(True, (int, float))\<close> holds.
\<close>

datatype json =
    JNull
  | JBool bool
  | JInt int
  | JFloat rat
  | JStr string
  | JArr "json list"
  | JObj "(string \<times> json) list"

type_synonym obj = "(string \<times> json) list"

text \<open>\<open>d.get(k)\<close>: a missing key reads as \<open>None\<close>.\<close>

definition jget :: "obj \<Rightarrow> string \<Rightarrow> json" where
  "jget o1 k = (case map_of o1 k of None \<Rightarrow> JNull | Some v \<Rightarrow> v)"

fun truthy :: "json \<Rightarrow> bool" where
  "truthy JNull = False"
| "truthy (JBool b) = b"
| "truthy (JInt n) = (n \<noteq> 0)"
| "truthy (JFloat x) = (x \<noteq> 0)"
| "truthy (JStr s) = (s \<noteq> [])"
| "truthy (JArr xs) = (xs \<noteq> [])"
| "truthy (JObj o1) = (o1 \<noteq> [])"

text \<open>\<open>a or b\<close>\<close>

definition j_or :: "json \<Rightarrow> json \<Rightarrow> json" where
  "j_or a b = (if truthy a then a else b)"

text \<open>\<open>isinstance(v, (int, float))\<close> with \<open>float(v)\<close>\<close>

fun as_num :: "json \<Rightarrow> rat option" where
  "as_num (JBool b) = Some (if b then 1 else 0)"
| "as_num (JInt n) = Some (of_int n)"
| "as_num (JFloat x) = Some x"
| "as_num _ = None"

text \<open>the same with booleans excluded\<close>

fun as_strict_num :: "json \<Rightarrow> rat option" where
  "as_strict_num (JInt n) = Some (of_int n)"
| "as_strict_num (JFloat x) = Some x"
| "as_strict_num _ = None"

text \<open>\<open>isinstance(v, int)\<close>\<close>

fun as_int :: "json \<Rightarrow> int option" where
  "as_int (JBool b) = Some (if b then 1 else 0)"
| "as_int (JInt n) = Some n"
| "as_int _ = None"

fun as_str :: "json \<Rightarrow> string option" where
  "as_str (JStr s) = Some s"
| "as_str _ = None"

fun as_list :: "json \<Rightarrow> json list option" where
  "as_list (JArr xs) = Some xs"
| "as_list _ = None"

fun as_obj :: "json \<Rightarrow> obj option" where
  "as_obj (JObj o1) = Some o1"
| "as_obj _ = None"

text \<open>\<open>==\<close> on parsed values: numbers compare by value across \<open>bool\<close>, \<open>int\<close> and \<open>float\<close>;
  dictionaries compare as maps.\<close>

fun py_eq :: "json \<Rightarrow> json \<Rightarrow> bool"
  and py_eq_list :: "json list \<Rightarrow> json list \<Rightarrow> bool"
  and py_eq_items :: "obj \<Rightarrow> obj \<Rightarrow> bool" where
  "py_eq JNull b = (b = JNull)"
| "py_eq (JStr s) b = (b = JStr s)"
| "py_eq (JBool x) b = (as_num b = Some (if x then 1 else 0))"
| "py_eq (JInt n) b = (as_num b = Some (of_int n))"
| "py_eq (JFloat x) b = (as_num b = Some x)"
| "py_eq (JArr xs) b = (case b of JArr ys \<Rightarrow> py_eq_list xs ys | _ \<Rightarrow> False)"
| "py_eq (JObj p) b = (case b of JObj q \<Rightarrow> length p = length q \<and> py_eq_items p q | _ \<Rightarrow> False)"
| "py_eq_list [] ys = (ys = [])"
| "py_eq_list (x # xs) ys = (case ys of [] \<Rightarrow> False | y # ys' \<Rightarrow> py_eq x y \<and> py_eq_list xs ys')"
| "py_eq_items [] q = True"
| "py_eq_items ((k, v) # p) q =
     (case map_of q k of None \<Rightarrow> False | Some w \<Rightarrow> py_eq v w \<and> py_eq_items p q)"

text \<open>\<open>v in xs\<close> for a list of values\<close>

definition py_in :: "json \<Rightarrow> json list \<Rightarrow> bool" where
  "py_in v xs \<longleftrightarrow> list_ex (\<lambda>x. py_eq x v) xs"

lemma jget_Nil [simp]: "jget [] k = JNull"
  by (simp add: jget_def)

lemma jget_Cons [simp]: "jget ((k', v) # o1) k = (if k = k' then v else jget o1 k)"
  by (simp add: jget_def)

lemma as_strict_num_as_num: "as_strict_num v = Some x \<Longrightarrow> as_num v = Some x"
  by (cases v) auto

lemma py_eq_str [simp]: "py_eq (JStr s) v \<longleftrightarrow> v = JStr s"
  by simp

section \<open>Rendering\<close>

text \<open>\<open>repr\<close> of parsed values. Floats print as the shortest decimal that the parser read;
  every number that came from JSON text has a finite decimal expansion, and seventeen decimals
  are enough for a double in the range \<open>[1e-4, 1e16)\<close>, where \<open>repr\<close> uses no exponent.\<close>

fun show_nat_rev :: "nat \<Rightarrow> nat \<Rightarrow> string" where
  "show_nat_rev 0 n = []"
| "show_nat_rev (Suc fuel) n =
     char_of (48 + n mod 10) # (if n < 10 then [] else show_nat_rev fuel (n div 10))"

definition show_nat :: "nat \<Rightarrow> string" where
  "show_nat n = rev (show_nat_rev (Suc n) n)"

definition show_int :: "int \<Rightarrow> string" where
  "show_int n = (if n < 0 then ''-'' @ show_nat (nat (- n)) else show_nat (nat n))"

fun show_frac :: "nat \<Rightarrow> rat \<Rightarrow> string" where
  "show_frac 0 x = []"
| "show_frac (Suc fuel) x =
     (let y = 10 * x; d = \<lfloor>y\<rfloor> in
      char_of (48 + nat d) # (if y = of_int d then [] else show_frac fuel (y - of_int d)))"

definition show_float :: "rat \<Rightarrow> string" where
  "show_float x =
     (let a = \<bar>x\<bar>; n = \<lfloor>a\<rfloor>
      in (if x < 0 then ''-'' else []) @ show_nat (nat n) @ ''.'' @ show_frac 17 (a - of_int n))"

fun esc_char :: "char \<Rightarrow> char \<Rightarrow> string" where
  "esc_char q c =
     (if c = q then [CHR 92, c] else if c = CHR 92 then [CHR 92, CHR 92]
      else if c = CHR 10 then [CHR 92, CHR ''n''] else if c = CHR 13 then [CHR 92, CHR ''r'']
      else if c = CHR 9 then [CHR 92, CHR ''t''] else [c])"

definition repr_str :: "string \<Rightarrow> string" where
  "repr_str s =
     (let q = (if CHR 39 \<in> set s \<and> CHR 34 \<notin> set s then CHR 34 else CHR 39)
      in [q] @ concat (map (esc_char q) s) @ [q])"

fun py_repr :: "json \<Rightarrow> string"
  and py_repr_list :: "json list \<Rightarrow> string list"
  and py_repr_items :: "obj \<Rightarrow> string list" where
  "py_repr JNull = ''None''"
| "py_repr (JBool b) = (if b then ''True'' else ''False'')"
| "py_repr (JInt n) = show_int n"
| "py_repr (JFloat x) = show_float x"
| "py_repr (JStr s) = repr_str s"
| "py_repr (JArr xs) = ''['' @ py_join '', '' (py_repr_list xs) @ '']''"
| "py_repr (JObj kvs) = ''{'' @ py_join '', '' (py_repr_items kvs) @ ''}''"
| "py_repr_list [] = []"
| "py_repr_list (x # xs) = py_repr x # py_repr_list xs"
| "py_repr_items [] = []"
| "py_repr_items ((k, v) # kvs) = (repr_str k @ '': '' @ py_repr v) # py_repr_items kvs"

text \<open>\<open>str(v)\<close>\<close>

fun py_str :: "json \<Rightarrow> string" where
  "py_str (JStr s) = s"
| "py_str v = py_repr v"

text \<open>\<open>json.dumps(v, ensure_ascii=False)\<close>, with \<open>sort_keys\<close> as the first argument\<close>

definition hex_digit :: "nat \<Rightarrow> char" where
  "hex_digit n = (if n < 10 then char_of (48 + n) else char_of (87 + n))"

fun json_esc_char :: "char \<Rightarrow> string" where
  "json_esc_char c =
     (if c = CHR 34 then [CHR 92, CHR 34] else if c = CHR 92 then [CHR 92, CHR 92]
      else if c = CHR 10 then [CHR 92, CHR ''n''] else if c = CHR 13 then [CHR 92, CHR ''r'']
      else if c = CHR 9 then [CHR 92, CHR ''t''] else if c = CHR 8 then [CHR 92, CHR ''b'']
      else if c = CHR 12 then [CHR 92, CHR ''f'']
      else if (of_char c :: nat) < 32 then
        [CHR 92] @ ''u00'' @ [hex_digit (of_char c div 16), hex_digit (of_char c mod 16)]
      else [c])"

definition json_str :: "string \<Rightarrow> string" where
  "json_str s = [CHR 34] @ concat (map json_esc_char s) @ [CHR 34]"

fun json_dumps :: "bool \<Rightarrow> json \<Rightarrow> string"
  and json_dumps_list :: "bool \<Rightarrow> json list \<Rightarrow> string list"
  and json_dumps_items :: "bool \<Rightarrow> obj \<Rightarrow> (string \<times> string) list" where
  "json_dumps srt JNull = ''null''"
| "json_dumps srt (JBool b) = (if b then ''true'' else ''false'')"
| "json_dumps srt (JInt n) = show_int n"
| "json_dumps srt (JFloat x) = show_float x"
| "json_dumps srt (JStr s) = json_str s"
| "json_dumps srt (JArr xs) = ''['' @ py_join '', '' (json_dumps_list srt xs) @ '']''"
| "json_dumps srt (JObj kvs) =
     ''{'' @ py_join '', '' (map (\<lambda>(k, v). json_str k @ '': '' @ v)
        (let items = json_dumps_items srt kvs in if srt then sort_key fst items else items)) @ ''}''"
| "json_dumps_list srt [] = []"
| "json_dumps_list srt (x # xs) = json_dumps srt x # json_dumps_list srt xs"
| "json_dumps_items srt [] = []"
| "json_dumps_items srt ((k, v) # kvs) = (k, json_dumps srt v) # json_dumps_items srt kvs"

section \<open>Digests\<close>

text \<open>The hash functions of the standard library the source calls, as parameters: \<open>hashlib.sha256\<close>
  with \<open>hexdigest\<close>, \<open>hmac.new(key, body, sha256)\<close> with \<open>hexdigest\<close>, and \<open>uuid.uuid5\<close> under the
  fixed namespace. Theorems that need more than "these are functions" name it.\<close>

record crypto =
  sha256_hex :: "string \<Rightarrow> string"
  hmac_sha256_hex :: "string \<Rightarrow> string \<Rightarrow> string"
  uuid5_str :: "string \<Rightarrow> string"

end
