(* ===== verification/Effects.thy ===== *)
theory Effects
  imports Prelude
begin

text \<open>
  Effectful operations: a function of the state that returns a value or raises, and the state
  afterwards. What an operation changed before it raised stays changed, as in Python.
  \<open>keeps\<close> is the reasoning tool: an operation moves the state along a preorder whatever its
  outcome; invariants and append-only properties are both of this form, and the locale
  \<open>step_order\<close> proves once that every control construct respects it.
\<close>

type_synonym ('s, 'e, 'a) eff = "'s \<Rightarrow> ('e + 'a) \<times> 's"

definition ret :: "'a \<Rightarrow> ('s, 'e, 'a) eff" where
  "ret a = (\<lambda>s. (Inr a, s))"

definition raise :: "'e \<Rightarrow> ('s, 'e, 'a) eff" where
  "raise e = (\<lambda>s. (Inl e, s))"

definition bind :: "('s, 'e, 'a) eff \<Rightarrow> ('a \<Rightarrow> ('s, 'e, 'b) eff) \<Rightarrow> ('s, 'e, 'b) eff" where
  "bind m f = (\<lambda>s. case m s of (Inl e, t) \<Rightarrow> (Inl e, t) | (Inr a, t) \<Rightarrow> f a t)"

definition andthen :: "('s, 'e, 'a) eff \<Rightarrow> ('s, 'e, 'b) eff \<Rightarrow> ('s, 'e, 'b) eff" where
  "andthen m n = bind m (\<lambda>_. n)"

text \<open>\<open>try: m except e: h e\<close> (a handler re-raises what it does not handle)\<close>

definition catch :: "('s, 'e, 'a) eff \<Rightarrow> ('e \<Rightarrow> ('s, 'e, 'a) eff) \<Rightarrow> ('s, 'e, 'a) eff" where
  "catch m h = (\<lambda>s. case m s of (Inl e, t) \<Rightarrow> h e t | (Inr a, t) \<Rightarrow> (Inr a, t))"

text \<open>\<open>try: m finally: f\<close>\<close>

definition finally_do :: "('s, 'e, 'a) eff \<Rightarrow> ('s, 'e, unit) eff \<Rightarrow> ('s, 'e, 'a) eff" where
  "finally_do m f = (\<lambda>s. case m s of (r, t) \<Rightarrow>
     (case f t of (Inl e, u) \<Rightarrow> (Inl e, u) | (Inr _, u) \<Rightarrow> (r, u)))"

definition gets :: "('s \<Rightarrow> 'a) \<Rightarrow> ('s, 'e, 'a) eff" where
  "gets f = (\<lambda>s. (Inr (f s), s))"

definition modify :: "('s \<Rightarrow> 's) \<Rightarrow> ('s, 'e, unit) eff" where
  "modify f = (\<lambda>s. (Inr (), f s))"

fun for_each :: "'a list \<Rightarrow> ('a \<Rightarrow> ('s, 'e, unit) eff) \<Rightarrow> ('s, 'e, unit) eff" where
  "for_each [] f = ret ()"
| "for_each (x # xs) f = andthen (f x) (for_each xs f)"

lemmas eff_defs = ret_def raise_def bind_def andthen_def catch_def finally_do_def gets_def modify_def

lemma ret_simp [simp]: "ret a s = (Inr a, s)" by (simp add: ret_def)
lemma raise_simp [simp]: "raise e s = (Inl e, s)" by (simp add: raise_def)
lemma gets_simp [simp]: "gets f s = (Inr (f s), s)" by (simp add: gets_def)
lemma modify_simp [simp]: "modify f s = (Inr (), f s)" by (simp add: modify_def)

lemma bind_Inr [simp]: "m s = (Inr a, t) \<Longrightarrow> bind m f s = f a t" by (simp add: bind_def)
lemma bind_Inl [simp]: "m s = (Inl e, t) \<Longrightarrow> bind m f s = (Inl e, t)" by (simp add: bind_def)
lemma andthen_Inr [simp]: "m s = (Inr a, t) \<Longrightarrow> andthen m n s = n t" by (simp add: andthen_def)
lemma andthen_Inl [simp]: "m s = (Inl e, t) \<Longrightarrow> andthen m n s = (Inl e, t)" by (simp add: andthen_def)
lemma catch_Inr [simp]: "m s = (Inr a, t) \<Longrightarrow> catch m h s = (Inr a, t)" by (simp add: catch_def)
lemma catch_Inl [simp]: "m s = (Inl e, t) \<Longrightarrow> catch m h s = h e t" by (simp add: catch_def)

lemma bind_apply: "bind m f s = (case m s of (Inl e, t) \<Rightarrow> (Inl e, t) | (Inr a, t) \<Rightarrow> f a t)"
  by (simp add: bind_def)

lemma bind_eq_Inr:
  "bind m f s = (Inr b, u) \<longleftrightarrow> (\<exists>a t. m s = (Inr a, t) \<and> f a t = (Inr b, u))"
  by (auto simp: bind_def split: prod.splits sum.splits)

lemma andthen_eq_Inr:
  "andthen m n s = (Inr b, u) \<longleftrightarrow> (\<exists>a t. m s = (Inr a, t) \<and> n t = (Inr b, u))"
  by (simp add: andthen_def bind_eq_Inr)

section \<open>Keeping a preorder\<close>

definition keeps :: "('s \<Rightarrow> 's \<Rightarrow> bool) \<Rightarrow> ('s, 'e, 'a) eff \<Rightarrow> bool" where
  "keeps R m \<longleftrightarrow> (\<forall>s. R s (snd (m s)))"

lemma keepsI: "(\<And>s. R s (snd (m s))) \<Longrightarrow> keeps R m"
  by (simp add: keeps_def)

lemma keepsD: "keeps R m \<Longrightarrow> m s = (r, t) \<Longrightarrow> R s t"
  by (metis keeps_def snd_conv)

locale step_order =
  fixes R :: "'s \<Rightarrow> 's \<Rightarrow> bool"
  assumes R_refl: "R s s"
    and R_trans: "R s t \<Longrightarrow> R t u \<Longrightarrow> R s u"
begin

lemma keeps_ret [simp]: "keeps R (ret a)" by (simp add: keeps_def R_refl)
lemma keeps_raise [simp]: "keeps R (raise e)" by (simp add: keeps_def R_refl)
lemma keeps_gets [simp]: "keeps R (gets f)" by (simp add: keeps_def R_refl)

lemma keeps_modify: "(\<And>s. R s (f s)) \<Longrightarrow> keeps R (modify f)"
  by (simp add: keeps_def)

lemma keeps_bind:
  assumes "keeps R m" and "\<And>a. keeps R (f a)"
  shows "keeps R (bind m f)"
proof (rule keepsI)
  fix s
  obtain r t where m: "m s = (r, t)" by (cases "m s")
  have "R s t" by (rule keepsD [OF assms(1) m])
  moreover have "R t (snd (f a t))" for a
    using assms(2) [of a] by (simp add: keeps_def)
  ultimately show "R s (snd (bind m f s))"
    by (cases r) (auto simp: m bind_def intro: R_trans)
qed

lemma keeps_andthen: "keeps R m \<Longrightarrow> keeps R n \<Longrightarrow> keeps R (andthen m n)"
  unfolding andthen_def by (rule keeps_bind)

lemma keeps_catch:
  assumes "keeps R m" and "\<And>e. keeps R (h e)"
  shows "keeps R (catch m h)"
proof (rule keepsI)
  fix s
  obtain r t where m: "m s = (r, t)" by (cases "m s")
  have "R s t" by (rule keepsD [OF assms(1) m])
  moreover have "R t (snd (h e t))" for e
    using assms(2) [of e] by (simp add: keeps_def)
  ultimately show "R s (snd (catch m h s))"
    by (cases r) (auto simp: m catch_def intro: R_trans)
qed

lemma keeps_finally:
  assumes "keeps R m" and "keeps R f"
  shows "keeps R (finally_do m f)"
proof (rule keepsI)
  fix s
  obtain r t where m: "m s = (r, t)" by (cases "m s")
  obtain q u where f: "f t = (q, u)" by (cases "f t")
  have "R s u" using keepsD [OF assms(1) m] keepsD [OF assms(2) f] by (rule R_trans)
  then show "R s (snd (finally_do m f s))"
    by (cases q) (auto simp: m f finally_do_def)
qed

lemma keeps_for_each:
  "(\<And>x. x \<in> set xs \<Longrightarrow> keeps R (f x)) \<Longrightarrow> keeps R (for_each xs f)"
  by (induction xs) (auto intro: keeps_andthen)

lemma keeps_if: "(b \<Longrightarrow> keeps R m) \<Longrightarrow> (\<not> b \<Longrightarrow> keeps R n) \<Longrightarrow> keeps R (if b then m else n)"
  by simp

lemma keeps_case_option:
  "(x = None \<Longrightarrow> keeps R m) \<Longrightarrow> (\<And>a. x = Some a \<Longrightarrow> keeps R (f a)) \<Longrightarrow>
     keeps R (case x of None \<Rightarrow> m | Some a \<Rightarrow> f a)"
  by (cases x) auto

lemmas keeps_intros = keeps_bind keeps_andthen keeps_catch keeps_finally keeps_for_each
  keeps_if keeps_case_option

end

end
