(* ===== verification/Errors.thy ===== *)
theory Errors
  imports Json Effects
begin

text \<open>
  Exceptions (\<open>app/core/errors.py\<close>, \<open>app/clients/exceptions.py\<close>) and the messages they carry.
  A message built by an f-string is \<open>Msg name args\<close>: the template's name and the values
  interpolated into it. \<open>Text s\<close> is text taken over verbatim, and \<open>Pref p m\<close> is
  \<open>f"{p}: {m}"\<close>, the shape the executor and the reconciler give to job errors.
\<close>

datatype msg = Text string | Msg string "json list" | Pref string msg

text \<open>\<open>m.startswith(f"{p}: ")\<close>. No template of the source starts with a step id and a colon.\<close>

fun msg_startswith :: "msg \<Rightarrow> string \<Rightarrow> bool" where
  "msg_startswith (Text s) p = py_startswith s (p @ '': '')"
| "msg_startswith (Msg t args) p = False"
| "msg_startswith (Pref q m) p = (q = p)"

datatype app_error_class =
    AppError
  | NotFoundError
  | ConflictError
  | ValidationError
  | BudgetExceededError
  | ModeNotAllowedError
  | ConfirmationRequiredError
  | WebhookVerificationError

fun class_status_code :: "app_error_class \<Rightarrow> int" where
  "class_status_code AppError = 400"
| "class_status_code NotFoundError = 404"
| "class_status_code ConflictError = 409"
| "class_status_code ValidationError = 422"
| "class_status_code BudgetExceededError = 409"
| "class_status_code ModeNotAllowedError = 409"
| "class_status_code ConfirmationRequiredError = 400"
| "class_status_code WebhookVerificationError = 401"

fun class_code :: "app_error_class \<Rightarrow> string" where
  "class_code AppError = ''app_error''"
| "class_code NotFoundError = ''not_found''"
| "class_code ConflictError = ''conflict''"
| "class_code ValidationError = ''validation_failed''"
| "class_code BudgetExceededError = ''budget_exceeded''"
| "class_code ModeNotAllowedError = ''mode_not_allowed''"
| "class_code ConfirmationRequiredError = ''confirmation_required''"
| "class_code WebhookVerificationError = ''invalid_signature''"

record app_error =
  ae_class :: app_error_class
  ae_message :: msg
  ae_details :: json
  ae_code :: string

text \<open>\<open>AppError.__init__\<close>: an explicit non-empty code replaces the class's.\<close>

definition new_app_error :: "app_error_class \<Rightarrow> msg \<Rightarrow> json \<Rightarrow> string option \<Rightarrow> app_error" where
  "new_app_error c m details code =
     \<lparr>ae_class = c, ae_message = m, ae_details = details,
      ae_code = (case code of Some (x # xs) \<Rightarrow> x # xs | _ \<Rightarrow> class_code c)\<rparr>"

section \<open>Upstream errors\<close>

record api_error =
  api_status_code :: int
  api_code :: string
  api_message :: string
  api_details :: json
  api_request_id :: json
  api_retry_after :: "rat option"

datatype vibe_error =
    VibeError msg
  | VibeNetworkError msg nat
  | VibeAPIError api_error
  | VibePollTimeoutError string rat

definition api_retryable :: "api_error \<Rightarrow> bool" where
  "api_retryable e \<longleftrightarrow> api_status_code e = 429 \<or> api_status_code e \<ge> 500"

fun retryable :: "vibe_error \<Rightarrow> bool" where
  "retryable (VibeError m) = False"
| "retryable (VibeNetworkError m n) = True"
| "retryable (VibeAPIError e) = api_retryable e"
| "retryable (VibePollTimeoutError g w) = False"

definition is_budget_related :: "api_error \<Rightarrow> bool" where
  "is_budget_related e \<longleftrightarrow>
     api_code e \<in> {''insufficient_balance'', ''daily_spend_limit_exceeded''} \<or> api_status_code e = 402"

text \<open>\<open>str(exc)\<close>\<close>

fun vibe_str :: "vibe_error \<Rightarrow> msg" where
  "vibe_str (VibeError m) = m"
| "vibe_str (VibeNetworkError m n) = m"
| "vibe_str (VibeAPIError e) =
     Msg ''[{status_code}/{code}] {message}'' [JInt (api_status_code e), JStr (api_code e), JStr (api_message e)]"
| "vibe_str (VibePollTimeoutError g w) =
     Msg ''generation {generation_id} not finished after {waited}s'' [JStr g, JFloat w]"

text \<open>Everything the modelled code can raise. \<open>Diverges\<close> is not an exception of the source:
  it marks a loop that would not end, and the theorems show where it cannot occur.\<close>

datatype exn =
    App app_error
  | Vibe vibe_error
  | ValueError msg
  | TypeError msg
  | IntegrityError msg
  | RuntimeError msg
  | AssertionFailed
  | Diverges

definition app_raise :: "app_error_class \<Rightarrow> msg \<Rightarrow> exn" where
  "app_raise c m = App (new_app_error c m JNull None)"

fun exn_str :: "exn \<Rightarrow> msg" where
  "exn_str (App e) = ae_message e"
| "exn_str (Vibe v) = vibe_str v"
| "exn_str (ValueError m) = m"
| "exn_str (TypeError m) = m"
| "exn_str (IntegrityError m) = m"
| "exn_str AssertionFailed = Text []"
| "exn_str Diverges = Text []"

definition is_budget_exceeded :: "exn \<Rightarrow> bool" where
  "is_budget_exceeded e = (case e of App a \<Rightarrow> ae_class a = BudgetExceededError | _ \<Rightarrow> False)"

lemma is_budget_exceeded_simps [simp]:
  "is_budget_exceeded (app_raise c m) = (c = BudgetExceededError)"
  "\<not> is_budget_exceeded (Vibe v)" "\<not> is_budget_exceeded (ValueError m)"
  "\<not> is_budget_exceeded (IntegrityError m)" "\<not> is_budget_exceeded Diverges"
  by (simp_all add: is_budget_exceeded_def app_raise_def new_app_error_def)

lemma app_raise_eq [simp]:
  "app_raise c m = app_raise c' m' \<longleftrightarrow> c = c' \<and> m = m'"
  by (auto simp: app_raise_def new_app_error_def)

text \<open>A code the caller gave wins, an empty one does not.\<close>

lemma new_app_error_code:
  "ae_code (new_app_error c m d (Some (x # xs))) = x # xs"
  "ae_code (new_app_error c m d None) = class_code c"
  "ae_code (new_app_error c m d (Some [])) = class_code c"
  by (simp_all add: new_app_error_def)

end
