(* ===== verification/Domain.thy ===== *)
theory Domain
  imports Errors
begin

text \<open>
  The persisted contract between planning and execution (\<open>app/domain/plan.py\<close>) and the two
  enumerations of \<open>app/domain/brief.py\<close>: enumerations as datatypes with their string values,
  pydantic models as records. Record fields carry a prefix for their record.
\<close>

section \<open>Enumerations\<close>

datatype content_format = TEXT | IMAGE | VOICE | VIDEO | MUSIC

fun format_value :: "content_format \<Rightarrow> string" where
  "format_value TEXT = ''text''"
| "format_value IMAGE = ''image''"
| "format_value VOICE = ''voice''"
| "format_value VIDEO = ''video''"
| "format_value MUSIC = ''music''"

lemma format_value_inj [simp]: "format_value f = format_value g \<longleftrightarrow> f = g"
  by (cases f; cases g) auto

text \<open>A \<open>StrEnum\<close> member compares as its value.\<close>

instantiation content_format :: linorder
begin

definition less_eq_content_format :: "content_format \<Rightarrow> content_format \<Rightarrow> bool" where
  "less_eq_content_format f g \<longleftrightarrow> format_value f \<le> format_value g"

definition less_content_format :: "content_format \<Rightarrow> content_format \<Rightarrow> bool" where
  "less_content_format f g \<longleftrightarrow> format_value f < format_value g"

instance
proof
  fix f g h :: content_format
  show "(f < g) = (f \<le> g \<and> \<not> g \<le> f)"
    unfolding less_eq_content_format_def less_content_format_def by (rule less_le_not_le)
  show "f \<le> f" by (simp add: less_eq_content_format_def)
  show "f \<le> g \<Longrightarrow> g \<le> h \<Longrightarrow> f \<le> h" by (auto simp: less_eq_content_format_def)
  show "f \<le> g \<Longrightarrow> g \<le> f \<Longrightarrow> f = g"
    using format_value_inj by (auto simp: less_eq_content_format_def)
  show "f \<le> g \<or> g \<le> f" by (auto simp: less_eq_content_format_def)
qed

end

datatype selection_strategy = CHEAPEST | BALANCED | QUALITY

datatype plan_status = PLAN_READY | PLAN_DEGRADED | PLAN_INFEASIBLE | PLAN_EXECUTED

fun plan_status_value :: "plan_status \<Rightarrow> string" where
  "plan_status_value PLAN_READY = ''ready''"
| "plan_status_value PLAN_DEGRADED = ''degraded''"
| "plan_status_value PLAN_INFEASIBLE = ''infeasible''"
| "plan_status_value PLAN_EXECUTED = ''executed''"

datatype step_kind = GENERATION | LOCAL

datatype step_status = STEP_PENDING | STEP_RUNNING | STEP_SUCCEEDED | STEP_FAILED | STEP_SKIPPED

fun step_status_value :: "step_status \<Rightarrow> string" where
  "step_status_value STEP_PENDING = ''pending''"
| "step_status_value STEP_RUNNING = ''running''"
| "step_status_value STEP_SUCCEEDED = ''succeeded''"
| "step_status_value STEP_FAILED = ''failed''"
| "step_status_value STEP_SKIPPED = ''skipped''"

datatype job_status =
    JOB_PENDING | JOB_QUEUED | JOB_RUNNING | JOB_SUCCEEDED | JOB_PARTIAL | JOB_FAILED | JOB_ABORTED

fun job_status_value :: "job_status \<Rightarrow> string" where
  "job_status_value JOB_PENDING = ''pending''"
| "job_status_value JOB_QUEUED = ''queued''"
| "job_status_value JOB_RUNNING = ''running''"
| "job_status_value JOB_SUCCEEDED = ''succeeded''"
| "job_status_value JOB_PARTIAL = ''partial''"
| "job_status_value JOB_FAILED = ''failed''"
| "job_status_value JOB_ABORTED = ''aborted''"

definition is_terminal :: "job_status \<Rightarrow> bool" where
  "is_terminal s \<longleftrightarrow> s \<in> {JOB_SUCCEEDED, JOB_PARTIAL, JOB_FAILED, JOB_ABORTED}"

definition is_active :: "job_status \<Rightarrow> bool" where
  "is_active s \<longleftrightarrow> s \<in> {JOB_QUEUED, JOB_RUNNING}"

lemma is_terminal_simps [simp]:
  "is_terminal JOB_SUCCEEDED" "is_terminal JOB_PARTIAL" "is_terminal JOB_FAILED"
  "is_terminal JOB_ABORTED" "\<not> is_terminal JOB_PENDING" "\<not> is_terminal JOB_QUEUED"
  "\<not> is_terminal JOB_RUNNING"
  by (simp_all add: is_terminal_def)

lemma is_active_simps [simp]:
  "is_active JOB_QUEUED" "is_active JOB_RUNNING" "\<not> is_active JOB_PENDING"
  "\<not> is_active JOB_SUCCEEDED" "\<not> is_active JOB_PARTIAL" "\<not> is_active JOB_FAILED"
  "\<not> is_active JOB_ABORTED"
  by (simp_all add: is_active_def)

section \<open>The brief\<close>

record brief =
  b_product_name :: string
  b_product_description :: string
  b_target_audience :: string
  b_offer :: string
  b_formats :: "content_format list"
  b_budget_rub :: money
  b_style :: string
  b_language :: string
  b_strategy :: selection_strategy
  b_aspect_ratio :: "string option"
  b_video_duration_seconds :: "int option"
  b_voiceover_script :: "string option"
  b_reference_image_urls :: "string list"
  b_landing_url :: "string option"
  b_text_max_tokens :: "int option"

section \<open>Plans\<close>

record rejected_candidate =
  rc_model :: string
  rc_reason :: msg

record plan_step =
  ps_step_id :: string
  ps_format :: content_format
  ps_kind :: step_kind
  ps_type :: "string option"
  ps_model :: "string option"
  ps_model_description :: string
  ps_params :: obj
  ps_idempotency_key :: string
  ps_estimated_cost_rub :: money
  ps_cost_source :: string
  ps_cost_basis :: msg
  ps_reason :: msg
  ps_rejected_alternatives :: "rejected_candidate list"
  ps_warnings :: "msg list"
  ps_local_output :: "string option"

definition opt_str :: "string option \<Rightarrow> json" where
  "opt_str x = (case x of None \<Rightarrow> JNull | Some s \<Rightarrow> JStr s)"

text \<open>\<open>PlanStep.generate_body\<close>: the parameters come after \<open>type\<close> and \<open>model\<close> and before
  \<open>strict\<close> and the key, so nothing in \<open>params\<close> can displace the last two.\<close>

definition generate_body :: "plan_step \<Rightarrow> string option \<Rightarrow> obj" where
  "generate_body s callback_url =
     (let base = dict_merge [(''type'', opt_str (ps_type s)), (''model'', opt_str (ps_model s))] (ps_params s);
          body = AList.update ''idempotency_key'' (JStr (ps_idempotency_key s))
                   (AList.update ''strict'' (JBool True) base)
      in case callback_url of
           Some (c # cs) \<Rightarrow> AList.update ''callback_url'' (JStr (c # cs)) body
         | _ \<Rightarrow> body)"

definition estimate_body :: "plan_step \<Rightarrow> obj" where
  "estimate_body s =
     AList.update ''strict'' (JBool True)
       (dict_merge [(''type'', opt_str (ps_type s)), (''model'', opt_str (ps_model s))] (ps_params s))"

record account =
  ac_balance_rub :: "money option"
  ac_daily_limit_rub :: "money option"
  ac_daily_spent_rub :: "money option"
  ac_source :: string

definition daily_remaining_rub :: "account \<Rightarrow> money option" where
  "daily_remaining_rub a =
     (case ac_daily_limit_rub a of None \<Rightarrow> None
      | Some limit \<Rightarrow> Some (max 0 (limit - (case ac_daily_spent_rub a of None \<Rightarrow> 0 | Some d \<Rightarrow> d))))"

record plan =
  p_plan_id :: string
  p_created_at :: time
  p_mode :: string
  p_status :: plan_status
  p_brief :: brief
  p_budget_rub :: money
  p_safety_margin_rub :: money
  p_spendable_rub :: money
  p_total_estimated_rub :: money
  p_steps :: "plan_step list"
  p_warnings :: "msg list"
  p_account :: account
  p_job_id :: "string option"
  p_capabilities_fingerprint :: string

definition plan_budget_remaining_rub :: "plan \<Rightarrow> money" where
  "plan_budget_remaining_rub p = round4 (p_budget_rub p - p_total_estimated_rub p)"

definition billable_steps :: "plan \<Rightarrow> plan_step list" where
  "billable_steps p = filter (\<lambda>s. ps_kind s = GENERATION) (p_steps p)"

section \<open>Jobs\<close>

record job_step =
  js_step_id :: string
  js_format :: content_format
  js_kind :: step_kind
  js_type :: "string option"
  js_model :: "string option"
  js_status :: step_status
  js_idempotency_key :: string
  js_generation_id :: "int option"
  js_task_id :: json
  js_is_long_voiceover :: bool
  js_estimated_cost_rub :: money
  js_actual_cost_rub :: money
  js_refunded :: bool
  js_result_url :: json
  js_display_url :: json
  js_local_output :: "string option"
  js_text_output :: "string option"
  js_error :: "msg option"
  js_attempts :: nat
  js_started_at :: "time option"
  js_finished_at :: "time option"

record job =
  j_job_id :: string
  j_plan_id :: string
  j_mode :: string
  j_status :: job_status
  j_budget_rub :: money
  j_estimated_cost_rub :: money
  j_actual_cost_rub :: money
  j_steps :: "job_step list"
  j_warnings :: "msg list"
  j_errors :: "msg list"
  j_created_at :: time
  j_started_at :: "time option"
  j_finished_at :: "time option"

text \<open>The zero instant is falsy nowhere: \<open>started_at and finished_at\<close> only tests for \<open>None\<close>.\<close>

definition duration_between :: "time option \<Rightarrow> time option \<Rightarrow> time option" where
  "duration_between a b = (case (a, b) of (Some x, Some y) \<Rightarrow> Some (py_round 3 (y - x)) | _ \<Rightarrow> None)"

definition js_duration_seconds :: "job_step \<Rightarrow> time option" where
  "js_duration_seconds s = duration_between (js_started_at s) (js_finished_at s)"

definition j_duration_seconds :: "job \<Rightarrow> time option" where
  "j_duration_seconds j = duration_between (j_started_at j) (j_finished_at j)"

definition job_budget_remaining_rub :: "job \<Rightarrow> money" where
  "job_budget_remaining_rub j = round4 (j_budget_rub j - j_actual_cost_rub j)"

text \<open>\<open>round(sum(s.actual_cost_rub for s in job.steps), 4)\<close>\<close>

definition steps_actual_cost :: "job_step list \<Rightarrow> money" where
  "steps_actual_cost ss = round4 (sum_list (map js_actual_cost_rub ss))"

definition steps_estimated_cost :: "plan_step list \<Rightarrow> money" where
  "steps_estimated_cost ss = round4 (sum_list (map ps_estimated_cost_rub ss))"

section \<open>Facts about bodies and accounts\<close>

lemma generate_body_strict: "map_of (generate_body s cb) ''strict'' = Some (JBool True)"
  by (auto simp: generate_body_def Let_def AList.update_conv' split: option.splits list.splits)

lemma generate_body_key:
  "map_of (generate_body s cb) ''idempotency_key'' = Some (JStr (ps_idempotency_key s))"
  by (auto simp: generate_body_def Let_def AList.update_conv' split: option.splits list.splits)

lemma estimate_body_strict: "map_of (estimate_body s) ''strict'' = Some (JBool True)"
  by (simp add: estimate_body_def AList.update_conv')

lemma estimate_generate_body:
  assumes "k \<notin> {''idempotency_key'', ''callback_url''}"
  shows "map_of (generate_body s cb) k = map_of (estimate_body s) k"
  using assms
  by (auto simp: generate_body_def estimate_body_def Let_def AList.update_conv'
      split: option.splits list.splits)

lemma daily_remaining_nonneg: "daily_remaining_rub a = Some x \<Longrightarrow> 0 \<le> x"
  by (auto simp: daily_remaining_rub_def split: option.splits)

end
