(* ===== verification/Brief.thy ===== *)
theory Brief
  imports Domain
begin

text \<open>
  Validation of a brief (\<open>class Brief\<close> in \<open>app/domain/brief.py\<close>): the field constraints, the
  validator that removes repeated formats, and the model validator that strips two fields
  after the constraints were checked.
\<close>

definition length_between :: "nat \<Rightarrow> nat \<Rightarrow> string \<Rightarrow> bool" where
  "length_between lo hi s \<longleftrightarrow> lo \<le> py_len s \<and> py_len s \<le> hi"

definition opt_all :: "('a \<Rightarrow> bool) \<Rightarrow> 'a option \<Rightarrow> bool" where
  "opt_all P x = (case x of None \<Rightarrow> True | Some a \<Rightarrow> P a)"

text \<open>\<open>_dedupe_formats\<close>\<close>

fun dedupe_loop :: "content_format list \<Rightarrow> content_format list \<Rightarrow> content_format list" where
  "dedupe_loop seen [] = seen"
| "dedupe_loop seen (f # fs) = dedupe_loop (if f \<in> set seen then seen else seen @ [f]) fs"

definition dedupe_formats :: "content_format list \<Rightarrow> content_format list" where
  "dedupe_formats = dedupe_loop []"

definition brief_fields_ok :: "brief \<Rightarrow> bool" where
  "brief_fields_ok b \<longleftrightarrow>
     length_between 1 200 (b_product_name b) \<and>
     length_between 1 4000 (b_product_description b) \<and>
     length_between 1 1000 (b_target_audience b) \<and>
     length_between 1 1000 (b_offer b) \<and>
     b_formats b \<noteq> [] \<and>
     0 < b_budget_rub b \<and>
     py_len (b_style b) \<le> 1000 \<and>
     py_len (b_language b) \<le> 8 \<and>
     opt_all (\<lambda>d. 1 \<le> d \<and> d \<le> 30) (b_video_duration_seconds b) \<and>
     opt_all (\<lambda>s. py_len s \<le> 20000) (b_voiceover_script b) \<and>
     length (b_reference_image_urls b) \<le> 7 \<and>
     opt_all (\<lambda>n. 100 \<le> n \<and> n \<le> 8000) (b_text_max_tokens b)"

definition validate_brief :: "brief \<Rightarrow> brief option" where
  "validate_brief b =
     (if brief_fields_ok b then
        Some (b\<lparr>b_formats := dedupe_formats (b_formats b),
                b_product_name := py_strip (b_product_name b),
                b_offer := py_strip (b_offer b)\<rparr>)
      else None)"

lemma distinct_dedupe_loop: "distinct seen \<Longrightarrow> distinct (dedupe_loop seen fs)"
  by (induction seen fs rule: dedupe_loop.induct) auto

lemma set_dedupe_loop: "set (dedupe_loop seen fs) = set seen \<union> set fs"
  by (induction seen fs rule: dedupe_loop.induct) auto

lemma distinct_dedupe [simp]: "distinct (dedupe_formats fs)"
  by (simp add: dedupe_formats_def distinct_dedupe_loop)

lemma set_dedupe [simp]: "set (dedupe_formats fs) = set fs"
  by (simp add: dedupe_formats_def set_dedupe_loop)

lemma dedupe_loop_distinct:
  "distinct (seen @ fs) \<Longrightarrow> dedupe_loop seen fs = seen @ fs"
  by (induction fs arbitrary: seen) auto

lemma dedupe_idem [simp]: "dedupe_formats (dedupe_formats fs) = dedupe_formats fs"
  using dedupe_loop_distinct [of "[]" "dedupe_formats fs"] by (simp add: dedupe_formats_def [symmetric])

lemma validate_brief_formats:
  assumes "validate_brief b = Some c"
  shows "distinct (b_formats c)" "set (b_formats c) = set (b_formats b)" "b_formats c \<noteq> []"
    "0 < b_budget_rub c"
proof -
  have ok: "brief_fields_ok b" and c: "b_formats c = dedupe_formats (b_formats b)"
      "b_budget_rub c = b_budget_rub b"
    using assms by (auto simp: validate_brief_def split: if_splits)
  then show "distinct (b_formats c)" "set (b_formats c) = set (b_formats b)" by simp_all
  from ok have "b_formats b \<noteq> []" by (simp add: brief_fields_ok_def)
  then show "b_formats c \<noteq> []" using c by (metis set_dedupe set_empty)
  show "0 < b_budget_rub c" using ok c by (simp add: brief_fields_ok_def)
qed

end
