(* ===== verification/Capabilities.thy ===== *)
theory Capabilities
  imports Domain
begin

text \<open>
  The typed view over \<open>GET /capabilities\<close> and the price bounds derived from it
  (\<open>app/domain/capabilities.py\<close>). Parsing never fails: a value of the wrong shape is dropped.
\<close>

section \<open>Model specifications\<close>

record model_spec =
  m_key :: string
  m_type :: string
  m_price :: "money option"
  m_description :: string
  m_required :: "string list"
  m_optional :: "string list"
  m_enums :: obj
  m_limits :: obj
  m_tier_prices :: "(string, money) dict"
  m_per_second :: "money option"
  m_price_formula :: json
  m_preserves_input :: json
  m_voices :: "string list"
  m_note :: string
  m_hint :: string
  m_raw :: obj

text \<open>A Python set of names is a list without repetition; the source only tests membership in it
  and iterates it sorted.\<close>

definition known_params :: "model_spec \<Rightarrow> string list" where
  "known_params m = remdups (m_required m @ m_optional m)"

definition is_token_billed :: "model_spec \<Rightarrow> bool" where
  "is_token_billed m \<longleftrightarrow>
     m_price m = None \<and> m_per_second m = None \<and> m_tier_prices m = [] \<and>
     ''max_tokens'' \<in> set (known_params m)"

text \<open>\<open>int(x)\<close> of a number: towards zero\<close>

definition py_int :: "rat \<Rightarrow> int" where
  "py_int x = (if x < 0 then \<lceil>x\<rceil> else \<lfloor>x\<rfloor>)"

definition int_limit :: "model_spec \<Rightarrow> string \<Rightarrow> int option" where
  "int_limit m k = map_option py_int (as_num (jget (m_limits m) k))"

definition prompt_max :: "model_spec \<Rightarrow> int option" where
  "prompt_max m = int_limit m ''prompt_max''"

definition long_voiceover_prompt_max :: "model_spec \<Rightarrow> int option" where
  "long_voiceover_prompt_max m = int_limit m ''long_voiceover_prompt_max''"

definition or_zero :: "int option \<Rightarrow> int" where
  "or_zero x = (case x of None \<Rightarrow> 0 | Some n \<Rightarrow> n)"

definition supports_long_voiceover :: "model_spec \<Rightarrow> bool" where
  "supports_long_voiceover m =
     (case long_voiceover_prompt_max m of None \<Rightarrow> False | Some l \<Rightarrow> l > or_zero (prompt_max m))"

definition effective_prompt_max :: "model_spec \<Rightarrow> int option" where
  "effective_prompt_max m =
     (let limits = concat (map (\<lambda>v. case v of Some n \<Rightarrow> if n \<noteq> 0 then [n] else [] | None \<Rightarrow> [])
                     [prompt_max m, long_voiceover_prompt_max m])
      in case limits of [] \<Rightarrow> None | n # ns \<Rightarrow> Some (fold max ns n))"

definition missing_required :: "model_spec \<Rightarrow> string list \<Rightarrow> string list" where
  "missing_required m available = filter (\<lambda>p. p \<notin> set available) (m_required m)"

definition allowed_values :: "model_spec \<Rightarrow> string \<Rightarrow> json list option" where
  "allowed_values m param =
     (case jget (m_enums m) param of JArr (x # xs) \<Rightarrow> Some (x # xs) | _ \<Rightarrow> None)"

section \<open>Duration limits\<close>

text \<open>The regular expression \<open>(\d+(?:\.\d+)?)\s*-\s*(\d+(?:\.\d+)?)\<close>: a number, a dash, a
  number. Shortening a greedy number never lets the rest match, so no backtracking is needed.\<close>

definition frac_val :: "string \<Rightarrow> rat" where
  "frac_val ds = of_nat (digits_val ds) / 10 ^ length ds"

definition scan_number :: "string \<Rightarrow> (rat \<times> string) option" where
  "scan_number s =
     (let ds = takeWhile is_digit s; r = dropWhile is_digit s
      in if ds = [] then None
         else case r of
           c # r' \<Rightarrow>
             (let fs = takeWhile is_digit r'
              in if c = CHR ''.'' \<and> fs \<noteq> []
                 then Some (of_nat (digits_val ds) + frac_val fs, dropWhile is_digit r')
                 else Some (of_nat (digits_val ds), r))
         | [] \<Rightarrow> Some (of_nat (digits_val ds), []))"

definition match_range :: "string \<Rightarrow> (rat \<times> rat) option" where
  "match_range s =
     (case scan_number s of
        None \<Rightarrow> None
      | Some (a, r) \<Rightarrow>
         (case py_lstrip r of
            c # r' \<Rightarrow> if c = CHR ''-'' then map_option (\<lambda>(b, _). (a, b)) (scan_number (py_lstrip r')) else None
          | [] \<Rightarrow> None))"

fun search_range :: "string \<Rightarrow> (rat \<times> rat) option" where
  "search_range [] = None"
| "search_range (c # cs) =
     (case match_range (c # cs) of Some r \<Rightarrow> Some r | None \<Rightarrow> search_range cs)"

definition numbers_of :: "json list \<Rightarrow> rat list" where
  "numbers_of vs = List.map_filter as_num vs"

definition duration_bounds :: "model_spec \<Rightarrow> (rat \<times> rat) option" where
  "duration_bounds m =
     (let numeric = (case allowed_values m ''duration'' of None \<Rightarrow> [] | Some vs \<Rightarrow> numbers_of vs);
          raw = jget (m_limits m) ''duration'';
          by_range = (case raw of JStr s \<Rightarrow> search_range s | _ \<Rightarrow> None)
      in case numeric of
           x # xs \<Rightarrow> Some (fold min xs x, fold max xs x)
         | [] \<Rightarrow>
        (case by_range of
           Some r \<Rightarrow> Some r
         | None \<Rightarrow>
        (case as_num raw of
           Some hi \<Rightarrow> Some (1, hi)
         | None \<Rightarrow>
        (case as_num (jget (m_limits m) ''video_duration_max'') of
           Some hi \<Rightarrow>
             Some (case as_num (jget (m_limits m) ''video_duration_min'') of Some lo \<Rightarrow> lo | None \<Rightarrow> 1, hi)
         | None \<Rightarrow> None))))"

section \<open>Parsing\<close>

definition str_seq :: "obj \<Rightarrow> string \<Rightarrow> string list" where
  "str_seq payload name = (case jget payload name of JArr vs \<Rightarrow> map py_str vs | _ \<Rightarrow> [])"

definition sub_obj :: "obj \<Rightarrow> string \<Rightarrow> obj" where
  "sub_obj payload name = (case jget payload name of JObj o1 \<Rightarrow> o1 | _ \<Rightarrow> [])"

definition or_empty_str :: "obj \<Rightarrow> string \<Rightarrow> string" where
  "or_empty_str payload name = py_str (j_or (jget payload name) (JStr []))"

definition parse_tier_prices :: "json \<Rightarrow> (string, money) dict" where
  "parse_tier_prices v =
     (case v of
        JObj items \<Rightarrow> List.map_filter (\<lambda>(k, x). map_option (\<lambda>n. (k, n)) (as_num x)) items
      | _ \<Rightarrow> [])"

definition parse_model :: "string \<Rightarrow> string \<Rightarrow> obj \<Rightarrow> model_spec" where
  "parse_model key ty payload =
     \<lparr>m_key = key, m_type = ty, m_price = as_num (jget payload ''price''),
      m_description = or_empty_str payload ''description'',
      m_required = str_seq payload ''required'', m_optional = str_seq payload ''optional'',
      m_enums = sub_obj payload ''enums'', m_limits = sub_obj payload ''limits'',
      m_tier_prices = parse_tier_prices (jget payload ''tier_prices''),
      m_per_second = as_num (jget payload ''per_second''),
      m_price_formula = jget payload ''price_formula'',
      m_preserves_input = jget payload ''preserves_input'',
      m_voices = str_seq payload ''voices'', m_note = or_empty_str payload ''note'',
      m_hint = or_empty_str payload ''hint'', m_raw = payload\<rparr>"

record capabilities =
  cap_types :: "string list"
  cap_models_by_type :: "(string, (string, model_spec) dict) dict"
  cap_endpoints :: obj
  cap_features :: obj
  cap_raw :: obj

definition parse_entries :: "string \<Rightarrow> obj \<Rightarrow> (string, model_spec) dict" where
  "parse_entries ty entries =
     List.map_filter (\<lambda>(key, spec). case spec of JObj o1 \<Rightarrow> Some (key, parse_model key ty o1) | _ \<Rightarrow> None) entries"

definition parse_capabilities :: "obj \<Rightarrow> capabilities" where
  "parse_capabilities payload =
     (let models =
            (case jget payload ''models'' of
               JObj items \<Rightarrow>
                 List.map_filter (\<lambda>(ty, entries).
                   case entries of JObj o1 \<Rightarrow> Some (ty, parse_entries ty o1) | _ \<Rightarrow> None) items
             | _ \<Rightarrow> [])
      in \<lparr>cap_types = (case jget payload ''types'' of JArr ts \<Rightarrow> map py_str ts | _ \<Rightarrow> map fst models),
          cap_models_by_type = models,
          cap_endpoints = sub_obj payload ''endpoints'', cap_features = sub_obj payload ''features'',
          cap_raw = payload\<rparr>)"

definition entries_of :: "capabilities \<Rightarrow> string \<Rightarrow> (string, model_spec) dict" where
  "entries_of c ty = (case map_of (cap_models_by_type c) ty of None \<Rightarrow> [] | Some es \<Rightarrow> es)"

text \<open>\<open>[entries[key] for key in sorted(entries)]\<close>\<close>

definition models_for :: "capabilities \<Rightarrow> string \<Rightarrow> model_spec list" where
  "models_for c ty = map snd (sort_key fst (entries_of c ty))"

definition cap_get :: "capabilities \<Rightarrow> string \<Rightarrow> string \<Rightarrow> model_spec option" where
  "cap_get c ty key = map_of (entries_of c ty) key"

definition has_models_for :: "capabilities \<Rightarrow> string \<Rightarrow> bool" where
  "has_models_for c ty \<longleftrightarrow> entries_of c ty \<noteq> []"

section \<open>Price bounds\<close>

text \<open>\<open>PriceBounds\<close>. The amounts are \<open>None\<close> exactly where the source stores infinity for both and
  \<open>known=False\<close>.\<close>

record price_bounds =
  pb_amounts :: "(money \<times> money) option" \<comment> \<open>indicative and upper\<close>
  pb_basis :: msg

definition pb_known :: "price_bounds \<Rightarrow> bool" where
  "pb_known b \<longleftrightarrow> pb_amounts b \<noteq> None"

definition pb_indicative :: "price_bounds \<Rightarrow> money" where
  "pb_indicative b = (case pb_amounts b of Some (i, u) \<Rightarrow> i | None \<Rightarrow> 0)"

definition pb_upper :: "price_bounds \<Rightarrow> money" where
  "pb_upper b = (case pb_amounts b of Some (i, u) \<Rightarrow> u | None \<Rightarrow> 0)"

definition per_second_bounds :: "model_spec \<Rightarrow> money \<Rightarrow> obj \<Rightarrow> price_bounds" where
  "per_second_bounds m per_second params =
     (let duration = j_or (jget params ''video_duration'') (jget params ''duration'');
          (lo, hi) = (case duration_bounds m of Some b \<Rightarrow> b | None \<Rightarrow> (3, 30));
          seconds = max lo (min (case as_num duration of Some d \<Rightarrow> d | None \<Rightarrow> hi) hi);
          cost = of_int \<lceil>seconds\<rceil> * per_second;
          worst = of_int \<lceil>hi\<rceil> * per_second
      in \<lparr>pb_amounts = Some (cost, max cost (if duration = JNull then worst else cost)),
          pb_basis = Msg ''per_second'' [JFloat per_second, JInt \<lceil>seconds\<rceil>, m_price_formula m]\<rparr>)"

definition voice_chunks :: "string \<Rightarrow> int" where
  "voice_chunks prompt =
     (if prompt = [] then 1 else max 1 \<lceil>(of_nat (py_len prompt) / 1000 :: rat)\<rceil>)"

text \<open>\<open>if x:\<close> on an optional number\<close>

definition nonzero :: "rat option \<Rightarrow> rat option" where
  "nonzero x = (case x of Some r \<Rightarrow> if r = 0 then None else Some r | None \<Rightarrow> None)"

definition price_bounds_of :: "model_spec \<Rightarrow> obj \<Rightarrow> string list \<Rightarrow> price_bounds" where
  "price_bounds_of m params per_1000_chars_types =
     (case nonzero (m_per_second m) of
        Some r \<Rightarrow> per_second_bounds m r params
      | None \<Rightarrow>
     (case map snd (m_tier_prices m) of
        t # ts \<Rightarrow>
          (let worst = fold max ts t;
               base = (case m_price m of Some p \<Rightarrow> p | None \<Rightarrow> worst)
           in \<lparr>pb_amounts = Some (base, max base worst),
               pb_basis = Msg ''tier_prices'' [JFloat base, JFloat worst]\<rparr>)
      | [] \<Rightarrow>
     (case m_price m of
        None \<Rightarrow>
          \<lparr>pb_amounts = None,
           pb_basis = (if is_token_billed m then Msg ''token_billed'' [] else Msg ''price_not_published'' [])\<rparr>
      | Some price \<Rightarrow>
          if m_type m \<in> set per_1000_chars_types then
            (let prompt = py_str (j_or (jget params ''prompt'') (JStr []));
                 chunks = voice_chunks prompt;
                 cost = price * of_int chunks
             in \<lparr>pb_amounts = Some (cost, cost),
                 pb_basis = Msg ''per_1000_chars'' [JFloat price, JInt chunks, JInt (int (py_len prompt))]\<rparr>)
          else \<lparr>pb_amounts = Some (price, price), pb_basis = Msg ''flat_price'' [JFloat price]\<rparr>)))"

section \<open>Facts\<close>

lemma fold_max_ge: "(x :: 'a :: linorder) \<le> fold max xs x" "y \<in> set xs \<Longrightarrow> y \<le> fold max xs x"
proof -
  have "x \<le> fold max xs x \<and> (\<forall>y \<in> set xs. y \<le> fold max xs x)" for x
    by (induction xs arbitrary: x) (auto, meson max.cobounded2 max.boundedE order_trans, meson max.cobounded1 max.boundedE order_trans)
  then show "x \<le> fold max xs x" "y \<in> set xs \<Longrightarrow> y \<le> fold max xs x" by blast+
qed

lemma fold_max_in: "fold max xs (x :: 'a :: linorder) \<in> insert x (set xs)"
  by (induction xs arbitrary: x) (auto simp: max_def)

lemma fold_min_le_max: "fold min xs (x :: 'a :: linorder) \<le> fold max xs x"
proof -
  have "fold min xs a \<le> a" for a
  proof (induction xs arbitrary: a)
    case (Cons x xs)
    show ?case using Cons [of "min x a"] by (auto intro: order_trans)
  qed simp
  then show ?thesis using fold_max_ge(1) order_trans by blast
qed

text \<open>The upper bound is never below the indicative price, whatever the catalog says.\<close>

lemma per_second_upper:
  "pb_amounts (per_second_bounds m r params) = Some (i, u) \<Longrightarrow> i \<le> u"
  by (auto simp: per_second_bounds_def Let_def case_prod_beta)

lemma price_bounds_upper:
  assumes "pb_amounts (price_bounds_of m params ts) = Some (i, u)"
  shows "i \<le> u"
proof (cases "nonzero (m_per_second m)")
  case None
  with assms show ?thesis
    by (cases "map snd (m_tier_prices m)"; cases "m_price m")
       (auto simp: price_bounds_of_def Let_def split: if_splits)
next
  case (Some r)
  with assms show ?thesis by (auto simp: price_bounds_of_def intro: per_second_upper)
qed

text \<open>The number of started thousands.\<close>

lemma voice_chunks_bounds:
  "1 \<le> voice_chunks p" "int (py_len p) \<le> 1000 * voice_chunks p"
  "p \<noteq> [] \<Longrightarrow> 1000 * (voice_chunks p - 1) < int (py_len p)"
proof -
  define c where "c = \<lceil>(of_nat (py_len p) / 1000 :: rat)\<rceil>"
  have "of_nat (py_len p) / 1000 \<le> (of_int c :: rat)" "of_int c - 1 < (of_nat (py_len p) / 1000 :: rat)"
    using ceiling_correct [of "of_nat (py_len p) / 1000 :: rat"] by (simp_all only: c_def)
  then have "(of_int (int (py_len p)) :: rat) \<le> of_int (1000 * c)"
    and "(of_int (1000 * (c - 1)) :: rat) < of_int (int (py_len p))"
    by (simp_all add: field_simps)
  then have i: "int (py_len p) \<le> 1000 * c" "1000 * (c - 1) < int (py_len p)"
    unfolding of_int_le_iff of_int_less_iff .
  have v: "voice_chunks p = (if p = [] then 1 else max 1 c)" by (simp add: voice_chunks_def c_def)
  show "1 \<le> voice_chunks p" by (simp add: v)
  show "int (py_len p) \<le> 1000 * voice_chunks p" using i by (auto simp: v)
  assume "p \<noteq> []"
  then have "0 < py_len p" using py_len_0 [of p] by linarith
  then have "1 \<le> c" using i(1) by linarith
  with \<open>p \<noteq> []\<close> i(2) show "1000 * (voice_chunks p - 1) < int (py_len p)" by (simp add: v)
qed

lemma known_params_set: "set (known_params m) = set (m_required m) \<union> set (m_optional m)"
  by (simp add: known_params_def)

lemma models_for_set: "m \<in> set (models_for c ty) \<longleftrightarrow> m \<in> snd ` set (entries_of c ty)"
  by (simp add: models_for_def)

lemma missing_required_iff: "missing_required m av = [] \<longleftrightarrow> set (m_required m) \<subseteq> set av"
  by (auto simp: missing_required_def filter_empty_conv)

end
