(* ===== verification/Policy.thy ===== *)
theory Policy
  imports Domain
begin

text \<open>
  The model-selection policy (\<open>app/domain/policy.py\<close>): the built-in table, its JSON override,
  quality tiers, exclusions and the priority of formats. Patterns are matched by
  \<open>fnmatch\<close> of the standard library, which is modelled here as the source uses it: on POSIX,
  with \<open>*\<close>, \<open>?\<close> and character sets.
\<close>

section \<open>fnmatch\<close>

datatype fn_tok = FStar | FAny | FLit string | FSet bool "(string \<times> string) list"

text \<open>The items of a character set: ranges \<open>x-z\<close> and single characters. A range with its ends
  in the wrong order is empty.\<close>

fun set_items :: "string list \<Rightarrow> (string \<times> string) list" where
  "set_items [] = []"
| "set_items (x # y # z # r) =
     (if y = ''-'' then (x, z) # set_items r else (x, x) # set_items (y # z # r))"
| "set_items (x # r) = (x, x) # set_items r"

text \<open>What follows an opening bracket: a leading \<open>!\<close> negates, a closing bracket in first
  position is an item, and without a closing bracket the opening one is a literal.\<close>

definition bracket :: "string list \<Rightarrow> (fn_tok \<times> string list) option" where
  "bracket rest =
     (let neg = (case rest of x # _ \<Rightarrow> x = ''!'' | [] \<Rightarrow> False);
          r1 = (if neg then tl rest else rest);
          closing = (case r1 of x # _ \<Rightarrow> x = '']'' | [] \<Rightarrow> False);
          pre = (if closing then ['']''] else []);
          r2 = (if closing then tl r1 else r1);
          body = takeWhile (\<lambda>x. x \<noteq> '']'') r2
      in case dropWhile (\<lambda>x. x \<noteq> '']'') r2 of
           [] \<Rightarrow> None
         | _ # tail \<Rightarrow> Some (FSet neg (set_items (pre @ body)), tail))"

lemma length_dropWhile_Cons: "dropWhile P xs = y # ys \<Longrightarrow> length ys < length xs"
  by (metis length_Cons length_dropWhile_le less_le_trans lessI)

lemma bracket_shorter: "bracket rest = Some (t, tail) \<Longrightarrow> length tail < length rest"
  by (fastforce simp: bracket_def Let_def split: list.splits if_splits dest: length_dropWhile_Cons)

function fn_tokens :: "string list \<Rightarrow> fn_tok list" where
  "fn_tokens [] = []"
| "fn_tokens (c # cs) =
     (if c = ''*'' then FStar # fn_tokens cs
      else if c = ''?'' then FAny # fn_tokens cs
      else if c = ''['' then
        (case bracket cs of
           None \<Rightarrow> FLit c # fn_tokens cs
         | Some (t, tail) \<Rightarrow> t # fn_tokens tail)
      else FLit c # fn_tokens cs)"
  by pat_completeness auto
termination
  by (relation "measure length") (auto dest: bracket_shorter)

fun tok_accepts :: "fn_tok \<Rightarrow> string \<Rightarrow> bool" where
  "tok_accepts FStar c = False"
| "tok_accepts FAny c = True"
| "tok_accepts (FLit d) c = (c = d)"
| "tok_accepts (FSet neg items) c = (list_ex (\<lambda>(lo, hi). lo \<le> c \<and> c \<le> hi) items \<noteq> neg)"

fun fn_match :: "fn_tok list \<Rightarrow> string list \<Rightarrow> bool" where
  "fn_match [] s = (s = [])"
| "fn_match (FStar # p) [] = fn_match p []"
| "fn_match (FStar # p) (c # s) = (fn_match p (c # s) \<or> fn_match (FStar # p) s)"
| "fn_match (t # p) [] = False"
| "fn_match (t # p) (c # s) = (tok_accepts t c \<and> fn_match p s)"

definition fnmatch :: "string \<Rightarrow> string \<Rightarrow> bool" where
  "fnmatch name pat = fn_match (fn_tokens (py_chars pat)) (py_chars name)"

text \<open>A pattern without special characters matches itself only, and \<open>*\<close> before or after such a
  pattern matches by suffix or prefix.\<close>

definition plain_pattern :: "string list \<Rightarrow> bool" where
  "plain_pattern p \<longleftrightarrow> list_all (\<lambda>c. c \<noteq> ''*'' \<and> c \<noteq> ''?'' \<and> c \<noteq> ''['') p"

lemma fn_tokens_plain: "plain_pattern p \<Longrightarrow> fn_tokens p = map FLit p"
  by (induction p) (auto simp: plain_pattern_def)

lemma fn_tokens_plain_append:
  "plain_pattern p \<Longrightarrow> fn_tokens (p @ q) = map FLit p @ fn_tokens q"
  by (induction p) (auto simp: plain_pattern_def)

lemma fn_match_lits: "fn_match (map FLit p) s \<longleftrightarrow> s = p"
proof (induction p arbitrary: s)
  case (Cons c p)
  then show ?case by (cases s) auto
qed auto

lemma fn_match_star: "fn_match (FStar # p) s \<longleftrightarrow> (\<exists>u v. s = u @ v \<and> fn_match p v)"
proof (induction s)
  case (Cons c s)
  have "fn_match (FStar # p) (c # s) \<longleftrightarrow>
      fn_match p (c # s) \<or> (\<exists>u v. s = u @ v \<and> fn_match p v)"
    using Cons by simp
  also have "\<dots> \<longleftrightarrow> (\<exists>u v. c # s = u @ v \<and> fn_match p v)"
    by (metis append_Cons append_Nil append_eq_Cons_conv)
  finally show ?case .
qed auto

lemma fn_match_lits_append:
  "fn_match (map FLit p @ q) s \<longleftrightarrow> (\<exists>v. s = p @ v \<and> fn_match q v)"
proof (induction p arbitrary: s)
  case (Cons c p)
  then show ?case by (cases s) auto
qed auto

lemma fnmatch_plain:
  assumes "plain_pattern (py_chars pat)"
  shows "fnmatch name pat \<longleftrightarrow> name = pat"
proof -
  have "fnmatch name pat \<longleftrightarrow> py_chars name = py_chars pat"
    by (simp add: fnmatch_def fn_tokens_plain [OF assms] fn_match_lits)
  then show ?thesis by (metis concat_py_chars)
qed

section \<open>The table\<close>

abbreviation jstrs :: "string list \<Rightarrow> json" where
  "jstrs xs \<equiv> JArr (map JStr xs)"

definition DEFAULT_POLICY :: obj where
  "DEFAULT_POLICY =
    [(''format_priority'', jstrs [
          ''text'', ''image'', ''voice'', ''video'', ''music'']),
     (''tiers'', JObj
      [(''image'', JArr
        [jstrs [
          ''seedream-5-pro'', ''gpt-image-2'', ''nano-banana-pro-2k'', ''nano-banana-pro-4k''],
         jstrs [
          ''nano-banana-pro-1k'', ''nano-banana-2-2k'', ''nano-banana-2-4k'', ''seedream-4.5'',
          ''seedream-5-lite'', ''gpt-image-1.5'', ''grok-image''],
         jstrs [
          ''nano-banana-2-lite'', ''nano-banana-2-1k'', ''z-image'']]),
       (''video'', JArr
        [jstrs [
          ''veo3.1'', ''veo3_fast'', ''kling-3.0-pro''],
         jstrs [
          ''kling-3.0-std'', ''grok-ttv'', ''gemini-omni-video'', ''veo3''],
         jstrs [
          ''seedance-2-mini'', ''seedance-2-fast'', ''seedance-2'', ''grok-itv'']]),
       (''voice'', JArr
        [jstrs [
          ''el-tts-multilingual-v2'', ''gemini-pro-tts''],
         jstrs [
          ''el-tts-turbo'', ''gemini-flash-tts''],
         jstrs [
          ''el-dialogue-v3'']]),
       (''music'', JArr
        [jstrs [
          ''suno-v5.5''],
         jstrs [
          ''suno-v5''],
         jstrs [
          ''*-instrumental'']]),
       (''text'', JArr
        [jstrs [
          ''claude-opus-5'', ''claude-*''],
         jstrs [
          ''gpt-5.6-sol'', ''gpt-*'']])]),
     (''exclude'', jstrs [
          ''grok-extend'', ''grok-upscale'', ''*-edit'', ''veed-avatar'', ''gemini-omni-character'']),
     (''per_1000_chars_types'', jstrs [
          ''voice'']),
     (''defaults'', JObj
      [(''aspect_ratio'', JStr ''9:16''),
       (''video_duration_seconds'', JInt 8),
       (''resolution'', JStr ''720p''),
       (''voice_id'', JStr ''Brian''),
       (''voice_name'', JStr ''Puck''),
       (''language_code'', JStr ''ru''),
       (''vocal_gender'', JStr ''f''),
       (''text_max_tokens'', JInt 900),
       (''text_system'', JStr (bytes
      [208, 162, 209, 139, 32, 208, 191, 208, 184, 209, 136, 208, 181, 209, 136, 209, 140,
       32, 209, 128, 208, 181, 208, 186, 208, 187, 208, 176, 208, 188, 208, 189, 209, 139,
       208, 181, 32, 209, 130, 208, 181, 208, 186, 209, 129, 209, 130, 209, 139, 32, 208,
       189, 208, 176, 32, 209, 128, 209, 131, 209, 129, 209, 129, 208, 186, 208, 190, 208,
       188, 32, 209, 143, 208, 183, 209, 139, 208, 186, 208, 181, 32, 208, 186, 209, 128,
       208, 176, 209, 130, 208, 186, 208, 190, 32, 208, 184, 32, 208, 191, 208, 190, 32,
       208, 180, 208, 181, 208, 187, 209, 131, 46]))]),
     (''suppliable_params'', jstrs [
          ''prompt'', ''aspect_ratio'', ''duration'', ''resolution'', ''generation_type'',
          ''generate_audio'', ''negative_prompt'', ''seed'', ''sound'', ''quality'',
          ''output_format'', ''voice_id'', ''voice_name'', ''language_code'', ''style'',
          ''stability'', ''similarity_boost'', ''speed'', ''temperature'', ''scene'', ''lyrics'',
          ''music_style'', ''style_tags'', ''vocal_gender'', ''lang'', ''callback_url'', ''strict'',
          ''idempotency_key'', ''system'', ''max_tokens''])]"

definition FALLBACK_TIER :: nat where
  "FALLBACK_TIER = 99"

record policy =
  po_format_priority :: "string list"
  po_tiers :: "(string, string list list) dict"
  po_exclude :: "string list"
  po_per_1000_chars_types :: "string list"
  po_defaults :: obj
  po_suppliable_params :: "string list"
  po_source :: string
  po_raw :: obj

text \<open>Iterating a JSON value in Python: the elements of a list, the characters of a string, the
  keys of a dictionary; anything else is a \<open>TypeError\<close>.\<close>

definition iter_json :: "json \<Rightarrow> exn + json list" where
  "iter_json v =
     (case v of
        JArr xs \<Rightarrow> Inr xs
      | JStr s \<Rightarrow> Inr (map JStr (py_chars s))
      | JObj o1 \<Rightarrow> Inr (map (\<lambda>kv. JStr (fst kv)) o1)
      | _ \<Rightarrow> Inl (TypeError (Text ''object is not iterable'')))"

fun collect :: "('a \<Rightarrow> exn + 'b) \<Rightarrow> 'a list \<Rightarrow> exn + 'b list" where
  "collect f [] = Inr []"
| "collect f (x # xs) =
     (case f x of Inl e \<Rightarrow> Inl e
      | Inr y \<Rightarrow> (case collect f xs of Inl e \<Rightarrow> Inl e | Inr ys \<Rightarrow> Inr (y # ys)))"

definition str_tuple :: "json \<Rightarrow> exn + string list" where
  "str_tuple v = (case iter_json v of Inl e \<Rightarrow> Inl e | Inr xs \<Rightarrow> Inr (map py_str xs))"

definition dict_items :: "json \<Rightarrow> exn + obj" where
  "dict_items v = (case v of JObj o1 \<Rightarrow> Inr o1 | _ \<Rightarrow> Inl (TypeError (Text ''not a mapping'')))"

definition parse_tiers :: "json \<Rightarrow> exn + (string, string list list) dict" where
  "parse_tiers v =
     (case dict_items (j_or v (JObj [])) of Inl e \<Rightarrow> Inl e
      | Inr items \<Rightarrow>
          collect (\<lambda>(ty, tier_list).
            case iter_json tier_list of Inl e \<Rightarrow> Inl e
            | Inr tiers \<Rightarrow>
                (case collect str_tuple tiers of Inl e \<Rightarrow> Inl e | Inr ts \<Rightarrow> Inr (ty, ts))) items)"

text \<open>\<open>merged.get(k, ())\<close>\<close>

definition get_tuple :: "obj \<Rightarrow> string \<Rightarrow> exn + string list" where
  "get_tuple merged k = (case map_of merged k of None \<Rightarrow> Inr [] | Some v \<Rightarrow> str_tuple v)"

definition policy_from_dict :: "obj \<Rightarrow> string \<Rightarrow> exn + policy" where
  "policy_from_dict payload source =
     (let merged = dict_merge DEFAULT_POLICY payload in
      case parse_tiers (jget merged ''tiers'') of Inl e \<Rightarrow> Inl e
      | Inr tiers \<Rightarrow>
      case get_tuple merged ''format_priority'' of Inl e \<Rightarrow> Inl e
      | Inr priority \<Rightarrow>
      case get_tuple merged ''exclude'' of Inl e \<Rightarrow> Inl e
      | Inr exclude \<Rightarrow>
      case get_tuple merged ''per_1000_chars_types'' of Inl e \<Rightarrow> Inl e
      | Inr per_1000 \<Rightarrow>
      case dict_items (j_or (jget merged ''defaults'') (JObj [])) of Inl e \<Rightarrow> Inl e
      | Inr defaults \<Rightarrow>
      case get_tuple merged ''suppliable_params'' of Inl e \<Rightarrow> Inl e
      | Inr suppliable \<Rightarrow>
          Inr \<lparr>po_format_priority = priority, po_tiers = tiers, po_exclude = exclude,
               po_per_1000_chars_types = per_1000, po_defaults = defaults,
               po_suppliable_params = suppliable, po_source = source, po_raw = merged\<rparr>)"

text \<open>\<open>Policy.load\<close>. Reading the file system is the argument \<open>read\<close>: \<open>None\<close> when the path is not
  a file, otherwise the parsed JSON document.\<close>

definition policy_load :: "(string \<Rightarrow> json option) \<Rightarrow> string option \<Rightarrow> exn + policy" where
  "policy_load read path =
     (case path of
        None \<Rightarrow> policy_from_dict [] ''builtin''
      | Some p \<Rightarrow>
         (case read p of
            None \<Rightarrow> Inl (ValueError (Msg ''policy_file_missing'' [JStr p]))
          | Some doc \<Rightarrow>
             (case dict_items doc of Inl e \<Rightarrow> Inl e | Inr payload \<Rightarrow> policy_from_dict payload p)))"

section \<open>Reading the table\<close>

fun tier_index :: "nat \<Rightarrow> string list list \<Rightarrow> string \<Rightarrow> nat" where
  "tier_index i [] key = FALLBACK_TIER"
| "tier_index i (patterns # rest) key =
     (if list_ex (fnmatch key) patterns then i else tier_index (Suc i) rest key)"

definition tier_of :: "policy \<Rightarrow> string \<Rightarrow> string \<Rightarrow> nat" where
  "tier_of p ty key =
     tier_index 0 (case map_of (po_tiers p) ty of None \<Rightarrow> [] | Some ts \<Rightarrow> ts) key"

definition is_excluded :: "policy \<Rightarrow> string \<Rightarrow> bool" where
  "is_excluded p key \<longleftrightarrow> list_ex (fnmatch key) (po_exclude p)"

text \<open>\<open>tuple.index\<close>, or the length when the format is not listed.\<close>

fun index_or_len :: "'a list \<Rightarrow> 'a \<Rightarrow> nat" where
  "index_or_len [] x = 0"
| "index_or_len (y # ys) x = (if y = x then 0 else Suc (index_or_len ys x))"

definition priority_of :: "policy \<Rightarrow> content_format \<Rightarrow> nat" where
  "priority_of p f = index_or_len (po_format_priority p) (format_value f)"

lemma priority_le: "priority_of p f \<le> length (po_format_priority p)"
proof -
  have "index_or_len xs x \<le> length xs" for xs :: "'a list" and x by (induction xs) auto
  then show ?thesis by (simp add: priority_of_def)
qed

lemma tier_index_cases:
  "(\<exists>j < length ts. tier_index i ts key = i + j \<and> list_ex (fnmatch key) (ts ! j) \<and>
      (\<forall>k < j. \<not> list_ex (fnmatch key) (ts ! k))) \<or>
   (tier_index i ts key = FALLBACK_TIER \<and> (\<forall>t \<in> set ts. \<not> list_ex (fnmatch key) t))"
proof (induction ts arbitrary: i)
  case (Cons t ts)
  show ?case
  proof (cases "list_ex (fnmatch key) t")
    case True
    then show ?thesis by auto
  next
    case False
    from Cons.IH [of "Suc i"] show ?thesis
    proof
      assume "\<exists>j < length ts. tier_index (Suc i) ts key = Suc i + j \<and>
        list_ex (fnmatch key) (ts ! j) \<and> (\<forall>k < j. \<not> list_ex (fnmatch key) (ts ! k))"
      then obtain j where "j < length ts" "tier_index (Suc i) ts key = Suc i + j"
        "list_ex (fnmatch key) (ts ! j)" "\<forall>k < j. \<not> list_ex (fnmatch key) (ts ! k)" by blast
      with False show ?thesis
        by (intro disjI1 exI [of _ "Suc j"]) (auto simp: nth_Cons split: nat.splits)
    qed (use False in auto)
  qed
qed simp

end
