(* ===== verification/Prompts.thy ===== *)
theory Prompts
  imports Domain
begin

text \<open>
  Deterministic prompt composition (\<open>app/services/prompts.py\<close>). The Russian literals of the
  source are the byte lists \<open>txt1\<close>, \<open>txt2\<close>, \<dots>, the UTF-8 encodings of the f-string pieces in
  source order.
\<close>

section \<open>Literals\<close>

definition txt1 :: string where
  "txt1 = bytes
    [208, 160, 208, 181, 208, 186, 208, 187, 208, 176, 208, 188, 208, 189, 209, 139, 208,
     185, 32, 208, 178, 208, 184, 208, 183, 209, 131, 208, 176, 208, 187, 32, 208, 180, 208,
     187, 209, 143, 32, 208, 191, 209, 128, 208, 190, 208, 180, 209, 131, 208, 186, 209, 130,
     208, 176, 32, 194, 171]"

definition txt2 :: string where
  "txt2 = bytes
    [194, 187, 46, 32, 208, 161, 209, 131, 209, 130, 209, 140, 32, 208, 191, 209, 128, 208,
     190, 208, 180, 209, 131, 208, 186, 209, 130, 208, 176, 58, 32]"

definition txt3 :: string where
  "txt3 = bytes
    [32, 208, 166, 208, 181, 208, 187, 208, 181, 208, 178, 208, 176, 209, 143, 32, 208, 176,
     209, 131, 208, 180, 208, 184, 209, 130, 208, 190, 209, 128, 208, 184, 209, 143, 58, 32]"

definition txt4 :: string where
  "txt4 = bytes
    [46, 32, 208, 154, 208, 187, 209, 142, 209, 135, 208, 181, 208, 178, 208, 190, 208, 185,
     32, 208, 190, 209, 132, 209, 132, 208, 181, 209, 128, 44, 32, 208, 186, 208, 190, 209,
     130, 208, 190, 209, 128, 209, 139, 208, 185, 32, 208, 180, 208, 190, 208, 187, 208, 182,
     208, 181, 208, 189, 32, 209, 135, 208, 184, 209, 130, 208, 176, 209, 130, 209, 140, 209,
     129, 209, 143, 32, 208, 178, 32, 208, 186, 208, 176, 208, 180, 209, 128, 208, 181, 58,
     32]"

definition txt5 :: string where
  "txt5 = bytes
    [46, 32, 208, 161, 209, 130, 208, 184, 208, 187, 209, 140, 58, 32]"

definition txt6 :: string where
  "txt6 = bytes
    [46, 32, 208, 154, 208, 190, 208, 188, 208, 191, 208, 190, 208, 183, 208, 184, 209, 134,
     208, 184, 209, 143, 32, 208, 191, 208, 190, 208, 180, 32, 209, 128, 208, 181, 208, 186,
     208, 187, 208, 176, 208, 188, 208, 189, 209, 139, 208, 185, 32, 208, 191, 208, 190, 209,
     129, 209, 130, 44, 32, 208, 186, 209, 128, 209, 131, 208, 191, 208, 189, 209, 139, 208,
     185, 32, 208, 176, 208, 186, 209, 134, 208, 181, 208, 189, 209, 130, 32, 208, 189, 208,
     176, 32, 208, 191, 209, 128, 208, 190, 208, 180, 209, 131, 208, 186, 209, 130, 208, 181,
     44, 32, 209, 135, 208, 184, 209, 129, 209, 130, 209, 139, 208, 185, 32, 209, 132, 208,
     190, 208, 189, 44, 32, 208, 188, 208, 181, 209, 129, 209, 130, 208, 190, 32, 208, 191,
     208, 190, 208, 180, 32, 208, 183, 208, 176, 208, 179, 208, 190, 208, 187, 208, 190, 208,
     178, 208, 190, 208, 186, 46]"

definition txt7 :: string where
  "txt7 = bytes
    [208, 154, 208, 190, 209, 128, 208, 190, 209, 130, 208, 186, 208, 184, 208, 185, 32, 209,
     128, 208, 181, 208, 186, 208, 187, 208, 176, 208, 188, 208, 189, 209, 139, 208, 185, 32,
     209, 128, 208, 190, 208, 187, 208, 184, 208, 186, 32, 208, 191, 209, 128, 208, 190, 208,
     180, 209, 131, 208, 186, 209, 130, 208, 176, 32, 194, 171]"

definition txt8 :: string where
  "txt8 = bytes
    [194, 187, 46, 32, 208, 158, 208, 191, 208, 184, 209, 129, 208, 176, 208, 189, 208, 184,
     208, 181, 58, 32]"

definition txt9 :: string where
  "txt9 = bytes
    [32, 208, 144, 209, 131, 208, 180, 208, 184, 209, 130, 208, 190, 209, 128, 208, 184, 209,
     143, 58, 32]"

definition txt10 :: string where
  "txt10 = bytes
    [46, 32, 208, 158, 209, 132, 209, 132, 208, 181, 209, 128, 32, 208, 178, 32, 209, 132,
     208, 184, 208, 189, 208, 176, 208, 187, 209, 140, 208, 189, 208, 190, 208, 188, 32, 208,
     186, 208, 176, 208, 180, 209, 128, 208, 181, 58, 32]"

definition txt11 :: string where
  "txt11 = bytes
    [46, 32, 208, 161, 209, 130, 208, 184, 208, 187, 209, 140, 32, 209, 129, 209, 138, 209,
     145, 208, 188, 208, 186, 208, 184, 58, 32]"

definition txt12 :: string where
  "txt12 = bytes
    [46, 32, 208, 148, 208, 184, 208, 189, 208, 176, 208, 188, 208, 184, 209, 135, 208, 189,
     209, 139, 208, 185, 32, 208, 188, 208, 190, 208, 189, 209, 130, 208, 176, 208, 182, 44,
     32, 208, 186, 209, 128, 209, 131, 208, 191, 208, 189, 209, 139, 208, 181, 32, 208, 191,
     208, 187, 208, 176, 208, 189, 209, 139, 32, 208, 191, 209, 128, 208, 190, 208, 180, 209,
     131, 208, 186, 209, 130, 208, 176, 44, 32, 209, 132, 208, 184, 208, 189, 208, 176, 208,
     187, 209, 140, 208, 189, 209, 139, 208, 185, 32, 208, 186, 208, 176, 208, 180, 209, 128,
     32, 209, 129, 32, 208, 191, 209, 128, 208, 184, 208, 183, 209, 139, 208, 178, 208, 190,
     208, 188, 32, 208, 186, 32, 208, 180, 208, 181, 208, 185, 209, 129, 209, 130, 208, 178,
     208, 184, 209, 142, 46]"

definition txt13 :: string where
  "txt13 = bytes
    [32, 208, 163, 209, 129, 208, 191, 208, 181, 208, 185, 209, 130, 208, 181, 32, 208, 178,
     208, 190, 209, 129, 208, 191, 208, 190, 208, 187, 209, 140, 208, 183, 208, 190, 208,
     178, 208, 176, 209, 130, 209, 140, 209, 129, 209, 143, 32, 208, 191, 209, 128, 208, 181,
     208, 180, 208, 187, 208, 190, 208, 182, 208, 181, 208, 189, 208, 184, 208, 181, 208,
     188, 46]"

definition txt14 :: string where
  "txt14 = bytes
    [208, 164, 208, 190, 208, 189, 208, 190, 208, 178, 209, 139, 208, 185, 32, 209, 130, 209,
     128, 208, 181, 208, 186, 32, 208, 180, 208, 187, 209, 143, 32, 209, 128, 208, 181, 208,
     186, 208, 187, 208, 176, 208, 188, 208, 189, 208, 190, 208, 179, 208, 190, 32, 209, 128,
     208, 190, 208, 187, 208, 184, 208, 186, 208, 176, 32, 208, 191, 209, 128, 208, 190, 208,
     180, 209, 131, 208, 186, 209, 130, 208, 176, 32, 194, 171]"

definition txt15 :: string where
  "txt15 = bytes
    [194, 187, 46, 32, 208, 157, 208, 176, 209, 129, 209, 130, 209, 128, 208, 190, 208, 181,
     208, 189, 208, 184, 208, 181, 58, 32]"

definition txt16 :: string where
  "txt16 = bytes
    [46, 32, 208, 144, 209, 131, 208, 180, 208, 184, 209, 130, 208, 190, 209, 128, 208, 184,
     209, 143, 58, 32]"

definition txt17 :: string where
  "txt17 = bytes
    [46, 32, 208, 145, 208, 181, 208, 183, 32, 208, 178, 208, 190, 208, 186, 208, 176, 208,
     187, 208, 176, 32, 208, 189, 208, 176, 32, 208, 191, 208, 181, 209, 128, 208, 181, 208,
     180, 208, 189, 208, 181, 208, 188, 32, 208, 191, 208, 187, 208, 176, 208, 189, 208, 181,
     44, 32, 209, 128, 208, 190, 208, 178, 208, 189, 209, 139, 208, 185, 32, 209, 128, 208,
     184, 209, 130, 208, 188, 44, 32, 208, 191, 208, 190, 208, 180, 209, 133, 208, 190, 208,
     180, 208, 184, 209, 130, 32, 208, 191, 208, 190, 208, 180, 32, 208, 183, 208, 176, 208,
     186, 208, 176, 208, 180, 209, 128, 208, 190, 208, 178, 209, 139, 208, 185, 32, 208, 179,
     208, 190, 208, 187, 208, 190, 209, 129, 46]"

definition txt18 :: string where
  "txt18 = bytes
    [208, 162, 209, 139, 32, 226, 128, 148, 32, 208, 188, 208, 176, 209, 128, 208, 186, 208,
     181, 209, 130, 208, 190, 208, 187, 208, 190, 208, 179, 46, 32, 208, 157, 208, 176, 208,
     191, 208, 184, 209, 136, 208, 184, 32, 209, 128, 208, 181, 208, 186, 208, 187, 208, 176,
     208, 188, 208, 189, 209, 139, 208, 185, 32, 209, 130, 208, 181, 208, 186, 209, 129, 209,
     130, 32, 208, 180, 208, 187, 209, 143, 32, 208, 191, 209, 128, 208, 190, 208, 180, 209,
     131, 208, 186, 209, 130, 208, 176, 32, 194, 171]"

definition txt19 :: string where
  "txt19 = bytes
    [194, 187, 46, 10, 208, 167, 209, 130, 208, 190, 32, 208, 183, 208, 176, 32, 208, 191,
     209, 128, 208, 190, 208, 180, 209, 131, 208, 186, 209, 130, 58, 32]"

definition txt20 :: string where
  "txt20 = bytes
    [10, 208, 166, 208, 181, 208, 187, 208, 181, 208, 178, 208, 176, 209, 143, 32, 208, 176,
     209, 131, 208, 180, 208, 184, 209, 130, 208, 190, 209, 128, 208, 184, 209, 143, 58, 32]"

definition txt21 :: string where
  "txt21 = bytes
    [10, 208, 158, 209, 132, 209, 132, 208, 181, 209, 128, 58, 32]"

definition txt22 :: string where
  "txt22 = bytes
    [10, 208, 162, 208, 190, 208, 189, 32, 208, 184, 32, 209, 129, 209, 130, 208, 184, 208,
     187, 209, 140, 58, 32]"

definition txt23 :: string where
  "txt23 = bytes
    [10, 208, 175, 208, 183, 209, 139, 208, 186, 32, 208, 190, 209, 130, 208, 178, 208, 181,
     209, 130, 208, 176, 58, 32]"

definition txt24 :: string where
  "txt24 = bytes
    [46, 10, 208, 164, 208, 190, 209, 128, 208, 188, 208, 176, 209, 130, 32, 208, 190, 209,
     130, 208, 178, 208, 181, 209, 130, 208, 176, 58, 32, 51, 32, 208, 178, 208, 176, 209,
     128, 208, 184, 208, 176, 208, 189, 209, 130, 208, 176, 32, 208, 183, 208, 176, 208, 179,
     208, 190, 208, 187, 208, 190, 208, 178, 208, 186, 208, 176, 44, 32, 208, 190, 209, 129,
     208, 189, 208, 190, 208, 178, 208, 189, 208, 190, 208, 185, 32, 209, 130, 208, 181, 208,
     186, 209, 129, 209, 130, 32, 208, 189, 208, 176, 32, 52, 48, 48, 226, 128, 147, 54, 48,
     48, 32, 208, 183, 208, 189, 208, 176, 208, 186, 208, 190, 208, 178, 44, 32, 208, 190,
     208, 180, 208, 184, 208, 189, 32, 208, 191, 209, 128, 208, 184, 208, 183, 209, 139, 208,
     178, 32, 208, 186, 32, 208, 180, 208, 181, 208, 185, 209, 129, 209, 130, 208, 178, 208,
     184, 209, 142, 46, 32, 208, 145, 208, 181, 208, 183, 32, 208, 178, 209, 139, 208, 188,
     209, 139, 209, 136, 208, 187, 208, 181, 208, 189, 208, 189, 209, 139, 209, 133, 32, 209,
     132, 208, 176, 208, 186, 209, 130, 208, 190, 208, 178, 44, 32, 208, 179, 208, 176, 209,
     128, 208, 176, 208, 189, 209, 130, 208, 184, 208, 185, 32, 208, 184, 32, 208, 190, 208,
     177, 208, 181, 209, 137, 208, 176, 208, 189, 208, 184, 208, 185, 32, 209, 128, 208, 181,
     208, 183, 209, 131, 208, 187, 209, 140, 209, 130, 208, 176, 209, 130, 208, 176, 46]"

definition txt25 :: string where
  "txt25 = bytes
    [208, 180, 208, 181, 208, 187, 208, 190, 208, 178, 208, 190, 208, 185, 44, 32, 209, 129,
     208, 190, 208, 178, 209, 128, 208, 181, 208, 188, 208, 181, 208, 189, 208, 189, 209,
     139, 208, 185, 44, 32, 208, 177, 208, 181, 208, 183, 32, 208, 186, 208, 187, 208, 184,
     208, 186, 208, 177, 208, 181, 208, 185, 209, 130, 208, 176]"

definition txt26 :: string where
  "txt26 = bytes
    [42, 42, 208, 148, 208, 187, 209, 143, 32, 208, 186, 208, 190, 208, 179, 208, 190, 58,
     42, 42, 32]"

definition txt27 :: string where
  "txt27 = bytes
    [42, 42, 208, 167, 209, 130, 208, 190, 32, 209, 141, 209, 130, 208, 190, 58, 42, 42, 32]"

definition txt28 :: string where
  "txt28 = bytes
    [42, 42, 208, 158, 209, 132, 209, 132, 208, 181, 209, 128, 58, 42, 42, 32]"

definition txt29 :: string where
  "txt29 = bytes
    [35, 35, 32, 208, 146, 208, 176, 209, 128, 208, 184, 208, 176, 208, 189, 209, 130, 209,
     139, 32, 208, 183, 208, 176, 208, 179, 208, 190, 208, 187, 208, 190, 208, 178, 208, 186,
     208, 190, 208, 178]"

definition txt30 :: string where
  "txt30 = bytes
    [32, 226, 128, 148, 32]"

definition txt31 :: string where
  "txt31 = bytes
    [32, 226, 128, 148, 32, 208, 186, 208, 190, 209, 128, 208, 190, 209, 130, 208, 186, 208,
     190, 32, 208, 190, 32, 208, 179, 208, 187, 208, 176, 208, 178, 208, 189, 208, 190, 208,
     188, 58, 32]"

definition txt32 :: string where
  "txt32 = bytes
    [226, 128, 166]"

definition txt33 :: string where
  "txt33 = bytes
    [35, 35, 32, 208, 158, 209, 129, 208, 189, 208, 190, 208, 178, 208, 189, 208, 190, 208,
     185, 32, 209, 130, 208, 181, 208, 186, 209, 129, 209, 130]"

definition txt34 :: string where
  "txt34 = bytes
    [35, 35, 32, 208, 159, 209, 128, 208, 184, 208, 183, 209, 139, 208, 178, 32, 208, 186,
     32, 208, 180, 208, 181, 208, 185, 209, 129, 209, 130, 208, 178, 208, 184, 209, 142]"

definition txt35 :: string where
  "txt35 = bytes
    [208, 158, 209, 129, 209, 130, 208, 176, 208, 178, 209, 140, 209, 130, 208, 181, 32, 208,
     183, 208, 176, 209, 143, 208, 178, 208, 186, 209, 131, 32, 209, 129, 208, 181, 208, 179,
     208, 190, 208, 180, 208, 189, 209, 143, 32, 226, 128, 148, 32, 208, 191, 209, 128, 208,
     181, 208, 180, 208, 187, 208, 190, 208, 182, 208, 181, 208, 189, 208, 184, 208, 181, 32,
     208, 190, 208, 179, 209, 128, 208, 176, 208, 189, 208, 184, 209, 135, 208, 181, 208,
     189, 208, 190, 46]"

definition txt36 :: string where
  "txt36 = bytes
    [95, 208, 162, 208, 190, 208, 189, 58, 32]"

section \<open>Builders\<close>

definition style_of :: "brief \<Rightarrow> string" where
  "style_of b = (if py_strip (b_style b) = [] then txt25 else py_strip (b_style b))"

definition image_prompt :: "brief \<Rightarrow> string" where
  "image_prompt b = txt1
         @ b_product_name b
         @ txt2
         @ b_product_description b
         @ txt3
         @ b_target_audience b
         @ txt4
         @ b_offer b
         @ txt5
         @ style_of b
         @ txt6"

definition video_prompt :: "brief \<Rightarrow> string" where
  "video_prompt b = txt7
         @ b_product_name b
         @ txt8
         @ b_product_description b
         @ txt9
         @ b_target_audience b
         @ txt10
         @ b_offer b
         @ txt11
         @ style_of b
         @ txt12"

definition voice_script :: "brief \<Rightarrow> string" where
  "voice_script b =
     (case b_voiceover_script b of
        Some (c # cs) \<Rightarrow> py_strip (c # cs)
      | _ \<Rightarrow> b_product_name b
         @ ''. ''
         @ b_product_description b
         @ '' ''
         @ b_offer b
         @ txt13)"

definition music_prompt :: "brief \<Rightarrow> string" where
  "music_prompt b = txt14
         @ b_product_name b
         @ txt15
         @ style_of b
         @ txt16
         @ b_target_audience b
         @ txt17"

definition text_prompt :: "brief \<Rightarrow> string" where
  "text_prompt b = txt18
         @ b_product_name b
         @ txt19
         @ b_product_description b
         @ txt20
         @ b_target_audience b
         @ txt21
         @ b_offer b
         @ txt22
         @ style_of b
         @ txt23
         @ b_language b
         @ txt24"

definition marketing_copy :: "brief \<Rightarrow> string" where
  "marketing_copy b = py_join [CHR 10]
     [''# '' @ b_product_name b,
      [],
      txt26 @ b_target_audience b,
      txt27 @ b_product_description b,
      txt28 @ b_offer b,
      [],
      txt29,
      ''1. '' @ b_product_name b @ '': '' @ b_offer b,
      ''2. '' @ b_target_audience b @ txt30 @ rstrip_char (CHR ''.'') (b_offer b) @ ''.'',
      ''3. '' @ b_product_name b @ txt31 @ py_rstrip (py_take 80 (b_product_description b)) @ txt32,
      [],
      txt33,
      b_product_description b @ '' '' @ b_offer b,
      [],
      txt34,
      txt35,
      [],
      txt36 @ style_of b @ ''._'']"

fun prompt_for :: "brief \<Rightarrow> content_format \<Rightarrow> string" where
  "prompt_for b IMAGE = image_prompt b"
| "prompt_for b VIDEO = video_prompt b"
| "prompt_for b VOICE = voice_script b"
| "prompt_for b MUSIC = music_prompt b"
| "prompt_for b TEXT = text_prompt b"

section \<open>Facts\<close>

text \<open>A script the user wrote is spoken as written, up to surrounding whitespace.\<close>

lemma voice_script_given:
  "b_voiceover_script b = Some s \<Longrightarrow> s \<noteq> [] \<Longrightarrow> voice_script b = py_strip s"
  by (cases s) (simp_all add: voice_script_def)

lemma marketing_copy_nonempty: "marketing_copy b \<noteq> []"
  by (simp add: marketing_copy_def)

text \<open>Prompts read the brief only through the fields named here, so two briefs that agree on
  them get the same prompts (and therefore the same idempotency keys).\<close>

lemma prompt_for_cong:
  assumes "b_product_name b = b_product_name c" "b_product_description b = b_product_description c"
    "b_target_audience b = b_target_audience c" "b_offer b = b_offer c" "b_style b = b_style c"
    "b_language b = b_language c" "b_voiceover_script b = b_voiceover_script c"
  shows "prompt_for b f = prompt_for c f"
  using assms
  by (cases f) (simp_all add: image_prompt_def video_prompt_def voice_script_def music_prompt_def
      text_prompt_def style_of_def split: option.split list.split)

end
