(* ===== verification/Params.thy ===== *)
theory Params
  imports Capabilities Policy Prompts
begin

text \<open>
  Request bodies for a model (\<open>_desired_params\<close>, \<open>_coerce\<close> and \<open>_build_params\<close> of
  \<open>app/services/planner.py\<close>): what the brief asks for, fitted into what the model accepts.
\<close>

section \<open>Python helpers used here\<close>

text \<open>\<open>xs[:n]\<close> for any integer \<open>n\<close>\<close>

definition slice_to :: "int \<Rightarrow> 'a list \<Rightarrow> 'a list" where
  "slice_to n xs = take (nat (if n < 0 then int (length xs) + n else n)) xs"

definition str_slice_to :: "int \<Rightarrow> string \<Rightarrow> string" where
  "str_slice_to n s = concat (slice_to n (py_chars s))"

text \<open>\<open>float(s)\<close> for a decimal literal with optional sign and exponent. (Underscores and the
  names of infinity and not-a-number are outside the model, whose floats are finite.)\<close>

definition scan_digits :: "string \<Rightarrow> string \<times> string" where
  "scan_digits s = (takeWhile is_digit s, dropWhile is_digit s)"

definition scan_sign :: "string \<Rightarrow> int \<times> string" where
  "scan_sign s = (case s of c # cs \<Rightarrow> if c = CHR ''-'' then (-1, cs) else if c = CHR ''+'' then (1, cs) else (1, s)
                          | [] \<Rightarrow> (1, []))"

definition scan_exponent :: "string \<Rightarrow> int option" where
  "scan_exponent s =
     (case s of
        [] \<Rightarrow> Some 0
      | c # cs \<Rightarrow>
          if c = CHR ''e'' \<or> c = CHR ''E'' then
            (let (sg, r) = scan_sign cs in
             if py_isdigit r then Some (sg * int (digits_val r)) else None)
          else None)"

definition parse_float :: "string \<Rightarrow> rat option" where
  "parse_float s0 =
     (let (sg, s) = scan_sign (py_strip s0);
          (ds, r) = scan_digits s;
          (fs, r') = (case r of c # cs \<Rightarrow> if c = CHR ''.'' then scan_digits cs else ([], r) | [] \<Rightarrow> ([], []))
      in if ds = [] \<and> fs = [] then None
         else case scan_exponent r' of
           None \<Rightarrow> None
         | Some e \<Rightarrow>
             (let m = of_int sg * (of_nat (digits_val ds) + frac_val fs)
              in Some (if e < 0 then m / 10 ^ nat (- e) else m * 10 ^ nat e)))"

definition py_float :: "json \<Rightarrow> exn + rat" where
  "py_float v =
     (case as_num v of
        Some x \<Rightarrow> Inr x
      | None \<Rightarrow>
         (case v of
            JStr s \<Rightarrow> (case parse_float s of
                         Some x \<Rightarrow> Inr x | None \<Rightarrow> Inl (ValueError (Text ''could not convert string to float'')))
          | _ \<Rightarrow> Inl (TypeError (Text ''float() argument must be a string or a real number''))))"

text \<open>\<open>int(x) if x.is_integer() else x\<close>\<close>

definition int_if_integer :: "rat \<Rightarrow> json" where
  "int_if_integer x = (if of_int \<lfloor>x\<rfloor> = x then JInt \<lfloor>x\<rfloor> else JFloat x)"

lemma as_num_int_if_integer [simp]: "as_num (int_if_integer x) = Some x"
  by (simp add: int_if_integer_def)

section \<open>What the brief asks for\<close>

definition str_or :: "string option \<Rightarrow> json \<Rightarrow> json" where
  "str_or x d = (case x of Some (c # cs) \<Rightarrow> JStr (c # cs) | _ \<Rightarrow> d)"

definition int_or :: "int option \<Rightarrow> json \<Rightarrow> json" where
  "int_or x d = (case x of Some n \<Rightarrow> if n \<noteq> 0 then JInt n else d | None \<Rightarrow> d)"

definition common_params :: "policy \<Rightarrow> brief \<Rightarrow> obj" where
  "common_params p b =
     [(''aspect_ratio'', str_or (b_aspect_ratio b) (jget (po_defaults p) ''aspect_ratio'')),
      (''language_code'', str_or (Some (b_language b)) (jget (po_defaults p) ''language_code'')),
      (''lang'', str_or (Some (b_language b)) (jget (po_defaults p) ''language_code''))]"

definition desired_params :: "policy \<Rightarrow> brief \<Rightarrow> content_format \<Rightarrow> obj" where
  "desired_params p b fmt =
     common_params p b @
     (case fmt of
        TEXT \<Rightarrow>
          [(''max_tokens'', int_or (b_text_max_tokens b) (jget (po_defaults p) ''text_max_tokens'')),
           (''system'', jget (po_defaults p) ''text_system'')]
      | VIDEO \<Rightarrow>
          [(''duration'', int_or (b_video_duration_seconds b) (jget (po_defaults p) ''video_duration_seconds'')),
           (''resolution'', jget (po_defaults p) ''resolution'')]
          @ (case b_reference_image_urls b of
               [] \<Rightarrow> []
             | u # us \<Rightarrow> [(''image_urls'', jstrs (u # us)), (''first_frame_url'', JStr u),
                          (''reference_image_urls'', jstrs (u # us))])
          @ (case b_landing_url b of Some (c # cs) \<Rightarrow> [(''source_url'', JStr (c # cs))] | _ \<Rightarrow> [])
      | IMAGE \<Rightarrow>
          (case b_reference_image_urls b of
             [] \<Rightarrow> []
           | u # us \<Rightarrow> [(''image_input'', JStr u), (''image_urls'', jstrs (u # us))])
      | VOICE \<Rightarrow>
          [(''voice_id'', jget (po_defaults p) ''voice_id''), (''voice_name'', jget (po_defaults p) ''voice_name'')]
      | MUSIC \<Rightarrow>
          [(''music_style'', str_or (Some (b_style b)) JNull), (''style_tags'', str_or (Some (b_style b)) JNull),
           (''vocal_gender'', jget (po_defaults p) ''vocal_gender'')])"

section \<open>Fitting a value into a model\<close>

text \<open>The duration nearest to the request that the enumeration allows: the largest option not
  above it, or the smallest option.\<close>

definition fit_option :: "rat list \<Rightarrow> rat \<Rightarrow> rat option" where
  "fit_option vs x =
     (case sort vs of
        [] \<Rightarrow> None
      | o1 # os \<Rightarrow>
         (case filter (\<lambda>v. v \<le> x) (o1 # os) of
            [] \<Rightarrow> Some o1
          | f # fs \<Rightarrow> Some (fold max fs f)))"

definition changed_note :: "model_spec \<Rightarrow> string \<Rightarrow> rat \<Rightarrow> rat \<Rightarrow> msg option" where
  "changed_note m why a b = (if b = a then None else Some (Msg why [JStr (m_key m), JFloat a, JFloat b]))"

definition coerce_duration :: "model_spec \<Rightarrow> json \<Rightarrow> exn + (json \<times> msg option)" where
  "coerce_duration m value =
     (case py_float value of
        Inl e \<Rightarrow> Inl e
      | Inr numeric \<Rightarrow>
         (case (case allowed_values m ''duration'' of
                  Some vs \<Rightarrow> fit_option (numbers_of vs) numeric | None \<Rightarrow> None) of
            Some chosen \<Rightarrow>
              Inr (int_if_integer chosen, changed_note m ''duration_enum'' numeric chosen)
          | None \<Rightarrow>
             (case duration_bounds m of
                Some (lo, hi) \<Rightarrow>
                  (let clamped = max lo (min numeric hi)
                   in Inr (int_if_integer clamped, changed_note m ''duration_limits'' numeric clamped))
              | None \<Rightarrow> Inr (int_if_integer numeric, None))))"

text \<open>The lists of \<open>_coerce\<close> are tested before the enumeration, strings after it.\<close>

definition coerce_plain :: "model_spec \<Rightarrow> string \<Rightarrow> json \<Rightarrow> json \<times> msg option" where
  "coerce_plain m name value =
     (case value of
        JArr xs \<Rightarrow>
         (case as_int (jget (m_limits m) name) of
            Some limit \<Rightarrow>
              if int (length xs) > limit
              then (JArr (slice_to limit xs), Some (Msg ''list_cut'' [JStr (m_key m), JStr name, JInt limit]))
              else (value, None)
          | None \<Rightarrow> (value, None))
      | _ \<Rightarrow>
         (case allowed_values m name of
            Some vs \<Rightarrow>
              if py_in value vs then (value, None)
              else (hd vs, Some (Msg ''not_in_enum'' [JStr (m_key m), JStr name, value, JArr vs, hd vs]))
          | None \<Rightarrow>
             (case (value, as_int (jget (m_limits m) (name @ ''_max''))) of
                (JStr s, Some limit) \<Rightarrow>
                  if int (py_len s) > limit
                  then (JStr (str_slice_to limit s), Some (Msg ''string_cut'' [JStr (m_key m), JStr name, JInt limit]))
                  else (value, None)
              | _ \<Rightarrow> (value, None))))"

definition coerce :: "model_spec \<Rightarrow> string \<Rightarrow> json \<Rightarrow> exn + (json \<times> msg option)" where
  "coerce m name value =
     (if name = ''duration'' then coerce_duration m value
      else if name = ''voice_name'' \<and> m_voices m \<noteq> [] then
        Inr (if py_in value (map JStr (m_voices m)) then (value, None)
             else (JStr (hd (m_voices m)),
                   Some (Msg ''voice_unavailable'' [JStr (m_key m), value, JStr (hd (m_voices m))])))
      else Inr (coerce_plain m name value))"

section \<open>The request body\<close>

definition reserved_params :: "string list" where
  "reserved_params = [''prompt'', ''callback_url'', ''strict'', ''idempotency_key'']"

fun fill_params :: "model_spec \<Rightarrow> obj \<Rightarrow> string list \<Rightarrow> obj \<times> msg list \<Rightarrow> exn + (obj \<times> msg list)" where
  "fill_params m desired [] (params, warnings) = Inr (params, warnings)"
| "fill_params m desired (name # names) (params, warnings) =
     (if name \<in> set reserved_params \<or> jget desired name = JNull then
        fill_params m desired names (params, warnings)
      else
        case coerce m name (jget desired name) of
          Inl e \<Rightarrow> Inl e
        | Inr (value, note) \<Rightarrow>
            (let w = warnings @ (case note of None \<Rightarrow> [] | Some n \<Rightarrow> [n])
             in fill_params m desired names
                  (if value = JNull then params else AList.update name value params, w)))"

definition ellipsis :: string where
  "ellipsis = bytes [226, 128, 166]"

definition has_script :: "brief \<Rightarrow> bool" where
  "has_script b \<longleftrightarrow> (case b_voiceover_script b of Some (c # cs) \<Rightarrow> True | _ \<Rightarrow> False)"

definition over_limit :: "model_spec \<Rightarrow> string \<Rightarrow> int option" where
  "over_limit m prompt =
     (case effective_prompt_max m of
        Some limit \<Rightarrow> if limit \<noteq> 0 \<and> int (py_len prompt) > limit then Some limit else None
      | None \<Rightarrow> None)"

definition finish_params :: "model_spec \<Rightarrow> obj \<Rightarrow> msg list \<Rightarrow> string \<Rightarrow> obj \<times> msg list" where
  "finish_params m params warnings prompt =
     (let w = (if supports_long_voiceover m \<and> int (py_len prompt) > or_zero (prompt_max m)
               then warnings @ [Msg ''long_voiceover'' [JStr (m_key m), JInt (int (py_len prompt))]]
               else warnings);
          p1 = AList.update ''prompt'' (JStr prompt) params;
          p2 = (if ''generation_type'' \<in> set (known_params m) \<and> truthy (jget p1 ''image_urls'') \<and>
                   map_of p1 ''generation_type'' = None
                then AList.update ''generation_type'' (JStr ''image-to-video'') p1 else p1)
      in (p2, w))"

text \<open>The result is \<open>(params, warnings, rejection)\<close>, as in the source.\<close>

definition build_params ::
  "policy \<Rightarrow> brief \<Rightarrow> content_format \<Rightarrow> model_spec \<Rightarrow> exn + (obj \<times> msg list \<times> msg option)" where
  "build_params p b fmt m =
     (case fill_params m (desired_params p b fmt) (sort (known_params m)) ([], []) of
        Inl e \<Rightarrow> Inl e
      | Inr (params, warnings) \<Rightarrow>
          (let prompt = prompt_for b fmt in
           case over_limit m prompt of
             Some limit \<Rightarrow>
               if fmt = VOICE \<and> has_script b then
                 Inr (params, warnings, Some (Msg ''script_too_long'' [JInt (int (py_len prompt)), JInt limit]))
               else
                 (let cut = py_rstrip (str_slice_to (limit - 1) prompt) @ ellipsis;
                      (ps, ws) = finish_params m params
                        (warnings @ [Msg ''prompt_cut'' [JStr (m_key m), JInt limit]]) cut
                  in Inr (ps, ws, None))
           | None \<Rightarrow>
               (let (ps, ws) = finish_params m params warnings prompt in Inr (ps, ws, None))))"

section \<open>Facts\<close>

lemma fold_max_le: "list_all (\<lambda>v. v \<le> x) vs \<Longrightarrow> v0 \<le> x \<Longrightarrow> fold max vs v0 \<le> (x :: 'a :: linorder)"
  by (induction vs arbitrary: v0) auto

lemma fit_option_Some:
  assumes "fit_option vs x = Some c"
  shows "c \<in> set vs"
    and "(\<forall>v \<in> set vs. v \<le> x \<longrightarrow> v \<le> c) \<and> c \<le> x \<or> (\<forall>v \<in> set vs. x < v \<and> c \<le> v)"
proof -
  obtain o1 os where srt: "sort vs = o1 # os" using assms by (cases "sort vs") (auto simp: fit_option_def)
  then have vs: "set vs = insert o1 (set os)" and o1: "\<forall>v \<in> set os. o1 \<le> v"
    by (metis set_sort list.simps(15), metis sorted_sort sorted_simps(2))
  have "c \<in> set vs \<and> ((\<forall>v \<in> set vs. v \<le> x \<longrightarrow> v \<le> c) \<and> c \<le> x \<or> (\<forall>v \<in> set vs. x < v \<and> c \<le> v))"
  proof (cases "filter (\<lambda>v. v \<le> x) (o1 # os)")
    case Nil
    then have "c = o1" and "\<forall>v \<in> set vs. \<not> v \<le> x"
      using assms srt vs by (auto simp: fit_option_def filter_empty_conv split: if_splits)
    with o1 vs show ?thesis by auto
  next
    case (Cons f fs)
    then have c: "c = fold max fs f" using assms srt by (simp add: fit_option_def)
    have sub: "set (f # fs) = {v \<in> set vs. v \<le> x}" using Cons vs by (metis list.simps(15) set_filter)
    have "c \<in> set (f # fs)" using c fold_max_in [of fs f] by auto
    moreover have "\<forall>v \<in> set (f # fs). v \<le> c" using c fold_max_ge(1) [of f fs] fold_max_ge(2) [of _ fs f] by auto
    ultimately show ?thesis using sub by blast
  qed
  then show "c \<in> set vs"
    and "(\<forall>v \<in> set vs. v \<le> x \<longrightarrow> v \<le> c) \<and> c \<le> x \<or> (\<forall>v \<in> set vs. x < v \<and> c \<le> v)" by blast+
qed

lemma fold_min_le: "y \<in> insert x (set xs) \<Longrightarrow> fold min xs (x :: 'a :: linorder) \<le> y"
proof (induction xs arbitrary: x y)
  case (Cons z xs)
  from Cons.prems have "y \<in> insert (min z x) (set xs) \<or> min z x \<le> y" by auto
  then show ?case
  proof
    assume "y \<in> insert (min z x) (set xs)"
    then show ?thesis using Cons.IH [of y "min z x"] by simp
  next
    assume "min z x \<le> y"
    moreover have "fold min xs (min z x) \<le> min z x" using Cons.IH [of "min z x" "min z x"] by simp
    ultimately show ?thesis by (simp only: fold_simps)
  qed
qed simp

lemma fold_max_ub: "y \<in> insert x (set xs) \<Longrightarrow> y \<le> fold max xs (x :: 'a :: linorder)"
  using fold_max_ge [of x xs] fold_max_ge(2) [of y xs x] by auto

text \<open>Whatever duration the brief asks for, the request stays inside the model's limits.\<close>

lemma coerce_duration_bounds:
  assumes ok: "coerce_duration m value = Inr (v, note)" and b: "duration_bounds m = Some (lo, hi)"
    and "lo \<le> hi"
  shows "\<exists>x. as_num v = Some x \<and> lo \<le> x \<and> x \<le> hi"
proof -
  obtain numeric where num: "py_float value = Inr numeric"
    using ok by (cases "py_float value") (auto simp: coerce_duration_def)
  define vs where "vs = (case allowed_values m ''duration'' of None \<Rightarrow> [] | Some vs \<Rightarrow> numbers_of vs)"
  define fit where "fit = (case allowed_values m ''duration'' of
      Some vs \<Rightarrow> fit_option (numbers_of vs) numeric | None \<Rightarrow> None)"
  have fit_vs: "fit = (if allowed_values m ''duration'' = None then None else fit_option vs numeric)"
    by (simp add: fit_def vs_def split: option.split)
  show ?thesis
  proof (cases fit)
    case (Some c)
    then have "fit_option vs numeric = Some c" by (auto simp: fit_vs split: if_splits)
    then have "c \<in> set vs" by (rule fit_option_Some)
    then obtain y ys where vs: "vs = y # ys" "c \<in> insert y (set ys)" by (cases vs) auto
    with b have "lo = fold min ys y" "hi = fold max ys y"
      by (auto simp: duration_bounds_def vs_def [symmetric] Let_def)
    moreover have "v = int_if_integer c" using ok num Some by (auto simp: coerce_duration_def fit_def)
    ultimately show ?thesis using fold_min_le [OF vs(2)] fold_max_ub [OF vs(2)] by auto
  next
    case None
    then have "v = int_if_integer (max lo (min numeric hi))"
      using ok num b by (auto simp: coerce_duration_def fit_def Let_def)
    then show ?thesis using assms(3) by auto
  qed
qed

text \<open>A value that has an enumeration comes from it (lists are sent as they are).\<close>

lemma coerce_plain_enum:
  assumes "coerce_plain m name value = (v, note)" and "allowed_values m name = Some vs"
    and "as_list value = None"
  shows "py_in v vs \<or> v \<in> set vs"
proof -
  have "vs \<noteq> []" using assms(2) by (auto simp: allowed_values_def split: json.splits list.splits)
  then have "hd vs \<in> set vs" by simp
  with assms show ?thesis
    by (cases "value") (auto simp: coerce_plain_def split: if_splits)
qed

subsection \<open>The body only names parameters of the model\<close>

lemma fill_params_keys:
  "fill_params m desired names (params, ws) = Inr (ps, ws') \<Longrightarrow>
     keys_of ps \<subseteq> keys_of params \<union> (set names - set reserved_params)"
proof (induction names arbitrary: params ws)
  case (Cons n names)
  show ?case
  proof (cases "n \<in> set reserved_params \<or> jget desired n = JNull")
    case True
    with Cons.prems have "fill_params m desired names (params, ws) = Inr (ps, ws')" by simp
    from Cons.IH [OF this] show ?thesis by auto
  next
    case False
    then obtain v nt where "coerce m n (jget desired n) = Inr (v, nt)"
      using Cons.prems by (auto split: sum.splits)
    with Cons.prems False obtain ws2 where
      "fill_params m desired names (if v = JNull then params else AList.update n v params, ws2) = Inr (ps, ws')"
      by auto
    from Cons.IH [OF this] show ?thesis using False by (auto split: if_splits)
  qed
qed simp

lemma finish_params_keys:
  assumes "finish_params m params ws prompt = (ps, ws')"
  shows "keys_of ps \<subseteq> keys_of params \<union> {''prompt''} \<union> (set (known_params m) \<inter> {''generation_type''})"
  using assms by (auto simp: finish_params_def Let_def split: if_splits)

lemma finish_params_prompt:
  assumes "finish_params m params ws prompt = (ps, ws')"
  shows "map_of ps ''prompt'' = Some (JStr prompt)"
  using assms by (auto simp: finish_params_def Let_def AList.update_conv' split: if_splits)

lemma build_params_cases:
  assumes "build_params p b fmt m = Inr (ps, ws, None)"
  obtains params ws0 ws1 prompt where
    "fill_params m (desired_params p b fmt) (sort (known_params m)) ([], []) = Inr (params, ws0)"
    "finish_params m params ws1 prompt = (ps, ws)"
    "over_limit m (prompt_for b fmt) = None \<and> prompt = prompt_for b fmt \<or>
     (\<exists>limit. over_limit m (prompt_for b fmt) = Some limit \<and> \<not> (fmt = VOICE \<and> has_script b) \<and>
        prompt = py_rstrip (str_slice_to (limit - 1) (prompt_for b fmt)) @ ellipsis)"
  using assms that
  by (auto simp: build_params_def Let_def split: sum.splits option.splits if_splits prod.splits)

lemma build_params_keys:
  assumes "build_params p b fmt m = Inr (ps, ws, None)"
  shows "keys_of ps \<subseteq> set (known_params m) \<union> {''prompt''}"
    and "keys_of ps \<inter> {''callback_url'', ''strict'', ''idempotency_key''} = {}"
proof -
  obtain params ws0 ws1 prompt where
    f: "fill_params m (desired_params p b fmt) (sort (known_params m)) ([], []) = Inr (params, ws0)"
    and g: "finish_params m params ws1 prompt = (ps, ws)"
    using assms by (rule build_params_cases)
  from fill_params_keys [OF f] have "keys_of params \<subseteq> set (known_params m) - set reserved_params" by simp
  with finish_params_keys [OF g] have "keys_of ps \<subseteq> (set (known_params m) - set reserved_params) \<union>
      {''prompt''} \<union> (set (known_params m) \<inter> {''generation_type''})" by blast
  then show "keys_of ps \<subseteq> set (known_params m) \<union> {''prompt''}"
    and "keys_of ps \<inter> {''callback_url'', ''strict'', ''idempotency_key''} = {}"
    by (auto simp: reserved_params_def)
qed

subsection \<open>Prompts fit, and a user's script is never cut\<close>

lemma char_groups_new_dropWhile_rev:
  "char_groups gs \<Longrightarrow> char_groups (rev (dropWhile P (rev gs)))"
proof -
  assume "char_groups gs"
  moreover have "rev (dropWhile P (rev gs)) = take (length gs - length (takeWhile P (rev gs))) gs"
    by (metis dropWhile_eq_drop rev_drop rev_rev_ident length_rev)
  ultimately show ?thesis by (simp add: char_groups_take)
qed

lemma py_len_rstrip: "py_len (py_rstrip s) \<le> py_len s"
proof -
  have "py_chars (py_rstrip s) = rev (dropWhile is_space (rev (py_chars s)))"
    unfolding py_rstrip_def
    by (rule py_chars_concat [OF char_groups_new_dropWhile_rev [OF char_groups_py_chars]])
  then show ?thesis using length_dropWhile_le [of is_space "rev (py_chars s)"] by (simp add: py_len_def)
qed

lemma ellipsis_starts: "starts_new [ellipsis]"
  by (simp add: ellipsis_def bytes_def utf8_cont_def)

lemma starts_new_append:
  "starts_new xs \<Longrightarrow> starts_new ys \<Longrightarrow> starts_new (xs @ ys)"
  by (induction xs) (auto split: list.splits)

lemma char_groups_append: "char_groups xs \<Longrightarrow> starts_new ys \<Longrightarrow> char_groups (xs @ ys)"
  by (cases xs; cases ys) (auto split: list.splits intro: starts_new_append)

lemma py_len_append_new:
  assumes "starts_new ys"
  shows "py_len (s @ concat ys) = py_len s + length ys"
proof -
  have "py_chars (concat (py_chars s @ ys)) = py_chars s @ ys"
    by (rule py_chars_concat [OF char_groups_append [OF char_groups_py_chars assms]])
  then show ?thesis by (simp add: py_len_def)
qed

lemma py_len_slice: "0 \<le> n \<Longrightarrow> py_len (str_slice_to n s) \<le> nat n"
  using py_len_take [of "nat n" s] by (simp add: str_slice_to_def slice_to_def py_take_def)

lemma cut_prompt_length:
  assumes "0 < limit"
  shows "int (py_len (py_rstrip (str_slice_to (limit - 1) s) @ ellipsis)) \<le> limit"
proof -
  have "py_len (py_rstrip (str_slice_to (limit - 1) s) @ ellipsis)
      = py_len (py_rstrip (str_slice_to (limit - 1) s)) + 1"
    using py_len_append_new [OF ellipsis_starts] by simp
  moreover have "py_len (py_rstrip (str_slice_to (limit - 1) s)) \<le> nat (limit - 1)"
    using py_len_rstrip py_len_slice [of "limit - 1" s] assms by (meson le_trans zle_diff1_eq)
  ultimately show ?thesis using assms by linarith
qed

lemma over_limit_None:
  "over_limit m s = None \<Longrightarrow> effective_prompt_max m = Some l \<Longrightarrow> l \<noteq> 0 \<Longrightarrow> int (py_len s) \<le> l"
  by (auto simp: over_limit_def split: if_splits)

lemma build_params_prompt_length:
  assumes ok: "build_params p b fmt m = Inr (ps, ws, None)"
    and lim: "effective_prompt_max m = Some l" "0 < l"
  shows "\<exists>s. map_of ps ''prompt'' = Some (JStr s) \<and> int (py_len s) \<le> l"
proof -
  obtain params ws0 ws1 prompt where g: "finish_params m params ws1 prompt = (ps, ws)"
    and c: "over_limit m (prompt_for b fmt) = None \<and> prompt = prompt_for b fmt \<or>
     (\<exists>limit. over_limit m (prompt_for b fmt) = Some limit \<and> \<not> (fmt = VOICE \<and> has_script b) \<and>
        prompt = py_rstrip (str_slice_to (limit - 1) (prompt_for b fmt)) @ ellipsis)"
    using ok by (rule build_params_cases)
  have "int (py_len prompt) \<le> l"
    using c
  proof
    assume "over_limit m (prompt_for b fmt) = None \<and> prompt = prompt_for b fmt"
    then show ?thesis using over_limit_None [OF _ lim(1)] lim(2) by auto
  next
    assume "\<exists>limit. over_limit m (prompt_for b fmt) = Some limit \<and> \<not> (fmt = VOICE \<and> has_script b) \<and>
        prompt = py_rstrip (str_slice_to (limit - 1) (prompt_for b fmt)) @ ellipsis"
    moreover have "over_limit m (prompt_for b fmt) = Some limit \<Longrightarrow> limit = l" for limit
      using lim by (auto simp: over_limit_def split: if_splits)
    ultimately show ?thesis using cut_prompt_length [OF lim(2)] by auto
  qed
  with finish_params_prompt [OF g] show ?thesis by blast
qed

lemma build_params_script_verbatim:
  assumes ok: "build_params p b VOICE m = Inr (ps, ws, None)" and s: "has_script b"
  shows "map_of ps ''prompt'' = Some (JStr (voice_script b))"
proof -
  obtain params ws0 ws1 prompt where g: "finish_params m params ws1 prompt = (ps, ws)"
    and c: "over_limit m (prompt_for b VOICE) = None \<and> prompt = prompt_for b VOICE \<or>
     (\<exists>limit. over_limit m (prompt_for b VOICE) = Some limit \<and> \<not> (VOICE = VOICE \<and> has_script b) \<and>
        prompt = py_rstrip (str_slice_to (limit - 1) (prompt_for b VOICE)) @ ellipsis)"
    using ok by (rule build_params_cases)
  from c s have "prompt = voice_script b" by simp
  with finish_params_prompt [OF g] show ?thesis by simp
qed

end
