(* ===== verification/Planner.thy ===== *)
theory Planner
  imports Params
begin

text \<open>
  Model selection and plan construction (\<open>app/services/planner.py\<close>): which models can serve a
  format, the order of preference between them, fitting the selection into the budget, and the
  steps of the draft.
\<close>

section \<open>Data\<close>

definition MEDIA_PARAMS_FROM_IMAGES :: "string list" where
  "MEDIA_PARAMS_FROM_IMAGES = [''image_urls'', ''image_input'', ''first_frame_url'', ''reference_image_urls'']"

definition MAX_REPORTED_ALTERNATIVES :: nat where
  "MAX_REPORTED_ALTERNATIVES = 6"

definition MAX_UPGRADE_ROUNDS :: nat where
  "MAX_UPGRADE_ROUNDS = 20"

record candidate =
  c_spec :: model_spec
  c_tier :: nat
  c_bounds :: price_bounds
  c_params :: obj
  c_param_warnings :: "msg list"
  c_price_unknown :: bool

definition c_key :: "candidate \<Rightarrow> string" where
  "c_key c = m_key (c_spec c)"

definition c_cost :: "candidate \<Rightarrow> money" where
  "c_cost c = (if c_price_unknown c then 0 else pb_upper (c_bounds c))"

record format_analysis =
  fa_fmt :: content_format
  fa_type :: string
  fa_candidates :: "candidate list"
  fa_rejected :: "rejected_candidate list"

record plan_draft =
  d_steps :: "plan_step list"
  d_warnings :: "msg list"
  d_dropped_formats :: "content_format list"

definition draft_total_cost :: "plan_draft \<Rightarrow> money" where
  "draft_total_cost d = steps_estimated_cost (d_steps d)"

type_synonym overrides = "((string \<times> string) \<times> money) list"
type_synonym selection = "(content_format, candidate) dict"
type_synonym analyses = "(content_format, format_analysis) dict"

section \<open>Idempotency keys\<close>

text \<open>\<open>repr(sorted((k, repr(v)) for k, v in params.items()))\<close>\<close>

definition params_repr :: "obj \<Rightarrow> string" where
  "params_repr params =
     ''['' @ py_join '', '' (map (\<lambda>(k, r). ''('' @ repr_str k @ '', '' @ repr_str r @ '')'')
        (sort (map (\<lambda>(k, v). (k, py_repr v)) params))) @ '']''"

definition make_idempotency_key :: "crypto \<Rightarrow> string \<Rightarrow> string \<Rightarrow> string \<Rightarrow> obj \<Rightarrow> string" where
  "make_idempotency_key h plan_id step_id model params =
     (let digest = take 16 (sha256_hex h (params_repr params))
      in uuid5_str h (plan_id @ ''|'' @ step_id @ ''|'' @ model @ ''|'' @ digest))"

definition capabilities_fingerprint :: "crypto \<Rightarrow> obj \<Rightarrow> string" where
  "capabilities_fingerprint h payload =
     take 16 (sha256_hex h (json_dumps True
       (case map_of payload ''models'' of None \<Rightarrow> JObj [] | Some v \<Rightarrow> v)))"

section \<open>Candidate analysis\<close>

definition available_params :: "policy \<Rightarrow> brief \<Rightarrow> string list" where
  "available_params p b =
     po_suppliable_params p
     @ (if b_reference_image_urls b \<noteq> [] then MEDIA_PARAMS_FROM_IMAGES else [])
     @ (case b_landing_url b of Some (c # cs) \<Rightarrow> [''source_url''] | _ \<Rightarrow> [])"

definition preference_key :: "selection_strategy \<Rightarrow> candidate \<Rightarrow> nat \<times> money \<times> string" where
  "preference_key strategy c =
     (c_tier c, if strategy = QUALITY then - c_cost c else c_cost c, c_key c)"

definition override_bounds :: "money \<Rightarrow> price_bounds" where
  "override_bounds x = \<lparr>pb_amounts = Some (x, x), pb_basis = Msg ''exact_price'' [JFloat x]\<rparr>"

text \<open>One turn of the loop over the models of a type.\<close>

fun analyse_model ::
  "policy \<Rightarrow> brief \<Rightarrow> content_format \<Rightarrow> overrides \<Rightarrow> model_spec
     \<Rightarrow> candidate list \<times> candidate list \<times> rejected_candidate list
     \<Rightarrow> exn + candidate list \<times> candidate list \<times> rejected_candidate list" where
  "analyse_model p b fmt ov spec (candidates, deferred, rejected) =
     (if is_excluded p (m_key spec) then
        Inr (candidates, deferred,
             rejected @ [\<lparr>rc_model = m_key spec, rc_reason = Msg ''excluded_by_policy'' []\<rparr>])
      else if missing_required spec (available_params p b) \<noteq> [] then
        Inr (candidates, deferred,
             rejected @ [\<lparr>rc_model = m_key spec,
               rc_reason = Msg ''missing_params'' [jstrs (missing_required spec (available_params p b))]\<rparr>])
      else
        case build_params p b fmt spec of
          Inl e \<Rightarrow> Inl e
        | Inr (params, warnings, Some reason) \<Rightarrow>
            Inr (candidates, deferred, rejected @ [\<lparr>rc_model = m_key spec, rc_reason = reason\<rparr>])
        | Inr (params, warnings, None) \<Rightarrow>
            (let bounds = (case map_of ov (format_value fmt, m_key spec) of
                   Some x \<Rightarrow> override_bounds x
                 | None \<Rightarrow> price_bounds_of spec params (po_per_1000_chars_types p));
                 c = \<lparr>c_spec = spec, c_tier = tier_of p (format_value fmt) (m_key spec),
                      c_bounds = bounds, c_params = params, c_param_warnings = warnings,
                      c_price_unknown = (\<not> pb_known bounds)\<rparr>
             in Inr (if pb_known bounds then (candidates @ [c], deferred, rejected)
                     else (candidates, deferred @ [c], rejected))))"

fun analyse_loop ::
  "policy \<Rightarrow> brief \<Rightarrow> content_format \<Rightarrow> overrides \<Rightarrow> model_spec list
     \<Rightarrow> candidate list \<times> candidate list \<times> rejected_candidate list
     \<Rightarrow> exn + candidate list \<times> candidate list \<times> rejected_candidate list" where
  "analyse_loop p b fmt ov [] acc = Inr acc"
| "analyse_loop p b fmt ov (spec # specs) acc =
     (case analyse_model p b fmt ov spec acc of
        Inl e \<Rightarrow> Inl e
      | Inr acc' \<Rightarrow> analyse_loop p b fmt ov specs acc')"

definition analyse ::
  "capabilities \<Rightarrow> policy \<Rightarrow> brief \<Rightarrow> content_format \<Rightarrow> overrides \<Rightarrow> exn + format_analysis" where
  "analyse caps p b fmt ov =
     (case analyse_loop p b fmt ov (models_for caps (format_value fmt)) ([], [], []) of
        Inl e \<Rightarrow> Inl e
      | Inr (candidates, deferred, rejected) \<Rightarrow>
          (let sorted_c = sort_key (preference_key (b_strategy b)) candidates
           in Inr (if sorted_c = [] \<and> deferred \<noteq> [] then
                \<lparr>fa_fmt = fmt, fa_type = format_value fmt,
                 fa_candidates = sort_key (\<lambda>c. (c_tier c, c_key c)) deferred, fa_rejected = rejected\<rparr>
              else
                \<lparr>fa_fmt = fmt, fa_type = format_value fmt, fa_candidates = sorted_c,
                 fa_rejected = rejected @
                   map (\<lambda>c. \<lparr>rc_model = c_key c, rc_reason = pb_basis (c_bounds c)\<rparr>) deferred\<rparr>)))"

section \<open>Fitting the budget\<close>

text \<open>\<open>total()\<close>\<close>

definition selection_total :: "selection \<Rightarrow> money" where
  "selection_total sel = round4 (sum_list (map (\<lambda>(f, c). c_cost c) sel))"

fun baseline :: "analyses \<Rightarrow> content_format list \<Rightarrow> selection \<Rightarrow> exn + selection" where
  "baseline an [] sel = Inr sel"
| "baseline an (f # fs) sel =
     (case Option.bind (map_of an f) (\<lambda>a. py_min_by (\<lambda>c. (c_cost c, c_tier c, c_key c)) (fa_candidates a)) of
        None \<Rightarrow> Inl (ValueError (Text ''min() arg is an empty sequence''))
      | Some c \<Rightarrow> baseline an fs (AList.update f c sel))"

definition victim_of :: "policy \<Rightarrow> selection \<Rightarrow> content_format option" where
  "victim_of p sel = py_max_by (\<lambda>f. (priority_of p f, f)) (map fst sel)"

lemma length_delete_less:
  "k \<in> fst ` set al \<Longrightarrow> length (AList.delete k al) < length al"
proof (induction al)
  case (Cons p al)
  show ?case
  proof (cases "fst p = k")
    case True
    then have "length (AList.delete k (p # al)) \<le> length al"
      by (cases p) (simp add: AList.delete_eq)
    then show ?thesis by simp
  next
    case False
    with Cons show ?thesis by (cases p) (auto simp: AList.delete_eq)
  qed
qed simp

text \<open>Drop the lowest-priority formats until the baseline fits. The accumulator holds the
  dropped formats and the warnings.\<close>

function drop_loop ::
  "policy \<Rightarrow> money \<Rightarrow> selection \<Rightarrow> content_format list \<times> msg list
     \<Rightarrow> selection \<times> content_format list \<times> msg list" where
  "drop_loop p spendable sel (dropped, warnings) =
     (if selection_total sel \<le> spendable then (sel, dropped, warnings)
      else case victim_of p sel of
             None \<Rightarrow> (sel, dropped, warnings)
           | Some v \<Rightarrow>
               drop_loop p spendable (AList.delete v sel)
                 (dropped @ [v],
                  warnings @ [Msg ''format_dropped'' [JStr (format_value v),
                    JFloat (case map_of sel v of Some c \<Rightarrow> c_cost c | None \<Rightarrow> 0), JFloat spendable]]))"
  by pat_completeness auto
termination
proof (relation "measure (\<lambda>(p, sp, sel, acc). length sel)", goal_cases)
  case (2 p spendable sel dropped warnings v)
  from 2(2) [THEN sym] have "v \<in> set (map fst sel)"
    unfolding victim_of_def by (metis py_max_by_in)
  then show ?case by (auto intro: length_delete_less)
qed simp

declare drop_loop.simps [simp del]

text \<open>The first candidate, in order of preference, that fits next to the others; the search ends
  at the current choice.\<close>

fun pick_upgrade :: "candidate list \<Rightarrow> string \<Rightarrow> money \<Rightarrow> money \<Rightarrow> candidate option" where
  "pick_upgrade [] current others spendable = None"
| "pick_upgrade (c # cs) current others spendable =
     (if c_key c = current then None
      else if others + c_cost c \<le> spendable then Some c
      else pick_upgrade cs current others spendable)"

definition upgrade_format :: "analyses \<Rightarrow> money \<Rightarrow> content_format \<Rightarrow> selection \<times> bool \<Rightarrow> selection \<times> bool" where
  "upgrade_format an spendable f = (\<lambda>(sel, changed).
     case (map_of sel f, map_of an f) of
       (Some current, Some a) \<Rightarrow>
         (case pick_upgrade (fa_candidates a) (c_key current)
                 (selection_total sel - c_cost current) spendable of
            Some c \<Rightarrow> (AList.update f c sel, True)
          | None \<Rightarrow> (sel, changed))
     | _ \<Rightarrow> (sel, changed))"

definition upgrade_round :: "analyses \<Rightarrow> money \<Rightarrow> content_format list \<Rightarrow> selection \<Rightarrow> selection \<times> bool" where
  "upgrade_round an spendable ordered sel =
     fold (upgrade_format an spendable) (filter (\<lambda>f. f \<in> set (map fst sel)) ordered) (sel, False)"

fun upgrade_rounds :: "nat \<Rightarrow> analyses \<Rightarrow> money \<Rightarrow> content_format list \<Rightarrow> selection \<Rightarrow> selection" where
  "upgrade_rounds 0 an spendable ordered sel = sel"
| "upgrade_rounds (Suc n) an spendable ordered sel =
     (let (sel', changed) = upgrade_round an spendable ordered sel
      in if changed then upgrade_rounds n an spendable ordered sel' else sel')"

definition fit_to_budget ::
  "policy \<Rightarrow> analyses \<Rightarrow> brief \<Rightarrow> money \<Rightarrow> exn + selection \<times> content_format list \<times> msg list" where
  "fit_to_budget p an b spendable =
     (let ordered = sort_key (priority_of p) (map fst an) in
      case baseline an ordered [] of
        Inl e \<Rightarrow> Inl e
      | Inr base \<Rightarrow>
          (let (sel, dropped, warnings) = drop_loop p spendable base ([], [])
           in if sel = [] \<and> dropped = [] then Inr (sel, dropped, warnings)
              else if b_strategy b \<noteq> CHEAPEST
              then Inr (upgrade_rounds MAX_UPGRADE_ROUNDS an spendable ordered sel, dropped, warnings)
              else Inr (sel, dropped, warnings)))"

section \<open>Steps\<close>

definition rejected_reason :: "candidate \<Rightarrow> candidate \<Rightarrow> msg" where
  "rejected_reason chosen other =
     (if c_price_unknown other then Msg ''price_unknown_lower_priority'' [JInt (int (c_tier other))]
      else if c_tier other < c_tier chosen then
        Msg ''better_but_over_budget'' [JInt (int (c_tier other)), JFloat (c_cost other)]
      else if c_cost other < c_cost chosen then
        Msg ''cheaper_but_lower_priority'' [JFloat (c_cost other), JInt (int (c_tier other))]
      else Msg ''more_expensive'' [JFloat (c_cost other), JInt (int (c_tier other))])"

definition step_id_of :: "content_format \<Rightarrow> string" where
  "step_id_of f = format_value f @ ''-1''"

definition to_step :: "crypto \<Rightarrow> content_format \<Rightarrow> candidate \<Rightarrow> format_analysis \<Rightarrow> string \<Rightarrow> plan_step" where
  "to_step h fmt c a plan_id =
     (let rejected = fa_rejected a
            @ map (\<lambda>other. \<lparr>rc_model = c_key other, rc_reason = rejected_reason c other\<rparr>)
                (filter (\<lambda>other. c_key other \<noteq> c_key c) (fa_candidates a))
      in \<lparr>ps_step_id = step_id_of fmt, ps_format = fmt, ps_kind = GENERATION,
          ps_type = Some (format_value fmt), ps_model = Some (c_key c),
          ps_model_description = m_description (c_spec c), ps_params = c_params c,
          ps_idempotency_key = make_idempotency_key h plan_id (step_id_of fmt) (c_key c) (c_params c),
          ps_estimated_cost_rub = round4 (c_cost c),
          ps_cost_source = (if c_price_unknown c then ''pending_estimate'' else ''capabilities''),
          ps_cost_basis = pb_basis (c_bounds c),
          ps_reason = Msg ''selected'' [JStr (c_key c), JStr (format_value fmt), jstrs (m_required (c_spec c)),
            JInt (int (c_tier c)), JBool (c_price_unknown c), JInt (int (length (fa_candidates a))),
            JInt (int (length (fa_rejected a)))],
          ps_rejected_alternatives = take MAX_REPORTED_ALTERNATIVES rejected,
          ps_warnings = c_param_warnings c, ps_local_output = None\<rparr>)"

definition LOCAL_DESCRIPTION :: string where
  "LOCAL_DESCRIPTION = bytes
    [208, 155, 208, 190, 208, 186, 208, 176, 208, 187, 209, 140, 208, 189, 208, 176, 209,
     143, 32, 208, 179, 208, 181, 208, 189, 208, 181, 209, 128, 208, 176, 209, 134, 208, 184,
     209, 143, 32, 209, 130, 208, 181, 208, 186, 209, 129, 209, 130, 208, 176, 32, 208, 177,
     208, 181, 208, 183, 32, 208, 190, 208, 177, 209, 128, 208, 176, 209, 137, 208, 181, 208,
     189, 208, 184, 209, 143, 32, 208, 186, 32, 208, 191, 208, 187, 208, 176, 209, 130, 208,
     189, 208, 190, 208, 188, 209, 131, 32, 65, 80, 73]"

definition local_step :: "crypto \<Rightarrow> brief \<Rightarrow> content_format \<Rightarrow> string \<Rightarrow> plan_step" where
  "local_step h b fmt plan_id =
     \<lparr>ps_step_id = step_id_of fmt, ps_format = fmt, ps_kind = LOCAL, ps_type = None, ps_model = None,
      ps_model_description = LOCAL_DESCRIPTION, ps_params = [],
      ps_idempotency_key = make_idempotency_key h plan_id (step_id_of fmt) ''local'' [],
      ps_estimated_cost_rub = 0, ps_cost_source = ''local'', ps_cost_basis = Msg ''local_step'' [],
      ps_reason = Msg ''local_fallback'' [JStr (format_value fmt)], ps_rejected_alternatives = [],
      ps_warnings = [], ps_local_output = Some (marketing_copy b)\<rparr>"

definition local_text_step :: "crypto \<Rightarrow> brief \<Rightarrow> string \<Rightarrow> plan_step" where
  "local_text_step h b plan_id = local_step h b TEXT plan_id"

section \<open>The draft\<close>

fun analyse_formats ::
  "capabilities \<Rightarrow> policy \<Rightarrow> brief \<Rightarrow> overrides \<Rightarrow> content_format list \<Rightarrow> analyses \<times> msg list
     \<Rightarrow> exn + analyses \<times> msg list" where
  "analyse_formats caps p b ov [] acc = Inr acc"
| "analyse_formats caps p b ov (f # fs) (an, warnings) =
     (if \<not> has_models_for caps (format_value f) then
        analyse_formats caps p b ov fs (an, warnings @ [Msg ''no_models_of_type''
          [JStr (format_value f), jstrs (sort (map fst (cap_models_by_type caps)))]])
      else case analyse caps p b f ov of
        Inl e \<Rightarrow> Inl e
      | Inr a \<Rightarrow>
          if fa_candidates a = [] then
            analyse_formats caps p b ov fs (an, warnings @ [Msg ''no_compatible_model''
              [JStr (format_value f), JInt (int (length (fa_rejected a)))]])
          else analyse_formats caps p b ov fs (AList.update f a an, warnings))"

definition build_steps :: "crypto \<Rightarrow> analyses \<Rightarrow> string \<Rightarrow> selection \<Rightarrow> plan_step list" where
  "build_steps h an plan_id sel =
     List.map_filter (\<lambda>(f, c). map_option (\<lambda>a. to_step h f c a plan_id) (map_of an f)) sel"

definition has_format :: "content_format \<Rightarrow> plan_step list \<Rightarrow> bool" where
  "has_format f steps \<longleftrightarrow> list_ex (\<lambda>s. ps_format s = f) steps"

definition build ::
  "crypto \<Rightarrow> capabilities \<Rightarrow> policy \<Rightarrow> brief \<Rightarrow> string \<Rightarrow> money \<Rightarrow> overrides \<Rightarrow> exn + plan_draft" where
  "build h caps p b plan_id spendable ov =
     (let ordered = sort_key (priority_of p) (b_formats b) in
      case analyse_formats caps p b ov ordered ([], []) of
        Inl e \<Rightarrow> Inl e
      | Inr (an, warnings) \<Rightarrow>
     (case fit_to_budget p an b spendable of
        Inl e \<Rightarrow> Inl e
      | Inr (sel, dropped, fit_warnings) \<Rightarrow>
          (let steps = build_steps h an plan_id sel;
               need_local = (TEXT \<in> set (b_formats b) \<and> \<not> has_format TEXT steps);
               steps2 = steps @ (if need_local then [local_step h b TEXT plan_id] else []);
               warnings2 = warnings @ fit_warnings @ (if need_local then [Msg ''local_text'' []] else [])
           in Inr \<lparr>d_steps = sort_key (\<lambda>s. priority_of p (ps_format s)) steps2,
                   d_warnings = warnings2, d_dropped_formats = dropped\<rparr>)))"

definition ceil_rub :: "money \<Rightarrow> money" where
  "ceil_rub x = of_int \<lceil>x * 100\<rceil> / 100"

end
