(* ===== verification/Store.thy ===== *)
theory Store
  imports Domain
begin

text \<open>
  The SQLite storage (\<open>app/repositories/\<close>): one record per table row, the database as the lists of
  rows in insertion (rowid) order, and one definition per repository operation. Every statement
  runs under the connection's lock and commits, so each operation that issues one statement is one
  atomic step. Plans and jobs are stored as documents; encoding them to JSON and back is the
  identity here. Timestamps are compared as their ISO strings, whose order is the order of time;
  they are numbers here, and "now" is an argument.

  Contracts, stated as locales and interpreted below on these definitions: a keyed table with
  upsert, an exclusive claim by conditional update, and a ledger whose entries are only added.
\<close>

section \<open>Tables\<close>

record plan_row =
  pr_plan_id :: string
  pr_created_at :: time
  pr_mode :: string
  pr_status :: plan_status
  pr_budget_rub :: money
  pr_total_estimated_rub :: money
  pr_job_id :: "string option"
  pr_document :: plan

record job_row =
  jr_job_id :: string
  jr_plan_id :: string
  jr_status :: job_status
  jr_created_at :: time
  jr_document :: job

record step_row =
  sx_idempotency_key :: string
  sx_plan_id :: string
  sx_step_id :: string
  sx_job_id :: string
  sx_request_hash :: string
  sx_generation_id :: "int option"
  sx_status :: step_status
  sx_actual_cost_rub :: money
  sx_updated_at :: time

record stored_response =
  sr_status_code :: int
  sr_headers :: "(string \<times> string) list"
  sr_body :: json

record idem_row =
  ik_key :: string
  ik_endpoint :: string
  ik_request_hash :: string
  ik_response :: "stored_response option" \<comment> \<open>\<open>None\<close> while \<open>response_body\<close> is NULL\<close>
  ik_created_at :: time
  ik_completed_at :: "time option"

record upload_row =
  mu_url :: string
  mu_filename :: string
  mu_kind :: string
  mu_size_bytes :: int
  mu_uploaded_at :: time
  mu_expires_at :: time

record webhook_row =
  wh_generation_id :: "int option"
  wh_event :: string
  wh_received_at :: time
  wh_payload :: obj

record db =
  t_plans :: "plan_row list"
  t_jobs :: "job_row list"
  t_steps :: "step_row list"
  t_idem :: "idem_row list"
  t_uploads :: "upload_row list"
  t_webhooks :: "webhook_row list"

definition empty_db :: db where
  "empty_db = \<lparr>t_plans = [], t_jobs = [], t_steps = [], t_idem = [], t_uploads = [], t_webhooks = []\<rparr>"

type_synonym 'a dbop = "(db, exn, 'a) eff"

text \<open>\<open>INSERT ... ON CONFLICT(key) DO UPDATE SET ...\<close>\<close>

fun upsert :: "('r \<Rightarrow> 'k) \<Rightarrow> ('r \<Rightarrow> 'r) \<Rightarrow> 'r \<Rightarrow> 'r list \<Rightarrow> 'r list" where
  "upsert key upd row [] = [row]"
| "upsert key upd row (r # rs) = (if key r = key row then upd r # rs else r # upsert key upd row rs)"

text \<open>\<open>UPDATE ... WHERE P\<close> and its row count\<close>

definition sql_update :: "('r \<Rightarrow> bool) \<Rightarrow> ('r \<Rightarrow> 'r) \<Rightarrow> 'r list \<Rightarrow> 'r list \<times> nat" where
  "sql_update P f rs = (map (\<lambda>r. if P r then f r else r) rs, length (filter P rs))"

text \<open>\<open>DELETE ... WHERE P\<close> and its row count\<close>

definition sql_delete :: "('r \<Rightarrow> bool) \<Rightarrow> 'r list \<Rightarrow> 'r list \<times> nat" where
  "sql_delete P rs = (filter (\<lambda>r. \<not> P r) rs, length (filter P rs))"

lemma find_upsert:
  assumes "\<And>r. key (upd r) = key r"
  shows "find (\<lambda>r. key r = k) (upsert key upd row rs) =
     (if k = key row then Some (case find (\<lambda>r. key r = k) rs of None \<Rightarrow> row | Some r \<Rightarrow> upd r)
      else find (\<lambda>r. key r = k) rs)"
  by (induction rs) (auto simp: assms)

lemma keys_upsert:
  assumes "\<And>r. key (upd r) = key r"
  shows "map key (upsert key upd row rs) =
     (if key row \<in> set (map key rs) then map key rs else map key rs @ [key row])"
  by (induction rs) (auto simp: assms)

lemma distinct_upsert:
  "(\<And>r. key (upd r) = key r) \<Longrightarrow> distinct (map key rs) \<Longrightarrow> distinct (map key (upsert key upd row rs))"
  by (simp add: keys_upsert)

lemma find_sql_update:
  assumes "\<And>r. key (f r) = key r"
  shows "find (\<lambda>r. key r = k) (fst (sql_update P f rs)) =
     map_option (\<lambda>r. if P r then f r else r) (find (\<lambda>r. key r = k) rs)"
  by (induction rs) (auto simp: sql_update_def assms)

lemma keys_sql_update:
  "(\<And>r. key (f r) = key r) \<Longrightarrow> map key (fst (sql_update P f rs)) = map key rs"
  by (induction rs) (auto simp: sql_update_def)

lemma find_distinct:
  "distinct (map key rs) \<Longrightarrow> r \<in> set rs \<Longrightarrow> find (\<lambda>x. key x = key r) rs = Some r"
  by (induction rs) auto

lemma count_distinct:
  assumes "distinct (map key rs)"
  shows "length (filter (\<lambda>r. key r = k \<and> Q r) rs) =
     (case find (\<lambda>r. key r = k) rs of None \<Rightarrow> 0 | Some r \<Rightarrow> if Q r then 1 else 0)"
  using assms
proof (induction rs)
  case (Cons r rs)
  show ?case
  proof (cases "key r = k")
    case True
    with Cons.prems have "filter (\<lambda>r. key r = k \<and> Q r) rs = []"
      by (auto simp: filter_empty_conv image_iff)
    with True show ?thesis by simp
  qed (use Cons in simp)
qed simp

section \<open>Plans (\<open>repositories/plans.py\<close>)\<close>

definition plan_row_of :: "plan \<Rightarrow> plan_row" where
  "plan_row_of p = \<lparr>pr_plan_id = p_plan_id p, pr_created_at = p_created_at p, pr_mode = p_mode p,
     pr_status = p_status p, pr_budget_rub = p_budget_rub p,
     pr_total_estimated_rub = p_total_estimated_rub p, pr_job_id = p_job_id p, pr_document = p\<rparr>"

definition plans_save :: "plan \<Rightarrow> unit dbop" where
  "plans_save p = modify (\<lambda>d. d\<lparr>t_plans := upsert pr_plan_id
     (\<lambda>r. r\<lparr>pr_status := p_status p, pr_total_estimated_rub := p_total_estimated_rub p,
            pr_job_id := p_job_id p, pr_document := p\<rparr>) (plan_row_of p) (t_plans d)\<rparr>)"

definition plan_at :: "db \<Rightarrow> string \<Rightarrow> plan option" where
  "plan_at d pid = map_option pr_document (find (\<lambda>r. pr_plan_id r = pid) (t_plans d))"

definition plans_get :: "string \<Rightarrow> plan option dbop" where
  "plans_get pid = gets (\<lambda>d. plan_at d pid)"

definition plans_list_recent :: "nat \<Rightarrow> plan list dbop" where
  "plans_list_recent limit =
     gets (\<lambda>d. map pr_document (take limit (sort_key (\<lambda>r. - pr_created_at r) (t_plans d))))"

definition plans_attach_job :: "string \<Rightarrow> string \<Rightarrow> plan_status \<Rightarrow> unit dbop" where
  "plans_attach_job pid jid status = modify (\<lambda>d. d\<lparr>t_plans := fst (sql_update (\<lambda>r. pr_plan_id r = pid)
     (\<lambda>r. r\<lparr>pr_job_id := Some jid, pr_status := status\<rparr>) (t_plans d))\<rparr>)"

section \<open>Jobs (\<open>repositories/jobs.py\<close>)\<close>

definition job_row_of :: "job \<Rightarrow> job_row" where
  "job_row_of j = \<lparr>jr_job_id = j_job_id j, jr_plan_id = j_plan_id j, jr_status = j_status j,
     jr_created_at = j_created_at j, jr_document = j\<rparr>"

text \<open>The foreign key is checked when the row is inserted; an update leaves \<open>plan_id\<close> alone.\<close>

definition jobs_save :: "job \<Rightarrow> unit dbop" where
  "jobs_save j = (\<lambda>d.
     if find (\<lambda>r. jr_job_id r = j_job_id j) (t_jobs d) = None
        \<and> find (\<lambda>r. pr_plan_id r = j_plan_id j) (t_plans d) = None
     then (Inl (IntegrityError (Text ''FOREIGN KEY constraint failed'')), d)
     else (Inr (), d\<lparr>t_jobs := upsert jr_job_id (\<lambda>r. r\<lparr>jr_status := j_status j, jr_document := j\<rparr>)
             (job_row_of j) (t_jobs d)\<rparr>))"

definition job_at :: "db \<Rightarrow> string \<Rightarrow> job option" where
  "job_at d jid = map_option jr_document (find (\<lambda>r. jr_job_id r = jid) (t_jobs d))"

definition jobs_get :: "string \<Rightarrow> job option dbop" where
  "jobs_get jid = gets (\<lambda>d. job_at d jid)"

text \<open>\<open>ORDER BY created_at DESC LIMIT 1\<close>; between equal instants the first row is taken.\<close>

definition jobs_get_by_plan :: "string \<Rightarrow> job option dbop" where
  "jobs_get_by_plan pid = gets (\<lambda>d. map_option jr_document
     (py_max_by jr_created_at (filter (\<lambda>r. jr_plan_id r = pid) (t_jobs d))))"

text \<open>The lock: at most one caller sees the row change from queued to running.\<close>

definition claim_for_execution :: "string \<Rightarrow> time \<Rightarrow> bool dbop" where
  "claim_for_execution jid now = (\<lambda>d.
     let (rows, changed) = sql_update (\<lambda>r. jr_job_id r = jid \<and> jr_status r = JOB_QUEUED)
           (\<lambda>r. r\<lparr>jr_status := JOB_RUNNING,
                  jr_document := (jr_document r)\<lparr>j_status := JOB_RUNNING, j_started_at := Some now\<rparr>\<rparr>) (t_jobs d)
     in (Inr (changed = 1), d\<lparr>t_jobs := rows\<rparr>))"

definition jobs_requeue :: "string \<Rightarrow> unit dbop" where
  "jobs_requeue jid = modify (\<lambda>d. d\<lparr>t_jobs := fst (sql_update (\<lambda>r. jr_job_id r = jid)
     (\<lambda>r. r\<lparr>jr_status := JOB_QUEUED, jr_document := (jr_document r)\<lparr>j_status := JOB_QUEUED\<rparr>\<rparr>) (t_jobs d))\<rparr>)"

definition unfinished_job_ids :: "string list dbop" where
  "unfinished_job_ids = gets (\<lambda>d. map jr_job_id (sort_key jr_created_at
     (filter (\<lambda>r. jr_status r \<in> {JOB_QUEUED, JOB_RUNNING}) (t_jobs d))))"

definition find_by_generation :: "int \<Rightarrow> (job \<times> string) option dbop" where
  "find_by_generation gid = gets (\<lambda>d.
     case find (\<lambda>r. sx_generation_id r = Some gid) (t_steps d) of
       None \<Rightarrow> None
     | Some r \<Rightarrow> map_option (\<lambda>j. (j, sx_step_id r)) (job_at d (sx_job_id r)))"

section \<open>The step ledger\<close>

definition request_hash :: "crypto \<Rightarrow> obj \<Rightarrow> string" where
  "request_hash h body =
     take 32 (sha256_hex h (json_dumps False
       (JObj (filter (\<lambda>(k, v). k \<noteq> ''callback_url'') (sort_key fst body)))))"

definition step_at :: "db \<Rightarrow> string \<Rightarrow> string \<Rightarrow> step_row option" where
  "step_at d pid sid = find (\<lambda>r. (sx_plan_id r, sx_step_id r) = (pid, sid)) (t_steps d)"

definition get_step :: "string \<Rightarrow> string \<Rightarrow> step_row option dbop" where
  "get_step pid sid = gets (\<lambda>d. step_at d pid sid)"

text \<open>\<open>INSERT INTO step_executions\<close> with its two uniqueness constraints\<close>

definition insert_step :: "step_row \<Rightarrow> unit dbop" where
  "insert_step row = (\<lambda>d.
     if list_ex (\<lambda>r. sx_idempotency_key r = sx_idempotency_key row) (t_steps d)
        \<or> list_ex (\<lambda>r. (sx_plan_id r, sx_step_id r) = (sx_plan_id row, sx_step_id row)) (t_steps d)
     then (Inl (IntegrityError (Text ''UNIQUE constraint failed'')), d)
     else (Inr (), d\<lparr>t_steps := t_steps d @ [row]\<rparr>))"

definition claim_step ::
  "crypto \<Rightarrow> string \<Rightarrow> string \<Rightarrow> string \<Rightarrow> string \<Rightarrow> obj \<Rightarrow> time \<Rightarrow> step_row dbop" where
  "claim_step h pid sid jid key body now =
     (let digest = request_hash h body in
      bind (get_step pid sid) (\<lambda>existing. case existing of
        Some r \<Rightarrow>
          if sx_idempotency_key r \<noteq> key then raise (ValueError (Msg ''claimed_with_other_key'' [JStr sid, JStr pid]))
          else if sx_request_hash r \<noteq> digest then raise (ValueError (Msg ''changed_request_body'' [JStr sid, JStr pid]))
          else ret r
      | None \<Rightarrow>
          andthen (insert_step \<lparr>sx_idempotency_key = key, sx_plan_id = pid, sx_step_id = sid, sx_job_id = jid,
              sx_request_hash = digest, sx_generation_id = None, sx_status = STEP_PENDING,
              sx_actual_cost_rub = 0, sx_updated_at = now\<rparr>)
          (bind (get_step pid sid) (\<lambda>record. case record of
             None \<Rightarrow> raise AssertionFailed
           | Some r \<Rightarrow> ret r))))"

text \<open>Launched steps without a verdict inside jobs that already ended; the join finds the job's row
  by its primary key.\<close>

definition stale_steps :: "time \<Rightarrow> step_row list dbop" where
  "stale_steps updated_before = gets (\<lambda>d. sort_key sx_updated_at (filter (\<lambda>s.
     sx_status s = STEP_RUNNING \<and> sx_generation_id s \<noteq> None \<and> sx_updated_at s < updated_before \<and>
     (case find (\<lambda>r. jr_job_id r = sx_job_id s) (t_jobs d) of
        None \<Rightarrow> False | Some r \<Rightarrow> is_terminal (jr_status r))) (t_steps d)))"

definition coalesce :: "'a option \<Rightarrow> 'a option \<Rightarrow> 'a option" where
  "coalesce a b = (case a of Some x \<Rightarrow> Some x | None \<Rightarrow> b)"

definition update_step ::
  "string \<Rightarrow> string \<Rightarrow> step_status \<Rightarrow> int option \<Rightarrow> money option \<Rightarrow> time \<Rightarrow> unit dbop" where
  "update_step pid sid status gid cost now = modify (\<lambda>d. d\<lparr>t_steps := fst (sql_update
     (\<lambda>r. sx_plan_id r = pid \<and> sx_step_id r = sid)
     (\<lambda>r. r\<lparr>sx_status := status, sx_generation_id := coalesce gid (sx_generation_id r),
            sx_actual_cost_rub := (case cost of Some c \<Rightarrow> c | None \<Rightarrow> sx_actual_cost_rub r),
            sx_updated_at := now\<rparr>) (t_steps d))\<rparr>)"

definition record_webhook :: "int option \<Rightarrow> string \<Rightarrow> obj \<Rightarrow> time \<Rightarrow> unit dbop" where
  "record_webhook gid event payload now = modify (\<lambda>d. d\<lparr>t_webhooks := t_webhooks d @
     [\<lparr>wh_generation_id = gid, wh_event = event, wh_received_at = now, wh_payload = payload\<rparr>]\<rparr>)"

section \<open>API idempotency keys (\<open>repositories/idempotency.py\<close>)\<close>

definition is_complete :: "idem_row \<Rightarrow> bool" where
  "is_complete r \<longleftrightarrow> ik_response r \<noteq> None"

definition idem_at :: "db \<Rightarrow> string \<Rightarrow> idem_row option" where
  "idem_at d key = find (\<lambda>r. ik_key r = key) (t_idem d)"

definition idem_get :: "string \<Rightarrow> idem_row option dbop" where
  "idem_get key = gets (\<lambda>d. idem_at d key)"

text \<open>\<open>INSERT OR IGNORE\<close>; \<open>None\<close> means the caller owns the key\<close>

definition idem_claim :: "string \<Rightarrow> string \<Rightarrow> string \<Rightarrow> time \<Rightarrow> idem_row option dbop" where
  "idem_claim key endpoint rhash now = (\<lambda>d.
     case idem_at d key of
       None \<Rightarrow> (Inr None, d\<lparr>t_idem := t_idem d @
         [\<lparr>ik_key = key, ik_endpoint = endpoint, ik_request_hash = rhash, ik_response = None,
           ik_created_at = now, ik_completed_at = None\<rparr>]\<rparr>)
     | Some r \<Rightarrow> (Inr (Some r), d))"

definition idem_complete :: "string \<Rightarrow> stored_response \<Rightarrow> time \<Rightarrow> unit dbop" where
  "idem_complete key resp now = modify (\<lambda>d. d\<lparr>t_idem := fst (sql_update (\<lambda>r. ik_key r = key)
     (\<lambda>r. r\<lparr>ik_response := Some resp, ik_completed_at := Some now\<rparr>) (t_idem d))\<rparr>)"

definition idem_purge_older_than :: "time \<Rightarrow> nat dbop" where
  "idem_purge_older_than created_before = (\<lambda>d.
     let (rows, n) = sql_delete (\<lambda>r. ik_created_at r < created_before \<and> is_complete r) (t_idem d)
     in (Inr n, d\<lparr>t_idem := rows\<rparr>))"

definition idem_count :: "nat dbop" where
  "idem_count = gets (\<lambda>d. length (t_idem d))"

definition idem_release :: "string \<Rightarrow> unit dbop" where
  "idem_release key = modify (\<lambda>d. d\<lparr>t_idem :=
     fst (sql_delete (\<lambda>r. ik_key r = key \<and> \<not> is_complete r) (t_idem d))\<rparr>)"

section \<open>Uploads (\<open>repositories/media.py\<close>)\<close>

definition SECONDS_PER_DAY :: rat where
  "SECONDS_PER_DAY = 86400"

definition expires_in_days :: "upload_row \<Rightarrow> time \<Rightarrow> rat" where
  "expires_in_days r now = py_round 2 ((mu_expires_at r - now) / SECONDS_PER_DAY)"

definition is_expired :: "upload_row \<Rightarrow> time \<Rightarrow> bool" where
  "is_expired r now \<longleftrightarrow> mu_expires_at r \<le> now"

definition media_record :: "string \<Rightarrow> string \<Rightarrow> string \<Rightarrow> int \<Rightarrow> int \<Rightarrow> time \<Rightarrow> time dbop" where
  "media_record url filename kind size_bytes ttl_days now = (\<lambda>d.
     let expires_at = now + of_int ttl_days * SECONDS_PER_DAY
     in (Inr expires_at, d\<lparr>t_uploads := upsert mu_url
           (\<lambda>r. r\<lparr>mu_uploaded_at := now, mu_expires_at := expires_at\<rparr>)
           \<lparr>mu_url = url, mu_filename = filename, mu_kind = kind, mu_size_bytes = size_bytes,
             mu_uploaded_at = now, mu_expires_at = expires_at\<rparr> (t_uploads d)\<rparr>))"

definition upload_at :: "db \<Rightarrow> string \<Rightarrow> upload_row option" where
  "upload_at d url = find (\<lambda>r. mu_url r = url) (t_uploads d)"

definition media_get :: "string \<Rightarrow> upload_row option dbop" where
  "media_get url = gets (\<lambda>d. upload_at d url)"

definition media_find_many :: "string list \<Rightarrow> (string, upload_row) dict dbop" where
  "media_find_many urls = gets (\<lambda>d. if urls = [] then [] else
     map (\<lambda>r. (mu_url r, r)) (filter (\<lambda>r. mu_url r \<in> set urls) (t_uploads d)))"

definition media_purge_expired :: "time \<Rightarrow> nat dbop" where
  "media_purge_expired now = (\<lambda>d.
     let (rows, n) = sql_delete (\<lambda>r. mu_expires_at r \<le> now) (t_uploads d)
     in (Inr n, d\<lparr>t_uploads := rows\<rparr>))"

definition media_count :: "nat dbop" where
  "media_count = gets (\<lambda>d. length (t_uploads d))"

section \<open>Aggregates (\<open>repositories/metrics.py\<close>)\<close>

record metrics_snapshot =
  ms_plans_by_status :: "(string, nat) dict"
  ms_jobs_by_status :: "(string, nat) dict"
  ms_steps_by_status :: "(string, nat) dict"
  ms_plan_estimated_rub :: money
  ms_job_estimated_rub :: money
  ms_job_actual_rub :: money
  ms_refunded_steps :: nat
  ms_idempotency_keys :: nat
  ms_media_uploads :: nat
  ms_webhook_events :: nat

text \<open>\<open>SELECT status, COUNT(*) ... GROUP BY status\<close>: groups come sorted by the key.\<close>

definition group_count :: "string list \<Rightarrow> (string, nat) dict" where
  "group_count xs = map (\<lambda>s. (s, count_list xs s)) (sort (remdups xs))"

definition plans_total :: "metrics_snapshot \<Rightarrow> nat" where
  "plans_total m = sum_list (map snd (ms_plans_by_status m))"

definition jobs_total :: "metrics_snapshot \<Rightarrow> nat" where
  "jobs_total m = sum_list (map snd (ms_jobs_by_status m))"

definition metrics_snapshot_of :: "metrics_snapshot dbop" where
  "metrics_snapshot_of = gets (\<lambda>d.
     \<lparr>ms_plans_by_status = group_count (map (plan_status_value \<circ> pr_status) (t_plans d)),
      ms_jobs_by_status = group_count (map (job_status_value \<circ> jr_status) (t_jobs d)),
      ms_steps_by_status = group_count (map (step_status_value \<circ> sx_status) (t_steps d)),
      ms_plan_estimated_rub = round4 (sum_list (map pr_total_estimated_rub (t_plans d))),
      ms_job_estimated_rub = round4 (sum_list (map (j_estimated_cost_rub \<circ> jr_document) (t_jobs d))),
      ms_job_actual_rub = round4 (sum_list (map (j_actual_cost_rub \<circ> jr_document) (t_jobs d))),
      ms_refunded_steps = length (filter js_refunded (concat (map (j_steps \<circ> jr_document) (t_jobs d)))),
      ms_idempotency_keys = length (t_idem d), ms_media_uploads = length (t_uploads d),
      ms_webhook_events = length (t_webhooks d)\<rparr>)"

section \<open>Well-formed databases\<close>

text \<open>The uniqueness constraints of the schema, and the agreement between the promoted columns of a
  job and its document that \<open>claim_for_execution\<close> and \<open>requeue\<close> maintain by hand.\<close>

definition jobs_ok :: "job_row list \<Rightarrow> bool" where
  "jobs_ok rs \<longleftrightarrow> distinct (map jr_job_id rs) \<and>
     list_all (\<lambda>r. jr_job_id r = j_job_id (jr_document r) \<and> jr_status r = j_status (jr_document r)) rs"

definition steps_ok :: "step_row list \<Rightarrow> bool" where
  "steps_ok rs \<longleftrightarrow> distinct (map sx_idempotency_key rs) \<and> distinct (map (\<lambda>r. (sx_plan_id r, sx_step_id r)) rs)"

definition plans_ok :: "plan_row list \<Rightarrow> bool" where
  "plans_ok rs \<longleftrightarrow> distinct (map pr_plan_id rs) \<and> list_all (\<lambda>r. pr_plan_id r = p_plan_id (pr_document r)) rs"

definition db_ok :: "db \<Rightarrow> bool" where
  "db_ok d \<longleftrightarrow> plans_ok (t_plans d) \<and> jobs_ok (t_jobs d) \<and> steps_ok (t_steps d) \<and>
     distinct (map ik_key (t_idem d)) \<and> distinct (map mu_url (t_uploads d))"

lemma empty_db_ok: "db_ok empty_db"
  by (simp add: db_ok_def empty_db_def plans_ok_def jobs_ok_def steps_ok_def)

definition ok_step :: "db \<Rightarrow> db \<Rightarrow> bool" where
  "ok_step d d' \<longleftrightarrow> (db_ok d \<longrightarrow> db_ok d')"

interpretation ok: step_order ok_step
  by unfold_locales (auto simp: ok_step_def)

lemma list_all_upsert:
  "list_all P rs \<Longrightarrow> P row \<Longrightarrow> (\<And>r. key r = key row \<Longrightarrow> P r \<Longrightarrow> P (upd r)) \<Longrightarrow> list_all P (upsert key upd row rs)"
  by (induction rs) auto

lemma list_all_sql_update:
  "list_all Q rs \<Longrightarrow> (\<And>r. P r \<Longrightarrow> Q r \<Longrightarrow> Q (f r)) \<Longrightarrow> list_all Q (fst (sql_update P f rs))"
  by (induction rs) (auto simp: sql_update_def)

lemma plans_save_ok: "keeps ok_step (plans_save p)"
proof -
  have "plans_ok rs \<Longrightarrow> plans_ok (upsert pr_plan_id
     (\<lambda>r. r\<lparr>pr_status := p_status p, pr_total_estimated_rub := p_total_estimated_rub p,
            pr_job_id := p_job_id p, pr_document := p\<rparr>) (plan_row_of p) rs)" for rs
    unfolding plans_ok_def
    by (intro conjI distinct_upsert list_all_upsert) (simp_all add: plan_row_of_def)
  then show ?thesis by (simp add: keeps_def plans_save_def modify_def ok_step_def db_ok_def)
qed

lemma plans_attach_job_ok: "keeps ok_step (plans_attach_job pid jid st)"
proof -
  have "plans_ok rs \<Longrightarrow> plans_ok (fst (sql_update (\<lambda>r. pr_plan_id r = pid)
     (\<lambda>r. r\<lparr>pr_job_id := Some jid, pr_status := st\<rparr>) rs))" for rs
    unfolding plans_ok_def by (simp add: keys_sql_update list_all_sql_update)
  then show ?thesis by (simp add: keeps_def plans_attach_job_def modify_def ok_step_def db_ok_def)
qed

lemma jobs_save_ok: "keeps ok_step (jobs_save j)"
proof -
  have "jobs_ok rs \<Longrightarrow> jobs_ok (upsert jr_job_id (\<lambda>r. r\<lparr>jr_status := j_status j, jr_document := j\<rparr>) (job_row_of j) rs)" for rs
    unfolding jobs_ok_def
    by (intro conjI distinct_upsert list_all_upsert) (simp_all add: job_row_of_def)
  then show ?thesis by (simp add: keeps_def jobs_save_def ok_step_def db_ok_def)
qed

lemma claim_for_execution_ok: "keeps ok_step (claim_for_execution jid now)"
proof -
  have "jobs_ok rs \<Longrightarrow> jobs_ok (fst (sql_update (\<lambda>r. jr_job_id r = jid \<and> jr_status r = JOB_QUEUED)
     (\<lambda>r. r\<lparr>jr_status := JOB_RUNNING,
            jr_document := (jr_document r)\<lparr>j_status := JOB_RUNNING, j_started_at := Some now\<rparr>\<rparr>) rs))" for rs
    unfolding jobs_ok_def by (auto simp: keys_sql_update intro!: list_all_sql_update)
  then show ?thesis
    by (auto simp: keeps_def claim_for_execution_def ok_step_def db_ok_def Let_def case_prod_beta)
qed

lemma jobs_requeue_ok: "keeps ok_step (jobs_requeue jid)"
proof -
  have "jobs_ok rs \<Longrightarrow> jobs_ok (fst (sql_update (\<lambda>r. jr_job_id r = jid)
     (\<lambda>r. r\<lparr>jr_status := JOB_QUEUED, jr_document := (jr_document r)\<lparr>j_status := JOB_QUEUED\<rparr>\<rparr>) rs))" for rs
    unfolding jobs_ok_def by (auto simp: keys_sql_update intro!: list_all_sql_update)
  then show ?thesis by (simp add: keeps_def jobs_requeue_def modify_def ok_step_def db_ok_def)
qed

lemma insert_step_ok: "keeps ok_step (insert_step row)"
  by (auto simp: keeps_def insert_step_def ok_step_def db_ok_def steps_ok_def list_ex_iff)

lemma update_step_ok: "keeps ok_step (update_step pid sid st gid cost now)"
proof -
  have "steps_ok rs \<Longrightarrow> steps_ok (fst (sql_update (\<lambda>r. sx_plan_id r = pid \<and> sx_step_id r = sid)
     (\<lambda>r. r\<lparr>sx_status := st, sx_generation_id := coalesce gid (sx_generation_id r),
            sx_actual_cost_rub := (case cost of Some c \<Rightarrow> c | None \<Rightarrow> sx_actual_cost_rub r),
            sx_updated_at := now\<rparr>) rs))" for rs
    unfolding steps_ok_def by (simp add: keys_sql_update)
  then show ?thesis by (simp add: keeps_def update_step_def modify_def ok_step_def db_ok_def)
qed

lemma record_webhook_ok: "keeps ok_step (record_webhook gid ev pl now)"
  by (simp add: keeps_def record_webhook_def modify_def ok_step_def db_ok_def)

lemma claim_step_ok: "keeps ok_step (claim_step h pid sid jid key body now)"
  unfolding claim_step_def Let_def get_step_def
  by (intro ok.keeps_intros insert_step_ok) auto

lemma idem_ops_ok:
  "keeps ok_step (idem_claim key ep rh now)" "keeps ok_step (idem_complete key resp now)"
  "keeps ok_step (idem_release key)" "keeps ok_step (idem_purge_older_than now)"
proof -
  show "keeps ok_step (idem_claim key ep rh now)"
    by (auto simp: keeps_def idem_claim_def idem_at_def ok_step_def db_ok_def find_None_iff split: option.splits)
  show "keeps ok_step (idem_complete key resp now)"
    by (simp add: keeps_def idem_complete_def modify_def ok_step_def db_ok_def keys_sql_update)
qed (auto simp: keeps_def idem_release_def idem_purge_older_than_def modify_def ok_step_def db_ok_def
       sql_delete_def distinct_map_filter)

lemma media_ops_ok:
  "keeps ok_step (media_record url fn k sz ttl now)" "keeps ok_step (media_purge_expired now)"
  by (auto simp: keeps_def media_record_def media_purge_expired_def ok_step_def db_ok_def Let_def
       sql_delete_def distinct_map_filter intro: distinct_upsert)

lemmas store_ok = plans_save_ok plans_attach_job_ok jobs_save_ok claim_for_execution_ok jobs_requeue_ok
  claim_step_ok update_step_ok record_webhook_ok idem_ops_ok media_ops_ok

section \<open>Contracts\<close>

text \<open>A table read by its key after an upsert.\<close>

locale keyed_table =
  fixes lookup :: "'s \<Rightarrow> 'k \<Rightarrow> 'v option"
    and put :: "'v \<Rightarrow> 's \<Rightarrow> 's"
    and key :: "'v \<Rightarrow> 'k"
    and accepts :: "'s \<Rightarrow> 'v \<Rightarrow> bool"
  assumes lookup_put: "accepts s v \<Longrightarrow> lookup (put v s) k = (if k = key v then Some v else lookup s k)"
    and put_accepts: "accepts s v \<Longrightarrow> accepts (put v s) w \<longleftrightarrow> accepts s w \<or> key w = key v"
begin

lemma last_write_wins:
  "accepts s v \<Longrightarrow> key w = key v \<Longrightarrow> lookup (put w (put v s)) k = (if k = key v then Some w else lookup s k)"
  by (simp add: lookup_put put_accepts)

lemma writes_commute:
  "accepts s v \<Longrightarrow> accepts s w \<Longrightarrow> key v \<noteq> key w \<Longrightarrow>
     lookup (put w (put v s)) k = lookup (put v (put w s)) k"
  by (simp add: lookup_put put_accepts)

end

lemma map_option_find_upsert:
  assumes "\<And>r. key (upd r) = key r" and "\<And>r. doc (upd r) = v" and "doc row = v"
  shows "map_option doc (find (\<lambda>r. key r = k) (upsert key upd row rs)) =
     (if k = key row then Some v else map_option doc (find (\<lambda>r. key r = k) rs))"
  by (simp add: find_upsert assms split: option.splits)

lemma plan_at_save: "plan_at (snd (plans_save p d)) k = (if k = p_plan_id p then Some p else plan_at d k)"
proof -
  have "pr_plan_id (plan_row_of p) = p_plan_id p" "pr_document (plan_row_of p) = p"
    by (simp_all add: plan_row_of_def)
  then show ?thesis
    by (simp add: plans_save_def modify_def plan_at_def map_option_find_upsert [where v = p])
qed

interpretation plan_table: keyed_table plan_at "\<lambda>p d. snd (plans_save p d)" p_plan_id "\<lambda>d p. True"
  by unfold_locales (simp_all add: plan_at_save)

text \<open>A job row can be written when it exists or its plan does.\<close>

definition job_accepted :: "db \<Rightarrow> job \<Rightarrow> bool" where
  "job_accepted d j \<longleftrightarrow> job_at d (j_job_id j) \<noteq> None \<or> plan_at d (j_plan_id j) \<noteq> None"

lemma jobs_save_accepted:
  "job_accepted d j \<Longrightarrow> jobs_save j d =
     (Inr (), d\<lparr>t_jobs := upsert jr_job_id (\<lambda>r. r\<lparr>jr_status := j_status j, jr_document := j\<rparr>) (job_row_of j) (t_jobs d)\<rparr>)"
  by (auto simp: job_accepted_def jobs_save_def job_at_def plan_at_def)

lemma jobs_save_refused:
  "\<not> job_accepted d j \<Longrightarrow> jobs_save j d = (Inl (IntegrityError (Text ''FOREIGN KEY constraint failed'')), d)"
  by (auto simp: job_accepted_def jobs_save_def job_at_def plan_at_def)

lemma job_at_save: "job_accepted d j \<Longrightarrow>
    job_at (snd (jobs_save j d)) k = (if k = j_job_id j then Some j else job_at d k)"
  by (simp add: jobs_save_accepted job_at_def map_option_find_upsert [where v = j] job_row_of_def)

interpretation job_table: keyed_table job_at "\<lambda>j d. snd (jobs_save j d)" j_job_id job_accepted
proof
  show "job_accepted d v \<Longrightarrow> job_accepted (snd (jobs_save v d)) w \<longleftrightarrow> job_accepted d w \<or> j_job_id w = j_job_id v" for d v w
    by (auto simp: job_accepted_def job_at_save) (simp_all add: jobs_save_def plan_at_def split: if_splits)
qed (rule job_at_save)

text \<open>A conditional write used as a lock. \<open>run_claims\<close> is any sequence of attempts.\<close>

fun run_claims :: "('a \<Rightarrow> 's \<Rightarrow> bool \<times> 's) \<Rightarrow> 'a list \<Rightarrow> 's \<Rightarrow> bool list \<times> 's" where
  "run_claims claim [] s = ([], s)"
| "run_claims claim (a # as) s =
     (let (b, t) = claim a s; (bs, u) = run_claims claim as t in (b # bs, u))"

locale exclusive_claim =
  fixes claim :: "'a \<Rightarrow> 's \<Rightarrow> bool \<times> 's"
    and target :: "'a \<Rightarrow> 'k"
    and free :: "'s \<Rightarrow> 'k \<Rightarrow> bool"
    and ok_state :: "'s \<Rightarrow> bool"
  assumes claim_result: "ok_state s \<Longrightarrow> fst (claim a s) \<longleftrightarrow> free s (target a)"
    and claim_free: "ok_state s \<Longrightarrow> free (snd (claim a s)) k \<longleftrightarrow> free s k \<and> k \<noteq> target a"
    and claim_ok: "ok_state s \<Longrightarrow> ok_state (snd (claim a s))"
begin

lemma never_again:
  "ok_state s \<Longrightarrow> \<not> free s k \<Longrightarrow> run_claims claim as s = (bs, u) \<Longrightarrow>
     list_all2 (\<lambda>a b. target a = k \<longrightarrow> \<not> b) as bs"
proof (induction "as" arbitrary: s bs u)
  case (Cons a as)
  obtain b t where c: "claim a s = (b, t)" by fastforce
  obtain bs' u' where r: "run_claims claim as t = (bs', u')" by fastforce
  have "bs = b # bs'" using Cons.prems(3) c r by simp
  moreover have "ok_state t" "\<not> free t k" "b \<longleftrightarrow> free s (target a)"
    using claim_ok [OF Cons.prems(1), of a] claim_free [OF Cons.prems(1), of a k]
      claim_result [OF Cons.prems(1), of a] Cons.prems(2) c by simp_all
  ultimately show ?case using Cons.IH [of t bs'] r Cons.prems(2) by auto
qed simp

text \<open>However many attempts are made on one target, in any order and interleaved with attempts on
  others, at most one succeeds.\<close>

lemma at_most_one:
  "ok_state s \<Longrightarrow> run_claims claim as s = (bs, u) \<Longrightarrow>
     length (filter (\<lambda>(a, b). target a = k \<and> b) (zip as bs)) \<le> 1"
proof (induction "as" arbitrary: s bs u)
  case (Cons a as)
  obtain b t where c: "claim a s = (b, t)" by fastforce
  obtain bs' u' where r: "run_claims claim as t = (bs', u')" by fastforce
  have bs: "bs = b # bs'" using Cons.prems(2) c r by simp
  have t: "ok_state t" using claim_ok [OF Cons.prems(1), of a] c by simp
  show ?case
  proof (cases "target a = k \<and> b")
    case True
    then have "\<not> free t k" using claim_free [OF Cons.prems(1), of a k] c by simp
    from never_again [OF t this r] have "filter (\<lambda>(a, b). target a = k \<and> b) (zip as bs') = []"
      by (auto simp: filter_empty_conv list_all2_iff)
    with bs show ?thesis by simp
  next
    case False
    with bs Cons.IH [OF t r] show ?thesis by auto
  qed
qed simp

lemma first_wins:
  "ok_state s \<Longrightarrow> free s (target a) \<Longrightarrow> run_claims claim (a # as) s = (bs, u) \<Longrightarrow> hd bs"
  using claim_result [of s a] by (auto simp: case_prod_beta Let_def)

end

definition job_queued :: "db \<Rightarrow> string \<Rightarrow> bool" where
  "job_queued d jid \<longleftrightarrow> list_ex (\<lambda>r. jr_job_id r = jid \<and> jr_status r = JOB_QUEUED) (t_jobs d)"

definition try_execute :: "string \<times> time \<Rightarrow> db \<Rightarrow> bool \<times> db" where
  "try_execute a d = (case claim_for_execution (fst a) (snd a) d of
     (Inr b, d') \<Rightarrow> (b, d') | (Inl e, d') \<Rightarrow> (False, d'))"

lemma claim_for_execution_result:
  assumes "db_ok d"
  shows "fst (claim_for_execution jid now d) = Inr (job_queued d jid)"
proof -
  have "distinct (map jr_job_id (t_jobs d))" using assms by (simp add: db_ok_def jobs_ok_def)
  from count_distinct [OF this, of jid "\<lambda>r. jr_status r = JOB_QUEUED"]
  have "length (filter (\<lambda>r. jr_job_id r = jid \<and> jr_status r = JOB_QUEUED) (t_jobs d)) \<le> 1"
    by (auto split: option.splits)
  moreover have "job_queued d jid \<longleftrightarrow> filter (\<lambda>r. jr_job_id r = jid \<and> jr_status r = JOB_QUEUED) (t_jobs d) \<noteq> []"
    by (auto simp: job_queued_def list_ex_iff filter_empty_conv)
  ultimately have "length (filter (\<lambda>r. jr_job_id r = jid \<and> jr_status r = JOB_QUEUED) (t_jobs d)) = 1 \<longleftrightarrow> job_queued d jid"
    by (cases "filter (\<lambda>r. jr_job_id r = jid \<and> jr_status r = JOB_QUEUED) (t_jobs d)") auto
  then show ?thesis by (simp add: claim_for_execution_def sql_update_def)
qed

lemma claim_for_execution_queued:
  "job_queued (snd (claim_for_execution jid now d)) k \<longleftrightarrow> job_queued d k \<and> k \<noteq> jid"
  by (auto simp: claim_for_execution_def sql_update_def job_queued_def list_ex_iff split: if_splits)

lemma claim_for_execution_Inr: "\<exists>b d'. claim_for_execution jid now d = (Inr b, d')"
  by (simp add: claim_for_execution_def sql_update_def)

lemma try_execute_eq:
  "claim_for_execution jid now d = (Inr b, d') \<Longrightarrow> try_execute (jid, now) d = (b, d')"
  by (simp add: try_execute_def)

interpretation execution: exclusive_claim try_execute fst job_queued db_ok
proof
  fix s :: db and a :: "string \<times> time" and k
  obtain b d' where c: "claim_for_execution (fst a) (snd a) s = (Inr b, d')"
    using claim_for_execution_Inr by blast
  then have t: "try_execute a s = (b, d')" by (simp add: try_execute_def)
  show "db_ok s \<Longrightarrow> fst (try_execute a s) \<longleftrightarrow> job_queued s (fst a)"
    using claim_for_execution_result [of s "fst a" "snd a"] c t by simp
  show "job_queued (snd (try_execute a s)) k \<longleftrightarrow> job_queued s k \<and> k \<noteq> fst a"
    using claim_for_execution_queued [of "fst a" "snd a" s k] c t by simp
  show "db_ok s \<Longrightarrow> db_ok (snd (try_execute a s))"
    using keepsD [OF claim_for_execution_ok c] t by (simp add: ok_step_def)
qed

text \<open>The API's idempotency keys are claimed in the same way.\<close>

record key_claim =
  kc_key :: string
  kc_endpoint :: string
  kc_hash :: string
  kc_now :: time

definition try_key :: "key_claim \<Rightarrow> db \<Rightarrow> bool \<times> db" where
  "try_key a d = (case idem_claim (kc_key a) (kc_endpoint a) (kc_hash a) (kc_now a) d of
     (Inr None, d') \<Rightarrow> (True, d') | (_, d') \<Rightarrow> (False, d'))"

interpretation api_key: exclusive_claim try_key kc_key "\<lambda>d k. idem_at d k = None" "\<lambda>d. True"
proof
  fix s :: db and a k
  show "fst (try_key a s) \<longleftrightarrow> idem_at s (kc_key a) = None"
    by (simp add: try_key_def idem_claim_def split: option.splits)
  show "idem_at (snd (try_key a s)) k = None \<longleftrightarrow> idem_at s k = None \<and> k \<noteq> kc_key a"
  proof (cases "idem_at s (kc_key a)")
    case None
    then show ?thesis by (simp add: try_key_def idem_claim_def) (auto simp: idem_at_def find_None_iff)
  qed (auto simp: try_key_def idem_claim_def)
qed simp

section \<open>The ledger only grows\<close>

text \<open>What a later version of a ledger row keeps from an earlier one: its identity, the hash of the
  request, and a generation id once one is known.\<close>

definition same_claim :: "step_row \<Rightarrow> step_row \<Rightarrow> bool" where
  "same_claim r r' \<longleftrightarrow> sx_idempotency_key r' = sx_idempotency_key r \<and> sx_plan_id r' = sx_plan_id r \<and>
     sx_step_id r' = sx_step_id r \<and> sx_job_id r' = sx_job_id r \<and> sx_request_hash r' = sx_request_hash r \<and>
     (sx_generation_id r \<noteq> None \<longrightarrow> sx_generation_id r' \<noteq> None)"

definition ledger_grows :: "db \<Rightarrow> db \<Rightarrow> bool" where
  "ledger_grows d d' \<longleftrightarrow> (\<exists>old new. t_steps d' = old @ new \<and> list_all2 same_claim (t_steps d) old)"

lemma same_claim_refl [simp]: "same_claim r r"
  by (simp add: same_claim_def)

lemma same_claim_trans: "same_claim r s \<Longrightarrow> same_claim s t \<Longrightarrow> same_claim r t"
  by (auto simp: same_claim_def)

interpretation ledger: step_order ledger_grows
proof
  show "ledger_grows d d" for d
    unfolding ledger_grows_def by (intro exI [of _ "t_steps d"] exI [of _ "[]"]) (simp add: list_all2_refl)
  fix d e f
  assume "ledger_grows d e" "ledger_grows e f"
  then obtain o1 n1 o2 n2 where 1: "t_steps e = o1 @ n1" "list_all2 same_claim (t_steps d) o1"
    and 2: "t_steps f = o2 @ n2" "list_all2 same_claim (t_steps e) o2" by (auto simp: ledger_grows_def)
  from 1(1) 2(2) obtain x y where xy: "o2 = x @ y" "list_all2 same_claim o1 x" by (auto simp: list_all2_append1)
  have "list_all2 same_claim (t_steps d) x"
    using list_all2_trans [of same_claim same_claim same_claim, OF same_claim_trans 1(2) xy(2)] .
  then show "ledger_grows d f" unfolding ledger_grows_def using 2(1) xy(1)
    by (intro exI [of _ x] exI [of _ "y @ n2"]) simp
qed

lemma ledger_same: "t_steps d' = t_steps d \<Longrightarrow> ledger_grows d d'"
  using ledger.R_refl [of d] by (simp add: ledger_grows_def)

lemma find_list_all2:
  "list_all2 R xs ys \<Longrightarrow> (\<And>x y. R x y \<Longrightarrow> P x \<longleftrightarrow> P y) \<Longrightarrow>
     rel_option R (find P xs) (find P ys)"
  by (induction rule: list_all2_induct) auto

lemma find_append: "find P (xs @ ys) = (case find P xs of None \<Rightarrow> find P ys | Some x \<Rightarrow> Some x)"
  by (induction xs) auto

text \<open>A claimed step stays claimed, by the same key for the same request.\<close>

lemma ledger_grows_step:
  assumes "ledger_grows d d'" and "step_at d pid sid = Some r"
  shows "\<exists>r'. step_at d' pid sid = Some r' \<and> same_claim r r'"
proof -
  obtain old new where o: "t_steps d' = old @ new" "list_all2 same_claim (t_steps d) old"
    using assms(1) by (auto simp: ledger_grows_def)
  have "rel_option same_claim (find (\<lambda>r. (sx_plan_id r, sx_step_id r) = (pid, sid)) (t_steps d))
          (find (\<lambda>r. (sx_plan_id r, sx_step_id r) = (pid, sid)) old)"
    using o(2) by (rule find_list_all2) (auto simp: same_claim_def)
  then show ?thesis using assms(2) o(1) by (auto simp: step_at_def find_append option_rel_Some1)
qed

lemma insert_step_grows: "keeps ledger_grows (insert_step row)"
proof (rule keepsI)
  fix d
  have "ledger_grows d (d\<lparr>t_steps := t_steps d @ [row]\<rparr>)" unfolding ledger_grows_def
    by (intro exI [of _ "t_steps d"] exI [of _ "[row]"]) (simp add: list_all2_refl)
  then show "ledger_grows d (snd (insert_step row d))" by (simp add: insert_step_def ledger.R_refl)
qed

lemma claim_step_grows: "keeps ledger_grows (claim_step h pid sid jid key body now)"
  unfolding claim_step_def Let_def get_step_def
  by (intro ledger.keeps_intros insert_step_grows) auto

lemma update_step_grows: "keeps ledger_grows (update_step pid sid st gid cost now)"
proof (rule keepsI)
  fix d
  let ?f = "\<lambda>r. r\<lparr>sx_status := st, sx_generation_id := coalesce gid (sx_generation_id r),
            sx_actual_cost_rub := (case cost of Some c \<Rightarrow> c | None \<Rightarrow> sx_actual_cost_rub r),
            sx_updated_at := now\<rparr>"
  have "same_claim r (?f r)" for r by (auto simp: same_claim_def coalesce_def split: option.splits)
  then have "list_all2 same_claim rs (fst (sql_update P ?f rs))" for P rs
    by (induction rs) (auto simp: sql_update_def)
  then show "ledger_grows d (snd (update_step pid sid st gid cost now d))"
    unfolding ledger_grows_def update_step_def modify_def
    by (intro exI [of _ "fst (sql_update (\<lambda>r. sx_plan_id r = pid \<and> sx_step_id r = sid) ?f (t_steps d))"] exI [of _ "[]"]) simp
qed

lemma other_tables_grow:
  "keeps ledger_grows (plans_save p)" "keeps ledger_grows (plans_attach_job a b c)"
  "keeps ledger_grows (jobs_save j)" "keeps ledger_grows (claim_for_execution jid now)"
  "keeps ledger_grows (jobs_requeue jid)" "keeps ledger_grows (record_webhook gid ev pl now)"
  "keeps ledger_grows (idem_claim key ep rh now)" "keeps ledger_grows (idem_complete key resp now)"
  "keeps ledger_grows (idem_release key)" "keeps ledger_grows (idem_purge_older_than now)"
  "keeps ledger_grows (media_record url fn k sz ttl now)" "keeps ledger_grows (media_purge_expired now)"
  by (auto intro!: keepsI ledger_same simp: plans_save_def plans_attach_job_def jobs_save_def
      claim_for_execution_def jobs_requeue_def record_webhook_def idem_claim_def idem_complete_def
      idem_release_def idem_purge_older_than_def media_record_def media_purge_expired_def modify_def Let_def
      case_prod_beta split: option.splits)

lemmas store_grows = claim_step_grows update_step_grows other_tables_grow

section \<open>What claiming a step decides\<close>

lemma step_at_insert:
  "step_at d pid sid = None \<Longrightarrow> sx_plan_id row = pid \<Longrightarrow> sx_step_id row = sid \<Longrightarrow>
     step_at (d\<lparr>t_steps := t_steps d @ [row]\<rparr>) pid sid = Some row"
  by (simp add: step_at_def find_append)

text \<open>A repeat with the same key and payload returns the first reservation; anything else is refused
  and changes nothing.\<close>

lemma claim_step_repeat:
  assumes "step_at d pid sid = Some r"
  shows "claim_step h pid sid jid key body now d =
     (if sx_idempotency_key r \<noteq> key then Inl (ValueError (Msg ''claimed_with_other_key'' [JStr sid, JStr pid]))
      else if sx_request_hash r \<noteq> request_hash h body then Inl (ValueError (Msg ''changed_request_body'' [JStr sid, JStr pid]))
      else Inr r, d)"
  using assms by (simp add: claim_step_def get_step_def gets_def bind_def ret_def raise_def Let_def)

definition new_step_row :: "crypto \<Rightarrow> string \<Rightarrow> string \<Rightarrow> string \<Rightarrow> string \<Rightarrow> obj \<Rightarrow> time \<Rightarrow> step_row" where
  "new_step_row h pid sid jid key body now = \<lparr>sx_idempotency_key = key, sx_plan_id = pid, sx_step_id = sid,
     sx_job_id = jid, sx_request_hash = request_hash h body, sx_generation_id = None,
     sx_status = STEP_PENDING, sx_actual_cost_rub = 0, sx_updated_at = now\<rparr>"

lemma claim_step_new:
  assumes "step_at d pid sid = None"
  shows "claim_step h pid sid jid key body now d =
     (if list_ex (\<lambda>r. sx_idempotency_key r = key) (t_steps d)
      then (Inl (IntegrityError (Text ''UNIQUE constraint failed'')), d)
      else (Inr (new_step_row h pid sid jid key body now),
            d\<lparr>t_steps := t_steps d @ [new_step_row h pid sid jid key body now]\<rparr>))"
proof -
  let ?row = "new_step_row h pid sid jid key body now"
  have free: "\<not> list_ex (\<lambda>r. sx_plan_id r = pid \<and> sx_step_id r = sid) (t_steps d)"
    using assms by (auto simp: step_at_def find_None_iff list_ex_iff)
  have at: "step_at (d\<lparr>t_steps := t_steps d @ [?row]\<rparr>) pid sid = Some ?row"
    by (rule step_at_insert [OF assms]) (simp_all add: new_step_row_def)
  have g: "get_step pid sid s = (Inr (step_at s pid sid), s)" for s by (simp add: get_step_def gets_def)
  have i: "insert_step ?row d = (if list_ex (\<lambda>r. sx_idempotency_key r = key) (t_steps d)
      then (Inl (IntegrityError (Text ''UNIQUE constraint failed'')), d)
      else (Inr (), d\<lparr>t_steps := t_steps d @ [?row]\<rparr>))"
    using free by (simp add: insert_step_def new_step_row_def)
  show ?thesis
    unfolding claim_step_def Let_def new_step_row_def [symmetric]
    by (simp add: bind_def andthen_def g assms i at ret_def)
qed

text \<open>A claim that succeeds yields the row of the step, with the caller's key and hash.\<close>

lemma claim_step_Inr:
  assumes "claim_step h pid sid jid key body now d = (Inr r, d')"
  shows "step_at d' pid sid = Some r \<and> sx_idempotency_key r = key \<and> sx_request_hash r = request_hash h body"
    and "step_at d pid sid = Some r \<and> d' = d \<or>
      step_at d pid sid = None \<and> r = new_step_row h pid sid jid key body now \<and> d' = d\<lparr>t_steps := t_steps d @ [r]\<rparr>"
proof -
  show 2: "step_at d pid sid = Some r \<and> d' = d \<or>
      step_at d pid sid = None \<and> r = new_step_row h pid sid jid key body now \<and> d' = d\<lparr>t_steps := t_steps d @ [r]\<rparr>"
    using assms by (cases "step_at d pid sid") (auto simp: claim_step_repeat claim_step_new split: if_splits)
  show "step_at d' pid sid = Some r \<and> sx_idempotency_key r = key \<and> sx_request_hash r = request_hash h body"
  proof (cases "step_at d pid sid")
    case None
    with 2 have r: "r = new_step_row h pid sid jid key body now" "d' = d\<lparr>t_steps := t_steps d @ [r]\<rparr>" by auto
    show ?thesis unfolding r(2) using step_at_insert [OF None, of r] r(1) by (simp add: new_step_row_def)
  next
    case (Some x)
    with 2 assms show ?thesis by (auto simp: claim_step_repeat split: if_splits)
  qed
qed

lemma claim_step_Inl: "claim_step h pid sid jid key body now d = (Inl e, d') \<Longrightarrow> d' = d"
  by (cases "step_at d pid sid") (auto simp: claim_step_repeat claim_step_new split: if_splits)

text \<open>\<open>callback_url\<close> is not part of the hashed request.\<close>

lemma insort_key_filter:
  "\<not> P x \<Longrightarrow> filter P (insort_key f x xs) = filter P xs"
  by (induction xs) auto

lemma request_hash_callback:
  "request_hash h ((''callback_url'', v) # body) = request_hash h body"
  by (simp add: request_hash_def insort_key_filter)

end
