(* ===== verification/Client.thy ===== *)
theory Client
  imports Params
begin

text \<open>
  The upstream client: its protocol (\<open>app/clients/base.py\<close>), the retry policy
  (\<open>app/clients/retry.py\<close>) and the HTTP implementation (\<open>app/clients/vibe.py\<close>).

  Everything outside the program (the network, the clock, the random generator, the platform) is a
  state of type \<open>'x\<close> that the operations of a \<open>client\<close> record transform. The executor and the plan
  service are written against that record, as the source is written against the protocol class;
  \<open>http_client\<close> and the mock platform are two values of it.
\<close>

section \<open>The protocol\<close>

record 'x client =
  cl_now :: "'x \<Rightarrow> time \<times> 'x"
  cl_sleep :: "rat \<Rightarrow> 'x \<Rightarrow> 'x"
  cl_uuid :: "'x \<Rightarrow> string \<times> 'x"
  cl_capabilities :: "('x, exn, obj) eff"
  cl_me :: "('x, exn, obj) eff"
  cl_balance :: "('x, exn, obj) eff"
  cl_estimate :: "obj \<Rightarrow> ('x, exn, obj) eff"
  cl_generate :: "obj \<Rightarrow> ('x, exn, obj) eff"
  cl_generation_status :: "int option \<Rightarrow> ('x, exn, obj) eff"
  cl_voiceover_status :: "(int option \<Rightarrow> ('x, exn, obj) eff) option"
  cl_wait_for_generation :: "(int option \<Rightarrow> rat \<Rightarrow> rat \<Rightarrow> ('x, exn, obj) eff) option"
  cl_upload_media :: "string \<Rightarrow> string \<Rightarrow> string \<Rightarrow> ('x, exn, obj) eff"

definition SUCCESS_STATUSES :: "string list" where
  "SUCCESS_STATUSES = [''complete'', ''completed'', ''success'']"

definition TERMINAL_STATUSES :: "string list" where
  "TERMINAL_STATUSES = SUCCESS_STATUSES @ [''error'', ''failed'', ''cancelled'']"

text \<open>\<open>str(payload.get("status", "")).lower()\<close>\<close>

definition status_of :: "obj \<Rightarrow> string" where
  "status_of payload = py_lower (py_str (case map_of payload ''status'' of None \<Rightarrow> JStr [] | Some v \<Rightarrow> v))"

section \<open>Polling\<close>

text \<open>
  The loop three places of the source share: ask, stop on a terminal status, give up when the time
  waited reaches the deadline, otherwise sleep one interval and ask again. The result is the
  payload, or the time waited when the loop gave up. \<open>poll_fuel\<close> bounds the number of questions for
  a positive interval, which is what the settings require; out of fuel is \<open>Diverges\<close>, and
  \<open>poll_returns\<close> shows that it does not happen.
\<close>

fun poll ::
  "nat \<Rightarrow> ('s, exn, obj) eff \<Rightarrow> (rat \<Rightarrow> ('s, exn, unit) eff) \<Rightarrow> rat \<Rightarrow> rat \<Rightarrow> rat \<Rightarrow> ('s, exn, rat + obj) eff" where
  "poll 0 ask sleep interval deadline waited = raise Diverges"
| "poll (Suc fuel) ask sleep interval deadline waited =
     bind ask (\<lambda>payload.
       if status_of payload \<in> set TERMINAL_STATUSES then ret (Inr payload)
       else if deadline \<le> waited then ret (Inl waited)
       else andthen (sleep interval) (poll fuel ask sleep interval deadline (waited + interval)))"

definition poll_fuel :: "rat \<Rightarrow> rat \<Rightarrow> nat" where
  "poll_fuel interval deadline = (if interval \<le> 0 then 1 else nat \<lceil>deadline / interval\<rceil> + 2)"

definition poll_from_zero ::
  "('s, exn, obj) eff \<Rightarrow> (rat \<Rightarrow> ('s, exn, unit) eff) \<Rightarrow> rat \<Rightarrow> rat \<Rightarrow> ('s, exn, rat + obj) eff" where
  "poll_from_zero ask sleep interval deadline =
     poll (poll_fuel interval deadline) ask sleep interval deadline 0"

section \<open>Retries (\<open>clients/retry.py\<close>)\<close>

record retry_policy =
  rp_max_attempts :: nat
  rp_base_delay :: rat
  rp_max_delay :: rat
  rp_jitter :: rat

definition should_retry :: "retry_policy \<Rightarrow> vibe_error \<Rightarrow> nat \<Rightarrow> bool" where
  "should_retry pol e attempt =
     (if rp_max_attempts pol \<le> attempt then False
      else case e of
        VibeNetworkError m n \<Rightarrow> True
      | VibeAPIError a \<Rightarrow> api_retryable a
      | _ \<Rightarrow> False)"

text \<open>\<open>getattr(error, "retry_after", None)\<close>\<close>

fun retry_after_of :: "vibe_error \<Rightarrow> rat option" where
  "retry_after_of (VibeAPIError a) = api_retry_after a"
| "retry_after_of _ = None"

text \<open>The random number is \<open>random()\<close> in \<open>[0, 1)\<close>; \<open>uniform(a, b)\<close> is \<open>a + (b - a) * random()\<close>.\<close>

definition jittered :: "retry_policy \<Rightarrow> nat \<Rightarrow> rat \<Rightarrow> rat" where
  "jittered pol attempt rnd =
     (let backoff = min (rp_base_delay pol * 2 ^ (attempt - 1)) (rp_max_delay pol);
          spread = backoff * rp_jitter pol
      in max 0 (backoff + (- spread + (spread + spread) * rnd)))"

definition delay_for :: "retry_policy \<Rightarrow> nat \<Rightarrow> rat option \<Rightarrow> rat \<Rightarrow> rat" where
  "delay_for pol attempt retry_after rnd =
     (case retry_after of
        Some r \<Rightarrow> if 0 \<le> r then min r (rp_max_delay pol) else jittered pol attempt rnd
      | None \<Rightarrow> jittered pol attempt rnd)"

definition draws_random :: "rat option \<Rightarrow> bool" where
  "draws_random retry_after = (case retry_after of Some r \<Rightarrow> r < 0 | None \<Rightarrow> True)"

record 'x retry_env =
  re_random :: "'x \<Rightarrow> rat \<times> 'x"
  re_sleep :: "rat \<Rightarrow> 'x \<Rightarrow> 'x"

definition pause :: "retry_policy \<Rightarrow> 'x retry_env \<Rightarrow> vibe_error \<Rightarrow> nat \<Rightarrow> 'x \<Rightarrow> 'x" where
  "pause pol env e attempt x =
     (let (rnd, y) = (if draws_random (retry_after_of e) then re_random env x else (0, x))
      in re_sleep env (delay_for pol attempt (retry_after_of e) rnd) y)"

function retry_from ::
  "retry_policy \<Rightarrow> 'x retry_env \<Rightarrow> ('x, exn, 'a) eff \<Rightarrow> nat \<Rightarrow> 'x \<Rightarrow> (exn + 'a) \<times> 'x" where
  "retry_from pol env operation attempt x =
     (case operation x of
        (Inr a, y) \<Rightarrow> (Inr a, y)
      | (Inl e, y) \<Rightarrow>
          (case e of
             Vibe v \<Rightarrow>
               if \<not> should_retry pol v attempt then (Inl e, y)
               else retry_from pol env operation (attempt + 1) (pause pol env v attempt y)
           | _ \<Rightarrow> (Inl e, y)))"
  by pat_completeness auto
termination
  by (relation "measure (\<lambda>(pol, env, op, attempt, x). rp_max_attempts pol - attempt)")
     (auto simp: should_retry_def split: if_splits)

declare retry_from.simps [simp del]

definition with_retry :: "retry_policy \<Rightarrow> 'x retry_env \<Rightarrow> ('x, exn, 'a) eff \<Rightarrow> ('x, exn, 'a) eff" where
  "with_retry pol env operation = retry_from pol env operation 1"

section \<open>The HTTP client (\<open>clients/vibe.py\<close>)\<close>

text \<open>What \<open>httpx\<close> answers: a response, or one of its two families of exceptions. \<open>hr_json\<close> is
  \<open>None\<close> when the body does not parse.\<close>

record http_response =
  hr_status_code :: int
  hr_json :: "json option"
  hr_text :: string
  hr_reason_phrase :: string
  hr_retry_after :: "string option"

datatype http_outcome = HttpTimeout string | HttpFailure string | HttpAnswer http_response

record 'x transport =
  tr_request :: "string \<Rightarrow> string \<Rightarrow> obj option \<Rightarrow> 'x \<Rightarrow> http_outcome \<times> 'x"
  tr_upload :: "string \<Rightarrow> string \<Rightarrow> string \<Rightarrow> 'x \<Rightarrow> http_outcome \<times> 'x"
  tr_now :: "'x \<Rightarrow> time \<times> 'x"
  tr_uuid :: "'x \<Rightarrow> string \<times> 'x"
  tr_retry :: "'x retry_env"

record http_config =
  hc_retry :: retry_policy
  hc_poll_interval :: rat
  hc_poll_timeout :: rat

definition safe_json :: "http_response \<Rightarrow> obj" where
  "safe_json r =
     (case hr_json r of
        None \<Rightarrow> [(''raw_body'', JStr (py_take 500 (hr_text r)))]
      | Some (JObj kvs) \<Rightarrow> kvs
      | Some v \<Rightarrow> [(''data'', v)])"

definition header_seconds :: "http_response \<Rightarrow> rat option" where
  "header_seconds r = (case hr_retry_after r of Some (c # cs) \<Rightarrow> parse_float (c # cs) | _ \<Rightarrow> None)"

definition to_api_error :: "http_response \<Rightarrow> obj \<Rightarrow> api_error" where
  "to_api_error r payload =
     \<lparr>api_status_code = hr_status_code r,
      api_code = py_str (j_or (jget payload ''error'') (JStr (''http_'' @ show_int (hr_status_code r)))),
      api_message = py_str (j_or (j_or (jget payload ''message'') (JStr (hr_reason_phrase r))) (JStr [])),
      api_details = jget payload ''details'',
      api_request_id = jget payload ''request_id'',
      api_retry_after = (if jget payload ''retry_after'' = JNull then header_seconds r
                         else as_num (jget payload ''retry_after''))\<rparr>"

definition http_result :: "string \<Rightarrow> string \<Rightarrow> http_outcome \<Rightarrow> exn + obj" where
  "http_result meth path out =
     (case out of
        HttpTimeout d \<Rightarrow> Inl (Vibe (VibeNetworkError (Msg ''timeout'' [JStr meth, JStr path, JStr d]) 1))
      | HttpFailure d \<Rightarrow> Inl (Vibe (VibeNetworkError (Msg ''transport_error'' [JStr meth, JStr path, JStr d]) 1))
      | HttpAnswer r \<Rightarrow>
          if 400 \<le> hr_status_code r then Inl (Vibe (VibeAPIError (to_api_error r (safe_json r))))
          else Inr (safe_json r))"

definition http_attempt :: "'x transport \<Rightarrow> string \<Rightarrow> string \<Rightarrow> obj option \<Rightarrow> ('x, exn, obj) eff" where
  "http_attempt tr meth path body = (\<lambda>x. let (out, y) = tr_request tr meth path body x in (http_result meth path out, y))"

definition http_request :: "http_config \<Rightarrow> 'x transport \<Rightarrow> string \<Rightarrow> string \<Rightarrow> obj option \<Rightarrow> ('x, exn, obj) eff" where
  "http_request cfg tr meth path body = with_retry (hc_retry cfg) (tr_retry tr) (http_attempt tr meth path body)"

definition http_generate :: "http_config \<Rightarrow> 'x transport \<Rightarrow> obj \<Rightarrow> ('x, exn, obj) eff" where
  "http_generate cfg tr body =
     (if \<not> truthy (jget body ''idempotency_key'') then raise (ValueError (Msg ''generate_without_key'' []))
      else if jget body ''strict'' \<noteq> JBool True then raise (ValueError (Msg ''generate_without_strict'' []))
      else http_request cfg tr ''POST'' ''/generate'' (Some body))"

definition show_id :: "int option \<Rightarrow> string" where
  "show_id g = (case g of Some n \<Rightarrow> show_int n | None \<Rightarrow> ''None'')"

definition http_generation_status :: "http_config \<Rightarrow> 'x transport \<Rightarrow> int option \<Rightarrow> ('x, exn, obj) eff" where
  "http_generation_status cfg tr g = http_request cfg tr ''GET'' (''/generation/'' @ show_id g @ ''/status'') None"

definition http_voiceover_status :: "http_config \<Rightarrow> 'x transport \<Rightarrow> int option \<Rightarrow> ('x, exn, obj) eff" where
  "http_voiceover_status cfg tr g = http_request cfg tr ''GET'' (''/voiceover/long/'' @ show_id g) None"

definition http_upload_media :: "http_config \<Rightarrow> 'x transport \<Rightarrow> string \<Rightarrow> string \<Rightarrow> string \<Rightarrow> ('x, exn, obj) eff" where
  "http_upload_media cfg tr filename content content_type =
     with_retry (hc_retry cfg) (tr_retry tr)
       (\<lambda>x. let (out, y) = tr_upload tr filename content content_type x
            in (http_result ''POST'' ''/upload-media'' out, y))"

text \<open>\<open>interval or self._poll_interval\<close>: zero means the default.\<close>

definition http_wait_for_generation ::
  "http_config \<Rightarrow> 'x transport \<Rightarrow> int option \<Rightarrow> rat \<Rightarrow> rat \<Rightarrow> ('x, exn, obj) eff" where
  "http_wait_for_generation cfg tr g interval timeout =
     bind (poll_from_zero (http_generation_status cfg tr g) (\<lambda>r. modify (re_sleep (tr_retry tr) r))
             (if interval = 0 then hc_poll_interval cfg else interval)
             (if timeout = 0 then hc_poll_timeout cfg else timeout))
       (\<lambda>res. case res of
          Inr payload \<Rightarrow> ret payload
        | Inl waited \<Rightarrow> raise (Vibe (VibePollTimeoutError (show_id g) waited)))"

definition http_client :: "http_config \<Rightarrow> 'x transport \<Rightarrow> 'x client" where
  "http_client cfg tr =
     \<lparr>cl_now = tr_now tr, cl_sleep = re_sleep (tr_retry tr), cl_uuid = tr_uuid tr,
      cl_capabilities = http_request cfg tr ''GET'' ''/capabilities'' None,
      cl_me = http_request cfg tr ''GET'' ''/me'' None,
      cl_balance = http_request cfg tr ''GET'' ''/balance'' None,
      cl_estimate = (\<lambda>body. http_request cfg tr ''POST'' ''/generate/estimate'' (Some body)),
      cl_generate = http_generate cfg tr,
      cl_generation_status = http_generation_status cfg tr,
      cl_voiceover_status = Some (http_voiceover_status cfg tr),
      cl_wait_for_generation = Some (http_wait_for_generation cfg tr),
      cl_upload_media = http_upload_media cfg tr\<rparr>"

section \<open>Polling returns\<close>

lemma poll_terminal:
  "poll n ask sleep i dl w s = (Inr (Inr payload), t) \<Longrightarrow> status_of payload \<in> set TERMINAL_STATUSES"
proof (induction n ask sleep i dl w arbitrary: s rule: poll.induct)
  case (2 fuel ask sleep i dl w)
  obtain r u where a: "ask s = (r, u)" by fastforce
  show ?case
  proof (cases r)
    case (Inl e)
    with 2(2) a show ?thesis by simp
  next
    case (Inr p)
    show ?thesis
    proof (cases "status_of p \<in> set TERMINAL_STATUSES \<or> dl \<le> w")
      case True
      with 2(2) a Inr show ?thesis by (auto split: if_splits)
    next
      case False
      with 2(2) a Inr obtain v where "poll fuel ask sleep i dl (w + i) v = (Inr (Inr payload), t)"
        by (auto simp: andthen_eq_Inr split: if_splits)
      then show ?thesis using 2(1) False by blast
    qed
  qed
qed simp

lemma poll_gives_up_late:
  "poll n ask sleep i dl w s = (Inr (Inl waited), t) \<Longrightarrow> dl \<le> waited"
proof (induction n ask sleep i dl w arbitrary: s rule: poll.induct)
  case (2 fuel ask sleep i dl w)
  obtain r u where a: "ask s = (r, u)" by fastforce
  show ?case
  proof (cases r)
    case (Inl e)
    with 2(2) a show ?thesis by simp
  next
    case (Inr p)
    show ?thesis
    proof (cases "status_of p \<in> set TERMINAL_STATUSES \<or> dl \<le> w")
      case True
      with 2(2) a Inr show ?thesis by (auto split: if_splits)
    next
      case False
      with 2(2) a Inr obtain v where "poll fuel ask sleep i dl (w + i) v = (Inr (Inl waited), t)"
        by (auto simp: andthen_eq_Inr split: if_splits)
      then show ?thesis using 2(1) False by blast
    qed
  qed
qed simp

text \<open>With a positive interval the loop ends by itself: only the operation it calls could diverge.\<close>

lemma poll_returns:
  assumes "0 < i" and "dl - w \<le> of_nat n * i" and "\<And>s. fst (ask s) \<noteq> Inl Diverges"
    and "\<And>x s. fst (sleep x s) \<noteq> Inl Diverges"
  shows "fst (poll (Suc n) ask sleep i dl w s) \<noteq> Inl Diverges"
  using assms(2)
proof (induction n arbitrary: w s)
  case 0
  then have "dl \<le> w" by simp
  then show ?case using assms(3) [of s] by (cases "ask s"; cases "fst (ask s)") auto
next
  case (Suc n)
  obtain r u where a: "ask s = (r, u)" by fastforce
  obtain r' v where sl: "sleep i u = (r', v)" by fastforce
  have le: "dl - (w + i) \<le> of_nat n * i" using Suc.prems by (simp add: algebra_simps)
  show ?case
  proof (cases r)
    case (Inl e)
    then show ?thesis using a assms(3) [of s] by simp
  next
    case (Inr p)
    show ?thesis
    proof (cases "status_of p \<in> set TERMINAL_STATUSES \<or> dl \<le> w")
      case True
      with a Inr show ?thesis by auto
    next
      case False
      then have "poll (Suc (Suc n)) ask sleep i dl w s = andthen (sleep i) (poll (Suc n) ask sleep i dl (w + i)) u"
        using a Inr by simp
      moreover have "fst (andthen (sleep i) (poll (Suc n) ask sleep i dl (w + i)) u) \<noteq> Inl Diverges"
        using sl assms(4) [of i u] Suc.IH [OF le, of v] by (cases r') simp_all
      ultimately show ?thesis by simp
    qed
  qed
qed

lemma poll_from_zero_returns:
  assumes "0 < i" and "\<And>s. fst (ask s) \<noteq> Inl Diverges" and "\<And>x s. fst (sleep x s) \<noteq> Inl Diverges"
  shows "fst (poll_from_zero ask sleep i dl s) \<noteq> Inl Diverges"
proof -
  define c where "c = \<lceil>dl / i\<rceil>"
  have "dl / i \<le> of_int c" unfolding c_def by (rule le_of_int_ceiling)
  also have "(of_int c :: rat) \<le> of_nat (nat c + 1)" by simp
  finally have "dl - 0 \<le> of_nat (nat c + 1) * i" using assms(1) by (simp add: pos_divide_le_eq)
  from poll_returns [of i dl 0 "nat c + 1" ask sleep s, OF assms(1) this assms(2,3)]
  moreover have "poll_fuel i dl = Suc (nat c + 1)" using assms(1) by (simp add: poll_fuel_def c_def)
  ultimately show ?thesis unfolding poll_from_zero_def by simp
qed

text \<open>A verdict in the first reply ends the loop.\<close>

lemma poll_done: "status_of p \<in> set TERMINAL_STATUSES \<Longrightarrow> poll_from_zero (Pair (Inr p)) sl i d = Pair (Inr (Inr p))"
proof -
  assume a: "status_of p \<in> set TERMINAL_STATUSES"
  obtain n where "poll_fuel i d = Suc n" by (cases "poll_fuel i d") (auto simp: poll_fuel_def split: if_splits)
  with a show ?thesis by (intro ext) (simp add: poll_from_zero_def bind_apply)
qed
section \<open>Retries end, and only transient errors are retried\<close>

text \<open>An operation that counts its own executions.\<close>

definition counted :: "('x, exn, 'a) eff \<Rightarrow> (nat \<times> 'x, exn, 'a) eff" where
  "counted m = (\<lambda>(n, x). let (r, y) = m x in (r, (n + 1, y)))"

definition counted_env :: "'x retry_env \<Rightarrow> (nat \<times> 'x) retry_env" where
  "counted_env env = \<lparr>re_random = (\<lambda>(n, x). let (r, y) = re_random env x in (r, (n, y))),
     re_sleep = (\<lambda>d (n, x). (n, re_sleep env d x))\<rparr>"

lemma pause_counted: "pause pol (counted_env env) v k (n, y) = (n, pause pol env v k y)"
  by (simp add: pause_def counted_env_def case_prod_beta Let_def)

lemma retry_count:
  assumes "1 \<le> attempt" and "attempt \<le> max 1 (rp_max_attempts pol)"
  shows "fst (snd (retry_from pol (counted_env env) (counted op) attempt (n, x))) + attempt
     \<le> n + 1 + max 1 (rp_max_attempts pol)"
  using assms
proof (induction "rp_max_attempts pol - attempt" arbitrary: attempt n x rule: less_induct)
  case less
  obtain r y where o1: "op x = (r, y)" by fastforce
  then have c: "counted op (n, x) = (r, (n + 1, y))" by (simp add: counted_def)
  show ?case
  proof (cases "\<exists>v. r = Inl (Vibe v) \<and> should_retry pol v attempt")
    case True
    then obtain v where v: "r = Inl (Vibe v)" "should_retry pol v attempt" by blast
    then have lt: "attempt < rp_max_attempts pol" by (auto simp: should_retry_def split: if_splits)
    have "retry_from pol (counted_env env) (counted op) attempt (n, x) =
        retry_from pol (counted_env env) (counted op) (attempt + 1) (n + 1, pause pol env v attempt y)"
      by (subst retry_from.simps) (simp add: c v pause_counted)
    moreover have "rp_max_attempts pol - (attempt + 1) < rp_max_attempts pol - attempt" using lt by simp
    ultimately show ?thesis using less.hyps [of "attempt + 1" "n + 1" "pause pol env v attempt y"] lt by simp
  next
    case False
    then have "retry_from pol (counted_env env) (counted op) attempt (n, x) = (r, (n + 1, y))"
      by (subst retry_from.simps) (auto simp: c split: sum.splits exn.splits)
    then show ?thesis using less.prems(2) by simp
  qed
qed

lemma with_retry_count:
  "fst (snd (with_retry pol (counted_env env) (counted op) (0, x))) \<le> max 1 (rp_max_attempts pol)"
  using retry_count [of 1 pol env op 0 x] by (simp add: with_retry_def)

lemma with_retry_final:
  assumes "op x = (r, y)" and "\<And>v. r = Inl (Vibe v) \<Longrightarrow> \<not> retryable v"
  shows "with_retry pol env op x = (r, y)"
proof (cases "\<exists>v. r = Inl (Vibe v)")
  case True
  then obtain v where v: "r = Inl (Vibe v)" by blast
  with assms(2) have "\<not> retryable v" by simp
  then have "\<not> should_retry pol v 1" by (cases v) (simp_all add: should_retry_def)
  then show ?thesis unfolding with_retry_def by (subst retry_from.simps) (simp add: assms(1) v)
next
  case False
  then show ?thesis unfolding with_retry_def
    by (subst retry_from.simps) (auto simp: assms(1) split: sum.splits exn.splits)
qed

text \<open>What a retried operation returns is what one of its executions returned.\<close>

lemma retry_from_result:
  "\<exists>y. op y = retry_from pol env op attempt x"
proof (induction pol env op attempt x rule: retry_from.induct)
  case (1 pol env op attempt x)
  obtain r y where o1: "op x = (r, y)" by fastforce
  show ?case
  proof (cases "\<exists>v. r = Inl (Vibe v) \<and> should_retry pol v attempt")
    case True
    then obtain v where v: "r = Inl (Vibe v)" "should_retry pol v attempt" by blast
    have eq: "retry_from pol env op attempt x = retry_from pol env op (attempt + 1) (pause pol env v attempt y)"
      by (subst retry_from.simps) (simp add: o1 v)
    have "\<exists>z. op z = retry_from pol env op (attempt + 1) (pause pol env v attempt y)"
      by (rule 1 [OF o1 [symmetric] v(1) refl]) (simp_all add: v)
    then show ?thesis unfolding eq .
  next
    case False
    then have "retry_from pol env op attempt x = (r, y)"
      by (subst retry_from.simps) (auto simp: o1 split: sum.splits exn.splits)
    then show ?thesis using o1 by metis
  qed
qed

lemma delay_bounds:
  assumes "0 \<le> rnd" and "rnd \<le> 1" and "0 < rp_base_delay pol" and "0 < rp_max_delay pol"
    and "0 \<le> rp_jitter pol" and "rp_jitter pol \<le> 1"
  shows "0 \<le> delay_for pol attempt ra rnd" and "delay_for pol attempt ra rnd \<le> rp_max_delay pol * (1 + rp_jitter pol)"
proof -
  define b where "b = min (rp_base_delay pol * 2 ^ (attempt - 1)) (rp_max_delay pol)"
  have b: "0 < b" "b \<le> rp_max_delay pol" using assms(3,4) by (auto simp: b_def)
  let ?j = "rp_jitter pol"
  have "- (b * ?j) + (b * ?j + b * ?j) * rnd \<le> b * ?j"
  proof -
    have "(b * ?j + b * ?j) * rnd \<le> (b * ?j + b * ?j) * 1"
      using assms b by (intro mult_left_mono) auto
    then show ?thesis by simp
  qed
  then have "max 0 (b + (- (b * ?j) + (b * ?j + b * ?j) * rnd)) \<le> b * (1 + ?j)"
    using b assms(5) by (simp add: algebra_simps)
  also have "\<dots> \<le> rp_max_delay pol * (1 + ?j)" using b assms(5) by (intro mult_right_mono) auto
  finally have upper: "max 0 (b + (- (b * ?j) + (b * ?j + b * ?j) * rnd)) \<le> rp_max_delay pol * (1 + ?j)" .
  have "rp_max_delay pol * 1 \<le> rp_max_delay pol * (1 + ?j)" using assms(4,5) by (intro mult_left_mono) auto
  then have "min r (rp_max_delay pol) \<le> rp_max_delay pol * (1 + ?j)" for r by simp
  moreover have "jittered pol attempt rnd \<le> rp_max_delay pol * (1 + rp_jitter pol)"
    using upper unfolding jittered_def Let_def b_def [symmetric] .
  ultimately show "delay_for pol attempt ra rnd \<le> rp_max_delay pol * (1 + rp_jitter pol)"
    by (auto simp: delay_for_def split: option.splits)
  show "0 \<le> delay_for pol attempt ra rnd"
    using assms(4) by (simp add: delay_for_def jittered_def Let_def split: option.splits)
qed

section \<open>The HTTP client raises only what the callers expect\<close>

lemma poll_raises:
  "fst (poll n ask sleep i dl w s) = Inl e \<Longrightarrow>
     e = Diverges \<or> (\<exists>u. fst (ask u) = Inl e) \<or> (\<exists>u. fst (sleep i u) = Inl e)"
proof (induction n ask sleep i dl w arbitrary: s rule: poll.induct)
  case (2 fuel ask sleep i dl w)
  obtain r u where a: "ask s = (r, u)" by fastforce
  obtain r' v where sl: "sleep i u = (r', v)" by fastforce
  show ?case
  proof (cases r)
    case (Inl e')
    then have "fst (ask s) = Inl e" using 2(2) a by simp
    then show ?thesis by blast
  next
    case (Inr p)
    show ?thesis
    proof (cases "status_of p \<in> set TERMINAL_STATUSES \<or> dl \<le> w")
      case True
      with 2(2) a Inr show ?thesis by (auto split: if_splits)
    next
      case False
      then have eq: "poll (Suc fuel) ask sleep i dl w s = andthen (sleep i) (poll fuel ask sleep i dl (w + i)) u"
        using a Inr by simp
      show ?thesis
      proof (cases r')
        case (Inl e')
        then have "fst (sleep i u) = Inl e" using 2(2) sl unfolding eq by simp
        then show ?thesis by blast
      next
        case (Inr x)
        then have "fst (poll fuel ask sleep i dl (w + i) v) = Inl e" using 2(2) sl unfolding eq by simp
        moreover have "\<not> (status_of p \<in> set TERMINAL_STATUSES)" "\<not> dl \<le> w" using False by auto
        ultimately show ?thesis using 2(1) by blast
      qed
    qed
  qed
qed simp

lemma http_request_vibe:
  assumes "fst (http_request cfg tr meth path body x) = Inl e"
  shows "\<exists>v. e = Vibe v"
proof -
  obtain y where "http_attempt tr meth path body y = http_request cfg tr meth path body x"
    using retry_from_result [of "http_attempt tr meth path body"] unfolding http_request_def with_retry_def by blast
  then have "fst (http_attempt tr meth path body y) = Inl e" using assms by simp
  then show ?thesis
    by (auto simp: http_attempt_def http_result_def Let_def case_prod_beta split: http_outcome.splits if_splits)
qed

text \<open>Waiting ends with a terminal payload or an upstream error, for positive intervals.\<close>

lemma http_wait_result:
  assumes pos: "0 < hc_poll_interval cfg" and i: "0 \<le> interval"
    and r: "http_wait_for_generation cfg tr g interval timeout x = (r, y)"
  shows "case r of Inr payload \<Rightarrow> status_of payload \<in> set TERMINAL_STATUSES | Inl e \<Rightarrow> \<exists>v. e = Vibe v"
proof -
  let ?i = "if interval = 0 then hc_poll_interval cfg else interval"
  let ?d = "if timeout = 0 then hc_poll_timeout cfg else timeout"
  let ?ask = "http_generation_status cfg tr g" and ?sl = "\<lambda>r. modify (re_sleep (tr_retry tr) r) :: ('a, exn, unit) eff"
  have pi: "0 < ?i" using pos i by simp
  have ask: "fst (?ask s) = Inl e \<Longrightarrow> \<exists>v. e = Vibe v" for s e
    unfolding http_generation_status_def by (rule http_request_vibe)
  have nd: "fst (poll_from_zero ?ask ?sl ?i ?d x) \<noteq> Inl Diverges"
    using ask by (intro poll_from_zero_returns pi) (blast, simp add: modify_def)
  obtain q z where p: "poll_from_zero ?ask ?sl ?i ?d x = (q, z)" by fastforce
  show ?thesis
  proof (cases q)
    case (Inl e)
    then have "fst (poll_from_zero ?ask ?sl ?i ?d x) = Inl e" using p by simp
    moreover from this nd have "e \<noteq> Diverges" by metis
    ultimately have "\<exists>v. e = Vibe v" unfolding poll_from_zero_def
      using poll_raises [of _ ?ask ?sl ?i ?d 0 x e] ask by (auto simp: modify_def)
    then show ?thesis using r p Inl by (auto simp: http_wait_for_generation_def)
  next
    case (Inr w)
    show ?thesis
    proof (cases w)
      case (Inl waited)
      then show ?thesis using r p Inr by (auto simp: http_wait_for_generation_def)
    next
      case inr: (Inr payload)
      have "status_of payload \<in> set TERMINAL_STATUSES"
        by (rule poll_terminal) (use p Inr inr in \<open>simp add: poll_from_zero_def\<close>)
      then show ?thesis using r p Inr inr by (auto simp: http_wait_for_generation_def)
    qed
  qed
qed

text \<open>The guard in front of \<open>/generate\<close>: without a key or without \<open>strict\<close> nothing is sent.\<close>

lemma http_generate_guard:
  "\<not> truthy (jget body ''idempotency_key'') \<or> jget body ''strict'' \<noteq> JBool True \<Longrightarrow>
     \<exists>m. http_generate cfg tr body x = (Inl (ValueError m), x)"
  by (auto simp: http_generate_def)

end
