(* ===== verification/Budget.thy ===== *)
theory Budget
  imports Domain
begin

text \<open>
  \<open>BudgetGuard\<close> (\<open>app/services/budget.py\<close>). The guard is a record; a method that raises
  returns \<open>Inl\<close> and leaves the guard as it was, one that mutates returns the new guard.
\<close>

definition EPSILON :: rat where
  "EPSILON = 1 / 1000000"

record guard =
  g_budget_rub :: money
  g_safety_margin :: rat
  g_committed_rub :: money
  g_account :: "account option"
  g_events :: "msg list"

definition new_guard :: "money \<Rightarrow> rat \<Rightarrow> account option \<Rightarrow> guard" where
  "new_guard budget margin acc =
     \<lparr>g_budget_rub = budget, g_safety_margin = margin, g_committed_rub = 0, g_account = acc, g_events = []\<rparr>"

definition margin_rub :: "guard \<Rightarrow> money" where
  "margin_rub g = round4 (g_budget_rub g * g_safety_margin g)"

definition spendable_rub :: "guard \<Rightarrow> money" where
  "spendable_rub g = round4 (g_budget_rub g - margin_rub g)"

definition remaining_rub :: "guard \<Rightarrow> money" where
  "remaining_rub g = round4 (spendable_rub g - g_committed_rub g)"

definition hard_remaining_rub :: "guard \<Rightarrow> money" where
  "hard_remaining_rub g = round4 (g_budget_rub g - g_committed_rub g)"

definition can_afford :: "guard \<Rightarrow> money \<Rightarrow> bool" where
  "can_afford g cost \<longleftrightarrow> cost \<le> remaining_rub g + EPSILON"

definition check :: "guard \<Rightarrow> money \<Rightarrow> json \<Rightarrow> exn + unit" where
  "check g cost label =
     (if cost < 0 then
        Inl (app_raise BudgetExceededError (Msg ''negative_cost'' [label, JFloat cost]))
      else if cost > hard_remaining_rub g + EPSILON then
        Inl (app_raise BudgetExceededError (Msg ''over_budget''
          [label, JFloat cost, JFloat (hard_remaining_rub g), JFloat (g_budget_rub g)]))
      else if cost > remaining_rub g + EPSILON then
        Inl (app_raise BudgetExceededError (Msg ''over_spendable''
          [label, JFloat cost, JFloat (remaining_rub g), JFloat (margin_rub g)]))
      else Inr ())"

definition commit :: "guard \<Rightarrow> money \<Rightarrow> json \<Rightarrow> exn + (money \<times> guard)" where
  "commit g cost label =
     (case check g cost label of
        Inl e \<Rightarrow> Inl e
      | Inr _ \<Rightarrow>
          let g1 = g\<lparr>g_committed_rub := round4 (g_committed_rub g + cost)\<rparr>;
              g2 = g1\<lparr>g_events := g_events g1 @ [Msg ''committed'' [label, JFloat cost, JFloat (remaining_rub g1)]]\<rparr>
          in Inr (remaining_rub g2, g2))"

definition release :: "guard \<Rightarrow> money \<Rightarrow> json \<Rightarrow> guard" where
  "release g cost label =
     (let g1 = g\<lparr>g_committed_rub := round4 (max 0 (g_committed_rub g - cost))\<rparr>
      in g1\<lparr>g_events := g_events g1 @ [Msg ''released'' [label, JFloat cost, JFloat (remaining_rub g1)]]\<rparr>)"

definition check_account :: "guard \<Rightarrow> money \<Rightarrow> json \<Rightarrow> exn + unit" where
  "check_account g cost label =
     (case g_account g of
        None \<Rightarrow> Inl (app_raise BudgetExceededError (Msg ''account_unknown'' [label]))
      | Some a \<Rightarrow>
         (case ac_balance_rub a of
            None \<Rightarrow> Inl (app_raise BudgetExceededError (Msg ''balance_unknown'' [label]))
          | Some balance \<Rightarrow>
              if cost > balance + EPSILON then
                Inl (app_raise BudgetExceededError (Msg ''over_balance'' [label, JFloat cost, JFloat balance]))
              else
               (case daily_remaining_rub a of
                  Some d \<Rightarrow>
                    if cost > d + EPSILON then
                      Inl (app_raise BudgetExceededError (Msg ''over_daily_limit'' [label, JFloat cost, JFloat d]))
                    else Inr ()
                | None \<Rightarrow> Inr ())))"

definition check_all :: "guard \<Rightarrow> money \<Rightarrow> json \<Rightarrow> exn + unit" where
  "check_all g cost label =
     (case check g cost label of Inl e \<Rightarrow> Inl e | Inr _ \<Rightarrow> check_account g cost label)"

section \<open>What a check promises\<close>

text \<open>\<open>commit\<close> keeps committed money on the grid of four decimals, and so does \<open>release\<close>.\<close>

definition guard_wf :: "guard \<Rightarrow> bool" where
  "guard_wf g \<longleftrightarrow> on_grid 4 (g_committed_rub g) \<and> 0 \<le> g_committed_rub g"

definition within_spendable :: "guard \<Rightarrow> bool" where
  "within_spendable g \<longleftrightarrow> guard_wf g \<and> g_committed_rub g \<le> spendable_rub g"

lemma on_grid_spendable [simp]: "on_grid 4 (spendable_rub g)"
  by (simp add: spendable_rub_def)

lemma remaining_eq: "guard_wf g \<Longrightarrow> remaining_rub g = spendable_rub g - g_committed_rub g"
  unfolding remaining_rub_def guard_wf_def by (intro py_round_grid on_grid_diff) auto

lemma check_Inr:
  "check g cost label = Inr u \<longleftrightarrow>
     0 \<le> cost \<and> cost \<le> hard_remaining_rub g + EPSILON \<and> cost \<le> remaining_rub g + EPSILON"
  by (auto simp: check_def)

lemma check_Inl: "check g cost label = Inl e \<Longrightarrow> is_budget_exceeded e"
  by (auto simp: check_def split: if_splits)

lemma check_account_Inl: "check_account g cost label = Inl e \<Longrightarrow> is_budget_exceeded e"
  by (auto simp: check_account_def split: if_splits option.splits)

lemma check_all_Inl: "check_all g cost label = Inl e \<Longrightarrow> is_budget_exceeded e"
  by (auto simp: check_all_def split: sum.splits dest: check_Inl check_account_Inl)

lemma check_account_Inr:
  "check_account g cost label = Inr u \<longleftrightarrow>
     (\<exists>a b. g_account g = Some a \<and> ac_balance_rub a = Some b \<and> cost \<le> b + EPSILON \<and>
        (\<forall>d. daily_remaining_rub a = Some d \<longrightarrow> cost \<le> d + EPSILON))"
  by (auto simp: check_account_def not_less split: option.splits if_splits)

lemma check_all_Inr:
  "check_all g cost label = Inr u \<longleftrightarrow> check g cost label = Inr () \<and> check_account g cost label = Inr ()"
  by (auto simp: check_all_def split: sum.splits)

lemma commit_Inr:
  "commit g cost label = Inr (r, g') \<Longrightarrow>
     check g cost label = Inr () \<and> r = remaining_rub g' \<and>
     g_committed_rub g' = round4 (g_committed_rub g + cost) \<and>
     g_budget_rub g' = g_budget_rub g \<and> g_safety_margin g' = g_safety_margin g \<and>
     g_account g' = g_account g"
  by (auto simp: commit_def Let_def remaining_rub_def spendable_rub_def margin_rub_def split: sum.splits)

lemma commit_Inl: "commit g cost label = Inl e \<longleftrightarrow> check g cost label = Inl e"
  by (auto simp: commit_def Let_def split: sum.splits)

lemma spendable_cong:
  "g_budget_rub g' = g_budget_rub g \<Longrightarrow> g_safety_margin g' = g_safety_margin g \<Longrightarrow>
     spendable_rub g' = spendable_rub g"
  by (simp add: spendable_rub_def margin_rub_def)

lemma release_fields [simp]:
  "g_committed_rub (release g c l) = round4 (max 0 (g_committed_rub g - c))"
  "g_budget_rub (release g c l) = g_budget_rub g"
  "g_safety_margin (release g c l) = g_safety_margin g"
  "g_account (release g c l) = g_account g"
  by (simp_all add: release_def Let_def)

lemma commit_within:
  assumes wf: "guard_wf g" and ok: "commit g cost label = Inr (r, g')"
  shows "within_spendable g'"
proof -
  note c = commit_Inr [OF ok]
  then have cost: "0 \<le> cost" "cost \<le> remaining_rub g + EPSILON"
    by (auto simp: check_Inr)
  with wf have "g_committed_rub g + cost \<le> spendable_rub g + EPSILON"
    by (simp add: remaining_eq)
  then have "round4 (g_committed_rub g + cost) \<le> spendable_rub g"
    by (rule py_round_le_grid [OF on_grid_spendable]) (simp_all add: EPSILON_def)
  moreover have "spendable_rub g' = spendable_rub g" using c by (intro spendable_cong) auto
  moreover have "0 \<le> round4 (g_committed_rub g + cost)"
    using wf cost by (intro py_round_nonneg) (simp add: guard_wf_def)
  ultimately show ?thesis using c by (simp add: within_spendable_def guard_wf_def)
qed

lemma release_wf: "guard_wf (release g cost label)"
  by (simp add: guard_wf_def py_round_nonneg)

lemma release_within:
  assumes "within_spendable g" and "0 \<le> cost"
  shows "within_spendable (release g cost label)"
proof -
  have g: "on_grid 4 (g_committed_rub g)" "0 \<le> g_committed_rub g" "g_committed_rub g \<le> spendable_rub g"
    using assms(1) by (auto simp: within_spendable_def guard_wf_def)
  have "round4 (max 0 (g_committed_rub g - cost)) \<le> round4 (g_committed_rub g)"
    using assms g by (intro py_round_mono) auto
  also have "\<dots> = g_committed_rub g" using g by (simp add: py_round_grid)
  also have "\<dots> \<le> spendable_rub g" by (rule g(3))
  also have "\<dots> = spendable_rub (release g cost label)" by (rule spendable_cong [symmetric]) simp_all
  finally show ?thesis using release_wf by (simp add: within_spendable_def)
qed

text \<open>The envelope lies below the budget whenever the margin is not negative.\<close>

lemma spendable_le_budget:
  assumes "on_grid 4 (g_budget_rub g)" and "0 \<le> g_budget_rub g" and "0 \<le> g_safety_margin g"
  shows "spendable_rub g \<le> g_budget_rub g"
proof -
  have "0 \<le> margin_rub g" unfolding margin_rub_def using assms by (intro py_round_nonneg) simp
  then have "round4 (g_budget_rub g - margin_rub g) \<le> round4 (g_budget_rub g)"
    by (intro py_round_mono) simp
  then show ?thesis using assms by (simp add: spendable_rub_def py_round_grid)
qed

lemma spendable_nonneg:
  assumes "0 \<le> g_budget_rub g" and "g_safety_margin g \<le> 1"
  shows "0 \<le> spendable_rub g"
proof -
  have "margin_rub g \<le> round4 (g_budget_rub g)"
    unfolding margin_rub_def using assms by (intro py_round_mono) (simp add: mult_left_le)
  moreover have "round4 (g_budget_rub g) - g_budget_rub g \<le> 1 / 20000"
    using py_round_error [of 4 "g_budget_rub g"] unfolding abs_le_iff by simp
  ultimately have "- (1 / 20000) \<le> g_budget_rub g - margin_rub g" by linarith
  then have "round4 (- (1 / 20000)) \<le> spendable_rub g"
    unfolding spendable_rub_def by (rule py_round_mono)
  moreover have "round4 (- (1 / 20000)) = 0" by (simp add: py_round_def round_half_even_def)
  ultimately show ?thesis by simp
qed

end
