(* ===== verification/Executor.thy ===== *)
theory Executor
  imports Store Client Budget
begin

text \<open>
  Plan execution (\<open>app/services/executor.py\<close>), the only code that spends. The state of a run is the
  database, the outside world of the client, and the two objects the source mutates in place: the
  job and the budget guard. A job step is addressed by its id, the first match in the job, which is
  what \<open>_find_step\<close> returns. The clock is read through the client record; where the source reads it
  inside a repository call, it is read just before the call.
\<close>

section \<open>State\<close>

record 'x est =
  e_db :: db
  e_ext :: 'x
  e_job :: job
  e_guard :: guard

record 'x exec_env =
  x_client :: "'x client"
  x_crypto :: crypto
  x_callback_url :: "string option"
  x_poll_interval :: rat
  x_poll_timeout :: rat

type_synonym ('x, 'a) exec = "('x est, exn, 'a) eff"

definition on_db :: "'a dbop \<Rightarrow> ('x, 'a) exec" where
  "on_db m = (\<lambda>s. let (r, d) = m (e_db s) in (r, s\<lparr>e_db := d\<rparr>))"

definition on_ext :: "('x, exn, 'a) eff \<Rightarrow> ('x, 'a) exec" where
  "on_ext m = (\<lambda>s. let (r, x) = m (e_ext s) in (r, s\<lparr>e_ext := x\<rparr>))"

definition now_is :: "'x client \<Rightarrow> ('x, exn, time) eff" where
  "now_is c = (\<lambda>x. let (t, y) = cl_now c x in (Inr t, y))"

definition utcnow :: "'x exec_env \<Rightarrow> ('x, time) exec" where
  "utcnow env = on_ext (now_is (x_client env))"

definition sleep_for :: "'x exec_env \<Rightarrow> rat \<Rightarrow> ('x, unit) exec" where
  "sleep_for env d = on_ext (modify (cl_sleep (x_client env) d))"

definition modify_job :: "(job \<Rightarrow> job) \<Rightarrow> ('x, unit) exec" where
  "modify_job f = modify (\<lambda>s. s\<lparr>e_job := f (e_job s)\<rparr>)"

definition modify_guard :: "(guard \<Rightarrow> guard) \<Rightarrow> ('x, unit) exec" where
  "modify_guard f = modify (\<lambda>s. s\<lparr>e_guard := f (e_guard s)\<rparr>)"

definition find_step :: "job \<Rightarrow> string \<Rightarrow> job_step option" where
  "find_step j sid = find (\<lambda>t. js_step_id t = sid) (j_steps j)"

definition modify_step :: "string \<Rightarrow> (job_step \<Rightarrow> job_step) \<Rightarrow> ('x, unit) exec" where
  "modify_step sid f = modify_job (\<lambda>j. j\<lparr>j_steps := upd_first (\<lambda>t. js_step_id t = sid) f (j_steps j)\<rparr>)"

text \<open>The current step; the callers have found it before.\<close>

definition the_step :: "string \<Rightarrow> ('x, job_step) exec" where
  "the_step sid = (\<lambda>s. case find_step (e_job s) sid of
     Some t \<Rightarrow> (Inr t, s) | None \<Rightarrow> (Inl AssertionFailed, s))"

definition add_error :: "msg \<Rightarrow> ('x, unit) exec" where
  "add_error m = modify_job (\<lambda>j. j\<lparr>j_errors := j_errors j @ [m]\<rparr>)"

definition add_warning :: "msg \<Rightarrow> ('x, unit) exec" where
  "add_warning m = modify_job (\<lambda>j. j\<lparr>j_warnings := j_warnings j @ [m]\<rparr>)"

definition save_job :: "('x, unit) exec" where
  "save_job = (\<lambda>s. on_db (jobs_save (e_job s)) s)"

section \<open>Reading replies\<close>

text \<open>\<open>_text_of\<close>: \<open>value.strip()\<close> decides, the value itself is returned.\<close>

fun first_text :: "obj \<Rightarrow> string list \<Rightarrow> string option" where
  "first_text payload [] = None"
| "first_text payload (k # ks) =
     (case jget payload k of
        JStr v \<Rightarrow> if py_strip v \<noteq> [] then Some v else first_text payload ks
      | _ \<Rightarrow> first_text payload ks)"

definition text_of :: "obj \<Rightarrow> string option" where
  "text_of payload = first_text payload [''text'', ''output'', ''result_text'', ''content'', ''answer'']"

definition is_terminal_reply :: "obj \<Rightarrow> bool" where
  "is_terminal_reply payload \<longleftrightarrow> status_of payload \<in> set TERMINAL_STATUSES \<or> text_of payload \<noteq> None"

fun first_id :: "obj \<Rightarrow> string list \<Rightarrow> int option" where
  "first_id response [] = None"
| "first_id response (k # ks) =
     (case as_int (jget response k) of
        Some n \<Rightarrow> Some n
      | None \<Rightarrow>
          (case jget response k of
             JStr v \<Rightarrow> if py_isdigit v then Some (of_nat (digits_val v)) else first_id response ks
           | _ \<Rightarrow> first_id response ks))"

definition generation_id_of :: "obj \<Rightarrow> int option" where
  "generation_id_of response = first_id response [''generation_id'', ''id'', ''voiceover_id'']"

definition as_float :: "json \<Rightarrow> money \<Rightarrow> money" where
  "as_float v d = (case as_num v of Some x \<Rightarrow> x | None \<Rightarrow> d)"

definition describe :: "vibe_error \<Rightarrow> msg" where
  "describe e = (case e of
     VibeAPIError a \<Rightarrow>
       Msg ''{code}: {message}'' ([JStr (api_code a), JStr (api_message a)] @
         (if truthy (api_request_id a) then [api_request_id a] else []))
   | _ \<Rightarrow> vibe_str e)"

section \<open>Verdicts\<close>

text \<open>\<open>apply_outcome\<close>: the step with the verdict written onto it, and the cost it settles at.\<close>

definition apply_outcome :: "time \<Rightarrow> job_step \<Rightarrow> obj \<Rightarrow> job_step \<times> money" where
  "apply_outcome now js payload =
     (let state = status_of payload;
          refunded = truthy (jget payload ''refunded'');
          final_cost = as_float (jget payload ''cost'') (js_actual_cost_rub js);
          js1 = js\<lparr>js_refunded := refunded, js_finished_at := Some now\<rparr>
      in if state \<in> set SUCCESS_STATUSES then
           (js1\<lparr>js_status := STEP_SUCCEEDED,
                js_result_url := j_or (jget payload ''result_url'') (js_result_url js),
                js_display_url := j_or (j_or (jget payload ''display_url'') (jget payload ''file_url'')) (js_display_url js),
                js_text_output := coalesce (text_of payload) (js_text_output js),
                js_error := None\<rparr>, final_cost)
         else
           (js1\<lparr>js_status := STEP_FAILED,
                js_error := Some (if truthy (jget payload ''error_message'')
                                  then Text (py_str (jget payload ''error_message''))
                                  else Msg ''generation_failed'' [])\<rparr>,
            if refunded \<or> final_cost = 0 then 0 else final_cost))"

definition count_status :: "step_status \<Rightarrow> job_step list \<Rightarrow> nat" where
  "count_status st ss = length (filter (\<lambda>s. js_status s = st) ss)"

definition aggregate_status :: "job_step list \<Rightarrow> bool \<Rightarrow> job_status" where
  "aggregate_status ss aborted =
     (let succeeded = count_status STEP_SUCCEEDED ss;
          failed = count_status STEP_FAILED ss;
          skipped = count_status STEP_SKIPPED ss
      in if aborted then (if succeeded = 0 then JOB_ABORTED else JOB_PARTIAL)
         else if failed = 0 \<and> skipped = 0 then JOB_SUCCEEDED
         else if succeeded = 0 then JOB_FAILED
         else JOB_PARTIAL)"

definition terminal_status_of :: "job_step list \<Rightarrow> job_status option" where
  "terminal_status_of ss =
     (if list_ex (\<lambda>s. js_status s \<in> {STEP_PENDING, STEP_RUNNING}) ss then None
      else Some (aggregate_status ss False))"

section \<open>One step\<close>

definition settle :: "'x exec_env \<Rightarrow> plan \<Rightarrow> string \<Rightarrow> obj \<Rightarrow> ('x, unit) exec" where
  "settle env p sid payload =
     bind (the_step sid) (\<lambda>js.
     bind (utcnow env) (\<lambda>t.
     (let previous_cost = js_actual_cost_rub js;
          (js1, final_cost) = apply_outcome t js payload
      in andthen (modify_step sid (\<lambda>_. js1))
        (andthen (case js_error js1 of
                    Some e \<Rightarrow> if js_status js1 = STEP_FAILED then add_error (Pref sid e) else ret ()
                  | None \<Rightarrow> ret ())
        (andthen (if final_cost \<noteq> previous_cost then
                    modify_guard (\<lambda>g. let g1 = release g previous_cost (JStr sid) in
                      g1\<lparr>g_committed_rub := round4 (g_committed_rub g1 + final_cost)\<rparr>)
                  else ret ())
        (andthen (modify_step sid (\<lambda>s. s\<lparr>js_actual_cost_rub := final_cost\<rparr>))
        (bind (utcnow env) (\<lambda>t2.
           on_db (update_step (p_plan_id p) sid (js_status js1) (js_generation_id js1) (Some final_cost) t2)))))))))"

definition fail_step :: "'x exec_env \<Rightarrow> string \<Rightarrow> msg \<Rightarrow> ('x, unit) exec" where
  "fail_step env sid m =
     bind (utcnow env) (\<lambda>t.
       andthen (modify_step sid (\<lambda>s. s\<lparr>js_status := STEP_FAILED, js_error := Some m, js_finished_at := Some t\<rparr>))
         (add_error (Pref sid m)))"

definition await_long_voiceover :: "'x exec_env \<Rightarrow> plan \<Rightarrow> string \<Rightarrow> ('x, unit) exec" where
  "await_long_voiceover env p sid =
     (case cl_voiceover_status (x_client env) of
        None \<Rightarrow> fail_step env sid (Msg ''no_voiceover_endpoint'' [])
      | Some status_fn \<Rightarrow>
          bind (the_step sid) (\<lambda>js.
          bind (poll_from_zero (on_ext (status_fn (js_generation_id js))) (sleep_for env)
                  (x_poll_interval env) (x_poll_timeout env)) (\<lambda>res.
            case res of
              Inr payload \<Rightarrow> settle env p sid payload
            | Inl waited \<Rightarrow>
                fail_step env sid (Msg ''voiceover_timeout'' [JFloat waited, JStr (show_id (js_generation_id js))]))))"

definition wait_for :: "'x exec_env \<Rightarrow> int option \<Rightarrow> ('x, obj) exec" where
  "wait_for env gid =
     (case cl_wait_for_generation (x_client env) of
        Some waiter \<Rightarrow> on_ext (waiter gid (x_poll_interval env) (x_poll_timeout env))
      | None \<Rightarrow>
          bind (poll_from_zero (on_ext (cl_generation_status (x_client env) gid)) (sleep_for env)
                  (x_poll_interval env) (x_poll_timeout env)) (\<lambda>res.
            case res of
              Inr payload \<Rightarrow> ret payload
            | Inl waited \<Rightarrow> raise (Vibe (VibePollTimeoutError
                (case gid of Some n \<Rightarrow> if n = 0 then ''?'' else show_int n | None \<Rightarrow> ''?'') waited))))"

definition await_result :: "'x exec_env \<Rightarrow> plan \<Rightarrow> string \<Rightarrow> ('x, unit) exec" where
  "await_result env p sid =
     bind (the_step sid) (\<lambda>js.
     bind (catch (bind (wait_for env (js_generation_id js)) (\<lambda>payload. ret (Some payload)))
        (\<lambda>e. case e of
           Vibe (VibePollTimeoutError g waited) \<Rightarrow>
             andthen (fail_step env sid (Msg ''result_timeout'' [JFloat waited, JStr (show_id (js_generation_id js))]))
               (ret None)
         | _ \<Rightarrow> raise e))
       (\<lambda>res. case res of Some payload \<Rightarrow> settle env p sid payload | None \<Rightarrow> ret ()))"

text \<open>The launch: guard, call, bookkeeping of what the platform charged.\<close>

definition record_charge :: "'x exec_env \<Rightarrow> plan \<Rightarrow> plan_step \<Rightarrow> obj \<Rightarrow> ('x, unit) exec" where
  "record_charge env p ps response =
     (let sid = ps_step_id ps;
          charged = as_float (jget response ''cost'') (ps_estimated_cost_rub ps)
      in andthen (modify_step sid (\<lambda>s. s\<lparr>js_generation_id := generation_id_of response,
             js_task_id := jget response ''task_id'',
             js_is_long_voiceover := truthy (jget response ''long_voiceover''),
             js_text_output := coalesce (text_of response) (js_text_output s),
             js_actual_cost_rub := charged\<rparr>))
        (andthen (bind (utcnow env) (\<lambda>t.
           on_db (update_step (p_plan_id p) sid STEP_RUNNING (generation_id_of response) (Some charged) t)))
        (bind (gets e_guard) (\<lambda>g. case commit g charged (JStr sid) of
            Inr (r, g') \<Rightarrow> modify_guard (\<lambda>_. g')
          | Inl e \<Rightarrow>
              if is_budget_exceeded e then
                andthen (modify_guard (\<lambda>g. g\<lparr>g_committed_rub := round4 (g_committed_rub g + charged)\<rparr>))
                (andthen (add_warning (Pref sid (Msg ''charged_above_plan'' [JFloat charged, JFloat (ps_estimated_cost_rub ps)])))
                  (raise e))
              else raise e))))"

definition launch :: "'x exec_env \<Rightarrow> plan \<Rightarrow> plan_step \<Rightarrow> obj \<Rightarrow> ('x, obj) exec" where
  "launch env p ps body =
     bind (gets e_guard) (\<lambda>g. case check_all g (ps_estimated_cost_rub ps) (JStr (ps_step_id ps)) of
       Inl e \<Rightarrow> raise e
     | Inr _ \<Rightarrow>
         bind (on_ext (cl_generate (x_client env) body)) (\<lambda>response.
           andthen (record_charge env p ps response) (ret response)))"

text \<open>The claim comes before the call; a step whose row carries a generation id was paid for in an
  earlier run and is only waited for. The result is the reply of a launch made now.\<close>

definition launch_or_resume :: "'x exec_env \<Rightarrow> plan \<Rightarrow> plan_step \<Rightarrow> ('x, obj option) exec" where
  "launch_or_resume env p ps =
     (let sid = ps_step_id ps; body = generate_body ps (x_callback_url env) in
      bind (gets (\<lambda>s. j_job_id (e_job s))) (\<lambda>jid.
      bind (utcnow env) (\<lambda>t1.
      bind (on_db (claim_step (x_crypto env) (p_plan_id p) sid jid (ps_idempotency_key ps) body t1)) (\<lambda>record.
        case sx_generation_id record of
          Some g \<Rightarrow>
            andthen (modify_step sid (\<lambda>s. s\<lparr>js_generation_id := Some g\<rparr>))
            (andthen (add_warning (Pref sid (Msg ''already_launched'' [JInt g]))) (ret None))
        | None \<Rightarrow> bind (launch env p ps body) (\<lambda>r. ret (Some r))))))"

text \<open>What follows the launch. \<open>response\<close> is \<open>None\<close> when the step was launched before; its id is set
  then, so the last branch is the unreachable use of an unbound name.\<close>

definition await_step :: "'x exec_env \<Rightarrow> plan \<Rightarrow> string \<Rightarrow> obj option \<Rightarrow> ('x, unit) exec" where
  "await_step env p sid response =
     bind (the_step sid) (\<lambda>js.
       if js_is_long_voiceover js then await_long_voiceover env p sid
       else case js_generation_id js of
         Some g \<Rightarrow> await_result env p sid
       | None \<Rightarrow>
           (case response of
              Some r \<Rightarrow>
                if is_terminal_reply r then settle env p sid r
                else fail_step env sid (Msg ''no_generation_id'' [])
            | None \<Rightarrow> raise AssertionFailed))"

definition run_step :: "'x exec_env \<Rightarrow> plan \<Rightarrow> plan_step \<Rightarrow> ('x, unit) exec" where
  "run_step env p ps =
     (let sid = ps_step_id ps in
      bind (utcnow env) (\<lambda>t0.
      andthen (modify_step sid (\<lambda>s. s\<lparr>js_status := STEP_RUNNING, js_started_at := Some t0,
                                     js_attempts := js_attempts s + 1\<rparr>))
       (if ps_kind ps = LOCAL then
          bind (utcnow env) (\<lambda>t1.
          andthen (modify_step sid (\<lambda>s. s\<lparr>js_local_output := ps_local_output ps, js_status := STEP_SUCCEEDED,
                                         js_actual_cost_rub := 0, js_finished_at := Some t1\<rparr>))
          (bind (utcnow env) (\<lambda>t2.
             on_db (update_step (p_plan_id p) sid STEP_SUCCEEDED None (Some 0) t2))))
        else bind (launch_or_resume env p ps) (await_step env p sid))))"

section \<open>The run\<close>

definition refresh_cost :: "('x, unit) exec" where
  "refresh_cost = modify_job (\<lambda>j. j\<lparr>j_actual_cost_rub := steps_actual_cost (j_steps j)\<rparr>)"

text \<open>The two \<open>except\<close> clauses; the result says whether the run is aborted.\<close>

definition step_failed :: "'x exec_env \<Rightarrow> plan \<Rightarrow> plan_step \<Rightarrow> exn \<Rightarrow> ('x, bool) exec" where
  "step_failed env p ps e =
     (let sid = ps_step_id ps in
      if is_budget_exceeded e then
        andthen (modify_step sid (\<lambda>s. s\<lparr>js_status := STEP_SKIPPED, js_error := Some (exn_str e)\<rparr>))
        (andthen (add_error (Pref sid (exn_str e)))
        (andthen (add_warning (Msg ''stopped_by_guard'' [])) (ret True)))
      else case e of
        Vibe v \<Rightarrow>
          bind (utcnow env) (\<lambda>t.
          andthen (modify_step sid (\<lambda>s. s\<lparr>js_status := STEP_FAILED, js_error := Some (describe v), js_finished_at := Some t\<rparr>))
          (andthen (add_error (Pref sid (describe v)))
          (bind (utcnow env) (\<lambda>t2.
          andthen (on_db (update_step (p_plan_id p) sid STEP_FAILED None None t2))
            (case v of
               VibeAPIError a \<Rightarrow>
                 if is_budget_related a then andthen (add_warning (Msg ''platform_out_of_funds'' [])) (ret True)
                 else ret False
             | _ \<Rightarrow> ret False)))))
      | _ \<Rightarrow> raise e)"

definition attempt_step :: "'x exec_env \<Rightarrow> plan \<Rightarrow> plan_step \<Rightarrow> ('x, bool) exec" where
  "attempt_step env p ps =
     finally_do (catch (andthen (run_step env p ps) (ret False)) (step_failed env p ps))
       (andthen refresh_cost save_job)"

fun run_steps :: "'x exec_env \<Rightarrow> plan \<Rightarrow> plan_step list \<Rightarrow> bool \<Rightarrow> ('x, bool) exec" where
  "run_steps env p [] aborted = ret aborted"
| "run_steps env p (ps # rest) aborted =
     bind (gets (\<lambda>s. find_step (e_job s) (ps_step_id ps))) (\<lambda>found. case found of
       None \<Rightarrow> run_steps env p rest aborted
     | Some js \<Rightarrow>
         if aborted then
           andthen (modify_step (ps_step_id ps) (\<lambda>s. s\<lparr>js_status := STEP_SKIPPED, js_error := Some (Msg ''skipped'' [])\<rparr>))
             (run_steps env p rest aborted)
         else if js_status js = STEP_SUCCEEDED then run_steps env p rest aborted
         else bind (attempt_step env p ps) (run_steps env p rest))"

definition finish_run :: "'x exec_env \<Rightarrow> bool \<Rightarrow> ('x, unit) exec" where
  "finish_run env aborted =
     bind (utcnow env) (\<lambda>t.
     andthen (modify_job (\<lambda>j. j\<lparr>j_status := aggregate_status (j_steps j) aborted, j_finished_at := Some t,
                               j_actual_cost_rub := steps_actual_cost (j_steps j)\<rparr>))
       save_job)"

definition run :: "'x exec_env \<Rightarrow> plan \<Rightarrow> ('x, job) exec" where
  "run env p =
     bind (utcnow env) (\<lambda>t.
     andthen (modify_job (\<lambda>j. j\<lparr>j_status := JOB_RUNNING, j_started_at := Some t\<rparr>))
     (andthen save_job
     (bind (run_steps env p (p_steps p) False) (\<lambda>aborted.
     andthen (finish_run env aborted) (gets e_job)))))"

end
