(* ===== verification/Config.thy ===== *)
theory Config
  imports Errors
begin

text \<open>
  Settings (\<open>app/core/config.py\<close>): the operating mode, the fields with their defaults, the checks a
  settings object passes before it exists, and the values derived from it. Reading the environment
  and the \<open>.env\<close> file into fields is pydantic's work; the model starts from the field values.
  The masking helpers of \<open>app/core/security.py\<close> that are plain string functions follow.
\<close>

section \<open>Modes\<close>

datatype app_mode = MOCK | ESTIMATE | LIVE

fun app_mode_value :: "app_mode \<Rightarrow> string" where
  "app_mode_value MOCK = ''mock''"
| "app_mode_value ESTIMATE = ''estimate''"
| "app_mode_value LIVE = ''live''"

definition uses_network :: "app_mode \<Rightarrow> bool" where
  "uses_network m \<longleftrightarrow> m \<noteq> MOCK"

definition allows_spending :: "app_mode \<Rightarrow> bool" where
  "allows_spending m \<longleftrightarrow> m = LIVE"

section \<open>Settings\<close>

record settings =
  app_mode :: app_mode
  app_env :: string
  log_level :: string
  log_format :: string
  vibe_base_url :: string
  vibe_api_token :: "string option"
  vibe_webhook_secret :: "string option"
  vibe_webhook_legacy_fallback :: bool
  callback_base_url :: "string option"
  http_connect_timeout :: rat
  http_read_timeout :: rat
  http_total_timeout :: rat
  retry_max_attempts :: int
  retry_base_delay :: rat
  retry_max_delay :: rat
  retry_jitter :: rat
  poll_interval_seconds :: rat
  poll_timeout_seconds :: rat
  executor_concurrency :: int
  reconcile_interval_seconds :: rat
  reconcile_min_age_seconds :: rat
  retention_interval_seconds :: rat
  idempotency_ttl_hours :: rat
  upload_expiry_warning_days :: rat
  max_budget_rub :: money
  budget_safety_margin :: rat
  db_path :: string
  mock_balance_rub :: money
  mock_daily_limit_rub :: money
  mock_daily_spent_rub :: money
  policy_file :: "string option"

definition default_settings :: settings where
  "default_settings =
     \<lparr>app_mode = MOCK, app_env = ''local'', log_level = ''INFO'', log_format = ''json'',
      vibe_base_url = ''https://lk.vibemarketolog.ru/api/agent'', vibe_api_token = None,
      vibe_webhook_secret = None, vibe_webhook_legacy_fallback = False, callback_base_url = None,
      http_connect_timeout = 5, http_read_timeout = 30, http_total_timeout = 60,
      retry_max_attempts = 4, retry_base_delay = 1 / 2, retry_max_delay = 8, retry_jitter = 3 / 10,
      poll_interval_seconds = 10, poll_timeout_seconds = 900, executor_concurrency = 2,
      reconcile_interval_seconds = 300, reconcile_min_age_seconds = 60,
      retention_interval_seconds = 3600, idempotency_ttl_hours = 24, upload_expiry_warning_days = 2,
      max_budget_rub = 10000, budget_safety_margin = 1 / 20, db_path = ''./data/vibe_agent.db'',
      mock_balance_rub = 5000, mock_daily_limit_rub = 5000, mock_daily_spent_rub = 0,
      policy_file = None\<rparr>"

text \<open>\<open>_blank_means_unset\<close>, run before validation on the four optional fields\<close>

definition blank_means_unset :: "string option \<Rightarrow> string option" where
  "blank_means_unset v = (case v of Some s \<Rightarrow> if py_strip s = [] then None else Some s | None \<Rightarrow> None)"

text \<open>The bounds declared on the fields\<close>

definition fields_in_range :: "settings \<Rightarrow> bool" where
  "fields_in_range s \<longleftrightarrow>
     1 \<le> retry_max_attempts s \<and> retry_max_attempts s \<le> 10 \<and> 0 < retry_base_delay s \<and>
     0 < retry_max_delay s \<and> 0 \<le> retry_jitter s \<and> retry_jitter s \<le> 1 \<and>
     0 < poll_interval_seconds s \<and> 0 < poll_timeout_seconds s \<and>
     1 \<le> executor_concurrency s \<and> executor_concurrency s \<le> 16 \<and>
     0 \<le> reconcile_interval_seconds s \<and> 0 \<le> reconcile_min_age_seconds s \<and>
     0 \<le> retention_interval_seconds s \<and> 0 < idempotency_ttl_hours s \<and>
     0 \<le> upload_expiry_warning_days s \<and> 0 < max_budget_rub s \<and>
     0 \<le> budget_safety_margin s \<and> budget_safety_margin s < 1 / 2"

text \<open>\<open>if not value\<close> on an optional string (\<open>SecretStr\<close> has a length)\<close>

definition unset :: "string option \<Rightarrow> bool" where
  "unset v \<longleftrightarrow> v = None \<or> v = Some []"

definition check_mode_requirements :: "settings \<Rightarrow> exn + settings" where
  "check_mode_requirements s =
     (if uses_network (app_mode s) \<and> unset (vibe_api_token s) then
        Inl (ValueError (Msg ''mode_requires_token'' [JStr (app_mode_value (app_mode s))]))
      else if \<not> unset (callback_base_url s) then
        Inr (s\<lparr>callback_base_url := map_option (rstrip_char CHR ''/'') (callback_base_url s)\<rparr>)
      else Inr s)"

definition make_settings :: "settings \<Rightarrow> exn + settings" where
  "make_settings raw =
     (let s = raw\<lparr>vibe_api_token := blank_means_unset (vibe_api_token raw),
                  vibe_webhook_secret := blank_means_unset (vibe_webhook_secret raw),
                  callback_base_url := blank_means_unset (callback_base_url raw),
                  policy_file := blank_means_unset (policy_file raw)\<rparr>
      in if fields_in_range s then check_mode_requirements s
         else Inl (ValueError (Text ''field out of range'')))"

definition token_value :: "settings \<Rightarrow> string option" where
  "token_value s = (if unset (vibe_api_token s) then None else vibe_api_token s)"

definition webhook_secret_value :: "settings \<Rightarrow> string option" where
  "webhook_secret_value s = (if unset (vibe_webhook_secret s) then None else vibe_webhook_secret s)"

definition callback_url :: "settings \<Rightarrow> string option" where
  "callback_url s = (if unset (callback_base_url s) then None
     else map_option (\<lambda>u. u @ ''/api/v1/webhooks/vibe'') (callback_base_url s))"

definition secret_values :: "settings \<Rightarrow> string list" where
  "secret_values s = List.map_filter (\<lambda>v. if unset v then None else v) [token_value s, webhook_secret_value s]"

lemma py_strip_Nil [simp]: "py_strip [] = []"
  by (simp add: py_strip_def py_lstrip_def py_rstrip_def)

lemma unset_blank [simp]: "unset (blank_means_unset v) \<longleftrightarrow> blank_means_unset v = None"
  by (auto simp: unset_def blank_means_unset_def split: option.splits)

lemma fields_in_range_strings [simp]:
  "fields_in_range (s\<lparr>vibe_api_token := a\<rparr>) = fields_in_range s"
  "fields_in_range (s\<lparr>vibe_webhook_secret := a\<rparr>) = fields_in_range s"
  "fields_in_range (s\<lparr>callback_base_url := a\<rparr>) = fields_in_range s"
  "fields_in_range (s\<lparr>policy_file := a\<rparr>) = fields_in_range s"
  by (simp_all add: fields_in_range_def)

lemma make_settings_Inr:
  assumes "make_settings raw = Inr s"
  shows "fields_in_range s \<and> app_mode s = app_mode raw \<and>
     vibe_api_token s = blank_means_unset (vibe_api_token raw) \<and>
     (uses_network (app_mode raw) \<longrightarrow> vibe_api_token s \<noteq> None) \<and>
     callback_base_url s = map_option (rstrip_char CHR ''/'') (blank_means_unset (callback_base_url raw))"
  using assms by (simp add: make_settings_def check_mode_requirements_def Let_def split: if_splits) auto

lemma make_settings_ok:
  assumes "make_settings raw = Inr s"
  shows "fields_in_range s" and "uses_network (app_mode s) \<Longrightarrow> token_value s \<noteq> None"
    and "token_value s = vibe_api_token s" and "app_mode s = app_mode raw"
  using make_settings_Inr [OF assms] by (simp_all add: token_value_def) metis

lemma callback_url_single_slash:
  assumes "make_settings raw = Inr s" and "callback_url s = Some u"
  obtains base where "u = base @ ''/api/v1/webhooks/vibe''" and "base \<noteq> []" and "last base \<noteq> CHR ''/''"
proof -
  obtain c where c: "callback_base_url s = Some c" and "c \<noteq> []" and u: "u = c @ ''/api/v1/webhooks/vibe''"
    using assms(2) by (auto simp: callback_url_def unset_def split: if_splits)
  have "\<exists>d. c = rstrip_char CHR ''/'' d"
    using make_settings_Inr [OF assms(1)] c by (cases "blank_means_unset (callback_base_url raw)") auto
  then obtain d where d: "c = rstrip_char CHR ''/'' d" ..
  have "hd (dropWhile (\<lambda>x. x = CHR ''/'') (rev d)) \<noteq> CHR ''/''"
    using d \<open>c \<noteq> []\<close> hd_dropWhile [of "\<lambda>x. x = CHR ''/''" "rev d"] by (auto simp: rstrip_char_def)
  then have "last c \<noteq> CHR ''/''" using d \<open>c \<noteq> []\<close> by (simp add: rstrip_char_def last_rev)
  then show thesis using that [OF u \<open>c \<noteq> []\<close>] by blast
qed

section \<open>Masking\<close>

definition PLACEHOLDER :: string where
  "PLACEHOLDER = ''***REDACTED***''"

text \<open>The registry of secrets is a set of strings.\<close>

definition register_secret :: "string option \<Rightarrow> string list \<Rightarrow> string list" where
  "register_secret v secrets = (case v of Some s \<Rightarrow> if 4 \<le> py_len s then List.insert s secrets else secrets
     | None \<Rightarrow> secrets)"

definition mask_secret :: "string option \<Rightarrow> nat \<Rightarrow> nat \<Rightarrow> string" where
  "mask_secret v keep_prefix keep_suffix =
     (case v of
        Some (c # cs) \<Rightarrow>
          (let value = c # cs in
           if py_len value \<le> keep_prefix + keep_suffix + 2 then replicate 8 CHR ''*''
           else py_take keep_prefix value @ ''***'' @ py_last keep_suffix value
             @ ''(len='' @ show_nat (py_len value) @ '')'')
      | _ \<Rightarrow> ''<unset>'')"

definition SENSITIVE :: "string list" where
  "SENSITIVE = [''authorization'', ''x-vibe-signature'', ''cookie'', ''set-cookie'', ''proxy-authorization'']"

definition safe_headers :: "(string \<times> string) list \<Rightarrow> (string \<times> string) list" where
  "safe_headers headers = map (\<lambda>(k, v). (k, if py_lower k \<in> set SENSITIVE then PLACEHOLDER else v)) headers"

lemma mask_secret_short:
  "py_len s \<le> 10 \<Longrightarrow> s \<noteq> [] \<Longrightarrow> mask_secret (Some s) 4 4 = ''********''"
  by (cases s) (auto simp: mask_secret_def Let_def numeral_eq_Suc)

lemma safe_headers_hides:
  "(k, v) \<in> set (safe_headers hs) \<Longrightarrow> py_lower k \<in> set SENSITIVE \<Longrightarrow> v = PLACEHOLDER"
  by (auto simp: safe_headers_def)

end
