(* ===== verification/Service.thy ===== *)
theory Service
  imports Planner Executor Config
begin

text \<open>
  \<open>PlanService\<close> (\<open>app/services/plan_service.py\<close>): from a brief to a priced plan, the admission of a
  confirmed plan as a queued job, and the run of a claimed job. The state is the database, the
  outside world of the client and the pending ids of the job queue. Objects the source mutates in
  place while planning (the steps and the account snapshot) are threaded through explicitly.
\<close>

section \<open>State\<close>

record 'x world =
  w_db :: db
  w_ext :: 'x
  w_queue :: "string list"

record 'x service =
  sv_client :: "'x client"
  sv_settings :: settings
  sv_policy :: policy
  sv_crypto :: crypto
  sv_has_media :: bool
  sv_has_queue :: bool

type_synonym ('x, 'a) serv = "('x world, exn, 'a) eff"

definition in_db :: "'a dbop \<Rightarrow> ('x, 'a) serv" where
  "in_db m = (\<lambda>w. let (r, d) = m (w_db w) in (r, w\<lparr>w_db := d\<rparr>))"

definition in_ext :: "('x, exn, 'a) eff \<Rightarrow> ('x, 'a) serv" where
  "in_ext m = (\<lambda>w. let (r, x) = m (w_ext w) in (r, w\<lparr>w_ext := x\<rparr>))"

definition clock :: "'x service \<Rightarrow> ('x, time) serv" where
  "clock sv = in_ext (now_is (sv_client sv))"

definition fresh_uuid :: "'x service \<Rightarrow> ('x, string) serv" where
  "fresh_uuid sv = in_ext (\<lambda>x. let (u, y) = cl_uuid (sv_client sv) x in (Inr u, y))"

text \<open>\<open>try: m except VibeError as exc\<close>: the caller looks at what came back\<close>

definition try_vibe :: "('s, exn, 'a) eff \<Rightarrow> ('s, exn, vibe_error + 'a) eff" where
  "try_vibe m = catch (bind m (\<lambda>a. ret (Inr a))) (\<lambda>e. case e of Vibe v \<Rightarrow> ret (Inl v) | _ \<Rightarrow> raise e)"

section \<open>Reading payloads\<close>

definition PRICE_TOLERANCE_RUB :: rat where
  "PRICE_TOLERANCE_RUB = 1 / 100"

text \<open>The cost of a step and where it was found.\<close>

definition estimated_cost_of :: "obj \<Rightarrow> (money \<times> string) option" where
  "estimated_cost_of payload =
     (case as_strict_num (jget payload ''estimated_cost_rub'') of
        Some c \<Rightarrow> Some (round4 c, ''estimated_cost_rub'')
      | None \<Rightarrow>
         (case jget payload ''balance'' of
            JObj b \<Rightarrow>
              (case (as_num (jget b ''current''), as_num (jget b ''after_reserve'')) of
                 (Some current, Some reserved) \<Rightarrow>
                   (let delta = round4 (current - reserved)
                    in if delta \<ge> 0 then Some (delta, ''reserve'') else None)
               | _ \<Rightarrow> None)
          | _ \<Rightarrow> None))"

lemma size_jget: "jget p k = JObj o1 \<Longrightarrow> size_list (size_prod (\<lambda>_. 0) size) o1 < size_list (size_prod (\<lambda>_. 0) size) p"
  by (induction p) (auto split: if_splits)

function first_number :: "obj \<Rightarrow> string list \<Rightarrow> rat option" where
  "first_number payload [] = None"
| "first_number payload (k # ks) =
     (case jget payload k of
        JInt n \<Rightarrow> Some (of_int n)
      | JFloat x \<Rightarrow> Some x
      | JObj o1 \<Rightarrow>
          (case first_number o1 [''rub'', ''current'', ''amount'', ''value''] of
             Some x \<Rightarrow> Some x
           | None \<Rightarrow> first_number payload ks)
      | _ \<Rightarrow> first_number payload ks)"
  by pat_completeness auto
termination
  by (relation "measures [\<lambda>(p, ks). size_list (size_prod (\<lambda>_. 0) size) p, \<lambda>(p, ks). length ks]")
    (auto dest: size_jget)

definition merge_account :: "account \<Rightarrow> obj \<Rightarrow> account" where
  "merge_account a payload =
     (let a1 = (case jget payload ''balance'' of
            JObj b \<Rightarrow> (case as_num (jget b ''current'') of Some x \<Rightarrow> a\<lparr>ac_balance_rub := Some x\<rparr> | None \<Rightarrow> a)
          | _ \<Rightarrow> a)
      in case jget payload ''daily_spend'' of
           JObj dl \<Rightarrow>
             (let a2 = (case as_num (jget dl ''limit'') of Some x \<Rightarrow> a1\<lparr>ac_daily_limit_rub := Some x\<rparr> | None \<Rightarrow> a1)
              in case as_num (jget dl ''today'') of Some x \<Rightarrow> a2\<lparr>ac_daily_spent_rub := Some x\<rparr> | None \<Rightarrow> a2)
         | _ \<Rightarrow> a1)"

text \<open>\<open>f"{x:.2f}"\<close>\<close>

definition fixed2 :: "rat \<Rightarrow> string" where
  "fixed2 x = (let n = nat (round_half_even (\<bar>x\<bar> * 100)) in
     (if x < 0 then ''-'' else []) @ show_nat (n div 100) @ ''.''
       @ [char_of (48 + (n div 10) mod 10), char_of (48 + n mod 10)])"

section \<open>The account\<close>

definition account_snapshot :: "'x service \<Rightarrow> ('x, account \<times> msg list) serv" where
  "account_snapshot sv =
     (let empty = \<lparr>ac_balance_rub = None, ac_daily_limit_rub = None, ac_daily_spent_rub = None,
                   ac_source = app_mode_value (app_mode (sv_settings sv))\<rparr> in
      bind (try_vibe (in_ext (cl_me (sv_client sv)))) (\<lambda>res.
      let (snapshot, warnings) = (case res of
            Inr me \<Rightarrow>
              (empty\<lparr>ac_balance_rub := first_number me [''balance'', ''balance_rub''],
                     ac_daily_limit_rub := first_number me [''daily_spend_limit'', ''daily_limit'', ''daily_spend_limit_rub''],
                     ac_daily_spent_rub := first_number me [''daily_spent'', ''spent_today'', ''daily_spent_rub'']\<rparr>, [])
          | Inl e \<Rightarrow> (empty, [Msg ''me_unavailable'' []])) in
      bind (if ac_balance_rub snapshot = None then
              bind (try_vibe (in_ext (cl_balance (sv_client sv)))) (\<lambda>res2. ret (case res2 of
                 Inr bal \<Rightarrow> (snapshot\<lparr>ac_balance_rub := first_number bal [''balance'', ''balance_rub'', ''amount'']\<rparr>, warnings)
               | Inl e \<Rightarrow> (snapshot, warnings @ [Msg ''balance_unavailable'' []])))
            else ret (snapshot, warnings)) (\<lambda>(snapshot2, warnings2).
      ret (snapshot2, warnings2 @ (if ac_balance_rub snapshot2 = None then [Msg ''balance_unknown'' []] else [])))))"

section \<open>Pricing\<close>

text \<open>One generation step: the repriced step, or \<open>None\<close> when it is excluded; the warnings; and the
  account as the reply leaves it.\<close>

definition price_step :: "'x service \<Rightarrow> plan_step \<Rightarrow> account \<Rightarrow> ('x, plan_step option \<times> msg list \<times> account) serv" where
  "price_step sv s acc =
     bind (try_vibe (in_ext (cl_estimate (sv_client sv) (estimate_body s)))) (\<lambda>res. case res of
       Inl (VibeAPIError e) \<Rightarrow> ret (None, [Msg ''estimate_rejected'' [JStr (ps_step_id s), opt_str (ps_model s), JStr (api_code e), JStr (api_message e)]], acc)
     | Inl e \<Rightarrow> ret (None, [Msg ''estimate_failed'' [JStr (ps_step_id s), opt_str (ps_model s)]], acc)
     | Inr payload \<Rightarrow>
         if jget payload ''valid'' = JBool False then
           ret (None, [Msg ''estimate_invalid'' [JStr (ps_step_id s), opt_str (ps_model s), jget payload ''validation'']], acc)
         else case estimated_cost_of payload of
           None \<Rightarrow> ret (None, [Msg ''estimate_without_cost'' [JStr (ps_step_id s), opt_str (ps_model s)]], acc)
         | Some (cost, cost_kind) \<Rightarrow>
            (case iter_json (j_or (jget payload ''warnings'') (JArr [])) of
               Inl e \<Rightarrow> raise e
             | Inr notes \<Rightarrow>
                 ret (Some (s\<lparr>ps_estimated_cost_rub := cost, ps_cost_source := ''estimate'',
                     ps_cost_basis := Msg ''estimate_basis'' [JFloat cost, JStr cost_kind,
                       JBool (ps_cost_source s \<noteq> ''pending_estimate''), JFloat (ps_estimated_cost_rub s)],
                     ps_warnings := ps_warnings s @ map (\<lambda>n. Msg ''platform_note'' [n]) notes
                       @ (if truthy (jget payload ''rejected'')
                          then [Msg ''platform_rejected_params'' [jget payload ''rejected'']] else [])\<rparr>),
                   [], merge_account acc payload)))"

fun price_steps :: "'x service \<Rightarrow> plan_step list \<Rightarrow> account \<Rightarrow> ('x, plan_step list \<times> msg list \<times> account) serv" where
  "price_steps sv [] acc = ret ([], [], acc)"
| "price_steps sv (s # ss) acc =
     bind (if ps_kind s = LOCAL then ret (Some s, [], acc) else price_step sv s acc) (\<lambda>(priced, ws, acc1).
     bind (price_steps sv ss acc1) (\<lambda>(rest, ws2, acc2).
     ret ((case priced of None \<Rightarrow> [] | Some t \<Rightarrow> [t]) @ rest, ws @ ws2, acc2)))"

definition is_billable :: "plan_step \<Rightarrow> bool" where
  "is_billable s \<longleftrightarrow> ps_kind s = GENERATION"

definition count_billable :: "plan_step list \<Rightarrow> nat" where
  "count_billable ss = length (filter is_billable ss)"

definition price_overrides :: "plan_step list \<Rightarrow> overrides" where
  "price_overrides ss = dict_merge [] (List.map_filter (\<lambda>s.
     case (ps_type s, ps_model s) of
       (Some (t # ts), Some (m # ms)) \<Rightarrow>
         if is_billable s then Some ((t # ts, m # ms), ps_estimated_cost_rub s) else None
     | _ \<Rightarrow> None) ss)"

definition price_label :: "plan_step \<Rightarrow> string" where
  "price_label s = ps_step_id s @ '': '' @ (case ps_model s of Some m \<Rightarrow> m | None \<Rightarrow> ''None'')
     @ bytes [32, 208, 183, 208, 176, 32] @ fixed2 (ps_estimated_cost_rub s) @ bytes [226, 130, 189]"

definition replan_with_exact_prices ::
  "'x service \<Rightarrow> capabilities \<Rightarrow> brief \<Rightarrow> plan_step list \<Rightarrow> string \<Rightarrow> money \<Rightarrow> account
     \<Rightarrow> ('x, plan_step list \<times> msg list \<times> account) serv" where
  "replan_with_exact_prices sv caps b steps plan_id spendable acc =
     (let sum_rub = steps_estimated_cost steps in
      if sum_rub \<le> spendable then ret (steps, [], acc)
      else case build (sv_crypto sv) caps (sv_policy sv) b plan_id spendable (price_overrides steps) of
        Inl e \<Rightarrow> raise e
      | Inr draft \<Rightarrow>
          bind (price_steps sv (d_steps draft) acc) (\<lambda>(cand, ws, acc1).
          let new_sum = steps_estimated_cost cand in
          if new_sum > spendable \<or> count_billable cand < count_billable steps then ret (steps, [], acc1)
          else ret (cand, [Msg ''replanned'' [JFloat sum_rub, JFloat new_sum,
                 jstrs (sort (remdups (filter (\<lambda>l. l \<notin> set (map price_label steps)) (map price_label cand))))]], acc1)))"

definition affordability_victim :: "policy \<Rightarrow> plan_step list \<Rightarrow> plan_step option" where
  "affordability_victim p kept =
     py_max_by (\<lambda>s. (priority_of p (ps_format s), ps_estimated_cost_rub s)) (filter is_billable kept)"

function drop_until_affordable :: "policy \<Rightarrow> money \<Rightarrow> plan_step list \<Rightarrow> plan_step list \<times> msg list" where
  "drop_until_affordable p spendable kept =
     (if steps_estimated_cost kept \<le> spendable then (kept, [])
      else case affordability_victim p kept of
        None \<Rightarrow> (kept, [])
      | Some v \<Rightarrow>
          (let (rest, ws) = drop_until_affordable p spendable (remove1 v kept)
           in (rest, Msg ''step_dropped'' [JStr (ps_step_id v), opt_str (ps_model v),
                JFloat (ps_estimated_cost_rub v), JFloat spendable] # ws)))"
  by pat_completeness auto
termination
proof (relation "measure (\<lambda>(p, sp, kept). length kept)", goal_cases)
  case (2 p spendable kept v)
  from 2(2) have "v \<in> set (filter is_billable kept)"
    unfolding affordability_victim_def by (rule py_max_by_in)
  then show ?case by (auto simp: length_remove1 dest: length_pos_if_in_set)
qed simp

declare drop_until_affordable.simps [simp del]

section \<open>Planning\<close>

text \<open>The clock is read for each known link.\<close>

fun expiry_warnings :: "'x service \<Rightarrow> (string, upload_row) dict \<Rightarrow> ('x, msg list) serv" where
  "expiry_warnings sv [] = ret []"
| "expiry_warnings sv ((url, r) # rest) =
     bind (clock sv) (\<lambda>now.
     bind (expiry_warnings sv rest) (\<lambda>ws.
     let remaining = expires_in_days r now in
     ret ((if remaining \<le> 0 then [Msg ''link_expired'' [JStr (mu_filename r), JStr url]]
           else if remaining \<le> upload_expiry_warning_days (sv_settings sv) then
             [Msg ''link_expires_soon'' [JStr (mu_filename r), JFloat remaining]]
           else []) @ ws)))"

definition media_warnings :: "'x service \<Rightarrow> brief \<Rightarrow> ('x, msg list) serv" where
  "media_warnings sv b =
     (if \<not> sv_has_media sv \<or> b_reference_image_urls b = [] then ret []
      else bind (in_db (media_find_many (b_reference_image_urls b))) (\<lambda>known.
           bind (expiry_warnings sv (sort_key fst known)) (\<lambda>ws.
           let unknown = filter (\<lambda>u. u \<notin> set (map fst known)) (remdups (b_reference_image_urls b)) in
           ret (ws @ (if unknown \<noteq> [] \<and> known \<noteq> [] then [Msg ''unknown_links'' [JInt (int (length unknown))]] else [])))))"

definition plan_status_of :: "brief \<Rightarrow> plan_draft \<Rightarrow> plan_step list \<Rightarrow> msg list \<Rightarrow> plan_status" where
  "plan_status_of b draft steps fit_warnings =
     (if filter is_billable steps = [] \<and> steps = [] then PLAN_INFEASIBLE
      else if d_dropped_formats draft \<noteq> [] \<or> fit_warnings \<noteq> [] \<or> length steps < length (b_formats b) then PLAN_DEGRADED
      else PLAN_READY)"

definition account_warnings :: "settings \<Rightarrow> account \<Rightarrow> money \<Rightarrow> msg list" where
  "account_warnings st acc sum_rub =
     (case ac_balance_rub acc of
        Some bal \<Rightarrow> if sum_rub > bal then [Msg ''total_over_balance'' [JFloat sum_rub, JFloat bal]] else []
      | None \<Rightarrow> [])
     @ (case daily_remaining_rub acc of
        Some d \<Rightarrow> if sum_rub > d then [Msg ''total_over_daily'' [JFloat sum_rub, JFloat d]] else []
      | None \<Rightarrow> [])
     @ (if app_mode st \<noteq> LIVE then [Msg ''not_live'' [JStr (app_mode_value (app_mode st))]] else [])"

text \<open>The last chance for the copy.\<close>

definition ensure_text :: "crypto \<Rightarrow> brief \<Rightarrow> string \<Rightarrow> plan_step list \<Rightarrow> plan_step list \<times> msg list" where
  "ensure_text h b plan_id steps =
     (if TEXT \<in> set (b_formats b) \<and> \<not> has_format TEXT steps
      then (steps @ [local_text_step h b plan_id], [Msg ''text_made_local'' []])
      else (steps, []))"

definition create_plan :: "'x service \<Rightarrow> brief \<Rightarrow> ('x, plan) serv" where
  "create_plan sv b =
     (let st = sv_settings sv in
      if b_budget_rub b > max_budget_rub st then
        raise (app_raise ValidationError (Msg ''budget_over_ceiling'' [JFloat (b_budget_rub b), JFloat (max_budget_rub st)]))
      else
        bind (fresh_uuid sv) (\<lambda>plan_id.
        bind (in_ext (cl_capabilities (sv_client sv))) (\<lambda>caps_payload.
        let caps = parse_capabilities caps_payload in
        bind (account_snapshot sv) (\<lambda>(acc, account_ws).
        let guard = new_guard (b_budget_rub b) (budget_safety_margin st) (Some acc) in
        case build (sv_crypto sv) caps (sv_policy sv) b plan_id (spendable_rub guard) [] of
          Inl e \<Rightarrow> raise e
        | Inr draft \<Rightarrow>
            bind (media_warnings sv b) (\<lambda>media_ws.
            bind (price_steps sv (d_steps draft) acc) (\<lambda>(priced, estimate_ws, acc1).
            bind (replan_with_exact_prices sv caps b priced plan_id (spendable_rub guard) acc1) (\<lambda>(replanned, replan_ws, acc2).
            let (kept, fit_ws) = drop_until_affordable (sv_policy sv) (spendable_rub guard) replanned;
                (steps, text_ws) = ensure_text (sv_crypto sv) b plan_id kept;
                sum_rub = steps_estimated_cost steps in
            bind (clock sv) (\<lambda>now.
            let p = \<lparr>p_plan_id = plan_id, p_created_at = now, p_mode = app_mode_value (app_mode st),
                     p_status = plan_status_of b draft steps fit_ws, p_brief = b, p_budget_rub = b_budget_rub b,
                     p_safety_margin_rub = margin_rub guard, p_spendable_rub = spendable_rub guard,
                     p_total_estimated_rub = sum_rub, p_steps = steps,
                     p_warnings = account_ws @ d_warnings draft @ media_ws @ estimate_ws @ replan_ws @ fit_ws @ text_ws
                       @ account_warnings st acc2 sum_rub,
                     p_account = acc2, p_job_id = None,
                     p_capabilities_fingerprint = capabilities_fingerprint (sv_crypto sv) caps_payload\<rparr> in
            andthen (in_db (plans_save p)) (ret p)))))))))"

end
