(* ===== verification/Admission.thy ===== *)
theory Admission
  imports Service
begin

text \<open>
  The execution half of \<open>PlanService\<close> (\<open>app/services/plan_service.py\<close>): \<open>execute_plan\<close> admits a
  confirmed plan as a queued job, \<open>run_job\<close> claims it, checks every price again and only then hands
  it to the executor. The plan loaded from the database and the guard are mutated in place by the
  recheck; they are returned updated.
\<close>

section \<open>The recheck\<close>

record recheck =
  rk_account :: "account option"
  rk_warnings :: "msg list"
  rk_blockers :: "msg list"
  rk_total :: money

definition rk_block :: "msg \<Rightarrow> recheck \<Rightarrow> recheck" where
  "rk_block m k = k\<lparr>rk_blockers := rk_blockers k @ [m]\<rparr>"

text \<open>What one reply does to the step and to the recheck so far.\<close>

definition recheck_reply :: "plan_step \<Rightarrow> obj \<Rightarrow> recheck \<Rightarrow> plan_step \<times> recheck" where
  "recheck_reply s payload k =
     (if jget payload ''valid'' = JBool False then (s, rk_block (Msg ''now_invalid'' [JStr (ps_step_id s)]) k)
      else case estimated_cost_of payload of
        None \<Rightarrow> (s, rk_block (Msg ''no_cost'' [JStr (ps_step_id s)]) k)
      | Some (cost, _) \<Rightarrow>
          (let delta = round4 (cost - ps_estimated_cost_rub s) in
           if delta > PRICE_TOLERANCE_RUB then
             (s, rk_block (Msg ''price_rose'' [JStr (ps_step_id s), JFloat (ps_estimated_cost_rub s), JFloat cost, JFloat delta]) k)
           else
             (let (s1, k1) =
                (if delta < - PRICE_TOLERANCE_RUB then
                   (s\<lparr>ps_estimated_cost_rub := cost\<rparr>,
                    k\<lparr>rk_warnings := rk_warnings k @ [Msg ''price_fell'' [JStr (ps_step_id s), JFloat (ps_estimated_cost_rub s), JFloat cost]]\<rparr>)
                 else (s, k));
                  over_limit = (case jget payload ''daily_spend'' of
                      JObj dl \<Rightarrow> jget dl ''within_limit'' = JBool False | _ \<Rightarrow> False)
              in if over_limit then (s1, rk_block (Msg ''daily_limit'' [JStr (ps_step_id s)]) k1)
                 else (s1, k1\<lparr>rk_account := map_option (\<lambda>a. merge_account a payload) (rk_account k1),
                               rk_total := rk_total k1 + cost\<rparr>))))"

definition recheck_step :: "'x service \<Rightarrow> plan_step \<Rightarrow> recheck \<Rightarrow> ('x, plan_step \<times> recheck) serv" where
  "recheck_step sv s k =
     bind (try_vibe (in_ext (cl_estimate (sv_client sv) (estimate_body s)))) (\<lambda>res. ret (case res of
       Inl e \<Rightarrow> (s, rk_block (Msg ''recheck_unavailable'' [JStr (ps_step_id s)]) k)
     | Inr payload \<Rightarrow> recheck_reply s payload k))"

fun recheck_steps :: "'x service \<Rightarrow> plan_step list \<Rightarrow> recheck \<Rightarrow> ('x, plan_step list \<times> recheck) serv" where
  "recheck_steps sv [] k = ret ([], k)"
| "recheck_steps sv (s # ss) k =
     bind (if ps_kind s = LOCAL then ret (s, k) else recheck_step sv s k) (\<lambda>(s1, k1).
     bind (recheck_steps sv ss k1) (\<lambda>(rest, k2). ret (s1 # rest, k2)))"

text \<open>The closing checks on the sum.\<close>

definition total_blockers :: "guard \<Rightarrow> account option \<Rightarrow> money \<Rightarrow> msg list" where
  "total_blockers g acc sum_rub =
     (if sum_rub > spendable_rub g then
        [Msg ''total_over_spendable'' [JFloat sum_rub, JFloat (spendable_rub g), JFloat (g_budget_rub g), JFloat (margin_rub g)]]
      else [])
     @ (case Option.bind acc ac_balance_rub of
          None \<Rightarrow> [Msg ''balance_unknown'' []]
        | Some bal \<Rightarrow>
            if sum_rub > bal then [Msg ''total_over_balance'' [JFloat sum_rub, JFloat bal]]
            else (case Option.bind acc daily_remaining_rub of
                Some d \<Rightarrow> if sum_rub > d then [Msg ''total_over_daily'' [JFloat sum_rub, JFloat d]] else []
              | None \<Rightarrow> []))"

text \<open>The plan and the guard as the recheck leaves them, the warnings and the blockers.\<close>

definition recheck_prices :: "'x service \<Rightarrow> plan \<Rightarrow> guard \<Rightarrow> ('x, plan \<times> guard \<times> msg list \<times> msg list) serv" where
  "recheck_prices sv p g =
     bind (recheck_steps sv (p_steps p) \<lparr>rk_account = g_account g, rk_warnings = [], rk_blockers = [], rk_total = 0\<rparr>)
       (\<lambda>(steps, k).
          ret (p\<lparr>p_steps := steps\<rparr>, g\<lparr>g_account := rk_account k\<rparr>, rk_warnings k,
               rk_blockers k @ total_blockers g (rk_account k) (round4 (rk_total k))))"

section \<open>Jobs\<close>

definition new_job_step :: "plan_step \<Rightarrow> job_step" where
  "new_job_step s = \<lparr>js_step_id = ps_step_id s, js_format = ps_format s, js_kind = ps_kind s, js_type = ps_type s,
     js_model = ps_model s, js_status = STEP_PENDING, js_idempotency_key = ps_idempotency_key s, js_generation_id = None,
     js_task_id = JNull, js_is_long_voiceover = False, js_estimated_cost_rub = ps_estimated_cost_rub s,
     js_actual_cost_rub = 0, js_refunded = False, js_result_url = JNull, js_display_url = JNull, js_local_output = None,
     js_text_output = None, js_error = None, js_attempts = 0, js_started_at = None, js_finished_at = None\<rparr>"

text \<open>\<open>_new_job\<close>, with the status its only caller sets on it\<close>

definition new_job :: "string \<Rightarrow> time \<Rightarrow> plan \<Rightarrow> job" where
  "new_job jid now p = \<lparr>j_job_id = jid, j_plan_id = p_plan_id p, j_mode = p_mode p, j_status = JOB_PENDING,
     j_budget_rub = p_budget_rub p, j_estimated_cost_rub = steps_estimated_cost (p_steps p), j_actual_cost_rub = 0,
     j_steps = map new_job_step (p_steps p), j_warnings = [], j_errors = [],
     j_created_at = now, j_started_at = None, j_finished_at = None\<rparr>"

definition skip_pending :: "job_step \<Rightarrow> job_step" where
  "skip_pending s = (if js_status s = STEP_PENDING
     then s\<lparr>js_status := STEP_SKIPPED, js_error := Some (Msg ''cancelled_before_spending'' [])\<rparr> else s)"

definition aborted_job :: "time \<Rightarrow> msg list \<Rightarrow> job \<Rightarrow> job" where
  "aborted_job now blockers j = j\<lparr>j_status := JOB_ABORTED, j_errors := j_errors j @ blockers,
     j_finished_at := Some now, j_steps := map skip_pending (j_steps j)\<rparr>"

definition abort_job :: "'x service \<Rightarrow> job \<Rightarrow> msg list \<Rightarrow> ('x, job) serv" where
  "abort_job sv j blockers =
     bind (clock sv) (\<lambda>now. andthen (in_db (jobs_save (aborted_job now blockers j))) (ret (aborted_job now blockers j)))"

section \<open>Running a claimed job\<close>

definition exec_env_of :: "'x service \<Rightarrow> 'x exec_env" where
  "exec_env_of sv = \<lparr>x_client = sv_client sv, x_crypto = sv_crypto sv, x_callback_url = callback_url (sv_settings sv),
     x_poll_interval = poll_interval_seconds (sv_settings sv), x_poll_timeout = poll_timeout_seconds (sv_settings sv)\<rparr>"

definition start_state :: "'x world \<Rightarrow> job \<Rightarrow> guard \<Rightarrow> 'x est" where
  "start_state w j g = \<lparr>e_db = w_db w, e_ext = w_ext w, e_job = j, e_guard = g\<rparr>"

definition run_executor :: "'x service \<Rightarrow> plan \<Rightarrow> job \<Rightarrow> guard \<Rightarrow> ('x, job) serv" where
  "run_executor sv p j g = (\<lambda>w.
     let (r, s) = run (exec_env_of sv) p (start_state w j g) in (r, w\<lparr>w_db := e_db s, w_ext := e_ext s\<rparr>))"

definition launched_steps :: "job \<Rightarrow> job_step list" where
  "launched_steps j = filter (\<lambda>s. js_generation_id s \<noteq> None) (j_steps j)"

text \<open>The plan as it is saved before the executor starts.\<close>

definition hand_over :: "'x service \<Rightarrow> plan \<Rightarrow> job \<Rightarrow> guard \<Rightarrow> ('x, job) serv" where
  "hand_over sv p j g =
     (let p1 = p\<lparr>p_job_id := Some (j_job_id j), p_status := PLAN_EXECUTED\<rparr>
      in andthen (in_db (plans_save p1)) (run_executor sv p1 j g))"

text \<open>After the recheck: stop before the first ruble, or hand over to the executor.\<close>

definition after_recheck :: "'x service \<Rightarrow> job \<Rightarrow> plan \<times> guard \<times> msg list \<times> msg list \<Rightarrow> ('x, job) serv" where
  "after_recheck sv j = (\<lambda>(p, g, ws, blockers).
     let j1 = j\<lparr>j_warnings := j_warnings j @ ws\<rparr> in
     if blockers \<noteq> [] then abort_job sv j1 blockers else hand_over sv p j1 g)"

text \<open>With the account known: steps that were launched before are paid for upstream, so a resumed job
  skips the recheck and counts what they cost.\<close>

definition start_run :: "'x service \<Rightarrow> job \<Rightarrow> plan \<Rightarrow> account \<times> msg list \<Rightarrow> ('x, job) serv" where
  "start_run sv j p = (\<lambda>(acc, ws).
     let g = new_guard (p_budget_rub p) (budget_safety_margin (sv_settings sv)) (Some acc);
         j1 = j\<lparr>j_warnings := j_warnings j @ ws\<rparr> in
     if launched_steps j1 \<noteq> [] then
       hand_over sv p
         (j1\<lparr>j_warnings := j_warnings j1 @ [Msg ''resumed'' [jstrs (map js_step_id (launched_steps j1))]]\<rparr>)
         (g\<lparr>g_committed_rub := steps_actual_cost (j_steps j1)\<rparr>)
     else bind (recheck_prices sv p g) (after_recheck sv j1))"

definition run_claimed :: "'x service \<Rightarrow> job \<Rightarrow> ('x, job) serv" where
  "run_claimed sv j =
     bind (in_db (plans_get (j_plan_id j))) (\<lambda>found. case found of
       None \<Rightarrow> abort_job sv j [Msg ''plan_unavailable'' [JStr (j_plan_id j)]]
     | Some p \<Rightarrow> bind (account_snapshot sv) (start_run sv j p))"

definition run_job :: "'x service \<Rightarrow> string \<Rightarrow> ('x, job) serv" where
  "run_job sv jid =
     bind (in_db (jobs_get jid)) (\<lambda>found. case found of
       None \<Rightarrow> raise (app_raise NotFoundError (Msg ''job_not_found'' [JStr jid]))
     | Some j0 \<Rightarrow>
         bind (clock sv) (\<lambda>now.
         bind (in_db (claim_for_execution jid now)) (\<lambda>claimed_now.
           if \<not> claimed_now then
             bind (in_db (jobs_get jid)) (\<lambda>current. ret (case current of Some j \<Rightarrow> j | None \<Rightarrow> j0))
           else
             bind (in_db (jobs_get jid)) (\<lambda>found2. case found2 of
               None \<Rightarrow> raise AssertionFailed
             | Some j \<Rightarrow> run_claimed sv j))))"

section \<open>Admission\<close>

definition enqueue :: "string \<Rightarrow> ('x, unit) serv" where
  "enqueue jid = modify (\<lambda>w. w\<lparr>w_queue := w_queue w @ [jid]\<rparr>)"

definition admit :: "'x service \<Rightarrow> plan \<Rightarrow> ('x, job) serv" where
  "admit sv p =
     bind (fresh_uuid sv) (\<lambda>jid.
     bind (clock sv) (\<lambda>now.
     let j = (new_job jid now p)\<lparr>j_status := JOB_QUEUED\<rparr> in
     andthen (in_db (jobs_save j))
     (andthen (in_db (plans_save (p\<lparr>p_job_id := Some jid\<rparr>))) (ret j))))"

definition execute_plan :: "'x service \<Rightarrow> string \<Rightarrow> bool \<Rightarrow> bool \<Rightarrow> ('x, job) serv" where
  "execute_plan sv pid confirmed wait =
     bind (in_db (plans_get pid)) (\<lambda>found. case found of
       None \<Rightarrow> raise (app_raise NotFoundError (Msg ''plan_not_found'' [JStr pid]))
     | Some p \<Rightarrow>
         if \<not> confirmed then raise (app_raise ConfirmationRequiredError (Msg ''confirmation_required'' []))
         else if app_mode (sv_settings sv) = ESTIMATE then raise (app_raise ModeNotAllowedError (Msg ''estimate_only'' []))
         else if p_status p = PLAN_INFEASIBLE then raise (app_raise ConflictError (Msg ''plan_infeasible'' []))
         else
           bind (in_db (jobs_get_by_plan pid)) (\<lambda>existing.
             let fresh_job =
               bind (admit sv p) (\<lambda>j.
                 if wait \<or> \<not> sv_has_queue sv then run_job sv (j_job_id j)
                 else andthen (enqueue (j_job_id j)) (ret j)) in
             case existing of
               Some j \<Rightarrow> if is_terminal (j_status j) \<or> is_active (j_status j) then ret j else fresh_job
             | None \<Rightarrow> fresh_job))"

definition service_get_job :: "string \<Rightarrow> ('x, job) serv" where
  "service_get_job jid =
     bind (in_db (jobs_get jid)) (\<lambda>found. case found of
       None \<Rightarrow> raise (app_raise NotFoundError (Msg ''job_not_found'' [JStr jid])) | Some j \<Rightarrow> ret j)"

definition service_get_plan :: "string \<Rightarrow> ('x, plan) serv" where
  "service_get_plan pid =
     bind (in_db (plans_get pid)) (\<lambda>found. case found of
       None \<Rightarrow> raise (app_raise NotFoundError (Msg ''plan_not_found'' [JStr pid])) | Some p \<Rightarrow> ret p)"

end
