(* ===== verification/Demo.thy ===== *)
theory Demo
  imports Executor Policy
begin

text \<open>
  Small concrete objects for the witnesses of the properties: digest functions, a platform that
  accepts every request at a fixed price and finishes at once, a plan of two steps, its job and a
  database that holds both. Nothing here models code of the repository.
\<close>

definition demo_crypto :: crypto where
  "demo_crypto = \<lparr>sha256_hex = (\<lambda>s. s), hmac_sha256_hex = (\<lambda>k b. k @ b), uuid5_str = (\<lambda>s. s)\<rparr>"

text \<open>The world is a counter: the clock and the next generation id.\<close>

definition demo_client :: "money \<Rightarrow> nat client" where
  "demo_client price =
     \<lparr>cl_now = (\<lambda>n. (of_nat n, n + 1)), cl_sleep = (\<lambda>d n. n + 10), cl_uuid = (\<lambda>n. (''id'' @ show_nat n, n + 1)),
      cl_capabilities = ret [], cl_me = ret [(''balance'', JFloat 1000)], cl_balance = ret [],
      cl_estimate = (\<lambda>body. ret [(''estimated_cost_rub'', JFloat price)]),
      cl_generate = (\<lambda>body n. (Inr [(''status'', JStr ''processing''), (''generation_id'', JInt (int n)), (''cost'', JFloat price)], n + 1)),
      cl_generation_status = (\<lambda>g. ret [(''status'', JStr ''complete''), (''cost'', JFloat price)]),
      cl_voiceover_status = None, cl_wait_for_generation = None,
      cl_upload_media = (\<lambda>f c t. ret [])\<rparr>"

definition demo_brief :: brief where
  "demo_brief = \<lparr>b_product_name = ''tea'', b_product_description = ''green tea'', b_target_audience = ''people'',
     b_offer = ''discount'', b_formats = [IMAGE, VIDEO], b_budget_rub = 100, b_style = ''plain'', b_language = ''ru'',
     b_strategy = BALANCED, b_aspect_ratio = None, b_video_duration_seconds = None, b_voiceover_script = None,
     b_reference_image_urls = [], b_landing_url = None, b_text_max_tokens = None\<rparr>"

definition demo_policy :: policy where
  "demo_policy = \<lparr>po_format_priority = [''text'', ''image'', ''voice'', ''video'', ''music''],
     po_tiers = [(''image'', [[''fine''], [''quick'']])], po_exclude = [], po_per_1000_chars_types = [''voice''],
     po_defaults = [], po_suppliable_params = [''prompt''], po_source = ''demo'', po_raw = []\<rparr>"

definition demo_step :: "string \<Rightarrow> content_format \<Rightarrow> money \<Rightarrow> plan_step" where
  "demo_step sid f cost = \<lparr>ps_step_id = sid, ps_format = f, ps_kind = GENERATION, ps_type = Some (format_value f),
     ps_model = Some ''m'', ps_model_description = [], ps_params = [(''prompt'', JStr ''tea'')], ps_idempotency_key = ''key-'' @ sid,
     ps_estimated_cost_rub = cost, ps_cost_source = ''estimate'', ps_cost_basis = Text [], ps_reason = Text [],
     ps_rejected_alternatives = [], ps_warnings = [], ps_local_output = None\<rparr>"

definition demo_plan :: plan where
  "demo_plan = \<lparr>p_plan_id = ''p1'', p_created_at = 0, p_mode = ''live'', p_status = PLAN_READY, p_brief = demo_brief,
     p_budget_rub = 100, p_safety_margin_rub = 5, p_spendable_rub = 95, p_total_estimated_rub = 40,
     p_steps = [demo_step ''image-1'' IMAGE 10, demo_step ''video-1'' VIDEO 30], p_warnings = [],
     p_account = \<lparr>ac_balance_rub = Some 1000, ac_daily_limit_rub = None, ac_daily_spent_rub = None, ac_source = ''me''\<rparr>,
     p_job_id = None, p_capabilities_fingerprint = []\<rparr>"

definition demo_job_step :: "plan_step \<Rightarrow> job_step" where
  "demo_job_step s = \<lparr>js_step_id = ps_step_id s, js_format = ps_format s, js_kind = ps_kind s, js_type = ps_type s,
     js_model = ps_model s, js_status = STEP_PENDING, js_idempotency_key = ps_idempotency_key s, js_generation_id = None,
     js_task_id = JNull, js_is_long_voiceover = False, js_estimated_cost_rub = ps_estimated_cost_rub s,
     js_actual_cost_rub = 0, js_refunded = False, js_result_url = JNull, js_display_url = JNull, js_local_output = None,
     js_text_output = None, js_error = None, js_attempts = 0, js_started_at = None, js_finished_at = None\<rparr>"

definition demo_job :: job where
  "demo_job = \<lparr>j_job_id = ''j1'', j_plan_id = ''p1'', j_mode = ''live'', j_status = JOB_QUEUED, j_budget_rub = 100,
     j_estimated_cost_rub = 40, j_actual_cost_rub = 0, j_steps = map demo_job_step (p_steps demo_plan),
     j_warnings = [], j_errors = [], j_created_at = 1, j_started_at = None, j_finished_at = None\<rparr>"

definition demo_db :: db where
  "demo_db = snd (jobs_save demo_job (snd (plans_save demo_plan empty_db)))"

definition demo_guard :: guard where
  "demo_guard = new_guard 100 (1 / 20) (Some (p_account demo_plan))"

definition demo_state :: "nat est" where
  "demo_state = \<lparr>e_db = demo_db, e_ext = 0, e_job = demo_job, e_guard = demo_guard\<rparr>"

definition demo_env :: "money \<Rightarrow> nat exec_env" where
  "demo_env price = \<lparr>x_client = demo_client price, x_crypto = demo_crypto, x_callback_url = None,
     x_poll_interval = 10, x_poll_timeout = 900\<rparr>"

lemma demo_db_eq: "demo_db = empty_db\<lparr>t_plans := [plan_row_of demo_plan], t_jobs := [job_row_of demo_job]\<rparr>"
  by (simp add: demo_db_def plans_save_def jobs_save_def modify_def empty_db_def demo_job_def demo_plan_def plan_row_of_def)

lemma demo_db_ok: "db_ok demo_db"
  by (simp add: demo_db_eq db_ok_def empty_db_def plans_ok_def jobs_ok_def steps_ok_def plan_row_of_def job_row_of_def)

end
