(* ===== verification/Executor_Facts.thy ===== *)
theory Executor_Facts
  imports Demo "HOL-Library.Sublist"
begin

text \<open>
  What a run guarantees (\<open>app/services/executor.py\<close>): the database stays well formed and the ledger
  only grows, every billable call is the body of a step claimed in the ledger, made at most once
  per run and never for a step already launched, and the guard's committed money is the money the
  job reports, so whatever exceeds the envelope is what the platform charged above its quotes.
\<close>

section \<open>Relations the operations keep\<close>

text \<open>
  What the executor never does to the job it works on: give it another id or plan, or make it
  pending again.
\<close>

definition same_job :: "job \<Rightarrow> job \<Rightarrow> bool" where
  "same_job j k \<longleftrightarrow> j_job_id k = j_job_id j \<and> j_plan_id k = j_plan_id j \<and> (j_status k = j_status j \<or> j_status k \<noteq> JOB_PENDING)"

lemma aggregate_not_pending [simp]: "aggregate_status ss ab \<noteq> JOB_PENDING"
  by (simp add: aggregate_status_def Let_def)

text \<open>
  A relation between the state before and after that every operation of the executor keeps, except
  possibly the launch: it may depend on the job only as far as \<open>same_job\<close> goes and not on the guard,
  and the two statements on the database and the free calls of the client keep it.
\<close>

locale quiet_relation = step_order R
  for R :: "'x est \<Rightarrow> 'x est \<Rightarrow> bool" +
  fixes env :: "'x exec_env"
  assumes job_free: "same_job (e_job s) j \<Longrightarrow> R s (s\<lparr>e_job := j\<rparr>)"
    and guard_free: "R s (s\<lparr>e_guard := g\<rparr>)"
    and save_job_keeps: "keeps R save_job"
    and updating: "keeps R (on_db (update_step pid sid st gid cost now))"
    and reading_clock: "keeps R (utcnow env)"
    and sleeping: "keeps R (sleep_for env d)"
    and asking: "keeps R (on_ext (cl_generation_status (x_client env) g0))"
    and asking_voice: "cl_voiceover_status (x_client env) = Some f \<Longrightarrow> keeps R (on_ext (f g0))"
    and waiting: "cl_wait_for_generation (x_client env) = Some w \<Longrightarrow> keeps R (on_ext (w g0 i dl))"
begin

lemma modify_job_keeps: "(\<And>j. same_job j (h j)) \<Longrightarrow> keeps R (modify_job h)"
  by (simp add: keeps_def modify_job_def job_free)

lemma leaves:
  "keeps R (modify_step sid f)" "keeps R (modify_guard k)"
  "keeps R (add_error m)" "keeps R (add_warning m)" "keeps R (the_step sid)" "keeps R refresh_cost"
proof -
  show "keeps R (modify_guard k)" "keeps R (the_step sid)"
    by (auto simp: keeps_def modify_guard_def the_step_def guard_free R_refl split: option.splits)
qed (auto simp: modify_step_def add_error_def add_warning_def refresh_cost_def same_job_def intro!: modify_job_keeps)

lemmas parts = keeps_intros keeps_ret keeps_raise keeps_gets leaves save_job_keeps updating
  reading_clock sleeping

lemma poll_keeps:
  "keeps R ask \<Longrightarrow> (\<And>x. keeps R (sl x)) \<Longrightarrow> keeps R (poll n ask sl i dl w)"
proof (induction n arbitrary: w)
  case 0
  show ?case unfolding poll.simps by (rule keeps_raise)
next
  case (Suc n)
  show ?case unfolding poll.simps by (intro parts Suc.IH Suc.prems)
qed

lemma settle_keeps: "keeps R (settle env p sid payload)"
  unfolding settle_def Let_def case_prod_beta by (intro parts)

lemma fail_step_keeps: "keeps R (fail_step env sid m)"
  unfolding fail_step_def by (intro parts)

lemma await_long_keeps: "keeps R (await_long_voiceover env p sid)"
  unfolding await_long_voiceover_def poll_from_zero_def
  by (intro parts poll_keeps fail_step_keeps asking_voice)
     (auto split: sum.splits intro: settle_keeps fail_step_keeps)

lemma wait_for_keeps: "keeps R (wait_for env g)"
  unfolding wait_for_def poll_from_zero_def
  by (intro parts poll_keeps asking waiting) (auto split: sum.splits intro: parts)

lemma await_result_keeps: "keeps R (await_result env p sid)"
  unfolding await_result_def
  by (intro parts wait_for_keeps)
     (auto split: exn.splits vibe_error.splits option.splits intro!: parts fail_step_keeps settle_keeps)

lemma record_charge_keeps: "keeps R (record_charge env p ps r)"
  unfolding record_charge_def Let_def
  by (intro parts) (auto split: sum.splits intro!: parts)

lemma await_step_keeps: "keeps R (await_step env p sid r)"
  unfolding await_step_def
  by (intro parts await_long_keeps await_result_keeps settle_keeps fail_step_keeps)

lemma step_failed_keeps: "keeps R (step_failed env p ps e)"
  unfolding step_failed_def Let_def
  by (auto split: exn.splits vibe_error.splits intro!: parts)

lemma finish_run_keeps: "keeps R (finish_run env ab)"
  unfolding finish_run_def by (intro parts modify_job_keeps) (simp add: same_job_def)

end

text \<open>When the launch keeps it too, so does the whole run.\<close>

locale run_relation = quiet_relation R env
  for R :: "'x est \<Rightarrow> 'x est \<Rightarrow> bool" and env :: "'x exec_env" +
  assumes claiming: "keeps R (on_db (claim_step h pid sid jid key body now))"
    and generating: "keeps R (on_ext (cl_generate (x_client env) body))"
begin

lemma launch_keeps: "keeps R (launch_or_resume env p ps)"
  unfolding launch_or_resume_def launch_def Let_def
  by (intro parts claiming)
     (auto split: sum.splits intro!: parts record_charge_keeps generating)

lemma run_step_keeps: "keeps R (run_step env p ps)"
  unfolding run_step_def Let_def by (intro parts launch_keeps await_step_keeps)

lemma attempt_step_keeps: "keeps R (attempt_step env p ps)"
  unfolding attempt_step_def by (intro parts run_step_keeps step_failed_keeps)

lemma run_steps_keeps: "keeps R (run_steps env p pss ab)"
proof (induction pss arbitrary: ab)
  case (Cons ps pss)
  show ?case unfolding run_steps.simps by (intro parts attempt_step_keeps Cons.IH)
next
  case Nil
  show ?case unfolding run_steps.simps by (rule keeps_ret)
qed

lemma run_keeps: "keeps R (run env p)"
  unfolding run_def by (intro parts modify_job_keeps run_steps_keeps finish_run_keeps) (simp add: same_job_def)

end

text \<open>Relations on the database alone.\<close>

definition dbs :: "(db \<Rightarrow> db \<Rightarrow> bool) \<Rightarrow> 'x est \<Rightarrow> 'x est \<Rightarrow> bool" where
  "dbs R s t \<longleftrightarrow> R (e_db s) (e_db t)"

lemma keeps_dbs_on_db: "keeps R m \<Longrightarrow> keeps (dbs R) (on_db m)"
  by (simp add: keeps_def dbs_def on_db_def Let_def case_prod_beta)

lemma keeps_dbs_ext:
  "(\<And>d. R d d) \<Longrightarrow> keeps (dbs R) (on_ext m) \<and> keeps (dbs R) (utcnow env) \<and> keeps (dbs R) (sleep_for env d)"
  by (simp add: keeps_def dbs_def on_ext_def utcnow_def sleep_for_def Let_def case_prod_beta)

lemma keeps_save_job: "(\<And>j. keeps R (on_db (jobs_save j))) \<Longrightarrow> keeps R save_job"
  by (simp add: keeps_def save_job_def)

lemma db_run_relation:
  assumes "step_order R" and "\<And>j. keeps R (jobs_save j)"
    and "\<And>h pid sid jid key body now. keeps R (claim_step h pid sid jid key body now)"
    and "\<And>pid sid st gid cost now. keeps R (update_step pid sid st gid cost now)"
  shows "run_relation (dbs R) env"
proof -
  have r: "R d d" for d by (rule step_order.R_refl [OF assms(1)])
  have t: "R c d \<Longrightarrow> R d e \<Longrightarrow> R c e" for c d e by (rule step_order.R_trans [OF assms(1)])
  show ?thesis
    by unfold_locales
      (simp_all add: keeps_save_job keeps_dbs_on_db assms(2-4) keeps_dbs_ext r, auto simp: dbs_def r intro: t)
qed

interpretation run_ok: run_relation "dbs ok_step" env for env
  by (intro db_run_relation store_ok ok.step_order_axioms)

interpretation run_ledger: run_relation "dbs ledger_grows" env for env
  by (intro db_run_relation store_grows ledger.step_order_axioms)

section \<open>The billable calls of a run\<close>

text \<open>A client that writes down the bodies it sends to \<open>/generate\<close>.\<close>

definition with_log :: "('x, exn, 'a) eff \<Rightarrow> ('x \<times> obj list, exn, 'a) eff" where
  "with_log m = (\<lambda>(x, l). let (r, y) = m x in (r, (y, l)))"

definition logged :: "'x client \<Rightarrow> ('x \<times> obj list) client" where
  "logged c =
     \<lparr>cl_now = (\<lambda>(x, l). let (t, y) = cl_now c x in (t, (y, l))),
      cl_sleep = (\<lambda>d (x, l). (cl_sleep c d x, l)),
      cl_uuid = (\<lambda>(x, l). let (u, y) = cl_uuid c x in (u, (y, l))),
      cl_capabilities = with_log (cl_capabilities c), cl_me = with_log (cl_me c),
      cl_balance = with_log (cl_balance c), cl_estimate = with_log \<circ> cl_estimate c,
      cl_generate = (\<lambda>body (x, l). let (r, y) = cl_generate c body x in (r, (y, l @ [body]))),
      cl_generation_status = with_log \<circ> cl_generation_status c,
      cl_voiceover_status = map_option (\<lambda>f. with_log \<circ> f) (cl_voiceover_status c),
      cl_wait_for_generation = map_option (\<lambda>w g i dl. with_log (w g i dl)) (cl_wait_for_generation c),
      cl_upload_media = (\<lambda>f c1 t. with_log (cl_upload_media c f c1 t))\<rparr>"

definition logged_env :: "'x exec_env \<Rightarrow> ('x \<times> obj list) exec_env" where
  "logged_env env = \<lparr>x_client = logged (x_client env), x_crypto = x_crypto env,
     x_callback_url = x_callback_url env, x_poll_interval = x_poll_interval env, x_poll_timeout = x_poll_timeout env\<rparr>"

definition sent :: "('x \<times> obj list) est \<Rightarrow> obj list" where
  "sent s = snd (e_ext s)"

definition no_call :: "('x \<times> obj list) est \<Rightarrow> ('x \<times> obj list) est \<Rightarrow> bool" where
  "no_call s t \<longleftrightarrow> sent t = sent s \<and> ledger_grows (e_db s) (e_db t)"

lemma with_log_sent: "keeps no_call (on_ext (with_log m))"
  by (auto simp: keeps_def no_call_def sent_def on_ext_def with_log_def Let_def case_prod_beta ledger.R_refl)

interpretation quiet: quiet_relation no_call "logged_env env" for env :: "'x exec_env"
proof
  show "no_call s s" for s :: "('x \<times> obj list) est" by (simp add: no_call_def ledger.R_refl)
  show "no_call s t \<Longrightarrow> no_call t u \<Longrightarrow> no_call s u" for s t u :: "('x \<times> obj list) est"
    by (auto simp: no_call_def intro: ledger.R_trans)
  show "keeps no_call (save_job :: ('x \<times> obj list, unit) exec)"
    using store_grows(5) by (auto simp: keeps_def no_call_def sent_def save_job_def on_db_def Let_def case_prod_beta)
  show "keeps no_call (on_db (update_step pid sid st gid cost now) :: ('x \<times> obj list, unit) exec)" for pid sid st gid cost now
    using update_step_grows [of pid sid st gid cost now]
    by (auto simp: keeps_def no_call_def sent_def on_db_def Let_def case_prod_beta)
  show "keeps no_call (on_ext (f g))" if "cl_voiceover_status (x_client (logged_env env)) = Some f" for f g
    using that with_log_sent by (auto simp: logged_env_def logged_def)
  show "keeps no_call (on_ext (w g i dl))" if "cl_wait_for_generation (x_client (logged_env env)) = Some w" for w g i dl
    using that with_log_sent by (auto simp: logged_env_def logged_def)
  show "keeps no_call (on_ext (cl_generation_status (x_client (logged_env env)) g))" for g
    using with_log_sent by (auto simp: logged_env_def logged_def)
qed (auto simp: no_call_def sent_def keeps_def utcnow_def sleep_for_def now_is_def on_ext_def logged_env_def
       logged_def modify_def Let_def case_prod_beta ledger.R_refl)

definition unlaunched :: "db \<Rightarrow> plan \<Rightarrow> plan_step \<Rightarrow> bool" where
  "unlaunched d p ps \<longleftrightarrow> (\<forall>r. step_at d (p_plan_id p) (ps_step_id ps) = Some r \<longrightarrow> sx_generation_id r = None)"

definition claimed :: "crypto \<Rightarrow> string option \<Rightarrow> db \<Rightarrow> plan \<Rightarrow> plan_step \<Rightarrow> bool" where
  "claimed h cb d p ps \<longleftrightarrow> (\<exists>r. step_at d (p_plan_id p) (ps_step_id ps) = Some r \<and>
     sx_idempotency_key r = ps_idempotency_key ps \<and> sx_request_hash r = request_hash h (generate_body ps cb))"

lemma unlaunched_before:
  assumes "ledger_grows d d'" and "unlaunched d' p ps"
  shows "unlaunched d p ps"
  unfolding unlaunched_def
proof (intro allI impI)
  fix r
  assume "step_at d (p_plan_id p) (ps_step_id ps) = Some r"
  then obtain r' where "step_at d' (p_plan_id p) (ps_step_id ps) = Some r'" "same_claim r r'"
    using ledger_grows_step [OF assms(1)] by blast
  then show "sx_generation_id r = None" using assms(2) by (auto simp: unlaunched_def same_claim_def)
qed

lemma claimed_after:
  assumes "ledger_grows d d'" and "claimed h cb d p ps"
  shows "claimed h cb d' p ps"
proof -
  obtain r where r: "step_at d (p_plan_id p) (ps_step_id ps) = Some r"
    "sx_idempotency_key r = ps_idempotency_key ps" "sx_request_hash r = request_hash h (generate_body ps cb)"
    using assms(2) by (auto simp: claimed_def)
  obtain r' where "step_at d' (p_plan_id p) (ps_step_id ps) = Some r'" "same_claim r r'"
    using ledger_grows_step [OF assms(1) r(1)] by blast
  then show ?thesis using r by (auto simp: claimed_def same_claim_def)
qed

text \<open>Every call so far was for a step of the list, in its order and at most once each, claimed and
  never launched before.\<close>

definition calls_of ::
  "'x exec_env \<Rightarrow> plan \<Rightarrow> plan_step list \<Rightarrow> ('x \<times> obj list) est \<Rightarrow> ('x \<times> obj list) est \<Rightarrow> bool" where
  "calls_of env p pss s t \<longleftrightarrow> ledger_grows (e_db s) (e_db t) \<and>
     (\<exists>called. sent t = sent s @ map (\<lambda>ps. generate_body ps (x_callback_url env)) called \<and> subseq called pss \<and>
        list_all (\<lambda>ps. ps_kind ps = GENERATION \<and> unlaunched (e_db s) p ps \<and>
           claimed (x_crypto env) (x_callback_url env) (e_db t) p ps) called)"

lemma calls_of_none: "no_call s t \<Longrightarrow> calls_of env p pss s t"
  unfolding calls_of_def no_call_def by (intro conjI exI [of _ "[]"]) auto

lemma calls_of_append:
  assumes "calls_of env p xs s t" and "calls_of env p ys t u"
  shows "calls_of env p (xs @ ys) s u"
proof -
  obtain a where a: "sent t = sent s @ map (\<lambda>ps. generate_body ps (x_callback_url env)) a" "subseq a xs"
    "list_all (\<lambda>ps. ps_kind ps = GENERATION \<and> unlaunched (e_db s) p ps \<and>
       claimed (x_crypto env) (x_callback_url env) (e_db t) p ps) a"
    and st: "ledger_grows (e_db s) (e_db t)"
    using assms(1) by (auto simp: calls_of_def)
  obtain b where b: "sent u = sent t @ map (\<lambda>ps. generate_body ps (x_callback_url env)) b" "subseq b ys"
    "list_all (\<lambda>ps. ps_kind ps = GENERATION \<and> unlaunched (e_db t) p ps \<and>
       claimed (x_crypto env) (x_callback_url env) (e_db u) p ps) b"
    and tu: "ledger_grows (e_db t) (e_db u)"
    using assms(2) by (auto simp: calls_of_def)
  have "list_all (\<lambda>ps. ps_kind ps = GENERATION \<and> unlaunched (e_db s) p ps \<and>
       claimed (x_crypto env) (x_callback_url env) (e_db u) p ps) (a @ b)"
    using a(3) b(3) claimed_after [OF tu] unlaunched_before [OF st] by (auto simp: list_all_iff)
  then show ?thesis unfolding calls_of_def
    using a b ledger.R_trans [OF st tu] by (intro conjI exI [of _ "a @ b"]) (auto intro: list_emb_append_mono)
qed

lemma calls_of_then: "calls_of env p xs s t \<Longrightarrow> no_call t u \<Longrightarrow> calls_of env p xs s u"
  using calls_of_append [of env p xs s t "[]" u] calls_of_none by fastforce

lemma calls_of_after: "no_call s t \<Longrightarrow> calls_of env p xs t u \<Longrightarrow> calls_of env p xs s u"
  using calls_of_append [of env p "[]" s t xs u] calls_of_none by fastforce

lemma logged_generate:
  "on_ext (cl_generate (x_client (logged_env env)) body) s = (r, t) \<Longrightarrow>
     sent t = sent s @ [body] \<and> e_db t = e_db s \<and> e_job t = e_job s \<and> e_guard t = e_guard s"
  by (auto simp: on_ext_def logged_env_def logged_def sent_def Let_def case_prod_beta)

lemma logged_env_simps [simp]:
  "x_crypto (logged_env env) = x_crypto env" "x_callback_url (logged_env env) = x_callback_url env"
  by (simp_all add: logged_env_def)

lemma launch_calls:
  assumes r: "launch (logged_env env) p ps body s = (r, t)"
  shows "no_call s t \<or> ledger_grows (e_db s) (e_db t) \<and> sent t = sent s @ [body] \<and>
     check_all (e_guard s) (ps_estimated_cost_rub ps) (JStr (ps_step_id ps)) = Inr ()"
proof (cases "check_all (e_guard s) (ps_estimated_cost_rub ps) (JStr (ps_step_id ps))")
  case (Inl e)
  then show ?thesis using r by (auto simp: launch_def gets_def bind_def raise_def no_call_def ledger.R_refl)
next
  case (Inr u)
  obtain q v where g: "on_ext (cl_generate (x_client (logged_env env)) body) s = (q, v)" by fastforce
  note v = logged_generate [OF g]
  have "no_call v t"
  proof (cases q)
    case (Inl e)
    then show ?thesis using r \<open>check_all _ _ _ = Inr u\<close> g by (auto simp: launch_def gets_def bind_def quiet.R_refl)
  next
    case (Inr resp)
    then have "t = snd (record_charge (logged_env env) p ps resp v)"
      using r \<open>check_all _ _ _ = Inr u\<close> g
      by (auto simp: launch_def gets_def bind_def andthen_def ret_def split: prod.splits sum.splits)
    then show ?thesis using quiet.record_charge_keeps [of env p ps resp] by (simp add: keeps_def)
  qed
  then show ?thesis using v Inr by (auto simp: no_call_def)
qed

lemma launch_or_resume_calls:
  assumes r: "launch_or_resume (logged_env env) p ps s = (r, t)" and k: "ps_kind ps \<noteq> LOCAL"
  shows "calls_of env p [ps] s t"
proof -
  let ?body = "generate_body ps (x_callback_url env)"
  obtain t1 s1 where clock: "utcnow (logged_env env) s = (Inr t1, s1)"
    by (auto simp: utcnow_def on_ext_def now_is_def Let_def case_prod_beta)
  have s1: "no_call s s1" by (rule keepsD [OF quiet.reading_clock clock])
  obtain q d where c: "claim_step (x_crypto env) (p_plan_id p) (ps_step_id ps) (j_job_id (e_job s))
      (ps_idempotency_key ps) ?body t1 (e_db s1) = (q, d)" by fastforce
  let ?s2 = "s1\<lparr>e_db := d\<rparr>"
  have s2: "no_call s1 ?s2" using keepsD [OF claim_step_grows c] by (simp add: no_call_def sent_def)
  have eq: "launch_or_resume (logged_env env) p ps s =
     (case q of Inl e \<Rightarrow> (Inl e, ?s2)
      | Inr row \<Rightarrow> (case sx_generation_id row of
          Some g \<Rightarrow>
            andthen (modify_step (ps_step_id ps) (\<lambda>s. s\<lparr>js_generation_id := Some g\<rparr>))
            (andthen (add_warning (Pref (ps_step_id ps) (Msg ''already_launched'' [JInt g]))) (ret None)) ?s2
        | None \<Rightarrow> bind (launch (logged_env env) p ps ?body) (\<lambda>r. ret (Some r)) ?s2))"
    using clock c by (simp add: launch_or_resume_def gets_def bind_def on_db_def Let_def split: option.splits sum.splits)
  have s02: "no_call s ?s2" using s1 s2 by (rule quiet.R_trans)
  show ?thesis
  proof (cases q)
    case (Inl e)
    then show ?thesis using r eq s02 calls_of_none by simp
  next
    case (Inr row)
    note cl = claim_step_Inr [OF c [unfolded Inr]]
    show ?thesis
    proof (cases "sx_generation_id row")
      case (Some g)
      have "keeps no_call (andthen (modify_step (ps_step_id ps) (\<lambda>s. s\<lparr>js_generation_id := Some g\<rparr>))
            (andthen (add_warning (Pref (ps_step_id ps) (Msg ''already_launched'' [JInt g]))) (ret None)))"
        by (intro quiet.parts)
      then have "no_call ?s2 t" using r eq Inr Some by (auto intro: keepsD)
      then show ?thesis using s02 calls_of_none quiet.R_trans by blast
    next
      case None
      obtain q2 v where l: "launch (logged_env env) p ps ?body ?s2 = (q2, v)" by fastforce
      then have t: "t = v" using r eq Inr None by (auto simp: bind_def ret_def split: sum.splits)
      have un: "unlaunched (e_db s) p ps"
      proof (rule unlaunched_before)
        show "ledger_grows (e_db s) d" using s02 by (simp add: no_call_def)
        show "unlaunched d p ps" using cl(1) None by (simp add: unlaunched_def)
      qed
      have cd: "claimed (x_crypto env) (x_callback_url env) d p ps" using cl(1) by (simp add: claimed_def)
      from launch_calls [OF l] show ?thesis
      proof
        assume "no_call ?s2 v"
        then show ?thesis using s02 t calls_of_none quiet.R_trans by blast
      next
        assume v: "ledger_grows (e_db ?s2) (e_db v) \<and> sent v = sent ?s2 @ [?body] \<and>
          check_all (e_guard ?s2) (ps_estimated_cost_rub ps) (JStr (ps_step_id ps)) = Inr ()"
        have "ps_kind ps = GENERATION" using k by (cases "ps_kind ps") auto
        moreover have "claimed (x_crypto env) (x_callback_url env) (e_db v) p ps"
          using v cd by (auto intro: claimed_after)
        moreover have "ledger_grows (e_db s) (e_db v)" "sent v = sent s @ [?body]"
          using v s02 by (auto simp: no_call_def intro: ledger.R_trans)
        ultimately show ?thesis unfolding calls_of_def t using un by (intro conjI exI [of _ "[ps]"]) auto
      qed
    qed
  qed
qed

lemma bind_calls:
  assumes "m s = (r, t)" and "calls_of env p xs s t" and "\<And>a. keeps no_call (f a)"
  shows "calls_of env p xs s (snd (bind m f s))"
  using assms calls_of_then [OF assms(2)] by (cases r) (auto simp: keeps_def)

lemma run_step_calls: "calls_of env p [ps] s (snd (run_step (logged_env env) p ps s))"
proof (cases "ps_kind ps = LOCAL")
  case True
  have "keeps no_call (run_step (logged_env env) p ps)"
    unfolding run_step_def Let_def if_P [OF True] by (intro quiet.parts)
  then show ?thesis by (simp add: keeps_def calls_of_none)
next
  case False
  let ?pre = "bind (utcnow (logged_env env)) (\<lambda>t0. modify_step (ps_step_id ps)
     (\<lambda>s. s\<lparr>js_status := STEP_RUNNING, js_started_at := Some t0, js_attempts := js_attempts s + 1\<rparr>))"
  obtain r s1 where pre: "?pre s = (r, s1)" by fastforce
  have "keeps no_call ?pre" by (intro quiet.parts)
  then have s1: "no_call s s1" using pre by (rule keepsD)
  obtain q t where l: "launch_or_resume (logged_env env) p ps s1 = (q, t)" by fastforce
  have "run_step (logged_env env) p ps s = bind (launch_or_resume (logged_env env) p ps) (await_step (logged_env env) p (ps_step_id ps)) s1"
    using pre False by (auto simp: run_step_def Let_def bind_def andthen_def utcnow_def on_ext_def now_is_def
      modify_step_def modify_job_def modify_def split: prod.splits)
  moreover have "calls_of env p [ps] s1 (snd (bind (launch_or_resume (logged_env env) p ps) (await_step (logged_env env) p (ps_step_id ps)) s1))"
    by (rule bind_calls [where m = "launch_or_resume (logged_env env) p ps"])
       (rule l, rule launch_or_resume_calls [OF l False], rule quiet.await_step_keeps)
  ultimately show ?thesis using calls_of_after [OF s1] by simp
qed

lemma attempt_step_calls: "calls_of env p [ps] s (snd (attempt_step (logged_env env) p ps s))"
proof -
  obtain r t where m: "run_step (logged_env env) p ps s = (r, t)" by fastforce
  have c: "calls_of env p [ps] s t" using run_step_calls [of env p ps s] m by simp
  obtain r1 t1 where h: "catch (andthen (run_step (logged_env env) p ps) (ret False)) (step_failed (logged_env env) p ps) s = (r1, t1)"
    by fastforce
  have "no_call t t1"
  proof (cases r)
    case (Inl e)
    then have "step_failed (logged_env env) p ps e t = (r1, t1)" using h m by simp
    then show ?thesis by (rule keepsD [OF quiet.step_failed_keeps])
  next
    case (Inr u)
    then have "t1 = t" using h m by (auto simp: catch_def andthen_def bind_def ret_def)
    then show ?thesis by (simp add: quiet.R_refl)
  qed
  with c have c1: "calls_of env p [ps] s t1" by (rule calls_of_then)
  obtain r2 t2 where f: "andthen refresh_cost save_job t1 = (r2, t2)" by fastforce
  have k: "keeps no_call (andthen refresh_cost save_job)" by (intro quiet.parts)
  have "no_call t1 t2" using k f by (rule keepsD)
  with c1 have "calls_of env p [ps] s t2" by (rule calls_of_then)
  moreover have "snd (attempt_step (logged_env env) p ps s) = t2"
    using h f by (auto simp: attempt_step_def finally_do_def split: sum.splits)
  ultimately show ?thesis by simp
qed

lemma calls_of_Cons: "calls_of env p pss s t \<Longrightarrow> calls_of env p (ps # pss) s t"
  unfolding calls_of_def by (meson list_emb_Cons)

lemma run_steps_calls: "calls_of env p pss s (snd (run_steps (logged_env env) p pss ab s))"
proof (induction pss arbitrary: ab s)
  case Nil
  show ?case by (simp add: calls_of_none quiet.R_refl)
next
  case (Cons ps pss)
  let ?st = "modify_step (ps_step_id ps) (\<lambda>s. s\<lparr>js_status := STEP_SKIPPED, js_error := Some (Msg ''skipped'' [])\<rparr>)"
  consider (skip) js where "find_step (e_job s) (ps_step_id ps) = Some js" "ab"
    | (go) js where "find_step (e_job s) (ps_step_id ps) = Some js" "\<not> ab" "js_status js \<noteq> STEP_SUCCEEDED"
    | (pass) "snd (run_steps (logged_env env) p (ps # pss) ab s) = snd (run_steps (logged_env env) p pss ab s)"
  proof (cases "find_step (e_job s) (ps_step_id ps)")
    case None
    then show ?thesis using pass by (simp add: gets_def bind_def)
  next
    case (Some js)
    then show ?thesis using pass skip go by (cases ab; cases "js_status js = STEP_SUCCEEDED") (simp_all add: gets_def bind_def)
  qed
  then show ?case
  proof cases
    case skip
    obtain u where u: "?st s = (Inr (), u)" by (simp add: modify_step_def modify_job_def modify_def)
    have k: "keeps no_call ?st" by (rule quiet.leaves)
    have "no_call s u" using k u by (rule keepsD)
    then have "calls_of env p pss s (snd (run_steps (logged_env env) p pss ab u))" by (rule calls_of_after) (rule Cons.IH)
    then show ?thesis using skip u by (simp add: gets_def bind_def andthen_def calls_of_Cons)
  next
    case go
    obtain r t where a: "attempt_step (logged_env env) p ps s = (r, t)" by fastforce
    have c: "calls_of env p [ps] s t" using attempt_step_calls [of env p ps s] a by simp
    show ?thesis
    proof (cases r)
      case (Inl e)
      have "calls_of env p ([ps] @ pss) s t" using calls_of_append [OF c calls_of_none [OF quiet.R_refl]] .
      then show ?thesis using go a Inl by (simp add: gets_def bind_def)
    next
      case (Inr ab')
      have "calls_of env p ([ps] @ pss) s (snd (run_steps (logged_env env) p pss ab' t))"
        by (rule calls_of_append [OF c Cons.IH])
      then show ?thesis using go a Inr by (simp add: gets_def bind_def)
    qed
  next
    case pass
    then show ?thesis using calls_of_Cons [OF Cons.IH] by simp
  qed
qed

lemma run_calls: "calls_of env p (p_steps p) s (snd (run (logged_env env) p s))"
proof -
  let ?pre = "bind (utcnow (logged_env env)) (\<lambda>t. andthen (modify_job (\<lambda>j. j\<lparr>j_status := JOB_RUNNING, j_started_at := Some t\<rparr>)) save_job)"
  obtain r s1 where pre: "?pre s = (r, s1)" by fastforce
  have "keeps no_call ?pre" by (intro quiet.parts quiet.modify_job_keeps) (simp add: same_job_def)
  then have s1: "no_call s s1" using pre by (rule keepsD)
  have eq: "run (logged_env env) p s = (case r of Inl e \<Rightarrow> (Inl e, s1)
     | Inr _ \<Rightarrow> bind (run_steps (logged_env env) p (p_steps p) False) (\<lambda>aborted. andthen (finish_run (logged_env env) aborted) (gets e_job)) s1)"
    using pre by (auto simp: run_def bind_def andthen_def split: prod.splits sum.splits)
  show ?thesis
  proof (cases r)
    case (Inl e)
    then show ?thesis using eq s1 by (simp add: calls_of_none)
  next
    case (Inr u)
    obtain q t where m: "run_steps (logged_env env) p (p_steps p) False s1 = (q, t)" by fastforce
    have c: "calls_of env p (p_steps p) s1 t" using run_steps_calls [of env p "p_steps p" s1 False] m by simp
    have "calls_of env p (p_steps p) s1 (snd (bind (run_steps (logged_env env) p (p_steps p) False)
        (\<lambda>aborted. andthen (finish_run (logged_env env) aborted) (gets e_job)) s1))"
      by (rule bind_calls [where m = "run_steps (logged_env env) p (p_steps p) False"])
         (rule m, rule c, intro quiet.parts quiet.finish_run_keeps)
    then show ?thesis using eq Inr calls_of_after [OF s1] by simp
  qed
qed

section \<open>The property\<close>

text \<open>C4: The billable calls of a run are, in the order of the plan and at most once each, the bodies
  of generation steps that no earlier run had launched; and every step that was called is claimed
  in the ledger under its own idempotency key and the hash of exactly that body.\<close>

theorem run_calls_each_step_once:
  "\<exists>called. sent (snd (run (logged_env env) p s)) =
      sent s @ map (\<lambda>ps. generate_body ps (x_callback_url env)) called \<and>
    subseq called (p_steps p) \<and>
    list_all (\<lambda>ps. ps_kind ps = GENERATION \<and> unlaunched (e_db s) p ps \<and>
      claimed (x_crypto env) (x_callback_url env) (e_db (snd (run (logged_env env) p s))) p ps) called"
  using run_calls [of env p s] unfolding calls_of_def by blast

text \<open>C5: A run keeps the database well formed (the keys of every table unique, the status column of
  every job row equal to the status in its document) and only extends the ledger: no claimed step
  loses its row, its key, its request hash or a generation id once known.\<close>

theorem run_keeps_ledger:
  "(db_ok (e_db s) \<longrightarrow> db_ok (e_db (snd (run env p s)))) \<and> ledger_grows (e_db s) (e_db (snd (run env p s)))"
  using run_ok.run_keeps [of env p] run_ledger.run_keeps [of env p]
  by (simp add: keeps_def dbs_def ok_step_def)

lemma run_keeps_ledger_witness:
  "db_ok demo_db \<and> db_ok (e_db (snd (run (demo_env 12) demo_plan demo_state)))"
  using run_keeps_ledger [of demo_state "demo_env 12" demo_plan] demo_db_ok by (simp add: demo_state_def)

end
