(* ===== verification/Planner_Facts.thy ===== *)
theory Planner_Facts
  imports Planner "HOL-Library.Multiset"
begin

text \<open>
  What the planner (\<open>app/services/planner.py\<close>) guarantees: the fitted selection is affordable, the
  dropped formats are the least important ones, every chosen model passed the policy and parameter
  checks, and the draft's steps cover the brief in order of priority.
\<close>

section \<open>Facts about fitting\<close>

lemma py_max_by_map_fst:
  "victim_of p sel = Some v \<Longrightarrow> v \<in> set (map fst sel)"
  unfolding victim_of_def by (rule py_max_by_in)

lemma drop_loop_result:
  "drop_loop p sp sel (d, w) = (sel', d', w') \<Longrightarrow> distinct (map fst sel) \<Longrightarrow>
     \<exists>ds. d' = d @ ds \<and> sel' = filter (\<lambda>(f, c). f \<notin> set ds) sel \<and> distinct ds \<and>
        set ds \<subseteq> set (map fst sel) \<and> (selection_total sel' \<le> sp \<or> sel' = []) \<and>
        (\<forall>x \<in> set ds. \<forall>f \<in> set (map fst sel'). (priority_of p f, f) \<le> (priority_of p x, x))"
proof (induction p sp sel "(d, w)" arbitrary: d w rule: drop_loop.induct)
  case (1 p sp sel d w)
  show ?case
  proof (cases "selection_total sel \<le> sp \<or> victim_of p sel = None")
    case True
    have "sel = []" if "victim_of p sel = None" using that by (simp add: victim_of_def)
    with True have "sel' = sel \<and> d' = d \<and> (selection_total sel \<le> sp \<or> sel = [])"
      using "1.prems"(1) by (auto simp: drop_loop.simps [of p sp sel] split: if_splits)
    then show ?thesis by (intro exI [of _ "[]"]) auto
  next
    case False
    then obtain v where v: "victim_of p sel = Some v" and gt: "\<not> selection_total sel \<le> sp" by auto
    let ?w = "w @ [Msg ''format_dropped'' [JStr (format_value v),
      JFloat (case map_of sel v of None \<Rightarrow> 0 | Some c \<Rightarrow> c_cost c), JFloat sp]]"
    have rec: "drop_loop p sp (AList.delete v sel) (d @ [v], ?w) = (sel', d', w')"
      using "1.prems"(1) v gt by (simp add: drop_loop.simps [of p sp sel])
    have dist: "distinct (map fst (AList.delete v sel))"
      using "1.prems"(2) by (rule AList.distinct_delete)
    obtain ds where ds: "d' = (d @ [v]) @ ds" "sel' = filter (\<lambda>(f, c). f \<notin> set ds) (AList.delete v sel)"
      "distinct ds" "set ds \<subseteq> set (map fst (AList.delete v sel))" "selection_total sel' \<le> sp \<or> sel' = []"
      "\<forall>x \<in> set ds. \<forall>f \<in> set (map fst sel'). (priority_of p f, f) \<le> (priority_of p x, x)"
      using "1.hyps" [OF gt v rec dist] by blast
    have keys: "set (map fst (AList.delete v sel)) = set (map fst sel) - {v}"
      by (auto simp: AList.delete_eq)
    have vmax: "(priority_of p f, f) \<le> (priority_of p v, v)" if "f \<in> set (map fst sel)" for f
      using v that unfolding victim_of_def by (rule py_max_by_ge [where f = "\<lambda>f. (priority_of p f, f)"])
    have "set (map fst sel') \<subseteq> set (map fst sel)" using ds(2) by (auto simp: AList.delete_eq)
    then have "\<forall>x \<in> set (v # ds). \<forall>f \<in> set (map fst sel'). (priority_of p f, f) \<le> (priority_of p x, x)"
      using ds(6) vmax by auto
    moreover have "sel' = filter (\<lambda>(f, c). f \<notin> set (v # ds)) sel"
      using ds(2) by (auto simp: AList.delete_eq intro!: filter_cong)
    moreover have "distinct (v # ds)" "set (v # ds) \<subseteq> set (map fst sel)"
      using ds(3,4) keys py_max_by_map_fst [OF v] by auto
    ultimately show ?thesis using ds(1,5) by (intro exI [of _ "v # ds"]) simp
  qed
qed

lemma selection_total_update:
  assumes "distinct (map fst sel)" and "map_of sel f = Some cur"
  shows "sum_list (map (\<lambda>(f, c). c_cost c) (AList.update f c sel)) =
     sum_list (map (\<lambda>(f, c). c_cost c) sel) - c_cost cur + c_cost c"
  using assms
proof (induction sel)
  case (Cons p sel)
  obtain g d where p: "p = (g, d)" by (cases p)
  show ?case
  proof (cases "g = f")
    case True
    with Cons.prems p show ?thesis by simp
  next
    case False
    with Cons p show ?thesis by simp
  qed
qed simp

definition selection_from :: "analyses \<Rightarrow> selection \<Rightarrow> bool" where
  "selection_from an sel \<longleftrightarrow> distinct (map fst sel) \<and>
     (\<forall>(f, c) \<in> set sel. \<exists>a. map_of an f = Some a \<and> c \<in> set (fa_candidates a))"

definition grid_costs :: "analyses \<Rightarrow> bool" where
  "grid_costs an \<longleftrightarrow> (\<forall>a \<in> snd ` set an. \<forall>c \<in> set (fa_candidates a). on_grid 4 (c_cost c))"

lemma selection_grid:
  assumes "selection_from an sel" and "grid_costs an"
  shows "on_grid 4 (sum_list (map (\<lambda>(f, c). c_cost c) sel))"
    and "selection_total sel = sum_list (map (\<lambda>(f, c). c_cost c) sel)"
proof -
  have "on_grid 4 (c_cost c)" if fc: "(f, c) \<in> set sel" for f c
  proof -
    obtain a where "map_of an f = Some a" "c \<in> set (fa_candidates a)"
      using assms(1) fc by (auto simp: selection_from_def)
    moreover from this have "a \<in> snd ` set an" by (force dest: map_of_SomeD)
    ultimately show ?thesis using assms(2) by (auto simp: grid_costs_def)
  qed
  then show g: "on_grid 4 (sum_list (map (\<lambda>(f, c). c_cost c) sel))"
    by (intro on_grid_sum_list) (auto simp: list_all_iff)
  then show "selection_total sel = sum_list (map (\<lambda>(f, c). c_cost c) sel)"
    by (simp add: selection_total_def py_round_grid)
qed

lemma pick_upgrade_Some:
  "pick_upgrade cs cur others sp = Some c \<Longrightarrow> c \<in> set cs \<and> others + c_cost c \<le> sp \<and> c_key c \<noteq> cur"
  by (induction cs) (auto split: if_splits)

lemma selection_from_update:
  assumes "selection_from an sel" and "map_of an f = Some a" and "c \<in> set (fa_candidates a)"
  shows "selection_from an (AList.update f c sel)"
proof -
  have "(g, d) \<in> set (AList.update f c sel) \<Longrightarrow> (g, d) = (f, c) \<or> (g, d) \<in> set sel" for g d
    by (induction sel) (auto split: if_splits)
  with assms show ?thesis
    by (auto simp: selection_from_def AList.distinct_update) blast
qed

text \<open>One upgrade keeps the selection affordable.\<close>

definition keeps_fit :: "analyses \<Rightarrow> money \<Rightarrow> selection \<Rightarrow> selection \<Rightarrow> bool" where
  "keeps_fit an sp sel sel' \<longleftrightarrow> selection_from an sel' \<and> map fst sel' = map fst sel \<and>
     (grid_costs an \<longrightarrow> selection_total sel \<le> sp \<longrightarrow> selection_total sel' \<le> sp)"

lemma upgrade_format_keeps:
  assumes src: "selection_from an sel" and up: "upgrade_format an sp f (sel, ch) = (sel', ch')"
  shows "keeps_fit an sp sel sel'"
proof (cases "sel' = sel")
  case False
  then obtain cur a c where m: "map_of sel f = Some cur" "map_of an f = Some a"
    and pick: "pick_upgrade (fa_candidates a) (c_key cur) (selection_total sel - c_cost cur) sp = Some c"
    and sel': "sel' = AList.update f c sel"
    using up by (auto simp: upgrade_format_def split: option.splits)
  note p = pick_upgrade_Some [OF pick]
  have src': "selection_from an sel'"
    unfolding sel' using src m(2) p by (intro selection_from_update) auto
  have "selection_total sel' = selection_total sel - c_cost cur + c_cost c" if grid: "grid_costs an"
    using selection_grid(2) [OF src' grid] selection_grid(2) [OF src grid]
      selection_total_update [of sel f cur c] src m(1) sel'
    by (simp add: selection_from_def)
  moreover have "map fst sel' = map fst sel"
    using m(1) unfolding sel' by (induction sel) (auto split: if_splits)
  ultimately show ?thesis using p src' by (simp add: keeps_fit_def)
qed (use assms in \<open>simp add: keeps_fit_def\<close>)

lemma fold_upgrade_keeps:
  "selection_from an sel \<Longrightarrow> fold (upgrade_format an sp) fs (sel, ch) = (sel', ch') \<Longrightarrow> keeps_fit an sp sel sel'"
proof (induction fs arbitrary: sel ch)
  case (Cons f fs)
  obtain sel1 ch1 where s1: "upgrade_format an sp f (sel, ch) = (sel1, ch1)" by fastforce
  with upgrade_format_keeps [OF Cons.prems(1) s1] Cons.IH [of sel1 ch1] Cons.prems(2)
  show ?case by (simp add: keeps_fit_def)
qed (simp add: keeps_fit_def)

lemma upgrade_rounds_keeps:
  "selection_from an sel \<Longrightarrow> keeps_fit an sp sel (upgrade_rounds n an sp ordered sel)"
proof (induction n arbitrary: sel)
  case (Suc n)
  obtain sel1 ch where r: "upgrade_round an sp ordered sel = (sel1, ch)" by fastforce
  with fold_upgrade_keeps [OF Suc.prems] Suc.IH [of sel1]
  show ?case by (simp add: upgrade_round_def keeps_fit_def)
qed (simp add: keeps_fit_def)

text \<open>The baseline holds a cheapest candidate for every format.\<close>

definition cheapest_in :: "format_analysis \<Rightarrow> candidate \<Rightarrow> bool" where
  "cheapest_in a c \<longleftrightarrow> c \<in> set (fa_candidates a) \<and>
     (\<forall>c' \<in> set (fa_candidates a). (c_cost c, c_tier c, c_key c) \<le> (c_cost c', c_tier c', c_key c'))"

lemma baseline_result:
  "baseline an fs sel0 = Inr sel \<Longrightarrow> distinct (map fst sel0 @ fs) \<Longrightarrow>
     \<exists>new. sel = sel0 @ new \<and> map fst new = fs \<and>
       (\<forall>(f, c) \<in> set new. \<exists>a. map_of an f = Some a \<and> cheapest_in a c)"
proof (induction an fs sel0 rule: baseline.induct)
  case (2 an f fs sel0)
  obtain a c where a: "map_of an f = Some a"
    and c: "py_min_by (\<lambda>c. (c_cost c, c_tier c, c_key c)) (fa_candidates a) = Some c"
    and rec: "baseline an fs (AList.update f c sel0) = Inr sel"
    using "2.prems"(1) by (auto split: option.splits simp: Option.bind_eq_Some_conv)
  have upd: "AList.update f c sel0 = sel0 @ [(f, c)]" using "2.prems"(2) by (intro update_new) auto
  have "cheapest_in a c"
    unfolding cheapest_in_def
    using py_min_by_in [OF c] py_min_by_le [OF c] by auto
  moreover obtain new where "sel = AList.update f c sel0 @ new" "map fst new = fs"
    "\<forall>(f, c) \<in> set new. \<exists>a. map_of an f = Some a \<and> cheapest_in a c"
    using "2.IH" [of c] rec "2.prems"(2) a c upd by auto
  ultimately show ?case using upd a by (intro exI [of _ "(f, c) # new"]) auto
qed simp

lemma fit_to_budget_cases:
  assumes ok: "fit_to_budget p an b sp = Inr (sel, dropped, w)" and d: "distinct (map fst an)"
  obtains sel0 base where
    "map fst base = sort_key (priority_of p) (map fst an)"
    "\<forall>(f, c) \<in> set base. \<exists>a. map_of an f = Some a \<and> cheapest_in a c"
    "sel0 = filter (\<lambda>(f, c). f \<notin> set dropped) base"
    "distinct dropped" "set dropped \<subseteq> set (map fst an)"
    "selection_total sel0 \<le> sp \<or> sel0 = []"
    "\<forall>x \<in> set dropped. \<forall>f \<in> set (map fst sel0). (priority_of p f, f) \<le> (priority_of p x, x)"
    "sel = sel0 \<or> b_strategy b \<noteq> CHEAPEST \<and>
       sel = upgrade_rounds MAX_UPGRADE_ROUNDS an sp (sort_key (priority_of p) (map fst an)) sel0"
proof -
  let ?o = "sort_key (priority_of p) (map fst an)"
  obtain base where base: "baseline an ?o [] = Inr base"
    using ok by (auto simp: fit_to_budget_def Let_def split: sum.splits)
  obtain sel0 d0 w0 where dl: "drop_loop p sp base ([], []) = (sel0, d0, w0)" by (cases "drop_loop p sp base ([], [])")
  have o: "distinct ?o" "set ?o = set (map fst an)" using d by simp_all
  obtain new where "base = [] @ new" "map fst new = ?o"
    and ch: "\<forall>(f, c) \<in> set new. \<exists>a. map_of an f = Some a \<and> cheapest_in a c"
    using baseline_result [OF base] o(1) by auto
  then have b: "map fst base = ?o" and chb: "\<forall>(f, c) \<in> set base. \<exists>a. map_of an f = Some a \<and> cheapest_in a c"
    by simp_all
  have "distinct (map fst base)" unfolding b by (rule o(1))
  from drop_loop_result [OF dl this] obtain ds where ds: "d0 = [] @ ds"
    "sel0 = filter (\<lambda>(f, c). f \<notin> set ds) base" "distinct ds" "set ds \<subseteq> set (map fst base)"
    "selection_total sel0 \<le> sp \<or> sel0 = []"
    "\<forall>x \<in> set ds. \<forall>f \<in> set (map fst sel0). (priority_of p f, f) \<le> (priority_of p x, x)"
    by blast
  have "dropped = ds" and "sel = sel0 \<or> b_strategy b \<noteq> CHEAPEST \<and> sel = upgrade_rounds MAX_UPGRADE_ROUNDS an sp ?o sel0"
    using ok base dl ds(1) by (auto simp: fit_to_budget_def Let_def split: if_splits)
  then show ?thesis using that [OF b chb] ds(2-6) b o(2) by simp
qed

lemma selection_from_filter:
  "selection_from an base \<Longrightarrow> selection_from an (filter P base)"
  by (auto simp: selection_from_def distinct_map_filter)

lemma fit_to_budget_from:
  assumes ok: "fit_to_budget p an b sp = Inr (sel, dropped, w)" and d: "distinct (map fst an)"
  shows "selection_from an sel" and "set (map fst sel) = keys_of an - set dropped"
    and "distinct dropped" and "set dropped \<subseteq> keys_of an"
    and "\<forall>x \<in> set dropped. \<forall>f \<in> set (map fst sel). (priority_of p f, f) \<le> (priority_of p x, x)"
    and "0 \<le> sp \<Longrightarrow> grid_costs an \<Longrightarrow> selection_total sel \<le> sp"
proof -
  obtain sel0 base where f: "map fst base = sort_key (priority_of p) (map fst an)"
    "\<forall>(f, c) \<in> set base. \<exists>a. map_of an f = Some a \<and> cheapest_in a c"
    "sel0 = filter (\<lambda>(f, c). f \<notin> set dropped) base"
    "distinct dropped" "set dropped \<subseteq> set (map fst an)"
    "selection_total sel0 \<le> sp \<or> sel0 = []"
    "\<forall>x \<in> set dropped. \<forall>f \<in> set (map fst sel0). (priority_of p f, f) \<le> (priority_of p x, x)"
    "sel = sel0 \<or> b_strategy b \<noteq> CHEAPEST \<and>
       sel = upgrade_rounds MAX_UPGRADE_ROUNDS an sp (sort_key (priority_of p) (map fst an)) sel0"
    using ok d by (rule fit_to_budget_cases)
  have "distinct (map fst base)" unfolding f(1) using d by simp
  then have "selection_from an base" using f(2) by (auto simp: selection_from_def cheapest_in_def)
  then have from0: "selection_from an sel0" unfolding f(3) by (rule selection_from_filter)
  have k: "keeps_fit an sp sel0 sel"
    using f(8) upgrade_rounds_keeps [OF from0] from0 by (auto simp: keeps_fit_def)
  then show "selection_from an sel" by (simp add: keeps_fit_def)
  have "set (map fst sel0) = set (map fst base) - set dropped" unfolding f(3) by force
  moreover have "set (map fst base) = keys_of an" unfolding f(1) by (simp add: keys_of_def)
  ultimately show "set (map fst sel) = keys_of an - set dropped" using k by (simp add: keeps_fit_def)
  show "distinct dropped" by (rule f(4))
  show "set dropped \<subseteq> keys_of an" using f(5) by (simp add: keys_of_def)
  show "\<forall>x \<in> set dropped. \<forall>f \<in> set (map fst sel). (priority_of p f, f) \<le> (priority_of p x, x)"
    using f(7) k unfolding keeps_fit_def by metis
  show "selection_total sel \<le> sp" if "0 \<le> sp" "grid_costs an"
  proof -
    have "selection_total sel0 \<le> sp" using f(6) that(1) by (auto simp: selection_total_def)
    then show ?thesis using k that(2) by (simp add: keeps_fit_def)
  qed
qed

text \<open>With the cheapest strategy the kept formats keep their cheapest model.\<close>

lemma fit_to_budget_cheapest:
  assumes ok: "fit_to_budget p an b sp = Inr (sel, dropped, w)" and d: "distinct (map fst an)"
    and ch: "b_strategy b = CHEAPEST" and fc: "(f, c) \<in> set sel"
  shows "\<exists>a. map_of an f = Some a \<and> cheapest_in a c"
proof -
  obtain sel0 base where f: "\<forall>(f, c) \<in> set base. \<exists>a. map_of an f = Some a \<and> cheapest_in a c"
    "sel0 = filter (\<lambda>(f, c). f \<notin> set dropped) base"
    "sel = sel0 \<or> b_strategy b \<noteq> CHEAPEST \<and>
       sel = upgrade_rounds MAX_UPGRADE_ROUNDS an sp (sort_key (priority_of p) (map fst an)) sel0"
    using ok d by (rule fit_to_budget_cases)
  with ch fc show ?thesis by auto
qed

section \<open>Facts about candidates and drafts\<close>

text \<open>What every candidate of a format has passed.\<close>

definition candidate_ok :: "capabilities \<Rightarrow> policy \<Rightarrow> brief \<Rightarrow> overrides \<Rightarrow> content_format \<Rightarrow> candidate \<Rightarrow> bool" where
  "candidate_ok caps p b ov fmt c \<longleftrightarrow>
     c_spec c \<in> set (models_for caps (format_value fmt)) \<and>
     \<not> is_excluded p (c_key c) \<and> missing_required (c_spec c) (available_params p b) = [] \<and>
     build_params p b fmt (c_spec c) = Inr (c_params c, c_param_warnings c, None) \<and>
     c_tier c = tier_of p (format_value fmt) (c_key c) \<and> c_price_unknown c = (\<not> pb_known (c_bounds c)) \<and>
     c_bounds c = (case map_of ov (format_value fmt, c_key c) of
        Some x \<Rightarrow> override_bounds x
      | None \<Rightarrow> price_bounds_of (c_spec c) (c_params c) (po_per_1000_chars_types p))"

lemma analyse_model_ok:
  assumes "analyse_model p b fmt ov spec (cs, ds, rs) = Inr (cs', ds', rs')"
    and "list_all (candidate_ok caps p b ov fmt) cs" and "list_all (candidate_ok caps p b ov fmt) ds"
    and spec: "spec \<in> set (models_for caps (format_value fmt))"
  shows "list_all (candidate_ok caps p b ov fmt) cs' \<and> list_all (candidate_ok caps p b ov fmt) ds'"
proof (cases "is_excluded p (m_key spec) \<or> missing_required spec (available_params p b) \<noteq> []")
  case True
  with assms show ?thesis by (auto split: if_splits)
next
  case False
  obtain r where r: "build_params p b fmt spec = Inr r"
    using assms(1) False by (cases "build_params p b fmt spec") simp_all
  obtain params ws reason where r3: "r = (params, ws, reason)" by (cases r)
  show ?thesis
  proof (cases reason)
    case (Some x)
    with assms r r3 False show ?thesis by simp
  next
    case None
    define bounds where "bounds = (case map_of ov (format_value fmt, m_key spec) of
        Some x \<Rightarrow> override_bounds x
      | None \<Rightarrow> price_bounds_of spec params (po_per_1000_chars_types p))"
    define c where "c = \<lparr>c_spec = spec, c_tier = tier_of p (format_value fmt) (m_key spec),
      c_bounds = bounds, c_params = params, c_param_warnings = ws, c_price_unknown = (\<not> pb_known bounds)\<rparr>"
    have sel: "c_spec c = spec" "c_key c = m_key spec" "c_tier c = tier_of p (format_value fmt) (m_key spec)"
      "c_bounds c = bounds" "c_params c = params" "c_param_warnings c = ws" "c_price_unknown c = (\<not> pb_known bounds)"
      by (simp_all add: c_def c_key_def)
    have "candidate_ok caps p b ov fmt c"
      using False r r3 None spec unfolding candidate_ok_def sel by (simp add: bounds_def)
    moreover have "(if pb_known bounds then (cs @ [c], ds, rs) else (cs, ds @ [c], rs)) = (cs', ds', rs')"
      using assms(1) False r r3 None unfolding c_def bounds_def by (simp only: analyse_model.simps Let_def if_False sum.case prod.case option.case de_Morgan_disj not_not simp_thms) simp
    ultimately show ?thesis using assms(2,3) by (cases "pb_known bounds") auto
  qed
qed

declare analyse_model.simps [simp del]

lemma analyse_loop_ok:
  "analyse_loop p b fmt ov specs (cs, ds, rs) = Inr (cs', ds', rs') \<Longrightarrow>
   list_all (candidate_ok caps p b ov fmt) cs \<Longrightarrow> list_all (candidate_ok caps p b ov fmt) ds \<Longrightarrow>
   set specs \<subseteq> set (models_for caps (format_value fmt)) \<Longrightarrow>
     list_all (candidate_ok caps p b ov fmt) cs' \<and> list_all (candidate_ok caps p b ov fmt) ds'"
proof (induction specs arbitrary: cs ds rs)
  case (Cons spec specs)
  obtain cs1 ds1 rs1 where m: "analyse_model p b fmt ov spec (cs, ds, rs) = Inr (cs1, ds1, rs1)"
    and l: "analyse_loop p b fmt ov specs (cs1, ds1, rs1) = Inr (cs', ds', rs')"
    using Cons.prems(1) by (auto split: sum.splits)
  from analyse_model_ok [OF m Cons.prems(2,3)] Cons.IH [OF l] Cons.prems(4) show ?case by simp
qed simp

lemma analyse_ok:
  assumes "analyse caps p b fmt ov = Inr a"
  shows "fa_fmt a = fmt" and "c \<in> set (fa_candidates a) \<Longrightarrow> candidate_ok caps p b ov fmt c"
proof -
  obtain cs ds rs where l: "analyse_loop p b fmt ov (models_for caps (format_value fmt)) ([], [], []) = Inr (cs, ds, rs)"
  proof (cases "analyse_loop p b fmt ov (models_for caps (format_value fmt)) ([], [], [])")
    case (Inr r)
    then show ?thesis using that by (cases r) simp
  qed (use assms in \<open>simp add: analyse_def\<close>)
  let ?s = "sort_key (preference_key (b_strategy b)) cs"
  have ok: "list_all (candidate_ok caps p b ov fmt) cs" "list_all (candidate_ok caps p b ov fmt) ds"
    using analyse_loop_ok [OF l] by simp_all
  have a: "fa_fmt a = fmt \<and> (fa_candidates a = ?s \<or> fa_candidates a = sort_key (\<lambda>c. (c_tier c, c_key c)) ds)"
    using assms unfolding analyse_def l by (cases "?s = [] \<and> ds \<noteq> []") (auto simp: Let_def)
  then show "fa_fmt a = fmt" ..
  from a have "set (fa_candidates a) \<subseteq> set cs \<union> set ds" by (metis set_sort Un_upper1 Un_upper2)
  with ok show "c \<in> set (fa_candidates a) \<Longrightarrow> candidate_ok caps p b ov fmt c" unfolding list_all_iff by blast
qed

definition analyses_ok :: "capabilities \<Rightarrow> policy \<Rightarrow> brief \<Rightarrow> overrides \<Rightarrow> analyses \<Rightarrow> bool" where
  "analyses_ok caps p b ov an \<longleftrightarrow> distinct (map fst an) \<and>
     (\<forall>f a. map_of an f = Some a \<longrightarrow> (\<forall>c \<in> set (fa_candidates a). candidate_ok caps p b ov f c))"

lemma analyses_ok_update:
  assumes "analyses_ok caps p b ov an" and "analyse caps p b f ov = Inr a"
  shows "analyses_ok caps p b ov (AList.update f a an)"
  using assms analyse_ok(2) [OF assms(2)] unfolding analyses_ok_def
  by (simp add: AList.distinct_update AList.update_conv')

lemma analyse_formats_ok:
  "analyse_formats caps p b ov fs (an, w) = Inr (an', w') \<Longrightarrow> analyses_ok caps p b ov an \<Longrightarrow>
     analyses_ok caps p b ov an' \<and> keys_of an' \<subseteq> keys_of an \<union> set fs"
proof (induction fs arbitrary: an w)
  case (Cons f fs)
  have step: ?case if "analyse_formats caps p b ov fs (an1, w1) = Inr (an', w')" "analyses_ok caps p b ov an1"
    "keys_of an1 \<subseteq> insert f (keys_of an)" for an1 w1
    using Cons.IH [OF that(1,2)] that(3) by auto
  show ?case
  proof (cases "has_models_for caps (format_value f)")
    case False
    then have "\<exists>w1. analyse_formats caps p b ov fs (an, w1) = Inr (an', w')" using Cons.prems(1) by auto
    then show ?thesis using step Cons.prems(2) by blast
  next
    case True
    then obtain a where a: "analyse caps p b f ov = Inr a"
      using Cons.prems(1) by (cases "analyse caps p b f ov") simp_all
    show ?thesis
    proof (cases "fa_candidates a = []")
      case True
      then have "\<exists>w1. analyse_formats caps p b ov fs (an, w1) = Inr (an', w')"
        using Cons.prems(1) a \<open>has_models_for caps (format_value f)\<close> by auto
      then show ?thesis using step Cons.prems(2) by blast
    next
      case False
      then have "analyse_formats caps p b ov fs (AList.update f a an, w) = Inr (an', w')"
        using Cons.prems(1) a \<open>has_models_for caps (format_value f)\<close> by simp
      then show ?thesis by (rule step) (simp_all add: analyses_ok_update [OF Cons.prems(2) a])
    qed
  qed
qed simp

section \<open>The draft\<close>

lemma to_step_simps [simp]:
  "ps_format (to_step h f c a pid) = f" "ps_kind (to_step h f c a pid) = GENERATION"
  "ps_type (to_step h f c a pid) = Some (format_value f)" "ps_model (to_step h f c a pid) = Some (c_key c)"
  "ps_params (to_step h f c a pid) = c_params c" "ps_step_id (to_step h f c a pid) = step_id_of f"
  "ps_idempotency_key (to_step h f c a pid) = make_idempotency_key h pid (step_id_of f) (c_key c) (c_params c)"
  "ps_estimated_cost_rub (to_step h f c a pid) = round4 (c_cost c)"
  "ps_warnings (to_step h f c a pid) = c_param_warnings c" "ps_local_output (to_step h f c a pid) = None"
  by (simp_all add: to_step_def Let_def)

lemma local_step_simps [simp]:
  "ps_format (local_step h b f pid) = f" "ps_kind (local_step h b f pid) = LOCAL"
  "ps_step_id (local_step h b f pid) = step_id_of f" "ps_estimated_cost_rub (local_step h b f pid) = 0"
  "ps_local_output (local_step h b f pid) = Some (marketing_copy b)"
  by (simp_all add: local_step_def)

lemma build_steps_Cons:
  "build_steps h an pid ((f, c) # sel) =
     (case map_of an f of None \<Rightarrow> [] | Some a \<Rightarrow> [to_step h f c a pid]) @ build_steps h an pid sel"
  by (simp add: build_steps_def List.map_filter_def split: option.splits)

lemma build_steps_Nil [simp]: "build_steps h an pid [] = []"
  by (simp add: build_steps_def List.map_filter_def)

lemma build_steps_in:
  "s \<in> set (build_steps h an pid sel) \<Longrightarrow>
     \<exists>f c a. (f, c) \<in> set sel \<and> map_of an f = Some a \<and> s = to_step h f c a pid"
proof (induction sel)
  case (Cons x sel)
  obtain f c where x: "x = (f, c)" by (cases x)
  show ?case
  proof (cases "s \<in> set (build_steps h an pid sel)")
    case True
    from Cons.IH [OF this] show ?thesis by (metis list.set_intros(2))
  next
    case False
    with Cons.prems x obtain a where "map_of an f = Some a" "s = to_step h f c a pid"
      by (cases "map_of an f") (auto simp: build_steps_Cons)
    then show ?thesis using x by (metis list.set_intros(1))
  qed
qed simp

lemma build_steps_from:
  assumes "selection_from an sel"
  shows "map ps_format (build_steps h an pid sel) = map fst sel"
    and "map ps_estimated_cost_rub (build_steps h an pid sel) = map (\<lambda>(f, c). round4 (c_cost c)) sel"
    and "s \<in> set (build_steps h an pid sel) \<Longrightarrow>
      \<exists>f c a. (f, c) \<in> set sel \<and> map_of an f = Some a \<and> c \<in> set (fa_candidates a) \<and> s = to_step h f c a pid"
proof -
  have all: "\<forall>(f, c) \<in> set sel. \<exists>a. map_of an f = Some a \<and> c \<in> set (fa_candidates a)"
    using assms by (simp add: selection_from_def)
  then show "map ps_format (build_steps h an pid sel) = map fst sel"
    by (induction sel) (auto simp: build_steps_Cons)
  from all show "map ps_estimated_cost_rub (build_steps h an pid sel) = map (\<lambda>(f, c). round4 (c_cost c)) sel"
    by (induction sel) (auto simp: build_steps_Cons)
  show "\<exists>f c a. (f, c) \<in> set sel \<and> map_of an f = Some a \<and> c \<in> set (fa_candidates a) \<and> s = to_step h f c a pid"
    if s: "s \<in> set (build_steps h an pid sel)"
    using build_steps_in [OF s] all by fastforce
qed

text \<open>A draft is made of the fitted selection, sorted by priority, and the local text when the brief
  asks for text and no model was kept for it.\<close>

lemma build_cases:
  assumes "build h caps p b pid sp ov = Inr d"
  obtains an sel fw where "analyses_ok caps p b ov an" "keys_of an \<subseteq> set (b_formats b)"
    "fit_to_budget p an b sp = Inr (sel, d_dropped_formats d, fw)"
    "d_steps d = sort_key (\<lambda>s. priority_of p (ps_format s)) (build_steps h an pid sel @
       (if TEXT \<in> set (b_formats b) \<and> \<not> has_format TEXT (build_steps h an pid sel)
        then [local_step h b TEXT pid] else []))"
proof -
  obtain r where r: "analyse_formats caps p b ov (sort_key (priority_of p) (b_formats b)) ([], []) = Inr r"
    using assms by (cases "analyse_formats caps p b ov (sort_key (priority_of p) (b_formats b)) ([], [])") (simp_all add: build_def)
  obtain an w where an: "r = (an, w)" by (cases r)
  have ok: "analyses_ok caps p b ov an \<and> keys_of an \<subseteq> set (b_formats b)"
    using analyse_formats_ok [OF r [unfolded an]] by (simp add: analyses_ok_def)
  obtain q where q: "fit_to_budget p an b sp = Inr q"
    using assms r an by (cases "fit_to_budget p an b sp") (simp_all add: build_def)
  obtain sel dr fw where q3: "q = (sel, dr, fw)" by (cases q)
  from assms [symmetric] have "d = \<lparr>d_steps = sort_key (\<lambda>s. priority_of p (ps_format s)) (build_steps h an pid sel @
       (if TEXT \<in> set (b_formats b) \<and> \<not> has_format TEXT (build_steps h an pid sel)
        then [local_step h b TEXT pid] else [])),
     d_warnings = w @ fw @ (if TEXT \<in> set (b_formats b) \<and> \<not> has_format TEXT (build_steps h an pid sel)
        then [Msg ''local_text'' []] else []),
     d_dropped_formats = dr\<rparr>"
    unfolding build_def Let_def r an q q3 sum.case prod.case by (rule sum.inject(2) [THEN iffD1])
  then have "d_dropped_formats d = dr" "d_steps d = sort_key (\<lambda>s. priority_of p (ps_format s)) (build_steps h an pid sel @
       (if TEXT \<in> set (b_formats b) \<and> \<not> has_format TEXT (build_steps h an pid sel)
        then [local_step h b TEXT pid] else []))" by simp_all
  with ok q q3 show ?thesis by (intro that [of an sel fw]) simp_all
qed

lemma distinct_map_sort_key [simp]: "distinct (map g (sort_key f xs)) \<longleftrightarrow> distinct (map g xs)"
  by (rule mset_eq_imp_distinct_iff) simp

lemma has_format_iff: "has_format f steps \<longleftrightarrow> f \<in> set (map ps_format steps)"
  by (auto simp: has_format_def list_ex_iff)

text \<open>What the steps of a draft are.\<close>

lemma build_facts:
  assumes ok: "build h caps p b pid sp ov = Inr d" and dist: "distinct (b_formats b)"
  shows "distinct (map ps_format (d_steps d))"
    and "set (map ps_format (d_steps d)) \<subseteq> set (b_formats b)"
    and "TEXT \<in> set (b_formats b) \<Longrightarrow> has_format TEXT (d_steps d)"
    and "sorted (map (\<lambda>s. priority_of p (ps_format s)) (d_steps d))"
    and "s \<in> set (d_steps d) \<Longrightarrow> s = local_step h b TEXT pid \<or>
       (\<exists>f c a. candidate_ok caps p b ov f c \<and> s = to_step h f c a pid)"
    and "distinct (d_dropped_formats d)" "set (d_dropped_formats d) \<subseteq> set (b_formats b)"
    and "x \<in> set (d_dropped_formats d) \<Longrightarrow> s \<in> set (d_steps d) \<Longrightarrow> ps_kind s = GENERATION \<Longrightarrow>
       ps_format s \<noteq> x \<and> (priority_of p (ps_format s), ps_format s) \<le> (priority_of p x, x)"
proof -
  obtain an sel fw where c: "analyses_ok caps p b ov an" "keys_of an \<subseteq> set (b_formats b)"
    "fit_to_budget p an b sp = Inr (sel, d_dropped_formats d, fw)"
    "d_steps d = sort_key (\<lambda>s. priority_of p (ps_format s)) (build_steps h an pid sel @
       (if TEXT \<in> set (b_formats b) \<and> \<not> has_format TEXT (build_steps h an pid sel)
        then [local_step h b TEXT pid] else []))"
    using ok by (rule build_cases)
  have dan: "distinct (map fst an)" using c(1) by (simp add: analyses_ok_def)
  note fb = fit_to_budget_from [OF c(3) dan]
  note bs = build_steps_from [OF fb(1)]
  let ?bs = "build_steps h an pid sel"
  let ?loc = "if TEXT \<in> set (b_formats b) \<and> \<not> has_format TEXT ?bs then [local_step h b TEXT pid] else []"
  have fmts: "map ps_format ?bs = map fst sel" by (rule bs(1))
  have dsel: "distinct (map fst sel)" using fb(1) by (simp add: selection_from_def)
  have "has_format TEXT ?bs \<longleftrightarrow> TEXT \<in> set (map fst sel)" unfolding has_format_iff fmts ..
  with dsel have "distinct (map ps_format (?bs @ ?loc))" by (auto simp: fmts)
  then show "distinct (map ps_format (d_steps d))"
    unfolding c(4) distinct_map_sort_key .
  have setsel: "set (map ps_format ?bs) \<subseteq> set (b_formats b)" unfolding fmts fb(2) using c(2) by blast
  have setd: "set (d_steps d) = set (?bs @ ?loc)" unfolding c(4) by (rule set_sort)
  show "set (map ps_format (d_steps d)) \<subseteq> set (b_formats b)"
    using setsel unfolding set_map setd by auto
  show "has_format TEXT (d_steps d)" if "TEXT \<in> set (b_formats b)"
    using that unfolding has_format_iff set_map setd
    by (cases "TEXT \<in> ps_format ` set ?bs") (auto simp: has_format_iff image_Un)
  show "sorted (map (\<lambda>s. priority_of p (ps_format s)) (d_steps d))"
    unfolding c(4) by (rule sorted_sort_key)
  show "s = local_step h b TEXT pid \<or> (\<exists>f c a. candidate_ok caps p b ov f c \<and> s = to_step h f c a pid)"
    if "s \<in> set (d_steps d)"
  proof (cases "s \<in> set ?bs")
    case True
    with bs(3) obtain f cc a where "map_of an f = Some a" "cc \<in> set (fa_candidates a)" "s = to_step h f cc a pid"
      by blast
    with c(1) show ?thesis unfolding analyses_ok_def by blast
  next
    case False
    with that have "s \<in> set ?loc" unfolding setd by simp
    then show ?thesis by (simp split: if_splits)
  qed
  show "distinct (d_dropped_formats d)" by (rule fb(3))
  show "set (d_dropped_formats d) \<subseteq> set (b_formats b)" using fb(4) c(2) by blast
  show "ps_format s \<noteq> x \<and> (priority_of p (ps_format s), ps_format s) \<le> (priority_of p x, x)"
    if x: "x \<in> set (d_dropped_formats d)" and s: "s \<in> set (d_steps d)" "ps_kind s = GENERATION"
  proof -
    have "s \<in> set ?bs" using s unfolding setd by (auto split: if_splits)
    then have "ps_format s \<in> set (map fst sel)" unfolding fmts [symmetric] by simp
    then show ?thesis using fb(2,5) x by blast
  qed
qed

section \<open>The total of a draft\<close>

text \<open>Where every published amount and every quote has at most four decimals, every cost does, and
  rounding the total loses nothing.\<close>

definition spec_on_grid :: "model_spec \<Rightarrow> bool" where
  "spec_on_grid m \<longleftrightarrow> list_all (on_grid 4) (map snd (m_tier_prices m)) \<and>
     (\<forall>x \<in> set_option (m_price m). on_grid 4 x) \<and> (\<forall>x \<in> set_option (m_per_second m). on_grid 4 x)"

definition catalog_on_grid :: "capabilities \<Rightarrow> overrides \<Rightarrow> bool" where
  "catalog_on_grid caps ov \<longleftrightarrow> list_all (\<lambda>(ty, ms). list_all (\<lambda>(k, m). spec_on_grid m) ms) (cap_models_by_type caps) \<and>
     list_all (\<lambda>(k, x). on_grid 4 x) ov"

lemma on_grid_times [grid_simps]: "on_grid n x \<Longrightarrow> on_grid n (of_int k * x)"
  unfolding on_grid_iff by (metis of_int_mult times_divide_eq_right)

lemma on_grid_max [grid_simps]: "on_grid n x \<Longrightarrow> on_grid n y \<Longrightarrow> on_grid n (max x y)"
  by (simp add: max_def)

lemma on_grid_fold_max: "on_grid n x \<Longrightarrow> list_all (on_grid n) xs \<Longrightarrow> on_grid n (fold max xs x)"
  by (induction xs arbitrary: x) (auto intro: on_grid_max)

lemma per_second_grid: "on_grid 4 r \<Longrightarrow> on_grid 4 (pb_upper (per_second_bounds m r params))"
  by (auto simp: per_second_bounds_def pb_upper_def Let_def case_prod_beta intro!: on_grid_max on_grid_times)

lemma price_bounds_grid:
  assumes "spec_on_grid m"
  shows "on_grid 4 (pb_upper (price_bounds_of m params ts))"
proof (cases "nonzero (m_per_second m)")
  case (Some r)
  then have "on_grid 4 r" using assms
    by (auto simp: nonzero_def spec_on_grid_def split: option.splits if_splits)
  then show ?thesis using Some by (simp add: price_bounds_of_def per_second_grid)
next
  case None
  show ?thesis
  proof (cases "map snd (m_tier_prices m)")
    case (Cons t tps)
    with assms have "on_grid 4 t" "list_all (on_grid 4) tps" by (simp_all add: spec_on_grid_def)
    then have w: "on_grid 4 (fold max tps t)" by (rule on_grid_fold_max)
    show ?thesis
    proof (cases "m_price m")
      case (Some x)
      with assms have "on_grid 4 x" by (simp add: spec_on_grid_def)
      with w None Cons Some show ?thesis by (simp add: price_bounds_of_def pb_upper_def Let_def on_grid_max)
    qed (use w None Cons in \<open>simp add: price_bounds_of_def pb_upper_def Let_def\<close>)
  next
    case Nil
    show ?thesis
    proof (cases "m_price m")
      case (Some x)
      with assms have "on_grid 4 x" by (simp add: spec_on_grid_def)
      then have "on_grid 4 (x * of_int k)" for k using on_grid_times [of 4 x k] by (simp add: mult.commute)
      with \<open>on_grid 4 x\<close> None Nil Some show ?thesis by (simp add: price_bounds_of_def pb_upper_def Let_def)
    qed (use None Nil in \<open>simp add: price_bounds_of_def pb_upper_def\<close>)
  qed
qed

lemma candidate_on_grid:
  assumes c: "candidate_ok caps p b ov f c" and grid: "catalog_on_grid caps ov"
  shows "on_grid 4 (c_cost c)"
proof (cases "map_of ov (format_value f, c_key c)")
  case (Some x)
  then have "on_grid 4 x" using grid map_of_SomeD [OF Some] by (auto simp: catalog_on_grid_def list_all_iff)
  then show ?thesis using c Some by (simp add: candidate_ok_def c_cost_def override_bounds_def pb_upper_def)
next
  case None
  have "c_spec c \<in> snd ` set (entries_of caps (format_value f))"
    using c by (simp add: candidate_ok_def models_for_set)
  then obtain k where k: "(k, c_spec c) \<in> set (entries_of caps (format_value f))" by force
  have "entries_of caps (format_value f) \<in> insert [] (snd ` set (cap_models_by_type caps))"
    by (auto simp: entries_of_def split: option.splits dest: map_of_SomeD intro: rev_image_eqI)
  with k have "\<exists>ty es. (ty, es) \<in> set (cap_models_by_type caps) \<and> (k, c_spec c) \<in> set es" by (auto; blast)
  with grid have "spec_on_grid (c_spec c)" by (auto simp: catalog_on_grid_def list_all_iff)
  then show ?thesis using c None by (simp add: candidate_ok_def c_cost_def price_bounds_grid)
qed

lemma sum_list_sort_key: "sum_list (map (g :: 'a \<Rightarrow> 'b :: comm_monoid_add) (sort_key f xs)) = sum_list (map g xs)"
  by (metis mset_map mset_sort sum_mset_sum_list)

text \<open>The draft's total is the total of its selection, so it fits the spendable amount.\<close>

lemma build_total:
  assumes ok: "build h caps p b pid sp ov = Inr d" and grid: "catalog_on_grid caps ov" and sp: "0 \<le> sp"
  shows "draft_total_cost d \<le> sp"
proof -
  obtain an sel fw where c: "analyses_ok caps p b ov an" "keys_of an \<subseteq> set (b_formats b)"
    "fit_to_budget p an b sp = Inr (sel, d_dropped_formats d, fw)"
    "d_steps d = sort_key (\<lambda>s. priority_of p (ps_format s)) (build_steps h an pid sel @
       (if TEXT \<in> set (b_formats b) \<and> \<not> has_format TEXT (build_steps h an pid sel)
        then [local_step h b TEXT pid] else []))"
    using ok by (rule build_cases)
  have dan: "distinct (map fst an)" using c(1) by (simp add: analyses_ok_def)
  have g: "grid_costs an" unfolding grid_costs_def
  proof (intro ballI)
    fix a cc assume "a \<in> snd ` set an" "cc \<in> set (fa_candidates a)"
    then obtain f where "(f, a) \<in> set an" by force
    then have "map_of an f = Some a" using dan by simp
    with \<open>cc \<in> set (fa_candidates a)\<close> c(1) have "candidate_ok caps p b ov f cc" by (simp add: analyses_ok_def)
    then show "on_grid 4 (c_cost cc)" using grid by (rule candidate_on_grid)
  qed
  note fb = fit_to_budget_from [OF c(3) dan]
  have costs: "on_grid 4 (c_cost cc)" if fc: "(f, cc) \<in> set sel" for f cc
  proof -
    obtain a where "map_of an f = Some a" "cc \<in> set (fa_candidates a)"
      using fb(1) fc by (auto simp: selection_from_def)
    moreover from this have "a \<in> snd ` set an" by (force dest: map_of_SomeD)
    ultimately show ?thesis using g unfolding grid_costs_def by blast
  qed
  have "map (\<lambda>(f, c). round4 (c_cost c)) sel = map (\<lambda>(f, c). c_cost c) sel"
    using costs by (auto intro!: map_cong simp: py_round_grid)
  moreover have "sum_list (map ps_estimated_cost_rub (d_steps d)) = sum_list (map (\<lambda>(f, c). round4 (c_cost c)) sel)"
    unfolding c(4) sum_list_sort_key map_append build_steps_from(2) [OF fb(1)] by simp
  ultimately have "sum_list (map ps_estimated_cost_rub (d_steps d)) = sum_list (map (\<lambda>(f, c). c_cost c) sel)"
    by (simp only:)
  then have "draft_total_cost d = selection_total sel"
    by (simp add: draft_total_cost_def steps_estimated_cost_def selection_total_def)
  with fb(6) [OF sp g] show ?thesis by simp
qed

end
