(* ===== verification/Service_Facts.thy ===== *)
theory Service_Facts
  imports Service Executor_Facts Planner_Facts
begin

text \<open>
  What planning guarantees: it never calls \<open>/generate\<close> and writes nothing but the plans table
  (a contract between \<open>PlanService\<close> and its collaborators, the locale \<open>planning_relation\<close>), and the
  plan it saves is drawn from the catalog, covers the brief and fits the spendable amount.
\<close>

section \<open>What planning touches\<close>

lemma in_db_gets [simp]: "in_db (gets f) w = (Inr (f (w_db w)), w)"
  by (simp add: in_db_def)

lemma try_vibe_keeps: "step_order R \<Longrightarrow> keeps R m \<Longrightarrow> keeps R (try_vibe m)"
  unfolding try_vibe_def
  by (intro step_order.keeps_catch step_order.keeps_bind) (auto simp: step_order.keeps_ret step_order.keeps_raise split: exn.splits)

text \<open>A relation kept by every request that spends nothing, and by the clock and the ids.\<close>

locale asking_relation = step_order R for R :: "'x world \<Rightarrow> 'x world \<Rightarrow> bool" +
  fixes sv :: "'x service"
  assumes clock_keeps: "keeps R (clock sv)"
    and uuid_keeps: "keeps R (fresh_uuid sv)"
    and capabilities_keeps: "keeps R (in_ext (cl_capabilities (sv_client sv)))"
    and me_keeps: "keeps R (in_ext (cl_me (sv_client sv)))"
    and balance_keeps: "keeps R (in_ext (cl_balance (sv_client sv)))"
    and estimate_keeps: "keeps R (in_ext (cl_estimate (sv_client sv) body))"
begin

lemma read_keeps: "keeps R (in_db (gets f))"
  by (simp add: keeps_def R_refl)

lemmas asking_parts = keeps_intros keeps_ret keeps_raise keeps_gets read_keeps clock_keeps uuid_keeps
  capabilities_keeps me_keeps balance_keeps estimate_keeps try_vibe_keeps [OF step_order_axioms]

lemma account_snapshot_keeps: "keeps R (account_snapshot sv)"
  unfolding account_snapshot_def Let_def by (intro asking_parts) (auto simp: case_prod_beta intro!: asking_parts)

end

text \<open>Planning also saves the plan.\<close>

locale planning_relation = asking_relation R sv for R :: "'x world \<Rightarrow> 'x world \<Rightarrow> bool" and sv +
  assumes save_plan_keeps: "keeps R (in_db (plans_save p))"
begin

lemmas parts = asking_parts save_plan_keeps

lemma price_step_keeps: "keeps R (price_step sv s acc)"
  unfolding price_step_def
  by (intro parts) (auto simp: case_prod_beta intro!: parts split: sum.splits vibe_error.splits option.splits)

lemma price_steps_keeps: "keeps R (price_steps sv ss acc)"
proof (induction ss arbitrary: acc)
  case (Cons s ss)
  have "keeps R (if ps_kind s = LOCAL then ret (Some s, [], acc) else price_step sv s acc)"
    by (simp add: price_step_keeps keeps_ret)
  then show ?case unfolding price_steps.simps
    by (intro keeps_bind) (auto simp: case_prod_beta intro!: parts Cons)
qed (simp add: keeps_ret)

lemma replan_keeps: "keeps R (replan_with_exact_prices sv caps b steps pid sp acc)"
  unfolding replan_with_exact_prices_def Let_def
  by (auto simp: case_prod_beta intro!: parts price_steps_keeps split: sum.splits)

lemma expiry_warnings_keeps: "keeps R (expiry_warnings sv known)"
proof (induction known)
  case (Cons k known)
  then show ?case by (cases k) (auto simp: Let_def intro!: parts)
qed (simp only: expiry_warnings.simps keeps_ret)

lemma media_warnings_keeps: "keeps R (media_warnings sv b)"
  unfolding media_warnings_def media_find_many_def Let_def
  by (auto intro!: parts expiry_warnings_keeps)

lemma create_plan_keeps: "keeps R (create_plan sv b)"
  unfolding create_plan_def Let_def
  by (auto simp: case_prod_beta intro!: parts account_snapshot_keeps media_warnings_keeps price_steps_keeps replan_keeps
      split: sum.splits)

end

text \<open>Service with a client that writes down its billable calls.\<close>

definition logged_sv :: "'x service \<Rightarrow> ('x \<times> obj list) service" where
  "logged_sv sv = \<lparr>sv_client = logged (sv_client sv), sv_settings = sv_settings sv, sv_policy = sv_policy sv,
     sv_crypto = sv_crypto sv, sv_has_media = sv_has_media sv, sv_has_queue = sv_has_queue sv\<rparr>"

definition billed :: "('x \<times> obj list) world \<Rightarrow> obj list" where
  "billed w = snd (w_ext w)"

definition only_plans :: "('x \<times> obj list) world \<Rightarrow> ('x \<times> obj list) world \<Rightarrow> bool" where
  "only_plans w w' \<longleftrightarrow> billed w' = billed w \<and> w_queue w' = w_queue w \<and>
     t_jobs (w_db w') = t_jobs (w_db w) \<and> t_steps (w_db w') = t_steps (w_db w) \<and>
     t_idem (w_db w') = t_idem (w_db w) \<and> t_uploads (w_db w') = t_uploads (w_db w) \<and>
     t_webhooks (w_db w') = t_webhooks (w_db w)"

lemma with_log_billed: "keeps only_plans (in_ext (with_log m))"
  by (auto simp: keeps_def only_plans_def billed_def in_ext_def with_log_def Let_def case_prod_beta)

interpretation planning: planning_relation only_plans "logged_sv sv" for sv :: "'x service"
proof
  fix w u v :: "('x \<times> obj list) world"
  show "only_plans w w" by (simp add: only_plans_def)
  show "only_plans w u \<Longrightarrow> only_plans u v \<Longrightarrow> only_plans w v"
    by (simp add: only_plans_def)
next
  fix p :: plan
  show "keeps only_plans (in_db (plans_save p) :: ('x \<times> obj list, unit) serv)"
    by (simp add: keeps_def only_plans_def billed_def in_db_def plans_save_def)
next
  show "keeps only_plans (clock (logged_sv sv))"
    by (auto simp: keeps_def only_plans_def billed_def clock_def in_ext_def now_is_def logged_sv_def logged_def Let_def case_prod_beta)
  show "keeps only_plans (fresh_uuid (logged_sv sv))"
    by (auto simp: keeps_def only_plans_def billed_def fresh_uuid_def in_ext_def logged_sv_def logged_def Let_def case_prod_beta)
qed (simp_all add: logged_sv_def logged_def with_log_billed)

section \<open>What pricing does to steps\<close>

text \<open>The request a step stands for: everything \<open>generate_body\<close> reads, and its identity.\<close>

definition same_request :: "plan_step \<Rightarrow> plan_step \<Rightarrow> bool" where
  "same_request s t \<longleftrightarrow> ps_step_id t = ps_step_id s \<and> ps_format t = ps_format s \<and> ps_kind t = ps_kind s \<and>
     ps_type t = ps_type s \<and> ps_model t = ps_model s \<and> ps_params t = ps_params s \<and>
     ps_idempotency_key t = ps_idempotency_key s"

lemma same_request_refl [simp]: "same_request s s"
  by (simp add: same_request_def)

lemma same_request_body: "same_request s t \<Longrightarrow> generate_body t cb = generate_body s cb"
  by (simp add: same_request_def generate_body_def)

lemma same_request_cost [simp]: "same_request s (s\<lparr>ps_estimated_cost_rub := c\<rparr>)"
  by (simp add: same_request_def)

text \<open>The price of \<open>t\<close> is one the client gave for the request of \<open>s\<close>.\<close>

definition estimated :: "'x service \<Rightarrow> plan_step \<Rightarrow> plan_step \<Rightarrow> bool" where
  "estimated sv s t \<longleftrightarrow> (\<exists>x payload y kind. cl_estimate (sv_client sv) (estimate_body s) x = (Inr payload, y) \<and>
     estimated_cost_of payload = Some (ps_estimated_cost_rub t, kind))"

definition repriced :: "'x service \<Rightarrow> plan_step \<Rightarrow> plan_step \<Rightarrow> bool" where
  "repriced sv s t \<longleftrightarrow> same_request s t \<and>
     (if ps_kind s = LOCAL then t = s
      else on_grid 4 (ps_estimated_cost_rub t) \<and> ps_cost_source t = ''estimate'' \<and> estimated sv s t)"

definition priced_from :: "'x service \<Rightarrow> plan_step list \<Rightarrow> plan_step list \<Rightarrow> bool" where
  "priced_from sv ss ps \<longleftrightarrow> (\<exists>ks. subseq ks ss \<and> list_all2 (repriced sv) ks ps)"

lemma estimated_cost_grid: "estimated_cost_of payload = Some (c, k) \<Longrightarrow> on_grid 4 c"
  by (auto simp: estimated_cost_of_def Let_def split: option.splits json.splits if_splits)

lemma try_vibe_eq_Inr:
  "try_vibe m w = (Inr x, w') \<longleftrightarrow>
     (\<exists>a. m w = (Inr a, w') \<and> x = Inr a) \<or> (\<exists>v. m w = (Inl (Vibe v), w') \<and> x = Inl v)"
  by (cases "m w") (auto simp: try_vibe_def catch_def bind_def split: sum.splits exn.splits)

lemma try_vibe_apply: "try_vibe m w = (case m w of (Inr a, w') \<Rightarrow> (Inr (Inr a), w') | (Inl e, w') \<Rightarrow>
    (case e of Vibe v \<Rightarrow> (Inr (Inl v), w') | _ \<Rightarrow> (Inl e, w')))"
  by (auto simp: try_vibe_def catch_def bind_def split: sum.splits prod.splits exn.splits)

lemmas apply_eval = bind_apply try_vibe_apply andthen_def

lemma price_step_result:
  assumes "price_step sv s acc w = (Inr (out, ws, acc'), w')" and "ps_kind s \<noteq> LOCAL" and "out = Some t"
  shows "repriced sv s t"
proof -
  obtain res w1 where res: "try_vibe (in_ext (cl_estimate (sv_client sv) (estimate_body s))) w = (Inr res, w1)"
    using assms(1) by (auto simp: price_step_def bind_eq_Inr)
  note eq = assms(1) [unfolded price_step_def bind_Inr [where m = "try_vibe (in_ext (cl_estimate (sv_client sv) (estimate_body s)))", OF res]]
  show ?thesis
  proof (cases res)
    case (Inl e)
    with eq assms(3) show ?thesis by (cases e) auto
  next
    case (Inr payload)
    note eq = eq [unfolded Inr sum.case]
    show ?thesis
    proof (cases "estimated_cost_of payload")
      case None
      with eq assms(3) show ?thesis by (simp split: if_splits)
    next
      case (Some ck)
      obtain c k where ck: "ck = (c, k)" by (cases ck)
      have c: "on_grid 4 c" using Some ck by (simp add: estimated_cost_grid)
      have "in_ext (cl_estimate (sv_client sv) (estimate_body s)) w = (Inr payload, w1)"
        using res Inr by (simp add: try_vibe_eq_Inr)
      then have e: "\<exists>x y. cl_estimate (sv_client sv) (estimate_body s) x = (Inr payload, y)"
        by (auto simp: in_ext_def Let_def case_prod_beta prod_eq_iff)
      have "ps_estimated_cost_rub t = c \<and> ps_cost_source t = ''estimate'' \<and> same_request s t"
        using eq assms(3) Some ck
        by (cases "iter_json (j_or (jget payload ''warnings'') (JArr []))") (auto simp: same_request_def split: if_splits)
      then show ?thesis using e c assms(2) Some ck unfolding repriced_def estimated_def by auto
    qed
  qed
qed

lemma price_steps_result:
  "price_steps sv ss acc w = (Inr (ps, ws, acc'), w') \<Longrightarrow> priced_from sv ss ps"
proof (induction ss arbitrary: acc w ps ws acc' w')
  case Nil
  then show ?case by (simp add: priced_from_def)
next
  case (Cons s ss)
  let ?one = "if ps_kind s = LOCAL then ret (Some s, [], acc) else price_step sv s acc"
  from Cons.prems obtain out ws1 acc1 w1 rest ws2 where one: "?one w = (Inr (out, ws1, acc1), w1)"
    and rest: "price_steps sv ss acc1 w1 = (Inr (rest, ws2, acc'), w')"
    and ps: "ps = (case out of None \<Rightarrow> [] | Some t \<Rightarrow> [t]) @ rest"
    by (auto simp: bind_eq_Inr)
  obtain ks where ks: "subseq ks ss" "list_all2 (repriced sv) ks rest"
    using Cons.IH [OF rest] by (auto simp: priced_from_def)
  show ?case
  proof (cases out)
    case None
    with ps ks show ?thesis unfolding priced_from_def by (auto intro: list_emb_Cons)
  next
    case (Some t)
    have "repriced sv s t"
    proof (cases "ps_kind s = LOCAL")
      case True
      with one Some show ?thesis by (simp add: repriced_def)
    next
      case False
      with one have "price_step sv s acc w = (Inr (out, ws1, acc1), w1)" by simp
      then show ?thesis using False Some by (rule price_step_result)
    qed
    with ps ks Some show ?thesis unfolding priced_from_def
      by (intro exI [of _ "s # ks"]) auto
  qed
qed

lemma list_all2_subseq:
  "list_all2 R xs ys \<Longrightarrow> subseq zs ys \<Longrightarrow> \<exists>ws. subseq ws xs \<and> list_all2 R ws zs"
proof (induction xs ys arbitrary: zs rule: list_all2_induct)
  case (Cons x xs y ys)
  show ?case
  proof (cases "\<exists>zs'. zs = y # zs' \<and> subseq zs' ys")
    case True
    then obtain zs' where z: "zs = y # zs'" "subseq zs' ys" by blast
    with Cons obtain ws where "subseq ws xs" "list_all2 R ws zs'" by blast
    with z Cons show ?thesis by (intro exI [of _ "x # ws"]) auto
  next
    case False
    with Cons.prems have "subseq zs ys"
      by (cases zs) (auto split: if_splits elim: list_emb.cases)
    with Cons obtain ws where "subseq ws xs" "list_all2 R ws zs" by blast
    then show ?thesis by (auto intro: list_emb_Cons)
  qed
qed auto

lemma priced_from_subseq: "priced_from sv ss ps \<Longrightarrow> subseq qs ps \<Longrightarrow> priced_from sv ss qs"
  unfolding priced_from_def by (meson list_all2_subseq subseq_order.order_trans)

lemma priced_from_formats:
  assumes "priced_from sv ss ps"
  shows "subseq (map ps_format ps) (map ps_format ss)"
proof -
  obtain ks where ks: "subseq ks ss" "list_all2 (repriced sv) ks ps" using assms by (auto simp: priced_from_def)
  from ks(2) have "map ps_format ps = map ps_format ks"
    by (induction rule: list_all2_induct) (auto simp: repriced_def same_request_def)
  with ks(1) show ?thesis by (simp add: subseq_map)
qed

lemma priced_from_in:
  assumes "priced_from sv ss ps" and "t \<in> set ps"
  obtains s where "s \<in> set ss" and "repriced sv s t"
proof -
  obtain ks where ks: "subseq ks ss" "list_all2 (repriced sv) ks ps" using assms(1) by (auto simp: priced_from_def)
  have "\<exists>s \<in> set ks. repriced sv s t"
    using ks(2) assms(2) by (induction rule: list_all2_induct) auto
  then obtain s where "s \<in> set ks" "repriced sv s t" by blast
  moreover from this ks(1) have "s \<in> set ss" by (auto dest: list_emb_set)
  ultimately show thesis using that by blast
qed

section \<open>Making it affordable\<close>

lemma subseq_remove1: "subseq (remove1 x xs) xs"
  by (induction xs) auto

lemma drop_until_affordable_subseq: "subseq (fst (drop_until_affordable p sp kept)) kept"
proof (induction p sp kept rule: drop_until_affordable.induct)
  case (1 p sp kept)
  show ?case
  proof (cases "steps_estimated_cost kept \<le> sp")
    case False
    show ?thesis
    proof (cases "affordability_victim p kept")
      case (Some v)
      have "subseq (fst (drop_until_affordable p sp (remove1 v kept))) (remove1 v kept)"
        using 1 [OF False Some] .
      then have "subseq (fst (drop_until_affordable p sp (remove1 v kept))) kept"
        using subseq_remove1 by (rule subseq_order.order_trans)
      then show ?thesis using False Some
        by (subst drop_until_affordable.simps) (simp add: case_prod_beta)
    qed (simp add: drop_until_affordable.simps)
  qed (simp add: drop_until_affordable.simps)
qed

lemma drop_until_affordable_fits:
  "steps_estimated_cost (fst (drop_until_affordable p sp kept)) \<le> sp \<or>
   filter is_billable (fst (drop_until_affordable p sp kept)) = []"
proof (induction p sp kept rule: drop_until_affordable.induct)
  case (1 p sp kept)
  show ?case
  proof (cases "steps_estimated_cost kept \<le> sp")
    case False
    show ?thesis
    proof (cases "affordability_victim p kept")
      case (Some v)
      show ?thesis using 1 [OF False Some] False Some
        by (subst (1 2) drop_until_affordable.simps) (simp add: case_prod_beta)
    qed (simp add: drop_until_affordable.simps affordability_victim_def)
  qed (simp add: drop_until_affordable.simps)
qed

text \<open>Nothing is dropped from a plan that fits.\<close>

lemma drop_until_affordable_id:
  "steps_estimated_cost kept \<le> sp \<Longrightarrow> drop_until_affordable p sp kept = (kept, [])"
  by (simp add: drop_until_affordable.simps)

section \<open>Where the plan comes from\<close>

lemma replan_result:
  assumes "replan_with_exact_prices sv caps b steps pid sp acc w = (Inr (out, ws, acc'), w')"
  shows "out = steps \<or> (\<exists>draft. build (sv_crypto sv) caps (sv_policy sv) b pid sp (price_overrides steps) = Inr draft \<and>
    priced_from sv (d_steps draft) out)"
proof (cases "steps_estimated_cost steps \<le> sp")
  case True
  with assms show ?thesis by (simp add: replan_with_exact_prices_def Let_def)
next
  case False
  show ?thesis
  proof (cases "build (sv_crypto sv) caps (sv_policy sv) b pid sp (price_overrides steps)")
    case (Inl e)
    with assms False show ?thesis by (simp add: replan_with_exact_prices_def Let_def)
  next
    case (Inr draft)
    with assms False obtain cand ws1 acc1 w1 where c: "price_steps sv (d_steps draft) acc w = (Inr (cand, ws1, acc1), w1)"
      and out: "out = steps \<or> out = cand"
      by (auto simp: replan_with_exact_prices_def Let_def bind_eq_Inr split: if_splits)
    from c have "priced_from sv (d_steps draft) cand" by (rule price_steps_result)
    with out Inr show ?thesis by blast
  qed
qed

lemma spendable_new_guard: "spendable_rub (new_guard b m acc) = round4 (b - round4 (b * m))"
  by (simp add: spendable_rub_def margin_rub_def new_guard_def)

text \<open>The plan's steps: some draft of the planner, priced, cut to what is affordable, with the copy
  secured.\<close>

definition drawn_from :: "'x service \<Rightarrow> brief \<Rightarrow> plan \<Rightarrow> obj \<Rightarrow> overrides \<Rightarrow> plan_draft \<Rightarrow> plan_step list \<Rightarrow> bool" where
  "drawn_from sv b p payload ov draft priced \<longleftrightarrow>
     p_capabilities_fingerprint p = capabilities_fingerprint (sv_crypto sv) payload \<and>
     build (sv_crypto sv) (parse_capabilities payload) (sv_policy sv) b (p_plan_id p) (p_spendable_rub p) ov = Inr draft \<and>
     priced_from sv (d_steps draft) priced \<and>
     p_steps p = fst (ensure_text (sv_crypto sv) b (p_plan_id p)
       (fst (drop_until_affordable (sv_policy sv) (p_spendable_rub p) priced)))"

lemma plan_status_infeasible: "plan_status_of b d ss ws = PLAN_INFEASIBLE \<longleftrightarrow> ss = []"
  by (auto simp: plan_status_of_def)

lemma create_plan_source:
  assumes "create_plan sv b w = (Inr p, w')"
  obtains payload ov draft priced where "drawn_from sv b p payload ov draft priced"
    and "p_brief p = b" and "p_budget_rub p = b_budget_rub b" and "b_budget_rub b \<le> max_budget_rub (sv_settings sv)"
    and "p_spendable_rub p = round4 (b_budget_rub b - round4 (b_budget_rub b * budget_safety_margin (sv_settings sv)))"
    and "p_total_estimated_rub p = steps_estimated_cost (p_steps p)" and "p_job_id p = None"
    and "p_mode p = app_mode_value (app_mode (sv_settings sv))"
    and "plan_at (w_db w') (p_plan_id p) = Some p" and "\<exists>u. fresh_uuid sv w = (Inr (p_plan_id p), u)"
    and "\<exists>u v. fresh_uuid sv w = (Inr (p_plan_id p), u) \<and> in_ext (cl_capabilities (sv_client sv)) u = (Inr payload, v)"
    and "p_status p = PLAN_INFEASIBLE \<Longrightarrow> p_steps p = []"
proof -
  let ?st = "sv_settings sv"
  let ?g = "\<lambda>acc. new_guard (b_budget_rub b) (budget_safety_margin ?st) (Some acc)"
  have bud: "\<not> b_budget_rub b > max_budget_rub ?st"
    using assms by (auto simp: create_plan_def Let_def)
  obtain pid w1 where u: "fresh_uuid sv w = (Inr pid, w1)"
    using assms bud by (auto simp: create_plan_def Let_def bind_eq_Inr)
  obtain payload w2 where c: "in_ext (cl_capabilities (sv_client sv)) w1 = (Inr payload, w2)"
    using assms bud u by (auto simp: create_plan_def Let_def bind_eq_Inr)
  obtain acc aw w3 where a: "account_snapshot sv w2 = (Inr (acc, aw), w3)"
    using assms bud u c by (auto simp: create_plan_def Let_def bind_eq_Inr)
  note eq1 = assms [unfolded create_plan_def Let_def if_not_P [OF bud]
      bind_Inr [where m = "fresh_uuid sv", OF u] bind_Inr [where m = "in_ext (cl_capabilities (sv_client sv))", OF c]
      bind_Inr [where m = "account_snapshot sv", OF a] prod.case]
  let ?caps = "parse_capabilities payload" and ?sp = "spendable_rub (?g acc)"
  obtain d1 where d1: "build (sv_crypto sv) ?caps (sv_policy sv) b pid ?sp [] = Inr d1"
    using eq1 by (auto split: sum.splits)
  note eq2 = eq1 [unfolded d1 sum.case]
  obtain mw w4 where m: "media_warnings sv b w3 = (Inr mw, w4)"
    using eq2 by (auto simp: bind_eq_Inr)
  note eq3 = eq2 [unfolded bind_Inr [where m = "media_warnings sv b", OF m]]
  obtain priced ew acc1 w5 where pr: "price_steps sv (d_steps d1) acc w4 = (Inr (priced, ew, acc1), w5)"
    using eq3 by (auto simp: bind_eq_Inr)
  note eq4 = eq3 [unfolded bind_Inr [where m = "price_steps sv (d_steps d1) acc", OF pr] prod.case]
  obtain re rw acc2 w6 where re: "replan_with_exact_prices sv ?caps b priced pid ?sp acc1 w5 = (Inr (re, rw, acc2), w6)"
    using eq4 by (auto simp: bind_eq_Inr)
  note eq5 = eq4 [unfolded bind_Inr [where m = "replan_with_exact_prices sv ?caps b priced pid ?sp acc1", OF re] prod.case]
  obtain ov d2 where d2: "build (sv_crypto sv) ?caps (sv_policy sv) b pid ?sp ov = Inr d2" "priced_from sv (d_steps d2) re"
    using replan_result [OF re] price_steps_result [OF pr] d1 by blast
  obtain t w7 where t: "clock sv w6 = (Inr t, w7)"
    using eq5 by (auto simp: bind_eq_Inr case_prod_beta)
  note eq6 = eq5 [unfolded case_prod_beta bind_Inr [where m = "clock sv", OF t]]
  show thesis
  proof (rule that [of payload ov d2 re])
    show "drawn_from sv b p payload ov d2 re"
      using eq6 d2 by (auto simp: andthen_eq_Inr drawn_from_def)
  qed (use eq6 bud u c in \<open>auto simp: plan_status_infeasible andthen_eq_Inr spendable_new_guard plans_save_def in_db_def modify_def plan_at_def
         find_upsert plan_row_of_def split: option.splits\<close>)
qed

end
