(* ===== verification/Admission_Facts.thy ===== *)
theory Admission_Facts
  imports Admission Service_Facts
begin

text \<open>
  What admission and the recheck guarantee: requests without confirmation are refused before
  anything happens, a plan with a job is answered with that job, and a run starts only after every
  price was confirmed again and the sum fits what may be spent.
\<close>

section \<open>The recheck\<close>

definition rechecked :: "plan_step \<Rightarrow> plan_step \<Rightarrow> bool" where
  "rechecked s t \<longleftrightarrow> same_request s t \<and> ps_local_output t = ps_local_output s \<and>
     ps_estimated_cost_rub t \<le> ps_estimated_cost_rub s"

lemma rechecked_refl [simp]: "rechecked s s"
  by (simp add: rechecked_def)

text \<open>A reply without objection: the quote it gave, and what is known about it.\<close>

definition accepted :: "'x service \<Rightarrow> plan_step \<Rightarrow> money \<Rightarrow> bool" where
  "accepted sv s q \<longleftrightarrow> (\<exists>x payload y kind. cl_estimate (sv_client sv) (estimate_body s) x = (Inr payload, y) \<and>
     jget payload ''valid'' \<noteq> JBool False \<and> estimated_cost_of payload = Some (q, kind) \<and>
     round4 (q - ps_estimated_cost_rub s) \<le> PRICE_TOLERANCE_RUB)"

lemma round_negative: "round4 (x - y) < - PRICE_TOLERANCE_RUB \<Longrightarrow> x \<le> y"
proof (rule ccontr)
  assume a: "round4 (x - y) < - PRICE_TOLERANCE_RUB" and "\<not> x \<le> y"
  then have "0 \<le> round4 (x - y)" by (simp add: py_round_nonneg)
  with a show False by (simp add: PRICE_TOLERANCE_RUB_def)
qed

lemma recheck_reply_step:
  assumes "recheck_reply s payload k = (t, k')"
  shows "rechecked s t" and "\<exists>bs. rk_blockers k' = rk_blockers k @ bs"
    and "t = s \<or> (\<exists>q kind. estimated_cost_of payload = Some (q, kind) \<and> ps_estimated_cost_rub t = q)"
  using assms
  by (auto simp: recheck_reply_def rk_block_def rechecked_def Let_def split: if_splits option.splits)
    (rule round_negative, assumption)+

lemma recheck_reply_accepted:
  assumes "recheck_reply s payload k = (t, k')" and "rk_blockers k' = rk_blockers k"
  shows "\<exists>q kind. jget payload ''valid'' \<noteq> JBool False \<and> estimated_cost_of payload = Some (q, kind) \<and>
    round4 (q - ps_estimated_cost_rub s) \<le> PRICE_TOLERANCE_RUB \<and> rk_total k' = rk_total k + q"
  using assms
  by (auto simp: recheck_reply_def rk_block_def Let_def split: if_splits option.splits)

lemma in_ext_Inr: "in_ext m w = (Inr a, w') \<Longrightarrow> m (w_ext w) = (Inr a, w_ext w')"
  by (auto simp: in_ext_def split: prod.splits)

lemma recheck_step_result:
  assumes "recheck_step sv s k w = (Inr (t, k'), w')"
  shows "rechecked s t" and "\<exists>bs. rk_blockers k' = rk_blockers k @ bs"
    and "rk_blockers k' = rk_blockers k \<Longrightarrow> \<exists>q. accepted sv s q \<and> rk_total k' = rk_total k + q"
    and "t = s \<or> (\<exists>x payload y q kind. cl_estimate (sv_client sv) (estimate_body s) x = (Inr payload, y) \<and>
       estimated_cost_of payload = Some (q, kind) \<and> ps_estimated_cost_rub t = q)"
proof -
  obtain res where res: "try_vibe (in_ext (cl_estimate (sv_client sv) (estimate_body s))) w = (Inr res, w')"
    and out: "(t, k') = (case res of Inl e \<Rightarrow> (s, rk_block (Msg ''recheck_unavailable'' [JStr (ps_step_id s)]) k)
       | Inr payload \<Rightarrow> recheck_reply s payload k)"
    using assms by (auto simp: recheck_step_def bind_eq_Inr)
  have *: "rechecked s t \<and> (\<exists>bs. rk_blockers k' = rk_blockers k @ bs) \<and>
    (rk_blockers k' = rk_blockers k \<longrightarrow> (\<exists>q. accepted sv s q \<and> rk_total k' = rk_total k + q)) \<and>
    (t = s \<or> (\<exists>x payload y q kind. cl_estimate (sv_client sv) (estimate_body s) x = (Inr payload, y) \<and>
       estimated_cost_of payload = Some (q, kind) \<and> ps_estimated_cost_rub t = q))"
  proof (cases res)
    case (Inl e)
    with out show ?thesis by (simp add: rk_block_def)
  next
    case (Inr payload)
    with out have r: "recheck_reply s payload k = (t, k')" by simp
    have "in_ext (cl_estimate (sv_client sv) (estimate_body s)) w = (Inr payload, w')"
      using res Inr by (auto simp: try_vibe_eq_Inr)
    then have call: "cl_estimate (sv_client sv) (estimate_body s) (w_ext w) = (Inr payload, w_ext w')"
      by (rule in_ext_Inr)
    show ?thesis
      using recheck_reply_step [OF r] recheck_reply_accepted [OF r] call unfolding accepted_def by blast
  qed
  then show "rechecked s t" and "\<exists>bs. rk_blockers k' = rk_blockers k @ bs"
    and "rk_blockers k' = rk_blockers k \<Longrightarrow> \<exists>q. accepted sv s q \<and> rk_total k' = rk_total k + q"
    and "t = s \<or> (\<exists>x payload y q kind. cl_estimate (sv_client sv) (estimate_body s) x = (Inr payload, y) \<and>
       estimated_cost_of payload = Some (q, kind) \<and> ps_estimated_cost_rub t = q)"
    by simp_all
qed

text \<open>Where the cost of a rechecked step comes from.\<close>

definition quoted :: "'x service \<Rightarrow> plan_step \<Rightarrow> plan_step \<Rightarrow> bool" where
  "quoted sv s t \<longleftrightarrow> t = s \<or> estimated sv s t"

lemma recheck_steps_result:
  "recheck_steps sv ss k w = (Inr (ts, k'), w') \<Longrightarrow>
     list_all2 (\<lambda>s t. rechecked s t \<and> quoted sv s t) ss ts \<and> (\<exists>bs. rk_blockers k' = rk_blockers k @ bs) \<and>
     (rk_blockers k' = rk_blockers k \<longrightarrow>
        (\<exists>qs. list_all2 (accepted sv) (filter (\<lambda>s. ps_kind s \<noteq> LOCAL) ss) qs \<and> rk_total k' = rk_total k + sum_list qs))"
proof (induction ss arbitrary: k w ts k' w')
  case Nil
  then show ?case by simp
next
  case (Cons s ss)
  from Cons.prems obtain t k1 w1 rest where
    one: "(if ps_kind s = LOCAL then ret (s, k) else recheck_step sv s k) w = (Inr (t, k1), w1)"
    and rest: "recheck_steps sv ss k1 w1 = (Inr (rest, k'), w')" and ts: "ts = t # rest"
    by (auto simp: bind_eq_Inr)
  note IH = Cons.IH [OF rest]
  show ?case
  proof (cases "ps_kind s = LOCAL")
    case True
    with one have "t = s" "k1 = k" by simp_all
    with IH ts True show ?thesis by (simp add: quoted_def)
  next
    case False
    with one have r: "recheck_step sv s k w = (Inr (t, k1), w1)" by simp
    note R = recheck_step_result [OF r]
    have q: "quoted sv s t" using R(4) by (auto simp: quoted_def estimated_def)
    obtain b1 where b1: "rk_blockers k1 = rk_blockers k @ b1" using R(2) by blast
    obtain b2 where b2: "rk_blockers k' = rk_blockers k1 @ b2" using IH by blast
    have "\<exists>qs. list_all2 (accepted sv) (filter (\<lambda>s. ps_kind s \<noteq> LOCAL) (s # ss)) qs \<and> rk_total k' = rk_total k + sum_list qs"
      if "rk_blockers k' = rk_blockers k"
    proof -
      have "b1 = []" "b2 = []" using that b1 b2 by simp_all
      with b1 b2 R(3) IH obtain q qs where "accepted sv s q" "rk_total k1 = rk_total k + q"
        "list_all2 (accepted sv) (filter (\<lambda>s. ps_kind s \<noteq> LOCAL) ss) qs" "rk_total k' = rk_total k1 + sum_list qs"
        by auto
      then show ?thesis using False by (intro exI [of _ "q # qs"]) simp
    qed
    with IH ts R(1) q b1 b2 show ?thesis by simp
  qed
qed

lemma total_blockers_Nil:
  "total_blockers g acc x = [] \<longleftrightarrow> x \<le> spendable_rub g \<and>
     (\<exists>a bal. acc = Some a \<and> ac_balance_rub a = Some bal \<and> x \<le> bal \<and>
        (\<forall>d. daily_remaining_rub a = Some d \<longrightarrow> x \<le> d))"
  by (auto simp: total_blockers_def split: option.splits if_splits bind_splits)

lemma recheck_prices_result:
  assumes "recheck_prices sv p g w = (Inr (p1, g1, ws, blockers), w')"
  shows "list_all2 (\<lambda>s t. rechecked s t \<and> quoted sv s t) (p_steps p) (p_steps p1)"
    and "p1 = p\<lparr>p_steps := p_steps p1\<rparr>" and "g1 = g\<lparr>g_account := g_account g1\<rparr>"
    and "blockers = [] \<Longrightarrow> \<exists>qs. list_all2 (accepted sv) (filter (\<lambda>s. ps_kind s \<noteq> LOCAL) (p_steps p)) qs \<and>
       round4 (sum_list qs) \<le> spendable_rub g \<and>
       (\<exists>a bal. g_account g1 = Some a \<and> ac_balance_rub a = Some bal \<and> round4 (sum_list qs) \<le> bal \<and>
          (\<forall>d. daily_remaining_rub a = Some d \<longrightarrow> round4 (sum_list qs) \<le> d))"
proof -
  let ?k = "\<lparr>rk_account = g_account g, rk_warnings = [], rk_blockers = [], rk_total = 0\<rparr>"
  obtain ts k where r: "recheck_steps sv (p_steps p) ?k w = (Inr (ts, k), w')"
    and out: "p1 = p\<lparr>p_steps := ts\<rparr>" "g1 = g\<lparr>g_account := rk_account k\<rparr>"
      "blockers = rk_blockers k @ total_blockers g (rk_account k) (round4 (rk_total k))"
    using assms by (auto simp: recheck_prices_def bind_eq_Inr)
  note R = recheck_steps_result [OF r]
  show "list_all2 (\<lambda>s t. rechecked s t \<and> quoted sv s t) (p_steps p) (p_steps p1)" using R out by simp
  show "p1 = p\<lparr>p_steps := p_steps p1\<rparr>" "g1 = g\<lparr>g_account := g_account g1\<rparr>" using out by simp_all
  show "\<exists>qs. list_all2 (accepted sv) (filter (\<lambda>s. ps_kind s \<noteq> LOCAL) (p_steps p)) qs \<and>
       round4 (sum_list qs) \<le> spendable_rub g \<and>
       (\<exists>a bal. g_account g1 = Some a \<and> ac_balance_rub a = Some bal \<and> round4 (sum_list qs) \<le> bal \<and>
          (\<forall>d. daily_remaining_rub a = Some d \<longrightarrow> round4 (sum_list qs) \<le> d))" if "blockers = []"
  proof -
    have "rk_blockers k = []" "total_blockers g (rk_account k) (round4 (rk_total k)) = []" using that out by simp_all
    moreover from this R obtain qs where "list_all2 (accepted sv) (filter (\<lambda>s. ps_kind s \<noteq> LOCAL) (p_steps p)) qs"
      "rk_total k = sum_list qs" by auto
    ultimately show ?thesis using out by (intro exI [of _ qs]) (auto simp: total_blockers_Nil)
  qed
qed

section \<open>What happens without a call\<close>

context asking_relation
begin

lemma recheck_steps_keeps: "keeps R (recheck_steps sv ss k)"
proof (induction ss arbitrary: k)
  case (Cons s ss)
  have "keeps R (if ps_kind s = LOCAL then ret (s, k) else recheck_step sv s k)"
    unfolding recheck_step_def by (intro asking_parts)
  then show ?case unfolding recheck_steps.simps
    by (intro keeps_bind) (auto simp: case_prod_beta intro!: asking_parts Cons)
qed (simp only: recheck_steps.simps keeps_ret)

lemma recheck_prices_keeps: "keeps R (recheck_prices sv p g)"
  unfolding recheck_prices_def case_prod_beta by (intro asking_parts recheck_steps_keeps)

end

text \<open>The contract between admission and its collaborators: a relation kept by whatever neither
  \<open>generate\<close> nor the executor does.\<close>

locale admission_relation = planning_relation R sv for R :: "'x world \<Rightarrow> 'x world \<Rightarrow> bool" and sv +
  assumes save_job_keeps: "keeps R (in_db (jobs_save j))"
    and claim_keeps: "keeps R (in_db (claim_for_execution jid now))"
    and enqueue_keeps: "keeps R (enqueue jid)"
begin

lemma abort_job_keeps: "keeps R (abort_job sv j blockers)"
  unfolding abort_job_def by (intro parts save_job_keeps)

lemma admit_keeps: "keeps R (admit sv p)"
  unfolding admit_def Let_def by (intro parts save_job_keeps)

lemma execute_later_keeps:
  assumes "sv_has_queue sv" and "\<not> wait"
  shows "keeps R (execute_plan sv pid confirmed wait)"
  unfolding execute_plan_def Let_def plans_get_def jobs_get_by_plan_def using assms
  by (auto intro!: parts admit_keeps enqueue_keeps split: option.splits)

end

definition unbilled :: "('x \<times> obj list) world \<Rightarrow> ('x \<times> obj list) world \<Rightarrow> bool" where
  "unbilled w w' \<longleftrightarrow> billed w' = billed w \<and> t_steps (w_db w') = t_steps (w_db w)"

lemma only_plans_unbilled: "only_plans w w' \<Longrightarrow> unbilled w w'"
  by (simp add: only_plans_def unbilled_def)

lemma keeps_unbilled: "keeps only_plans m \<Longrightarrow> keeps unbilled m"
  by (auto simp: keeps_def intro: only_plans_unbilled)

interpretation unbilled: admission_relation unbilled "logged_sv sv" for sv :: "'x service"
proof
  fix w u v :: "('x \<times> obj list) world"
  show "unbilled w w" by (simp add: unbilled_def)
  show "unbilled w u \<Longrightarrow> unbilled u v \<Longrightarrow> unbilled w v" by (simp add: unbilled_def)
next
  show "keeps unbilled (clock (logged_sv sv))" "keeps unbilled (fresh_uuid (logged_sv sv))"
    "keeps unbilled (in_ext (cl_capabilities (sv_client (logged_sv sv))))"
    "keeps unbilled (in_ext (cl_me (sv_client (logged_sv sv))))"
    "keeps unbilled (in_ext (cl_balance (sv_client (logged_sv sv))))"
    by (intro keeps_unbilled planning.parts)+
  show "keeps unbilled (in_ext (cl_estimate (sv_client (logged_sv sv)) body))" for body
    by (intro keeps_unbilled planning.parts)
next
  show "keeps unbilled (in_db (plans_save p) :: ('x \<times> obj list, unit) serv)" for p
    by (simp add: keeps_def unbilled_def billed_def in_db_def plans_save_def)
  show "keeps unbilled (in_db (jobs_save j) :: ('x \<times> obj list, unit) serv)" for j
    by (simp add: keeps_def unbilled_def billed_def in_db_def jobs_save_def Let_def case_prod_beta)
  show "keeps unbilled (in_db (claim_for_execution jid now) :: ('x \<times> obj list, bool) serv)" for jid now
    by (simp add: keeps_def unbilled_def billed_def in_db_def claim_for_execution_def Let_def case_prod_beta)
  show "keeps unbilled (enqueue jid :: ('x \<times> obj list, unit) serv)" for jid
    by (simp add: keeps_def unbilled_def billed_def enqueue_def)
qed

section \<open>The calls of a job\<close>

lemma exec_env_logged: "exec_env_of (logged_sv sv) = logged_env (exec_env_of sv)"
  by (simp add: exec_env_of_def logged_sv_def logged_env_def)

definition job_calls :: "'x service \<Rightarrow> plan \<Rightarrow> ('x \<times> obj list) world \<Rightarrow> ('x \<times> obj list) world \<Rightarrow> bool" where
  "job_calls sv p w w' \<longleftrightarrow> (\<exists>called.
     billed w' = billed w @ map (\<lambda>ps. generate_body ps (callback_url (sv_settings sv))) called \<and>
     subseq called (p_steps p) \<and> list_all (\<lambda>ps. ps_kind ps = GENERATION \<and> unlaunched (w_db w) p ps) called)"

lemma job_calls_none: "unbilled w w' \<Longrightarrow> job_calls sv p w w'"
  unfolding job_calls_def by (intro exI [of _ "[]"]) (simp add: unbilled_def)

lemma unlaunched_same: "t_steps d' = t_steps d \<Longrightarrow> unlaunched d' = unlaunched d"
  by (intro ext) (simp add: unlaunched_def step_at_def)

lemma job_calls_after: "unbilled w u \<Longrightarrow> job_calls sv p u w' \<Longrightarrow> job_calls sv p w w'"
  using unlaunched_same [of "w_db u" "w_db w"] by (auto simp: job_calls_def unbilled_def)

lemma job_calls_steps:
  assumes "job_calls sv p1 w w'" and "list_all2 rechecked (p_steps p) (p_steps p1)" and "p_plan_id p1 = p_plan_id p"
  shows "job_calls sv p w w'"
proof -
  obtain called where c: "billed w' = billed w @ map (\<lambda>ps. generate_body ps (callback_url (sv_settings sv))) called"
    "subseq called (p_steps p1)" "list_all (\<lambda>ps. ps_kind ps = GENERATION \<and> unlaunched (w_db w) p1 ps) called"
    using assms(1) by (auto simp: job_calls_def)
  obtain orig where o: "subseq orig (p_steps p)" "list_all2 rechecked orig called"
    using list_all2_subseq [OF assms(2) c(2)] by blast
  from o(2) have "map (\<lambda>ps. generate_body ps (callback_url (sv_settings sv))) orig =
      map (\<lambda>ps. generate_body ps (callback_url (sv_settings sv))) called"
    by (induction rule: list_all2_induct) (auto simp: rechecked_def same_request_body)
  moreover from o(2) c(3) have "list_all (\<lambda>ps. ps_kind ps = GENERATION \<and> unlaunched (w_db w) p ps) orig"
    by (induction rule: list_all2_induct) (auto simp: rechecked_def same_request_def unlaunched_def assms(3))
  ultimately show ?thesis unfolding job_calls_def using c(1) o(1) by (intro exI [of _ orig]) simp
qed

lemma run_executor_calls: "job_calls sv p w (snd (run_executor (logged_sv sv) p j g w))"
proof -
  let ?s = "start_state w j g"
  obtain called where c: "sent (snd (run (logged_env (exec_env_of sv)) p ?s)) =
      sent ?s @ map (\<lambda>ps. generate_body ps (x_callback_url (exec_env_of sv))) called"
    "subseq called (p_steps p)"
    "list_all (\<lambda>ps. ps_kind ps = GENERATION \<and> unlaunched (e_db ?s) p ps) called"
    using run_calls [of "exec_env_of sv" p ?s] unfolding calls_of_def by (auto simp: list_all_iff)
  have "billed (snd (run_executor (logged_sv sv) p j g w)) = sent (snd (run (logged_env (exec_env_of sv)) p ?s))"
    by (simp add: run_executor_def exec_env_logged Let_def case_prod_beta billed_def sent_def)
  then show ?thesis unfolding job_calls_def using c
    by (intro exI [of _ called]) (simp add: exec_env_of_def billed_def sent_def start_state_def)
qed

text \<open>A chain of quiet operations followed by anything.\<close>

lemma bind_calls_after:
  assumes "keeps unbilled m" and "\<And>a u. m w = (Inr a, u) \<Longrightarrow> job_calls sv p u (snd (f a u))"
  shows "job_calls sv p w (snd (bind m f w))"
proof -
  obtain r u where m: "m w = (r, u)" by fastforce
  have u: "unbilled w u" using assms(1) m by (rule keepsD)
  show ?thesis
  proof (cases r)
    case (Inl e)
    with m u show ?thesis by (simp add: job_calls_none)
  next
    case (Inr a)
    with m u assms(2) [of a u] show ?thesis by (simp add: job_calls_after)
  qed
qed

lemma quiet_calls: "keeps unbilled m \<Longrightarrow> job_calls sv p w (snd (m w))"
  by (rule job_calls_none) (simp add: keeps_def)

lemma hand_over_calls: "job_calls sv p w (snd (hand_over (logged_sv sv) p j g w))"
  unfolding hand_over_def Let_def andthen_def
proof (rule bind_calls_after [OF unbilled.save_plan_keeps])
  fix u
  show "job_calls sv p u (snd (run_executor (logged_sv sv) (p\<lparr>p_job_id := Some (j_job_id j), p_status := PLAN_EXECUTED\<rparr>) j g u))"
    by (rule job_calls_steps [OF run_executor_calls]) (simp_all add: list_all2_refl)
qed

lemma after_recheck_calls:
  assumes "recheck_prices (logged_sv sv) p g w = (Inr x, u)"
  shows "job_calls sv p u (snd (after_recheck (logged_sv sv) j x u))"
proof -
  obtain p1 g1 ws bs where x: "x = (p1, g1, ws, bs)" by (cases x)
  note R = recheck_prices_result [OF assms [unfolded x]]
  have "list_all2 rechecked (p_steps p) (p_steps p1)" using R(1) by (rule list_all2_mono) simp
  moreover have "p_plan_id p1 = p_plan_id p" by (subst R(2)) simp
  ultimately have "job_calls sv p u (snd (hand_over (logged_sv sv) p1 j' g1 u))" for j'
    using hand_over_calls job_calls_steps by blast
  then show ?thesis by (simp add: x after_recheck_def Let_def quiet_calls unbilled.abort_job_keeps)
qed

lemma start_run_calls: "job_calls sv p w (snd (start_run (logged_sv sv) j p x w))"
  by (cases x) (auto simp: start_run_def Let_def hand_over_calls after_recheck_calls
      intro!: bind_calls_after unbilled.recheck_prices_keeps)

lemma run_claimed_calls:
  "job_calls sv (case plan_at (w_db w) (j_plan_id j) of Some p \<Rightarrow> p | None \<Rightarrow> q) w (snd (run_claimed (logged_sv sv) j w))"
proof (cases "plan_at (w_db w) (j_plan_id j)")
  case None
  then have "run_claimed (logged_sv sv) j w = abort_job (logged_sv sv) j [Msg ''plan_unavailable'' [JStr (j_plan_id j)]] w"
    by (simp add: run_claimed_def plans_get_def)
  then show ?thesis by (simp add: quiet_calls unbilled.abort_job_keeps)
next
  case (Some p)
  then have "run_claimed (logged_sv sv) j w = bind (account_snapshot (logged_sv sv)) (start_run (logged_sv sv) j p) w"
    by (simp add: run_claimed_def plans_get_def)
  then show ?thesis using Some
    by (simp add: bind_calls_after unbilled.account_snapshot_keeps start_run_calls)
qed

end
