(* ===== verification/Spending.thy ===== *)
theory Spending
  imports Demo
begin

text \<open>
  Where the money of a run goes (\<open>app/services/executor.py\<close> with \<open>app/services/budget.py\<close>). The view of
  a state that matters is the cost of each job step and the committed amount of the guard. The
  invariant says that the guard has committed at least what the job reports, and that the committed
  amount exceeds the envelope by no more than the platform charged above the quotes.
\<close>

section \<open>Costs by step\<close>

type_synonym cost_list = "(string \<times> money) list"

definition costs_of :: "job_step list \<Rightarrow> cost_list" where
  "costs_of ss = map (\<lambda>t. (js_step_id t, js_actual_cost_rub t)) ss"

definition total :: "cost_list \<Rightarrow> money" where
  "total v = sum_list (map snd v)"

definition excess :: "(string \<Rightarrow> money) \<Rightarrow> cost_list \<Rightarrow> money" where
  "excess q v = sum_list (map (\<lambda>(sid, c). max 0 (c - q sid)) v)"

definition set_cost :: "string \<Rightarrow> money \<Rightarrow> cost_list \<Rightarrow> cost_list" where
  "set_cost sid c v = upd_first (\<lambda>x. fst x = sid) (\<lambda>x. (fst x, c)) v"

definition cost_at :: "cost_list \<Rightarrow> string \<Rightarrow> money option" where
  "cost_at v sid = map_option snd (find (\<lambda>x. fst x = sid) v)"

definition costs_ok :: "cost_list \<Rightarrow> bool" where
  "costs_ok v \<longleftrightarrow> list_all (\<lambda>(sid, c). 0 \<le> c \<and> on_grid 4 c) v"

lemma total_set_cost: "cost_at v sid = Some a \<Longrightarrow> total (set_cost sid c v) = total v - a + c"
  by (induction v) (auto simp: total_def set_cost_def cost_at_def split: if_splits)

lemma excess_set_cost:
  "cost_at v sid = Some a \<Longrightarrow>
     excess q (set_cost sid c v) = excess q v - max 0 (a - q sid) + max 0 (c - q sid)"
  by (induction v) (auto simp: excess_def set_cost_def cost_at_def split: if_splits)

lemma cost_at_set_cost:
  "cost_at (set_cost sid c v) sid' = (if sid' = sid \<and> cost_at v sid \<noteq> None then Some c else cost_at v sid')"
  by (induction v) (auto simp: set_cost_def cost_at_def)

lemma costs_ok_set_cost: "costs_ok v \<Longrightarrow> 0 \<le> c \<Longrightarrow> on_grid 4 c \<Longrightarrow> costs_ok (set_cost sid c v)"
  unfolding costs_ok_def set_cost_def by (induction v) auto

lemma costs_ok_at: "costs_ok v \<Longrightarrow> cost_at v sid = Some a \<Longrightarrow> 0 \<le> a \<and> on_grid 4 a"
  by (auto simp: costs_ok_def cost_at_def list_all_iff dest: find_in)

lemma cost_le_total: "costs_ok v \<Longrightarrow> cost_at v sid = Some a \<Longrightarrow> a \<le> total v"
proof (induction v)
  case (Cons x v)
  have "0 \<le> total v" using Cons.prems(1)
    unfolding total_def costs_ok_def list_all_iff by (intro sum_list_nonneg) fastforce
  then show ?case using Cons by (cases x) (auto simp: total_def cost_at_def costs_ok_def split: if_splits)
qed (simp add: cost_at_def)

lemma excess_nonneg: "0 \<le> excess q v"
  by (auto simp: excess_def intro!: sum_list_nonneg)

lemma excess_ge: "cost_at v sid = Some a \<Longrightarrow> max 0 (a - q sid) \<le> excess q v"
proof (induction v)
  case (Cons x v)
  then show ?case using excess_nonneg [of q v]
    by (cases x) (auto simp: excess_def cost_at_def split: if_splits)
qed (simp add: cost_at_def)

lemma costs_of_upd_first:
  assumes "\<And>t. js_step_id t = sid \<Longrightarrow> js_step_id (f t) = sid"
  shows "costs_of (upd_first (\<lambda>t. js_step_id t = sid) f ss) =
    (case find (\<lambda>t. js_step_id t = sid) ss of None \<Rightarrow> costs_of ss
     | Some t \<Rightarrow> set_cost sid (js_actual_cost_rub (f t)) (costs_of ss))"
  by (induction ss) (auto simp: costs_of_def set_cost_def assms split: option.splits)

lemma cost_at_costs_of: "cost_at (costs_of ss) sid = map_option js_actual_cost_rub (find (\<lambda>t. js_step_id t = sid) ss)"
  by (induction ss) (auto simp: cost_at_def costs_of_def)

lemma set_cost_same: "cost_at v sid = Some a \<Longrightarrow> set_cost sid a v = v"
  by (induction v) (auto simp: set_cost_def cost_at_def split: if_splits)

section \<open>The view of a state\<close>

definition costs :: "'x est \<Rightarrow> cost_list" where
  "costs s = costs_of (j_steps (e_job s))"

definition committed :: "'x est \<Rightarrow> money" where
  "committed s = g_committed_rub (e_guard s)"

definition same_money :: "'x est \<Rightarrow> 'x est \<Rightarrow> bool" where
  "same_money s t \<longleftrightarrow> costs t = costs s \<and> e_guard t = e_guard s \<and> t_steps (e_db t) = t_steps (e_db s)"

text \<open>Operations that leave costs, guard and ledger alone.\<close>

lemma same_money_ext:
  "same_money s (snd (on_ext m s))" "same_money s (snd (utcnow env s))" "same_money s (snd (sleep_for env d s))"
  by (simp_all add: same_money_def costs_def on_ext_def utcnow_def sleep_for_def Let_def case_prod_beta)

lemma same_money_step:
  assumes "\<And>t. js_step_id (f t) = js_step_id t" and "\<And>t. js_actual_cost_rub (f t) = js_actual_cost_rub t"
  shows "same_money s (snd (modify_step sid f s))"
proof -
  have "map (\<lambda>t. (js_step_id t, js_actual_cost_rub t)) (upd_first (\<lambda>t. js_step_id t = sid) f ss) =
      map (\<lambda>t. (js_step_id t, js_actual_cost_rub t)) ss" for ss
    by (rule map_upd_first) (simp add: assms)
  then show ?thesis
    by (simp add: same_money_def costs_def costs_of_def modify_step_def modify_job_def modify_def)
qed

lemma same_money_job:
  "same_money s (snd (add_error m s))" "same_money s (snd (add_warning m s))" "same_money s (snd (the_step sid s))"
  "same_money s (snd (refresh_cost s))"
  by (simp_all add: same_money_def costs_def add_error_def add_warning_def the_step_def refresh_cost_def
      modify_job_def modify_def split: option.splits)

lemma same_money_save: "same_money s (snd (save_job s))"
  by (simp add: same_money_def costs_def save_job_def on_db_def jobs_save_def Let_def case_prod_beta)

definition ok_cost :: "obj \<Rightarrow> bool" where
  "ok_cost payload \<longleftrightarrow> (case as_num (jget payload ''cost'') of Some c \<Rightarrow> 0 \<le> c \<and> on_grid 4 c | None \<Rightarrow> True)"

text \<open>The documented form of the platform's amounts: not negative, at most four decimals.\<close>

definition gives :: "('a \<Rightarrow> bool) \<Rightarrow> ('s, exn, 'a) eff \<Rightarrow> bool" where
  "gives V m \<longleftrightarrow> (\<forall>s a t. m s = (Inr a, t) \<longrightarrow> V a)"

definition priced_client :: "'x client \<Rightarrow> bool" where
  "priced_client c \<longleftrightarrow> (\<forall>body. gives ok_cost (cl_generate c body)) \<and>
     (\<forall>g. gives ok_cost (cl_generation_status c g)) \<and>
     (\<forall>f \<in> set_option (cl_voiceover_status c). \<forall>g. gives ok_cost (f g)) \<and>
     (\<forall>w \<in> set_option (cl_wait_for_generation c). \<forall>g i d. gives ok_cost (w g i d))"

lemma gives_on_ext: "gives V m \<Longrightarrow> gives V (on_ext m)"
  unfolding gives_def on_ext_def by (simp add: Let_def case_prod_beta) (metis prod.collapse)

lemma gives_poll:
  "gives V ask \<Longrightarrow> poll n ask sl i dl w s = (Inr (Inr payload), t) \<Longrightarrow> V payload"
proof (induction n ask sl i dl w arbitrary: s rule: poll.induct)
  case (2 fuel ask sl i dl w)
  obtain r u where a: "ask s = (r, u)" by fastforce
  show ?case
  proof (cases r)
    case (Inl e)
    with 2(3) a show ?thesis by simp
  next
    case (Inr p)
    have v: "V p" using 2(2) a Inr unfolding gives_def by blast
    show ?thesis
    proof (cases "status_of p \<in> set TERMINAL_STATUSES \<or> dl \<le> w")
      case True
      with 2(3) a Inr v show ?thesis by (auto split: if_splits)
    next
      case False
      with 2(3) a Inr obtain x where "poll fuel ask sl i dl (w + i) x = (Inr (Inr payload), t)"
        by (auto simp: andthen_eq_Inr split: if_splits)
      then show ?thesis using 2(1,2) False by blast
    qed
  qed
qed simp

lemma outcome_cost:
  assumes "ok_cost payload" and "0 \<le> js_actual_cost_rub js" and "on_grid 4 (js_actual_cost_rub js)"
  shows "0 \<le> snd (apply_outcome t js payload)" and "on_grid 4 (snd (apply_outcome t js payload))"
  using assms by (auto simp: apply_outcome_def ok_cost_def as_float_def Let_def split: option.splits)

lemma outcome_step [simp]:
  "js_step_id (fst (apply_outcome t js payload)) = js_step_id js"
  "js_actual_cost_rub (fst (apply_outcome t js payload)) = js_actual_cost_rub js"
  "js_generation_id (fst (apply_outcome t js payload)) = js_generation_id js"
  by (simp_all add: apply_outcome_def Let_def)

section \<open>Settling\<close>

definition settled_guard :: "string \<Rightarrow> money \<Rightarrow> money \<Rightarrow> guard \<Rightarrow> guard" where
  "settled_guard sid prev final g =
     (if final = prev then g
      else (let g1 = release g prev (JStr sid) in g1\<lparr>g_committed_rub := round4 (g_committed_rub g1 + final)\<rparr>))"

lemma find_step_modified:
  "find (\<lambda>t. js_step_id t = sid) ss = Some js \<Longrightarrow> (\<And>t. js_step_id (f t) = js_step_id t) \<Longrightarrow>
     find (\<lambda>t. js_step_id t = sid) (upd_first (\<lambda>t. js_step_id t = sid) f ss) = Some (f js)"
  by (simp add: find_upd_first)

lemma modify_step_simps:
  "modify_step sid f s = (Inr (), s\<lparr>e_job := (e_job s)\<lparr>j_steps := upd_first (\<lambda>t. js_step_id t = sid) f (j_steps (e_job s))\<rparr>\<rparr>)"
  by (simp add: modify_step_def modify_job_def modify_def)

lemma utcnow_eq:
  "utcnow env s = (Inr (fst (cl_now (x_client env) (e_ext s))), s\<lparr>e_ext := snd (cl_now (x_client env) (e_ext s))\<rparr>)"
  by (simp add: utcnow_def on_ext_def now_is_def Let_def case_prod_beta)

lemma on_db_update_step:
  "on_db (update_step pid sid st gid c now) s =
     (Inr (), s\<lparr>e_db := snd (update_step pid sid st gid c now (e_db s))\<rparr>)"
  by (simp add: on_db_def update_step_def modify_def)

lemma upd_first_twice:
  "(\<And>t. P t \<Longrightarrow> P (f t)) \<Longrightarrow> upd_first P g (upd_first P f xs) = upd_first P (g \<circ> f) xs"
  by (induction xs) auto

text \<open>Everything \<open>_settle\<close> does to costs, guard and ledger.\<close>

lemma settle_money:
  assumes js: "find_step (e_job s) sid = Some js" and r: "settle env p sid payload s = (r, t)"
  defines "final \<equiv> snd (apply_outcome 0 js payload)"
  shows "costs t = set_cost sid final (costs s)"
    and "e_guard t = settled_guard sid (js_actual_cost_rub js) final (e_guard s)"
    and "\<exists>st gid now. t_steps (e_db t) = t_steps (snd (update_step (p_plan_id p) sid st gid (Some final) now (e_db s)))"
proof -
  obtain t1 x1 where c1: "utcnow env s = (Inr t1, s\<lparr>e_ext := x1\<rparr>)" using utcnow_eq by blast
  define js1 where "js1 = fst (apply_outcome t1 js payload)"
  have fin: "snd (apply_outcome t1 js payload) = final"
    unfolding final_def by (simp add: apply_outcome_def Let_def)
  have id1: "js_step_id js1 = js_step_id js" "js_actual_cost_rub js1 = js_actual_cost_rub js" by (simp_all add: js1_def)
  have sidjs: "js_step_id js = sid" using js find_in by (fastforce simp: find_step_def)
  let ?prev = "js_actual_cost_rub js"
  let ?rest = "andthen (case js_error js1 of
                    Some e \<Rightarrow> if js_status js1 = STEP_FAILED then add_error (Pref sid e) else ret ()
                  | None \<Rightarrow> ret ())
        (andthen (if final \<noteq> ?prev then
                    modify_guard (\<lambda>g. let g1 = release g ?prev (JStr sid) in
                      g1\<lparr>g_committed_rub := round4 (g_committed_rub g1 + final)\<rparr>)
                  else ret ())
        (andthen (modify_step sid (\<lambda>s. s\<lparr>js_actual_cost_rub := final\<rparr>))
        (bind (utcnow env) (\<lambda>t2.
           on_db (update_step (p_plan_id p) sid (js_status js1) (js_generation_id js1) (Some final) t2)))))"
  define s1 where "s1 = s\<lparr>e_ext := x1, e_job := (e_job s)\<lparr>j_steps := upd_first (\<lambda>t. js_step_id t = sid) (\<lambda>_. js1) (j_steps (e_job s))\<rparr>\<rparr>"
  have th: "the_step sid s = (Inr js, s)" using js by (simp add: the_step_def)
  have ap: "apply_outcome t1 js payload = (js1, final)" using fin by (simp add: js1_def prod_eq_iff)
  have m1: "modify_step sid (\<lambda>_. js1) (s\<lparr>e_ext := x1\<rparr>) = (Inr (), s1)" by (simp add: modify_step_simps s1_def)
  have eq: "settle env p sid payload s = ?rest s1"
    unfolding settle_def bind_Inr [where m = "the_step sid", OF th] bind_Inr [where m = "utcnow env", OF c1]
      Let_def ap prod.case andthen_Inr [where m = "modify_step sid (\<lambda>_. js1)", OF m1] ..
  have "\<exists>es. (case js_error js1 of
                    Some e \<Rightarrow> if js_status js1 = STEP_FAILED then add_error (Pref sid e) else ret ()
                  | None \<Rightarrow> ret ()) s1 = (Inr (), s1\<lparr>e_job := (e_job s1)\<lparr>j_errors := es\<rparr>\<rparr>)"
  proof (cases "\<exists>e. js_error js1 = Some e \<and> js_status js1 = STEP_FAILED")
    case True
    then obtain e where "js_error js1 = Some e" "js_status js1 = STEP_FAILED" by blast
    then show ?thesis
      by (intro exI [of _ "j_errors (e_job s1) @ [Pref sid e]"]) (simp add: add_error_def modify_job_def modify_def)
  next
    case False
    then show ?thesis by (intro exI [of _ "j_errors (e_job s1)"]) (auto split: option.splits)
  qed
  then obtain es where es: "(case js_error js1 of
                    Some e \<Rightarrow> if js_status js1 = STEP_FAILED then add_error (Pref sid e) else ret ()
                  | None \<Rightarrow> ret ()) s1 = (Inr (), s1\<lparr>e_job := (e_job s1)\<lparr>j_errors := es\<rparr>\<rparr>)" by blast
  define s2 where "s2 = s1\<lparr>e_job := (e_job s1)\<lparr>j_errors := es\<rparr>, e_guard := settled_guard sid ?prev final (e_guard s)\<rparr>"
  define s3 where "s3 = s2\<lparr>e_job := (e_job s2)\<lparr>j_steps := upd_first (\<lambda>t. js_step_id t = sid) (\<lambda>s. s\<lparr>js_actual_cost_rub := final\<rparr>) (j_steps (e_job s2))\<rparr>\<rparr>"
  obtain t2 x2 where c2: "utcnow env s3 = (Inr t2, s3\<lparr>e_ext := x2\<rparr>)" using utcnow_eq by blast
  have g: "(if final \<noteq> ?prev then
        modify_guard (\<lambda>g. let g1 = release g ?prev (JStr sid) in g1\<lparr>g_committed_rub := round4 (g_committed_rub g1 + final)\<rparr>)
      else ret ()) (s1\<lparr>e_job := (e_job s1)\<lparr>j_errors := es\<rparr>\<rparr>) = (Inr (), s2)"
    by (simp add: s2_def s1_def settled_guard_def modify_guard_def modify_def)
  have m3: "modify_step sid (\<lambda>s. s\<lparr>js_actual_cost_rub := final\<rparr>) s2 = (Inr (), s3)" by (simp add: modify_step_simps s3_def)
  have "?rest s1 = (Inr (), s3\<lparr>e_ext := x2, e_db := snd (update_step (p_plan_id p) sid (js_status js1) (js_generation_id js1) (Some final) t2 (e_db s))\<rparr>)"
    using es g m3 c2 by (simp add: andthen_def bind_def on_db_update_step) (simp add: s3_def s2_def s1_def)
  then have t: "t = s3\<lparr>e_ext := x2, e_db := snd (update_step (p_plan_id p) sid (js_status js1) (js_generation_id js1) (Some final) t2 (e_db s))\<rparr>"
    using eq r by simp
  show "e_guard t = settled_guard sid ?prev final (e_guard s)" unfolding t by (simp add: s3_def s2_def)
  show "\<exists>st gid now. t_steps (e_db t) = t_steps (snd (update_step (p_plan_id p) sid st gid (Some final) now (e_db s)))"
    unfolding t by auto
  have "costs t = costs_of (upd_first (\<lambda>t. js_step_id t = sid) (\<lambda>s. s\<lparr>js_actual_cost_rub := final\<rparr>)
       (upd_first (\<lambda>t. js_step_id t = sid) (\<lambda>_. js1) (j_steps (e_job s))))"
    unfolding t by (simp add: costs_def s3_def s2_def s1_def)
  also have "\<dots> = set_cost sid final (costs s)"
    using js id1 sidjs by (simp add: upd_first_twice costs_of_upd_first costs_def find_step_def)
  finally show "costs t = set_cost sid final (costs s)" .
qed

section \<open>Relations on costs, guard and the rows of other steps\<close>

text \<open>While one step is handled, only its own cost, its own row and the guard move.\<close>

locale money_relation = step_order R
  for R :: "'x est \<Rightarrow> 'x est \<Rightarrow> bool" +
  fixes env :: "'x exec_env" and p :: plan and sid :: string
  assumes same: "same_money s t \<Longrightarrow> R s t"
    and updating: "keeps R (on_db (update_step (p_plan_id p) sid st gid cost now))"
begin

lemma quiet: "(\<And>s. same_money s (snd (m s))) \<Longrightarrow> keeps R m"
  by (simp add: keeps_def same)

lemma quiet_step:
  "(\<And>t. js_step_id (f t) = js_step_id t) \<Longrightarrow> (\<And>t. js_actual_cost_rub (f t) = js_actual_cost_rub t) \<Longrightarrow>
     keeps R (modify_step sid' f)"
  by (intro quiet same_money_step)

lemmas parts = keeps_intros keeps_ret keeps_raise keeps_gets updating quiet [OF same_money_ext(1)]
  quiet [OF same_money_ext(2)] quiet [OF same_money_ext(3)] quiet [OF same_money_job(1)]
  quiet [OF same_money_job(2)] quiet [OF same_money_job(3)] quiet [OF same_money_job(4)]
  quiet [OF same_money_save]

lemma fail_step_keeps: "keeps R (fail_step env sid' m)"
  unfolding fail_step_def by (intro parts quiet_step) simp_all

lemma step_failed_keeps:
  assumes "ps_step_id ps = sid"
  shows "keeps R (step_failed env p ps e)"
  unfolding step_failed_def Let_def assms
  by (auto split: exn.splits vibe_error.splits intro!: parts quiet_step)

lemma poll_keeps:
  "keeps R ask \<Longrightarrow> (\<And>x. keeps R (sl x)) \<Longrightarrow> keeps R (poll n ask sl i dl w)"
proof (induction n arbitrary: w)
  case 0
  show ?case unfolding poll.simps by (rule keeps_raise)
next
  case (Suc n)
  show ?case unfolding poll.simps by (intro parts Suc.IH Suc.prems)
qed

lemma keeps_bind_where:
  assumes "keeps R m" and "gives V m" and "\<And>a. V a \<Longrightarrow> keeps R (f a)"
  shows "keeps R (bind m f)"
proof (rule keepsI)
  fix s
  obtain r t where m: "m s = (r, t)" by fastforce
  have st: "R s t" by (rule keepsD [OF assms(1) m])
  show "R s (snd (bind m f s))"
  proof (cases r)
    case (Inl e)
    with m st show ?thesis by simp
  next
    case (Inr a)
    then have "V a" using assms(2) m unfolding gives_def by blast
    then have "R t (snd (f a t))" using assms(3) by (simp add: keeps_def)
    then show ?thesis using m Inr st by (simp add: R_trans)
  qed
qed

end

definition ok_poll :: "rat + obj \<Rightarrow> bool" where
  "ok_poll r = (case r of Inl w \<Rightarrow> True | Inr payload \<Rightarrow> ok_cost payload)"

lemma gives_ok_poll: "gives ok_cost ask \<Longrightarrow> gives ok_poll (poll_from_zero ask sl i d)"
  unfolding gives_def poll_from_zero_def ok_poll_def
  by (auto split: sum.splits) (metis gives_def gives_poll)

lemma gives_wait_for:
  assumes "priced_client (x_client env)"
  shows "gives ok_cost (wait_for env g)"
proof (cases "cl_wait_for_generation (x_client env)")
  case (Some w)
  then have "gives ok_cost (w g (x_poll_interval env) (x_poll_timeout env))"
    using assms by (simp add: priced_client_def)
  then show ?thesis unfolding wait_for_def Some option.case by (rule gives_on_ext)
next
  case None
  have "gives ok_cost (cl_generation_status (x_client env) g)" using assms by (simp add: priced_client_def)
  then have "gives ok_poll (poll_from_zero (on_ext (cl_generation_status (x_client env) g)) (sleep_for env)
      (x_poll_interval env) (x_poll_timeout env))" by (intro gives_ok_poll gives_on_ext)
  then show ?thesis unfolding wait_for_def None option.case gives_def
    by (auto simp: bind_eq_Inr ok_poll_def ret_def raise_def split: sum.splits; metis sum.exhaust)
qed

locale settling_relation = money_relation R env p sid
  for R :: "'x est \<Rightarrow> 'x est \<Rightarrow> bool" and env :: "'x exec_env" and p :: plan and sid :: string +
  assumes settling: "ok_cost payload \<Longrightarrow> keeps R (settle env p sid payload)"
begin

lemma await_long_keeps:
  assumes priced: "priced_client (x_client env)"
  shows "keeps R (await_long_voiceover env p sid)"
proof (cases "cl_voiceover_status (x_client env)")
  case None
  then show ?thesis by (simp add: await_long_voiceover_def fail_step_keeps)
next
  case (Some f)
  have g: "gives ok_poll (poll_from_zero (on_ext (f g)) (sleep_for env) (x_poll_interval env) (x_poll_timeout env))" for g
    using priced Some by (intro gives_ok_poll gives_on_ext) (simp add: priced_client_def)
  have k: "keeps R (poll_from_zero (on_ext (f g)) (sleep_for env) (x_poll_interval env) (x_poll_timeout env))" for g
    unfolding poll_from_zero_def by (intro poll_keeps parts)
  show ?thesis unfolding await_long_voiceover_def Some option.case
  proof (rule keeps_bind)
    show "keeps R (the_step sid)" by (intro parts)
    fix js
    show "keeps R (bind (poll_from_zero (on_ext (f (js_generation_id js))) (sleep_for env) (x_poll_interval env) (x_poll_timeout env))
       (\<lambda>res. case res of Inl waited \<Rightarrow> fail_step env sid (Msg ''voiceover_timeout'' [JFloat waited, JStr (show_id (js_generation_id js))])
          | Inr payload \<Rightarrow> settle env p sid payload))"
      by (rule keeps_bind_where [OF k g]) (auto simp: ok_poll_def fail_step_keeps settling split: sum.splits)
  qed
qed

lemma wait_for_keeps: "keeps R (wait_for env g)"
  unfolding wait_for_def poll_from_zero_def
  by (auto split: option.splits sum.splits intro!: parts poll_keeps)

lemma await_result_keeps:
  assumes priced: "priced_client (x_client env)"
  shows "keeps R (await_result env p sid)"
  unfolding await_result_def
proof (rule keeps_bind)
  show "keeps R (the_step sid)" by (intro parts)
  fix js
  let ?w = "catch (bind (wait_for env (js_generation_id js)) (\<lambda>payload. ret (Some payload)))
        (\<lambda>e. case e of
           Vibe (VibePollTimeoutError g waited) \<Rightarrow>
             andthen (fail_step env sid (Msg ''result_timeout'' [JFloat waited, JStr (show_id (js_generation_id js))]))
               (ret None)
         | _ \<Rightarrow> raise e)"
  have "keeps R ?w"
    by (intro parts wait_for_keeps)
       (auto split: exn.splits vibe_error.splits intro!: parts fail_step_keeps)
  moreover have "gives (\<lambda>res. \<forall>payload. res = Some payload \<longrightarrow> ok_cost payload) ?w"
    using gives_wait_for [OF priced, of "js_generation_id js"] unfolding gives_def
    by (auto simp: catch_def bind_def andthen_def ret_def raise_def split: prod.splits sum.splits exn.splits vibe_error.splits)
  ultimately show "keeps R (bind ?w (\<lambda>res. case res of None \<Rightarrow> ret () | Some payload \<Rightarrow> settle env p sid payload))"
    by (rule keeps_bind_where) (auto simp: settling split: option.splits)
qed

lemma await_step_keeps: "priced_client (x_client env) \<Longrightarrow> (\<And>r. response = Some r \<Longrightarrow> ok_cost r) \<Longrightarrow> keeps R (await_step env p sid response)"
  unfolding await_step_def
  by (intro parts await_long_keeps await_result_keeps fail_step_keeps settling) auto

end

section \<open>The invariant\<close>

text \<open>\<open>q\<close> is the quote of each step, \<open>S\<close> the envelope. Between steps: the guard has committed at
  least what the steps cost, and at most the envelope plus what was charged above the quotes.\<close>

definition guard_covers :: "(string \<Rightarrow> money) \<Rightarrow> money \<Rightarrow> 'x est \<Rightarrow> bool" where
  "guard_covers q S s \<longleftrightarrow> guard_wf (e_guard s) \<and> costs_ok (costs s) \<and> total (costs s) \<le> committed s \<and>
     spendable_rub (e_guard s) = S"

definition outside :: "(string \<Rightarrow> money) \<Rightarrow> money \<Rightarrow> 'x est \<Rightarrow> bool" where
  "outside q S s \<longleftrightarrow> guard_covers q S s \<and> committed s \<le> S + excess q (costs s)"

text \<open>While step \<open>sid\<close> is in flight: there is room for its quote next to everything else.\<close>

definition in_flight :: "(string \<Rightarrow> money) \<Rightarrow> money \<Rightarrow> string \<Rightarrow> 'x est \<Rightarrow> bool" where
  "in_flight q S sid s \<longleftrightarrow> guard_covers q S s \<and> (\<exists>a. cost_at (costs s) sid = Some a \<and>
     committed s - a + q sid \<le> S + (excess q (costs s) - max 0 (a - q sid)))"

text \<open>The other steps as they were.\<close>

definition others_kept :: "string \<Rightarrow> string \<Rightarrow> 'x est \<Rightarrow> 'x est \<Rightarrow> bool" where
  "others_kept pid sid s t \<longleftrightarrow> (\<forall>sid'. sid' \<noteq> sid \<longrightarrow>
     cost_at (costs t) sid' = cost_at (costs s) sid' \<and> step_at (e_db t) pid sid' = step_at (e_db s) pid sid') \<and>
   (cost_at (costs t) sid = None \<longleftrightarrow> cost_at (costs s) sid = None)"

lemma in_flight_outside: "in_flight q S sid s \<Longrightarrow> outside q S s"
  by (auto simp: in_flight_def outside_def)

lemma others_kept_refl [simp]: "others_kept pid sid s s"
  by (simp add: others_kept_def)

lemma others_kept_trans: "others_kept pid sid s t \<Longrightarrow> others_kept pid sid t u \<Longrightarrow> others_kept pid sid s u"
  by (auto simp: others_kept_def)

lemma step_at_steps: "t_steps d' = t_steps d \<Longrightarrow> step_at d' = step_at d"
  by (simp add: step_at_def fun_eq_iff)

lemma same_money_facts:
  assumes "same_money s t"
  shows "in_flight q S sid s \<Longrightarrow> in_flight q S sid t" "outside q S s \<Longrightarrow> outside q S t" "others_kept pid sid s t"
  using assms step_at_steps [of "e_db t" "e_db s"]
  by (simp_all add: same_money_def in_flight_def outside_def guard_covers_def committed_def others_kept_def)

lemma step_at_update:
  "sid' \<noteq> sid \<Longrightarrow> step_at (snd (update_step pid sid st gid c now d)) pid sid' = step_at d pid sid'"
proof -
  assume "sid' \<noteq> sid"
  then have "find (\<lambda>r. sx_plan_id r = pid \<and> sx_step_id r = sid') (fst (sql_update (\<lambda>r. sx_plan_id r = pid \<and> sx_step_id r = sid)
     (\<lambda>r. r\<lparr>sx_status := st, sx_generation_id := coalesce gid (sx_generation_id r),
            sx_actual_cost_rub := (case c of Some c \<Rightarrow> c | None \<Rightarrow> sx_actual_cost_rub r),
            sx_updated_at := now\<rparr>) rs)) = find (\<lambda>r. sx_plan_id r = pid \<and> sx_step_id r = sid') rs" for rs
    by (induction rs) (auto simp: sql_update_def)
  then show ?thesis by (simp add: step_at_def update_step_def modify_def)
qed

definition flight_step :: "(string \<Rightarrow> money) \<Rightarrow> money \<Rightarrow> string \<Rightarrow> string \<Rightarrow> 'x est \<Rightarrow> 'x est \<Rightarrow> bool" where
  "flight_step q S pid sid s t \<longleftrightarrow> (in_flight q S sid s \<longrightarrow> in_flight q S sid t) \<and> (in_flight q S sid s \<longrightarrow> others_kept pid sid s t)"

definition between_step :: "(string \<Rightarrow> money) \<Rightarrow> money \<Rightarrow> string \<Rightarrow> string \<Rightarrow> 'x est \<Rightarrow> 'x est \<Rightarrow> bool" where
  "between_step q S pid sid s t \<longleftrightarrow> (outside q S s \<longrightarrow> outside q S t) \<and> others_kept pid sid s t"

lemma update_step_money:
  "costs (snd (on_db (update_step pid sid st gid c now) s)) = costs s"
  "e_guard (snd (on_db (update_step pid sid st gid c now) s)) = e_guard s"
  "others_kept pid sid s (snd (on_db (update_step pid sid st gid c now) s))"
  by (simp_all add: on_db_update_step costs_def others_kept_def step_at_update)

interpretation between: money_relation "between_step q S (p_plan_id p) sid" env p sid for q S env p sid
proof
  show "between_step q S (p_plan_id p) sid s s" for s by (simp add: between_step_def)
  show "between_step q S (p_plan_id p) sid s t \<Longrightarrow> between_step q S (p_plan_id p) sid t u \<Longrightarrow>
      between_step q S (p_plan_id p) sid s u" for s t u
    by (auto simp: between_step_def intro: others_kept_trans)
  show "same_money s t \<Longrightarrow> between_step q S (p_plan_id p) sid s t" for s t
    by (simp add: between_step_def same_money_facts)
  show "keeps (between_step q S (p_plan_id p) sid) (on_db (update_step (p_plan_id p) sid st gid cost now))" for st gid cost now
    by (simp add: keeps_def between_step_def outside_def guard_covers_def committed_def update_step_money)
qed

text \<open>Settling replaces the step's cost in the job and in the guard alike.\<close>

lemma settled_guard_facts:
  assumes "guard_wf g" and "0 \<le> prev" "on_grid 4 prev" "prev \<le> g_committed_rub g" and "0 \<le> final" "on_grid 4 final"
  shows "g_committed_rub (settled_guard sid prev final g) = g_committed_rub g - prev + final"
    and "guard_wf (settled_guard sid prev final g)"
    and "spendable_rub (settled_guard sid prev final g) = spendable_rub g"
proof -
  have c: "on_grid 4 (g_committed_rub g)" using assms(1) by (simp add: guard_wf_def)
  have d: "on_grid 4 (g_committed_rub g - prev)" using c assms(3) by (rule on_grid_diff)
  show eq: "g_committed_rub (settled_guard sid prev final g) = g_committed_rub g - prev + final"
  proof (cases "final = prev")
    case False
    have "round4 (max 0 (g_committed_rub g - prev)) = g_committed_rub g - prev"
      using d assms(4) by (simp add: py_round_grid)
    then show ?thesis using False on_grid_add [OF d assms(6)] by (simp add: settled_guard_def Let_def py_round_grid)
  qed (simp add: settled_guard_def)
  show "guard_wf (settled_guard sid prev final g)"
    unfolding guard_wf_def eq using on_grid_add [OF d assms(6)] assms(4,5) by simp
  show "spendable_rub (settled_guard sid prev final g) = spendable_rub g"
    by (simp add: settled_guard_def Let_def spendable_rub_def margin_rub_def release_def)
qed

lemma settle_flight:
  assumes okc: "ok_cost payload" and i: "in_flight q S sid s" and r: "settle env p sid payload s = (r, t)"
  shows "in_flight q S sid t \<and> others_kept (p_plan_id p) sid s t"
proof -
  obtain a where a: "cost_at (costs s) sid = Some a"
    and room: "committed s - a + q sid \<le> S + (excess q (costs s) - max 0 (a - q sid))"
    and gc: "guard_covers q S s" using i by (auto simp: in_flight_def)
  obtain js where js: "find_step (e_job s) sid = Some js" and ja: "js_actual_cost_rub js = a"
    using a by (auto simp: costs_def cost_at_costs_of find_step_def)
  have aok: "0 \<le> a" "on_grid 4 a" using gc a costs_ok_at by (auto simp: guard_covers_def)
  have ale: "a \<le> committed s" using gc cost_le_total [of "costs s" sid a] a by (auto simp: guard_covers_def)
  define final where "final = snd (apply_outcome 0 js payload)"
  have fok: "0 \<le> final" "on_grid 4 final" unfolding final_def using okc aok ja by (auto intro: outcome_cost)
  note m = settle_money [OF js r, folded final_def, unfolded ja]
  have sg: "g_committed_rub (e_guard t) = committed s - a + final" "guard_wf (e_guard t)" "spendable_rub (e_guard t) = S"
    using settled_guard_facts [of "e_guard s" a final sid] gc aok fok ale m(2)
    by (auto simp: guard_covers_def committed_def)
  have "total (costs t) = total (costs s) - a + final" unfolding m(1) by (rule total_set_cost [OF a])
  then have gct: "guard_covers q S t"
    using gc sg fok costs_ok_set_cost [of "costs s" final sid] by (simp add: guard_covers_def committed_def m(1))
  have ex: "excess q (costs t) = excess q (costs s) - max 0 (a - q sid) + max 0 (final - q sid)"
    unfolding m(1) by (rule excess_set_cost [OF a])
  have at: "cost_at (costs t) sid = Some final" unfolding m(1) cost_at_set_cost using a by simp
  have "committed t - final + q sid \<le> S + (excess q (costs t) - max 0 (final - q sid))"
    using room ex sg(1) by (simp add: committed_def)
  with gct at have "in_flight q S sid t" by (auto simp: in_flight_def)
  moreover obtain st gid now where
    st: "t_steps (e_db t) = t_steps (snd (update_step (p_plan_id p) sid st gid (Some final) now (e_db s)))"
    using m(3) by blast
  have "others_kept (p_plan_id p) sid s t"
    unfolding others_kept_def using step_at_steps [OF st] a at
    by (simp add: m(1) cost_at_set_cost step_at_update)
  ultimately show ?thesis ..
qed

interpretation flight: settling_relation "flight_step q S (p_plan_id p) sid" env p sid for q S env p sid
proof
  show "flight_step q S (p_plan_id p) sid s s" for s by (simp add: flight_step_def)
  show "flight_step q S (p_plan_id p) sid s t \<Longrightarrow> flight_step q S (p_plan_id p) sid t u \<Longrightarrow>
      flight_step q S (p_plan_id p) sid s u" for s t u
    by (auto simp: flight_step_def intro: others_kept_trans)
  show "same_money s t \<Longrightarrow> flight_step q S (p_plan_id p) sid s t" for s t
    by (simp add: flight_step_def same_money_facts)
  show "keeps (flight_step q S (p_plan_id p) sid) (on_db (update_step (p_plan_id p) sid st gid cost now))" for st gid cost now
    by (simp add: keeps_def flight_step_def in_flight_def guard_covers_def committed_def update_step_money)
  show "ok_cost payload \<Longrightarrow> keeps (flight_step q S (p_plan_id p) sid) (settle env p sid payload)" for payload
    by (rule keepsI) (metis flight_step_def prod.collapse settle_flight)
qed

section \<open>The launch\<close>

text \<open>Whether the guard accepts the charge or the run stops there, the charge is recorded.\<close>

lemma record_charge_money:
  assumes found: "cost_at (costs s) (ps_step_id ps) \<noteq> None" and r: "record_charge env p ps resp s = (r, t)"
    and wf: "guard_wf (e_guard s)"
  defines "charged \<equiv> as_float (jget resp ''cost'') (ps_estimated_cost_rub ps)"
  shows "costs t = set_cost (ps_step_id ps) charged (costs s)"
    and "g_committed_rub (e_guard t) = round4 (committed s + charged)"
    and "spendable_rub (e_guard t) = spendable_rub (e_guard s)"
    and "others_kept (p_plan_id p) (ps_step_id ps) s t"
proof -
  let ?sid = "ps_step_id ps"
  let ?f = "\<lambda>s. s\<lparr>js_generation_id := generation_id_of resp, js_task_id := jget resp ''task_id'',
             js_is_long_voiceover := truthy (jget resp ''long_voiceover''),
             js_text_output := coalesce (text_of resp) (js_text_output s), js_actual_cost_rub := charged\<rparr>"
  define s1 where "s1 = s\<lparr>e_job := (e_job s)\<lparr>j_steps := upd_first (\<lambda>t. js_step_id t = ?sid) ?f (j_steps (e_job s))\<rparr>\<rparr>"
  have m1: "modify_step ?sid ?f s = (Inr (), s1)" by (simp add: modify_step_simps s1_def)
  obtain t1 x1 where c1: "utcnow env s1 = (Inr t1, s1\<lparr>e_ext := x1\<rparr>)" using utcnow_eq by blast
  define s2 where "s2 = snd (on_db (update_step (p_plan_id p) ?sid STEP_RUNNING (generation_id_of resp) (Some charged) t1) (s1\<lparr>e_ext := x1\<rparr>))"
  have m2: "bind (utcnow env) (\<lambda>t. on_db (update_step (p_plan_id p) ?sid STEP_RUNNING (generation_id_of resp) (Some charged) t)) s1
      = (Inr (), s2)"
    using c1 by (simp add: s2_def on_db_update_step)
  have g2: "e_guard s2 = e_guard s" "costs s2 = costs s1"
    by (simp_all add: s2_def on_db_update_step s1_def costs_def)
  have t: "costs t = costs s2 \<and> e_db t = e_db s2 \<and> g_committed_rub (e_guard t) = round4 (committed s + charged) \<and>
      spendable_rub (e_guard t) = spendable_rub (e_guard s)"
  proof (cases "commit (e_guard s2) charged (JStr ?sid)")
    case (Inr x)
    obtain rem g' where x: "x = (rem, g')" by (cases x)
    have "t = s2\<lparr>e_guard := g'\<rparr>"
      using r m1 m2 Inr x unfolding record_charge_def Let_def charged_def [symmetric]
      by (simp add: gets_def modify_guard_def modify_def bind_def andthen_def)
    then show ?thesis using commit_Inr [OF Inr [unfolded x]] g2 spendable_cong [of g' "e_guard s"]
      by (simp add: costs_def committed_def)
  next
    case (Inl e)
    have b: "is_budget_exceeded e" using Inl commit_Inl check_Inl by blast
    have "t = s2\<lparr>e_guard := (e_guard s2)\<lparr>g_committed_rub := round4 (g_committed_rub (e_guard s2) + charged)\<rparr>,
        e_job := (e_job s2)\<lparr>j_warnings := j_warnings (e_job s2) @
          [Pref ?sid (Msg ''charged_above_plan'' [JFloat charged, JFloat (ps_estimated_cost_rub ps)])]\<rparr>\<rparr>"
      using r m1 m2 Inl b unfolding record_charge_def Let_def charged_def [symmetric]
      by (simp add: gets_def modify_guard_def modify_def bind_def andthen_def add_warning_def modify_job_def raise_def)
    then show ?thesis using g2 by (simp add: costs_def committed_def spendable_rub_def margin_rub_def)
  qed
  have c: "costs s1 = set_cost ?sid charged (costs s)"
  proof -
    obtain js where "find (\<lambda>t. js_step_id t = ?sid) (j_steps (e_job s)) = Some js"
      using found by (auto simp: costs_def cost_at_costs_of)
    then show ?thesis by (simp add: s1_def costs_def costs_of_upd_first)
  qed
  show "costs t = set_cost ?sid charged (costs s)" using t g2 c by simp
  show "g_committed_rub (e_guard t) = round4 (committed s + charged)"
    "spendable_rub (e_guard t) = spendable_rub (e_guard s)" using t by auto
  have "step_at (e_db t) (p_plan_id p) sid' = step_at (e_db s) (p_plan_id p) sid'" if "sid' \<noteq> ?sid" for sid'
    using that t by (simp add: s2_def on_db_update_step step_at_update s1_def)
  then show "others_kept (p_plan_id p) ?sid s t"
    using t g2 c found by (auto simp: others_kept_def cost_at_set_cost)
qed

text \<open>The check before the call leaves room for the quote, exactly.\<close>

lemma check_room:
  assumes ok: "check g e label = Inr ()" and wf: "guard_wf g" and e: "on_grid 4 e"
  shows "g_committed_rub g + e \<le> spendable_rub g"
proof -
  have c: "on_grid 4 (g_committed_rub g)" using wf by (simp add: guard_wf_def)
  have "g_committed_rub g + e \<le> spendable_rub g + EPSILON"
    using ok wf by (simp add: check_Inr remaining_eq)
  then have "round4 (g_committed_rub g + e) \<le> spendable_rub g"
    by (rule py_round_le_grid [OF on_grid_spendable]) (simp_all add: EPSILON_def)
  then show ?thesis using py_round_grid [OF on_grid_add [OF c e]] by simp
qed

definition quote_ok :: "(string \<Rightarrow> money) \<Rightarrow> plan_step \<Rightarrow> bool" where
  "quote_ok q ps \<longleftrightarrow> q (ps_step_id ps) = ps_estimated_cost_rub ps \<and> 0 \<le> ps_estimated_cost_rub ps \<and>
     on_grid 4 (ps_estimated_cost_rub ps)"

lemma launch_money:
  assumes pc: "priced_client (x_client env)" and q: "quote_ok q ps" and o1: "outside q S s"
    and a: "cost_at (costs s) (ps_step_id ps) = Some a" "a \<le> q (ps_step_id ps)"
    and r: "launch env p ps body s = (r, t)"
  shows "others_kept (p_plan_id p) (ps_step_id ps) s t"
    and "case r of Inr resp \<Rightarrow> in_flight q S (ps_step_id ps) t \<and> ok_cost resp | Inl e \<Rightarrow> outside q S t"
proof -
  let ?sid = "ps_step_id ps" and ?e = "ps_estimated_cost_rub ps"
  have gc: "guard_covers q S s" using o1 by (simp add: outside_def)
  have "others_kept (p_plan_id p) ?sid s t \<and>
     (case r of Inr resp \<Rightarrow> in_flight q S ?sid t \<and> ok_cost resp | Inl e \<Rightarrow> outside q S t)"
  proof (cases "check_all (e_guard s) ?e (JStr ?sid)")
    case (Inl e)
    then have "r = Inl e" "t = s" using r by (simp_all add: launch_def gets_def bind_def raise_def)
    then show ?thesis using o1 by simp
  next
    case ok: (Inr u)
    obtain x v where g: "on_ext (cl_generate (x_client env) body) s = (x, v)" by fastforce
    have sv: "same_money s v" using same_money_ext(1) [of s "cl_generate (x_client env) body"] g by simp
    note svf = same_money_facts [OF sv]
    show ?thesis
    proof (cases x)
      case (Inl e)
      then have "r = Inl e" "t = v" using r ok g by (simp_all add: launch_def gets_def bind_def)
      then show ?thesis using svf(2) [OF o1] svf(3) by simp
    next
      case (Inr resp)
      have "gives ok_cost (cl_generate (x_client env) body)" using pc by (simp add: priced_client_def)
      then have "gives ok_cost (on_ext (cl_generate (x_client env) body))" by (rule gives_on_ext)
      then have okc: "ok_cost resp" using g Inr by (auto simp: gives_def)
      obtain y w where rc: "record_charge env p ps resp v = (y, w)" by fastforce
      have t: "t = w" "r = (case y of Inl e \<Rightarrow> Inl e | Inr _ \<Rightarrow> Inr resp)"
        using r ok g Inr rc by (auto simp: launch_def gets_def bind_def andthen_def ret_def split: sum.splits)
      define ch where "ch = as_float (jget resp ''cost'') ?e"
      have ch: "0 \<le> ch" "on_grid 4 ch"
        using okc q by (auto simp: ch_def as_float_def ok_cost_def quote_ok_def split: option.splits)
      have cv: "costs v = costs s" "e_guard v = e_guard s" using sv by (simp_all add: same_money_def)
      have fv: "cost_at (costs v) ?sid \<noteq> None" "guard_wf (e_guard v)"
        using a cv gc by (simp_all add: guard_covers_def)
      note m = record_charge_money [OF fv(1) rc fv(2), folded ch_def, unfolded cv]
      have cs: "on_grid 4 (committed s)" "0 \<le> committed s" using gc by (simp_all add: guard_covers_def guard_wf_def committed_def)
      have com: "committed w = committed s + ch"
        using m(2) cv py_round_grid [OF on_grid_add [OF cs(1) ch(2)]] by (simp add: committed_def)
      have aok: "0 \<le> a" using gc a(1) costs_ok_at by (auto simp: guard_covers_def)
      have tot: "total (costs w) = total (costs s) - a + ch" unfolding m(1) by (rule total_set_cost [OF a(1)])
      have ex: "excess q (costs w) = excess q (costs s) - max 0 (a - q ?sid) + max 0 (ch - q ?sid)"
        unfolding m(1) by (rule excess_set_cost [OF a(1)])
      have gw: "guard_covers q S w"
        unfolding guard_covers_def
      proof (intro conjI)
        show "guard_wf (e_guard w)" using com cs ch on_grid_add [OF cs(1) ch(2)] by (simp add: guard_wf_def committed_def)
        show "costs_ok (costs w)" unfolding m(1) using gc ch by (intro costs_ok_set_cost) (simp_all add: guard_covers_def)
        show "total (costs w) \<le> committed w" using tot com aok gc by (simp add: guard_covers_def)
        show "spendable_rub (e_guard w) = S" using m(3) gc by (simp add: guard_covers_def)
      qed
      have "check (e_guard s) ?e (JStr ?sid) = Inr ()" using ok by (simp add: check_all_Inr)
      then have "g_committed_rub (e_guard s) + ?e \<le> spendable_rub (e_guard s)"
        by (rule check_room) (use gc q in \<open>simp_all add: guard_covers_def quote_ok_def\<close>)
      then have "committed s + ?e \<le> S" using gc by (simp add: guard_covers_def committed_def)
      moreover have "0 \<le> excess q (costs w) - max 0 (ch - q ?sid)"
        using excess_ge [of "costs w" ?sid ch q] m(1) a(1) by (simp add: cost_at_set_cost)
      moreover have "q ?sid = ?e" using q by (simp add: quote_ok_def)
      ultimately have "committed w - ch + q ?sid \<le> S + (excess q (costs w) - max 0 (ch - q ?sid))"
        using com by linarith
      moreover have "cost_at (costs w) ?sid = Some ch" using m(1) a(1) by (simp add: cost_at_set_cost)
      ultimately have "in_flight q S ?sid w" unfolding in_flight_def using gw by blast
      moreover have "others_kept (p_plan_id p) ?sid s w" using m(4) svf(3) others_kept_trans by blast
      ultimately show ?thesis using t okc in_flight_outside by (auto split: sum.splits)
    qed
  qed
  then show "others_kept (p_plan_id p) ?sid s t"
    "case r of Inr resp \<Rightarrow> in_flight q S ?sid t \<and> ok_cost resp | Inl e \<Rightarrow> outside q S t" by auto
qed

section \<open>A step, and the run\<close>

definition before_step :: "(string \<Rightarrow> money) \<Rightarrow> plan \<Rightarrow> plan_step \<Rightarrow> 'x est \<Rightarrow> bool" where
  "before_step q p ps s \<longleftrightarrow> (\<forall>a. cost_at (costs s) (ps_step_id ps) = Some a \<longrightarrow>
     (if \<exists>r. step_at (e_db s) (p_plan_id p) (ps_step_id ps) = Some r \<and> sx_generation_id r \<noteq> None
      then a = q (ps_step_id ps) else a \<le> q (ps_step_id ps) \<and> quote_ok q ps))"

lemma before_step_kept:
  assumes "others_kept (p_plan_id p) sid s t" and "ps_step_id ps \<noteq> sid"
  shows "before_step q p ps t = before_step q p ps s"
  using assms by (simp add: before_step_def others_kept_def)

lemma same_money_before: "same_money s t \<Longrightarrow> before_step q p ps t = before_step q p ps s"
  using step_at_steps [of "e_db t" "e_db s"] by (simp add: same_money_def before_step_def)

lemma others_kept_appended:
  assumes "step_at (e_db s) pid sid = None" and "sx_plan_id row = pid" and "sx_step_id row = sid"
  shows "others_kept pid sid s (s\<lparr>e_db := (e_db s)\<lparr>t_steps := t_steps (e_db s) @ [row]\<rparr>\<rparr>)"
  using assms by (auto simp: others_kept_def costs_def step_at_def find_append split: option.splits)

lemma launch_or_resume_money:
  assumes pc: "priced_client (x_client env)" and b: "before_step q p ps s" and o1: "outside q S s"
    and found: "cost_at (costs s) (ps_step_id ps) \<noteq> None"
    and r: "launch_or_resume env p ps s = (r, t)"
  shows "others_kept (p_plan_id p) (ps_step_id ps) s t \<and>
     (case r of Inr resp \<Rightarrow> in_flight q S (ps_step_id ps) t \<and> (\<forall>x. resp = Some x \<longrightarrow> ok_cost x) | Inl e \<Rightarrow> outside q S t)"
proof -
  let ?sid = "ps_step_id ps" and ?pid = "p_plan_id p" and ?body = "generate_body ps (x_callback_url env)"
  obtain a where a: "cost_at (costs s) ?sid = Some a" using found by auto
  obtain t1 x1 where c1: "utcnow env s = (Inr t1, s\<lparr>e_ext := x1\<rparr>)" using utcnow_eq by blast
  let ?s1 = "s\<lparr>e_ext := x1\<rparr>"
  obtain y d where c: "claim_step (x_crypto env) ?pid ?sid (j_job_id (e_job s)) (ps_idempotency_key ps) ?body t1 (e_db s) = (y, d)"
    by fastforce
  let ?s2 = "?s1\<lparr>e_db := d\<rparr>"
  have eq: "launch_or_resume env p ps s =
     (case y of Inl e \<Rightarrow> (Inl e, ?s2)
      | Inr row \<Rightarrow> (case sx_generation_id row of
          Some g \<Rightarrow>
            andthen (modify_step ?sid (\<lambda>s. s\<lparr>js_generation_id := Some g\<rparr>))
            (andthen (add_warning (Pref ?sid (Msg ''already_launched'' [JInt g]))) (ret None)) ?s2
        | None \<Rightarrow> bind (launch env p ps ?body) (\<lambda>r. ret (Some r)) ?s2))"
    using c1 c by (simp add: launch_or_resume_def gets_def bind_def on_db_def Let_def split: option.splits sum.splits)
  have cs: "costs ?s2 = costs s" "e_guard ?s2 = e_guard s" by (simp_all add: costs_def)
  then have o2: "outside q S ?s2" using o1 by (simp add: outside_def guard_covers_def committed_def)
  have k2: "others_kept ?pid ?sid s ?s2"
  proof (cases y)
    case (Inl e)
    then show ?thesis using claim_step_Inl [OF c [unfolded Inl]] by (simp add: others_kept_def costs_def)
  next
    case (Inr row)
    from claim_step_Inr(2) [OF c [unfolded Inr]] show ?thesis
      using others_kept_appended [of s ?pid ?sid row]
      by (auto simp: others_kept_def costs_def new_step_row_def)
  qed
  show ?thesis
  proof (cases y)
    case (Inl e)
    then show ?thesis using r eq k2 o2 by auto
  next
    case (Inr row)
    note cl = claim_step_Inr [OF c [unfolded Inr]]
    show ?thesis
    proof (cases "sx_generation_id row")
      case (Some g)
      then have "step_at (e_db s) ?pid ?sid = Some row" using cl(2) by (auto simp: new_step_row_def)
      then have aq: "a = q ?sid" using b a Some by (auto simp: before_step_def)
      have fl: "in_flight q S ?sid ?s2"
        using o2 a aq by (auto simp: in_flight_def outside_def cs)
      have "keeps (flight_step q S ?pid ?sid) (andthen (modify_step ?sid (\<lambda>s. s\<lparr>js_generation_id := Some g\<rparr>))
            (andthen (add_warning (Pref ?sid (Msg ''already_launched'' [JInt g]))) (ret None)))"
        by (intro flight.parts flight.quiet_step) simp_all
      then have "flight_step q S ?pid ?sid ?s2 t" using r eq Inr Some by (auto intro: keepsD)
      moreover have "r = Inr None" using r eq Inr Some
        by (auto simp: modify_step_simps add_warning_def modify_job_def modify_def andthen_def bind_def ret_def)
      ultimately show ?thesis using fl k2 others_kept_trans unfolding flight_step_def by auto
    next
      case None
      have nl: "\<not> (\<exists>r. step_at (e_db s) ?pid ?sid = Some r \<and> sx_generation_id r \<noteq> None)"
        using cl(2) None by auto
      then have aq: "a \<le> q ?sid" "quote_ok q ps" using b a by (auto simp: before_step_def)
      obtain z w where l: "launch env p ps ?body ?s2 = (z, w)" by fastforce
      have t: "t = w" "r = (case z of Inl e \<Rightarrow> Inl e | Inr x \<Rightarrow> Inr (Some x))"
        using r eq Inr None l by (auto simp: bind_def ret_def split: sum.splits)
      have a2: "cost_at (costs ?s2) ?sid = Some a" using a cs by simp
      note lm = launch_money [OF pc aq(2) o2 a2 aq(1) l]
      show ?thesis using lm t others_kept_trans [OF k2] by (auto split: sum.splits)
    qed
  qed
qed

lemma local_step_money:
  assumes b: "before_step q p ps s" and o1: "outside q S s" and a: "cost_at (costs s) (ps_step_id ps) = Some a"
    and q0: "0 \<le> q (ps_step_id ps)"
    and t: "costs t = set_cost (ps_step_id ps) 0 (costs s)" "e_guard t = e_guard s"
  shows "outside q S t"
proof -
  let ?sid = "ps_step_id ps"
  have aok: "0 \<le> a" using o1 a costs_ok_at by (auto simp: outside_def guard_covers_def)
  have aq: "a \<le> q ?sid" using b a by (auto simp: before_step_def split: if_splits)
  have "excess q (costs t) = excess q (costs s)"
    unfolding t(1) using excess_set_cost [OF a, of q 0] aq q0 by simp
  moreover have "total (costs t) = total (costs s) - a" unfolding t(1) using total_set_cost [OF a, of 0] by simp
  moreover have "costs_ok (costs t)" unfolding t(1) using o1 by (intro costs_ok_set_cost) (simp_all add: outside_def guard_covers_def)
  ultimately show ?thesis using o1 aok t(2) by (simp add: outside_def guard_covers_def committed_def)
qed

lemma run_step_money:
  assumes pc: "priced_client (x_client env)" and b: "before_step q p ps s" and o1: "outside q S s"
    and found: "cost_at (costs s) (ps_step_id ps) \<noteq> None"
  shows "outside q S (snd (run_step env p ps s)) \<and> others_kept (p_plan_id p) (ps_step_id ps) s (snd (run_step env p ps s))"
proof -
  let ?sid = "ps_step_id ps" and ?pid = "p_plan_id p"
  obtain a where a: "cost_at (costs s) ?sid = Some a" using found by auto
  obtain t0 x0 where c0: "utcnow env s = (Inr t0, s\<lparr>e_ext := x0\<rparr>)" using utcnow_eq by blast
  let ?f = "\<lambda>s. s\<lparr>js_status := STEP_RUNNING, js_started_at := Some t0, js_attempts := js_attempts s + 1\<rparr>"
  define s1 where "s1 = snd (modify_step ?sid ?f (s\<lparr>e_ext := x0\<rparr>))"
  have m1: "modify_step ?sid ?f (s\<lparr>e_ext := x0\<rparr>) = (Inr (), s1)" by (simp add: modify_step_simps s1_def)
  have "same_money (s\<lparr>e_ext := x0\<rparr>) s1" unfolding s1_def by (rule same_money_step) simp_all
  then have sm: "same_money s s1" by (simp add: same_money_def costs_def)
  have b1: "before_step q p ps s1" using b sm same_money_before by blast
  have o2: "outside q S s1" "others_kept ?pid ?sid s s1" using same_money_facts [OF sm] o1 by auto
  have a1: "cost_at (costs s1) ?sid = Some a" using sm a by (simp add: same_money_def)
  have aok: "0 \<le> a" using o1 a costs_ok_at by (auto simp: outside_def guard_covers_def)
  have q0: "0 \<le> q ?sid" using b a aok by (auto simp: before_step_def split: if_splits)
  show ?thesis
  proof (cases "ps_kind ps = LOCAL")
    case True
    obtain t1 x1 where c1: "utcnow env s1 = (Inr t1, s1\<lparr>e_ext := x1\<rparr>)" using utcnow_eq by blast
    let ?g = "\<lambda>s. s\<lparr>js_local_output := ps_local_output ps, js_status := STEP_SUCCEEDED, js_actual_cost_rub := 0, js_finished_at := Some t1\<rparr>"
    define s2 where "s2 = snd (modify_step ?sid ?g (s1\<lparr>e_ext := x1\<rparr>))"
    have m2: "modify_step ?sid ?g (s1\<lparr>e_ext := x1\<rparr>) = (Inr (), s2)" by (simp add: modify_step_simps s2_def)
    obtain t2 x2 where c2: "utcnow env s2 = (Inr t2, s2\<lparr>e_ext := x2\<rparr>)" using utcnow_eq by blast
    let ?t = "snd (on_db (update_step ?pid ?sid STEP_SUCCEEDED None (Some 0) t2) (s2\<lparr>e_ext := x2\<rparr>))"
    have t: "snd (run_step env p ps s) = ?t"
      using c0 m1 c1 m2 c2 True by (simp add: run_step_def bind_def andthen_def Let_def)
    have cs: "costs s2 = set_cost ?sid 0 (costs s1)" "e_guard s2 = e_guard s1" "e_db s2 = e_db s1"
      using a1 by (auto simp: s2_def modify_step_simps costs_def cost_at_costs_of costs_of_upd_first)
    have tc: "costs ?t = set_cost ?sid 0 (costs s1)" "e_guard ?t = e_guard s1"
      using cs by (simp_all add: on_db_update_step costs_def)
    have "outside q S ?t" by (rule local_step_money [OF b1 o2(1) a1 q0 tc])
    moreover have "others_kept ?pid ?sid s1 ?t"
      using tc(1) a1 cs(3) by (auto simp: others_kept_def cost_at_set_cost on_db_update_step step_at_update)
    ultimately show ?thesis unfolding t using o2(2) others_kept_trans by blast
  next
    case False
    obtain y w where l: "launch_or_resume env p ps s1 = (y, w)" by fastforce
    have t: "snd (run_step env p ps s) = (case y of Inl e \<Rightarrow> w | Inr resp \<Rightarrow> snd (await_step env p ?sid resp w))"
      using c0 m1 l False by (simp add: run_step_def bind_def andthen_def Let_def split: sum.splits)
    have found1: "cost_at (costs s1) ?sid \<noteq> None" using a1 by simp
    note lm = launch_or_resume_money [OF pc b1 o2(1) found1 l]
    show ?thesis
    proof (cases y)
      case (Inl e)
      then show ?thesis unfolding t using lm o2(2) others_kept_trans by auto
    next
      case (Inr resp)
      have "keeps (flight_step q S ?pid ?sid) (await_step env p ?sid resp)"
        using lm Inr by (intro flight.await_step_keeps pc) simp
      then have "flight_step q S ?pid ?sid w (snd (await_step env p ?sid resp w))" by (simp add: keeps_def)
      then show ?thesis unfolding t using lm Inr o2(2) others_kept_trans in_flight_outside
        by (simp add: flight_step_def) blast
    qed
  qed
qed

lemma attempt_step_money:
  assumes pc: "priced_client (x_client env)" and b: "before_step q p ps s" and o1: "outside q S s"
    and found: "cost_at (costs s) (ps_step_id ps) \<noteq> None"
  shows "outside q S (snd (attempt_step env p ps s)) \<and>
    others_kept (p_plan_id p) (ps_step_id ps) s (snd (attempt_step env p ps s))"
proof -
  let ?R = "between_step q S (p_plan_id p) (ps_step_id ps) :: 'a est \<Rightarrow> 'a est \<Rightarrow> bool"
  obtain r t where m: "run_step env p ps s = (r, t)" by fastforce
  have ot: "outside q S t" "others_kept (p_plan_id p) (ps_step_id ps) s t"
    using run_step_money [OF pc b o1 found] m by simp_all
  obtain r1 t1 where h: "catch (andthen (run_step env p ps) (ret False)) (step_failed env p ps) s = (r1, t1)" by fastforce
  have "?R t t1"
  proof (cases r)
    case (Inl e)
    then have h1: "step_failed env p ps e t = (r1, t1)" using h m by simp
    have "keeps ?R (step_failed env p ps e)" by (rule between.step_failed_keeps) simp
    then show ?thesis using h1 by (rule keepsD)
  next
    case (Inr u)
    then have "t1 = t" using h m by (auto simp: catch_def andthen_def bind_def ret_def)
    then show ?thesis by (simp add: between_step_def)
  qed
  moreover obtain r2 t2 where f: "andthen refresh_cost save_job t1 = (r2, t2)" by fastforce
  have "keeps ?R (andthen refresh_cost save_job)" by (intro between.parts)
  then have "?R t1 t2" using f by (rule keepsD)
  moreover have "snd (attempt_step env p ps s) = t2"
    using h f by (auto simp: attempt_step_def finally_do_def split: sum.splits)
  ultimately show ?thesis using ot others_kept_trans unfolding between_step_def by blast
qed

lemma same_money_then:
  "same_money s t \<Longrightarrow> outside q S s \<Longrightarrow> list_all (\<lambda>ps. before_step q p ps s) pss \<Longrightarrow>
     outside q S t \<and> list_all (\<lambda>ps. before_step q p ps t) pss"
  by (simp add: same_money_facts(2) same_money_before [of s t])

lemma run_steps_money:
  assumes pc: "priced_client (x_client env)"
  shows "distinct (map ps_step_id pss) \<Longrightarrow> list_all (\<lambda>ps. before_step q p ps s) pss \<Longrightarrow> outside q S s \<Longrightarrow>
     outside q S (snd (run_steps env p pss ab s))"
proof (induction pss arbitrary: ab s)
  case (Cons ps pss)
  have tl: "distinct (map ps_step_id pss)" "list_all (\<lambda>ps. before_step q p ps s) pss" using Cons.prems by simp_all
  let ?st = "modify_step (ps_step_id ps) (\<lambda>s. s\<lparr>js_status := STEP_SKIPPED, js_error := Some (Msg ''skipped'' [])\<rparr>)"
  show ?case
  proof (cases "find_step (e_job s) (ps_step_id ps)")
    case None
    then show ?thesis using Cons.IH [OF tl Cons.prems(3)] by (simp add: gets_def bind_def)
  next
    case (Some js)
    consider (skip) "ab" | (pass) "\<not> ab" "js_status js = STEP_SUCCEEDED" | (go) "\<not> ab" "js_status js \<noteq> STEP_SUCCEEDED" by blast
    then show ?thesis
    proof cases
      case skip
      obtain u where u: "?st s = (Inr (), u)" by (simp add: modify_step_simps)
      have "same_money s (snd (?st s))" by (rule same_money_step) simp_all
      then have "same_money s u" using u by simp
      then have "outside q S u \<and> list_all (\<lambda>ps. before_step q p ps u) pss"
        using Cons.prems(3) tl(2) by (rule same_money_then)
      then show ?thesis using Cons.IH [OF tl(1), of u] Some skip u by (simp add: gets_def bind_def andthen_def)
    next
      case pass
      then show ?thesis using Cons.IH [OF tl Cons.prems(3)] Some by (simp add: gets_def bind_def)
    next
      case go
      have found: "cost_at (costs s) (ps_step_id ps) \<noteq> None"
        using Some by (simp add: costs_def cost_at_costs_of find_step_def)
      have b: "before_step q p ps s" using Cons.prems(2) by simp
      obtain r t where a: "attempt_step env p ps s = (r, t)" by fastforce
      have t: "outside q S t" "others_kept (p_plan_id p) (ps_step_id ps) s t"
        using attempt_step_money [OF pc b Cons.prems(3) found] a by simp_all
      have "list_all (\<lambda>ps. before_step q p ps t) pss"
        using tl(2) Cons.prems(1) before_step_kept [OF t(2)] by (auto simp: list_all_iff image_iff)
      then show ?thesis using Cons.IH [OF tl(1) _ t(1)] t(1) Some go a
        by (cases r) (simp_all add: gets_def bind_def)
    qed
  qed
qed simp

lemma same_money_finish: "same_money s (snd (finish_run env ab s))"
  by (simp add: finish_run_def bind_def andthen_def utcnow_eq modify_job_def modify_def save_job_def on_db_def
      jobs_save_def same_money_def costs_def Let_def case_prod_beta split: sum.splits)

lemma run_money:
  assumes pc: "priced_client (x_client env)" and d: "distinct (map ps_step_id (p_steps p))"
    and b: "list_all (\<lambda>ps. before_step q p ps s) (p_steps p)" and o1: "outside q S s"
  shows "outside q S (snd (run env p s))"
proof -
  let ?pre = "bind (utcnow env) (\<lambda>t. andthen (modify_job (\<lambda>j. j\<lparr>j_status := JOB_RUNNING, j_started_at := Some t\<rparr>)) save_job)"
  obtain r s1 where pre: "?pre s = (r, s1)" by fastforce
  have "same_money s (snd (?pre s))"
    by (simp add: bind_def andthen_def utcnow_eq modify_job_def modify_def save_job_def on_db_def
      jobs_save_def same_money_def costs_def Let_def case_prod_beta split: sum.splits)
  then have sm: "same_money s s1" using pre by simp
  have s1: "outside q S s1" "list_all (\<lambda>ps. before_step q p ps s1) (p_steps p)"
    using same_money_then [OF sm o1 b] by simp_all
  have eq: "run env p s = (case r of Inl e \<Rightarrow> (Inl e, s1)
     | Inr _ \<Rightarrow> bind (run_steps env p (p_steps p) False) (\<lambda>aborted. andthen (finish_run env aborted) (gets e_job)) s1)"
    using pre by (auto simp: run_def bind_def andthen_def split: prod.splits sum.splits)
  show ?thesis
  proof (cases r)
    case (Inl e)
    then show ?thesis using eq s1 by simp
  next
    case (Inr u)
    obtain q1 t where m: "run_steps env p (p_steps p) False s1 = (q1, t)" by fastforce
    have t: "outside q S t" using run_steps_money [OF pc d s1(2,1), of False] m by simp
    show ?thesis
    proof (cases q1)
      case (Inl e)
      then show ?thesis using eq Inr m t by simp
    next
      case ab: (Inr ab)
      have "snd (run env p s) = snd (finish_run env ab t)"
        using eq Inr m ab by (simp add: andthen_def bind_def gets_def split: prod.splits sum.splits)
      then show ?thesis using same_money_facts(2) [OF same_money_finish t] by metis
    qed
  qed
qed

definition quote_of :: "plan \<Rightarrow> string \<Rightarrow> money" where
  "quote_of p sid = (case find (\<lambda>ps. ps_step_id ps = sid) (p_steps p) of Some ps \<Rightarrow> ps_estimated_cost_rub ps | None \<Rightarrow> 0)"

lemma quote_of_step: "distinct (map ps_step_id (p_steps p)) \<Longrightarrow> ps \<in> set (p_steps p) \<Longrightarrow>
    quote_of p (ps_step_id ps) = ps_estimated_cost_rub ps"
  using find_distinct [of ps_step_id "p_steps p" ps] by (simp add: quote_of_def)

text \<open>A job that has not spent anything yet, with a fresh guard.\<close>

definition fresh_run :: "plan \<Rightarrow> 'x est \<Rightarrow> bool" where
  "fresh_run p s \<longleftrightarrow> distinct (map ps_step_id (p_steps p)) \<and>
     list_all (\<lambda>ps. 0 \<le> ps_estimated_cost_rub ps \<and> on_grid 4 (ps_estimated_cost_rub ps) \<and>
       (case step_at (e_db s) (p_plan_id p) (ps_step_id ps) of None \<Rightarrow> True | Some r \<Rightarrow> sx_generation_id r = None)) (p_steps p) \<and>
     list_all (\<lambda>t. js_actual_cost_rub t = 0) (j_steps (e_job s)) \<and>
     g_committed_rub (e_guard s) = 0 \<and> 0 \<le> spendable_rub (e_guard s)"

lemma total_costs: "total (costs s) = sum_list (map js_actual_cost_rub (j_steps (e_job s)))"
  by (simp add: total_def costs_def costs_of_def comp_def)

lemma fresh_outside:
  assumes "fresh_run p s"
  shows "outside (quote_of p) (spendable_rub (e_guard s)) s"
    and "list_all (\<lambda>ps. before_step (quote_of p) p ps s) (p_steps p)"
proof -
  have z: "\<forall>t \<in> set (j_steps (e_job s)). js_actual_cost_rub t = 0" using assms by (simp add: fresh_run_def list_all_iff)
  have "total (costs s) = 0" unfolding total_costs using z by (simp add: sum_list_eq_0_iff cong: map_cong)
  moreover have "costs_ok (costs s)" using z by (auto simp: costs_ok_def costs_def costs_of_def list_all_iff)
  ultimately show "outside (quote_of p) (spendable_rub (e_guard s)) s"
    using assms excess_nonneg [of "quote_of p" "costs s"]
    by (simp add: outside_def guard_covers_def committed_def guard_wf_def fresh_run_def)
  have zero: "a = 0" if "cost_at (costs s) sid = Some a" for sid a
    using that z by (auto simp: costs_def cost_at_costs_of dest: find_in)
  show "list_all (\<lambda>ps. before_step (quote_of p) p ps s) (p_steps p)"
    unfolding list_all_iff
  proof
    fix ps assume ps: "ps \<in> set (p_steps p)"
    have "quote_of p (ps_step_id ps) = ps_estimated_cost_rub ps"
      using assms ps by (intro quote_of_step) (simp_all add: fresh_run_def)
    moreover have "0 \<le> ps_estimated_cost_rub ps" "on_grid 4 (ps_estimated_cost_rub ps)"
      "\<not> (\<exists>r. step_at (e_db s) (p_plan_id p) (ps_step_id ps) = Some r \<and> sx_generation_id r \<noteq> None)"
      using assms ps by (auto simp: fresh_run_def list_all_iff split: option.splits)
    ultimately show "before_step (quote_of p) p ps s"
      using zero by (auto simp: before_step_def quote_ok_def)
  qed
qed

lemma run_money_total:
  assumes "priced_client (x_client env)" and "fresh_run p s" and "run env p s = (r, t)"
  shows "sum_list (map js_actual_cost_rub (j_steps (e_job t))) \<le> spendable_rub (e_guard s) +
    sum_list (map (\<lambda>js. max 0 (js_actual_cost_rub js - quote_of p (js_step_id js))) (j_steps (e_job t)))"
proof -
  have d: "distinct (map ps_step_id (p_steps p))" using assms(2) by (simp add: fresh_run_def)
  have "outside (quote_of p) (spendable_rub (e_guard s)) t"
    using run_money [OF assms(1) d fresh_outside(2,1) [OF assms(2)]] assms(3) by simp
  then have "total (costs t) \<le> spendable_rub (e_guard s) + excess (quote_of p) (costs t)"
    by (simp add: outside_def guard_covers_def)
  then show ?thesis by (simp add: total_costs [symmetric] excess_def costs_def costs_of_def comp_def)
qed

section \<open>The property\<close>

text \<open>A run that starts with nothing launched and a fresh guard never spends more than the
  spendable amount (the budget minus the safety margin), except for what the platform itself
  charged above the confirmed price of a step, ruble for ruble. It holds however the run ends:
  normally, stopped by the guard, or left by an exception.\<close>

theorem run_spending:
  assumes "priced_client (x_client env)" and "fresh_run p s" and "run env p s = (r, t)"
  shows "sum_list (map js_actual_cost_rub (j_steps (e_job t))) \<le> spendable_rub (e_guard s) +
    sum_list (map (\<lambda>js. max 0 (js_actual_cost_rub js - quote_of p (js_step_id js))) (j_steps (e_job t)))"
  using assms by (rule run_money_total)

lemma demo_client_priced: "0 \<le> c \<Longrightarrow> on_grid 4 c \<Longrightarrow> priced_client (demo_client c)"
  by (simp add: priced_client_def demo_client_def gives_def ok_cost_def ret_def)

lemma demo_fresh: "fresh_run demo_plan demo_state"
  by (simp add: fresh_run_def demo_state_def demo_plan_def demo_step_def demo_job_def demo_job_step_def
      demo_db_eq empty_db_def step_at_def demo_guard_def new_guard_def spendable_rub_def margin_rub_def
      on_grid_of_int [of 4 10, simplified] on_grid_of_int [of 4 30, simplified] py_round_nonneg py_round_def round_half_even_def)

lemma run_spending_witness:
  "priced_client (x_client (demo_env 12)) \<and> fresh_run demo_plan demo_state \<and>
   sum_list (map js_actual_cost_rub (j_steps (e_job (snd (run (demo_env 12) demo_plan demo_state))))) \<le>
     spendable_rub demo_guard + sum_list (map (\<lambda>js. max 0 (js_actual_cost_rub js - quote_of demo_plan (js_step_id js)))
       (j_steps (e_job (snd (run (demo_env 12) demo_plan demo_state)))))"
proof -
  have c: "priced_client (x_client (demo_env 12))"
    using demo_client_priced [of 12] on_grid_of_int [of 4 12] by (simp add: demo_env_def)
  show ?thesis
    using c demo_fresh run_spending [OF c demo_fresh prod.collapse [symmetric]] by (simp add: demo_state_def)
qed

end
