(* ===== verification/Shop.thy ===== *)
theory Shop
  imports Demo Service_Facts
begin

text \<open>
  A small shop for the witnesses of the planning properties: a catalog of two image models at fixed
  prices, a policy that prefers the dearer one, and a platform that quotes ten rubles for any step.
  The lemmas evaluate \<open>create_plan\<close> on it, with the prompts left symbolic. Nothing here models code
  of the repository.
\<close>

definition shop_entry :: "int \<Rightarrow> obj" where
  "shop_entry price = [(''price'', JInt price), (''required'', JArr [JStr ''prompt''])]"

definition shop_catalog :: obj where
  "shop_catalog = [(''models'', JObj [(''image'', JObj [(''fine'', JObj (shop_entry 60)), (''quick'', JObj (shop_entry 10))])])]"

definition shop_client :: "nat client" where
  "shop_client = (demo_client 10)\<lparr>cl_capabilities := ret shop_catalog\<rparr>"

definition shop_brief :: brief where
  "shop_brief = demo_brief\<lparr>b_formats := [IMAGE]\<rparr>"

definition shop :: "nat service" where
  "shop = \<lparr>sv_client = shop_client, sv_settings = default_settings, sv_policy = demo_policy, sv_crypto = demo_crypto,
     sv_has_media = False, sv_has_queue = True\<rparr>"

definition shop_world :: "nat world" where
  "shop_world = \<lparr>w_db = empty_db, w_ext = 0, w_queue = []\<rparr>"


lemma shop_brief_simps [simp]: "b_formats shop_brief = [IMAGE]" "b_aspect_ratio shop_brief = None" "b_language shop_brief = ''ru''"
  "b_reference_image_urls shop_brief = []" "b_landing_url shop_brief = None" "b_strategy shop_brief = BALANCED" "b_budget_rub shop_brief = 100"
  by (simp_all add: shop_brief_def demo_brief_def)

lemma demo_policy_simps [simp]: "po_exclude demo_policy = []" "po_suppliable_params demo_policy = [''prompt'']" "po_defaults demo_policy = []"
  "po_per_1000_chars_types demo_policy = [''voice'']"
  by (simp_all add: demo_policy_def)

lemmas limit_defs = known_params_def over_limit_def effective_prompt_max_def
    finish_params_def prompt_max_def long_voiceover_prompt_max_def int_limit_def supports_long_voiceover_def or_zero_def


definition shop_model :: "string \<Rightarrow> int \<Rightarrow> model_spec" where
  "shop_model k n = parse_model k ''image'' (shop_entry n)"

lemmas parse_defs = parse_model_def str_seq_def or_empty_str_def sub_obj_def j_or_def parse_tier_prices_def shop_entry_def

lemma shop_model_simps [simp]:
  "m_key (shop_model k n) = k" "m_type (shop_model k n) = ''image''" "m_required (shop_model k n) = [''prompt'']"
  "missing_required (shop_model k n) (available_params demo_policy shop_brief) = []"
  "is_excluded demo_policy k = False"
  by (simp_all add: shop_model_def parse_defs missing_required_def available_params_def is_excluded_def)

lemma shop_params:
  "build_params demo_policy shop_brief IMAGE (shop_model k n) = Inr ([(''prompt'', JStr (image_prompt shop_brief))], [], None)"
  by (simp add: shop_model_def parse_defs build_params_def reserved_params_def limit_defs Let_def)

lemma shop_bounds:
  "price_bounds_of (shop_model k n) ps ts = \<lparr>pb_amounts = Some (of_int n, of_int n), pb_basis = Msg ''flat_price'' [JFloat (of_int n)]\<rparr>"
  if "''image'' \<notin> set ts"
  using that by (simp add: price_bounds_of_def nonzero_def shop_model_def parse_defs)

definition shop_candidate :: "string \<Rightarrow> int \<Rightarrow> nat \<Rightarrow> candidate" where
  "shop_candidate k n tier = \<lparr>c_spec = shop_model k n, c_tier = tier,
     c_bounds = \<lparr>pb_amounts = Some (of_int n, of_int n), pb_basis = Msg ''flat_price'' [JFloat (of_int n)]\<rparr>,
     c_params = [(''prompt'', JStr (image_prompt shop_brief))], c_param_warnings = [], c_price_unknown = False\<rparr>"

lemma shop_candidate_simps [simp]:
  "c_key (shop_candidate k n t) = k" "c_cost (shop_candidate k n t) = of_int n" "c_tier (shop_candidate k n t) = t"
  by (simp_all add: shop_candidate_def c_key_def c_cost_def pb_upper_def)

lemma shop_analyse_model:
  "analyse_model demo_policy shop_brief IMAGE [] (shop_model k n) (cs, ds, rs) =
     Inr (cs @ [shop_candidate k n (tier_of demo_policy ''image'' k)], ds, rs)"
  by (simp add: shop_params shop_bounds shop_candidate_def pb_known_def Let_def)

lemma shop_tiers: "tier_of demo_policy ''image'' ''fine'' = 0" "tier_of demo_policy ''image'' ''quick'' = 1"
  by (simp_all add: tier_of_def demo_policy_def fnmatch_plain plain_pattern_def utf8_cont_def)

definition shop_caps :: capabilities where
  "shop_caps = parse_capabilities shop_catalog"

lemma shop_models: "models_for shop_caps ''image'' = [shop_model ''fine'' 60, shop_model ''quick'' 10]"
  "has_models_for shop_caps ''image''"
  by (simp_all add: models_for_def has_models_for_def shop_caps_def parse_capabilities_def shop_catalog_def entries_of_def Let_def
     parse_entries_def List.map_filter_def shop_model_def)

definition shop_analysis :: format_analysis where
  "shop_analysis = \<lparr>fa_fmt = IMAGE, fa_type = ''image'', fa_candidates = [shop_candidate ''fine'' 60 0, shop_candidate ''quick'' 10 1],
     fa_rejected = []\<rparr>"

lemma shop_analyse: "analyse shop_caps demo_policy shop_brief IMAGE [] = Inr shop_analysis"
  by (simp add: analyse_def shop_models shop_analyse_model shop_tiers preference_key_def shop_analysis_def del: analyse_model.simps)

lemma shop_upgrade: "upgrade_rounds MAX_UPGRADE_ROUNDS [(IMAGE, shop_analysis)] 95 [IMAGE] [(IMAGE, shop_candidate ''quick'' 10 1)] =
    [(IMAGE, shop_candidate ''fine'' 60 0)]"
proof -
  have m: "MAX_UPGRADE_ROUNDS = Suc (Suc 18)" by (simp add: MAX_UPGRADE_ROUNDS_def)
  show ?thesis unfolding m upgrade_rounds.simps
    by (simp add: shop_analysis_def selection_total_def upgrade_round_def upgrade_format_def)
qed

lemma shop_fit: "fit_to_budget demo_policy [(IMAGE, shop_analysis)] shop_brief 95 =
    Inr ([(IMAGE, shop_candidate ''fine'' 60 0)], [], [])"
proof -
  have "baseline [(IMAGE, shop_analysis)] [IMAGE] [] = Inr [(IMAGE, shop_candidate ''quick'' 10 1)]"
    by (simp add: shop_analysis_def)
  then show ?thesis
    using shop_upgrade by (simp add: fit_to_budget_def drop_loop.simps selection_total_def)
qed

lemma shop_build: "build h shop_caps demo_policy shop_brief pid 95 [] =
   Inr \<lparr>d_steps = [to_step h IMAGE (shop_candidate ''fine'' 60 0) shop_analysis pid], d_warnings = [], d_dropped_formats = []\<rparr>"
proof -
  have "fa_candidates shop_analysis \<noteq> []" by (simp add: shop_analysis_def)
  then show ?thesis
    by (simp add: build_def shop_models shop_analyse shop_fit build_steps_def List.map_filter_def)
qed

lemma shop_spendable: "spendable_rub (new_guard 100 (1 / 20) acc) = 95"
  by (simp add: spendable_new_guard)

lemma shop_calls [simp]:
  "fresh_uuid shop w = (Inr (''id'' @ show_nat (w_ext w)), w\<lparr>w_ext := w_ext w + 1\<rparr>)"
  "in_ext (cl_capabilities (sv_client shop)) w = (Inr shop_catalog, w)"
  "in_ext (cl_me (sv_client shop)) w = (Inr [(''balance'', JFloat 1000)], w)"
  "in_ext (cl_estimate (sv_client shop) body) w = (Inr [(''estimated_cost_rub'', JFloat 10)], w)"
  "clock shop w = (Inr (of_nat (w_ext w)), w\<lparr>w_ext := w_ext w + 1\<rparr>)"
  by (simp_all add: fresh_uuid_def in_ext_def shop_def shop_client_def demo_client_def clock_def now_is_def)

lemma shop_fields [simp]: "sv_settings shop = default_settings" "sv_policy shop = demo_policy" "sv_crypto shop = demo_crypto"
  "sv_has_media shop = False" "sv_has_queue shop"
  by (simp_all add: shop_def)

lemma shop_account: "\<exists>acc. account_snapshot shop w = (Inr (acc, []), w) \<and> ac_balance_rub acc = Some 1000"
  by (simp add: account_snapshot_def apply_eval Let_def)

lemma shop_price: "ps_kind s = GENERATION \<Longrightarrow> \<exists>t acc'. price_steps shop [s] acc w = (Inr ([t], [], acc'), w) \<and> ps_estimated_cost_rub t = 10 \<and>
  same_request s t"
  by (simp add: price_step_def apply_eval estimated_cost_of_def j_or_def same_request_def iter_json_def)

lemma shop_create: "\<exists>p w. create_plan shop shop_brief shop_world = (Inr p, w) \<and> p_total_estimated_rub p = 10 \<and> map ps_model (p_steps p) = [Some ''fine'']"
proof -
  let ?w = "shop_world\<lparr>w_ext := Suc 0\<rparr>" and ?pid = "CHR ''i'' # CHR ''d'' # show_nat 0"
  let ?s = "to_step demo_crypto IMAGE (shop_candidate ''fine'' 60 0) shop_analysis ?pid"
  obtain acc where acc: "account_snapshot shop ?w = (Inr (acc, []), ?w)" using shop_account by blast
  obtain t acc' where t: "price_steps shop [?s] acc ?w = (Inr ([t], [], acc'), ?w)" and c: "ps_estimated_cost_rub t = 10" "same_request ?s t"
    using shop_price [of ?s acc ?w] by auto
  have total: "steps_estimated_cost [t] = 10" by (simp add: steps_estimated_cost_def c(1))
  have re: "replan_with_exact_prices shop shop_caps shop_brief [t] ?pid 95 acc' ?w = (Inr ([t], [], acc'), ?w)"
    by (simp add: replan_with_exact_prices_def total)
  have dr: "drop_until_affordable demo_policy 95 [t] = ([t], [])" by (simp add: drop_until_affordable_id total)
  have en: "ensure_text demo_crypto shop_brief ?pid [t] = ([t], [])" by (simp add: ensure_text_def)
  have m: "ps_model t = Some ''fine''" using c(2) by (simp add: same_request_def)
  have w0: "w_ext shop_world = 0" by (simp add: shop_world_def)
  show ?thesis
    by (simp add: create_plan_def Let_def apply_eval w0 default_settings_def shop_spendable acc shop_build [folded shop_caps_def] shop_caps_def [symmetric] media_warnings_def t re dr en total
        in_db_def plans_save_def m del: price_steps.simps)
qed
end
