(* ===== verification/Planning.thy ===== *)
theory Planning
  imports Shop
begin

text \<open>
  The properties of \<open>PlanService.create_plan\<close>: it spends nothing, its plan fits the money that may be
  spent, covers the brief, and asks the platform only for what the catalog offers.
\<close>

section \<open>Spendable money\<close>

lemma margin_leaves:
  assumes "0 \<le> b" and "0 \<le> m" and "m < 1 / 2"
  shows "0 \<le> round4 (b - round4 (b * m))" and "round4 (b - round4 (b * m)) \<le> round4 b"
proof -
  have bm: "0 \<le> b * m" "2 * (b * m) \<le> b" using assms mult_left_mono [of "2 * m" 1 b] by simp_all
  have err: "\<bar>round4 (b * m) - b * m\<bar> \<le> 1 / 20000" using py_round_error [of 4 "b * m"] by simp
  have "round4 (b * m) \<le> b"
  proof (cases "b * m < 1 / 20000")
    case True
    then have "round4 (b * m) < 1 / 10000" using err by linarith
    moreover obtain k where k: "round4 (b * m) = of_int k / 10 ^ 4" using on_grid_iff [of 4 "round4 (b * m)"] on_grid_round [of 4 "b * m"] by blast
    ultimately have "k \<le> 0" by simp
    then show ?thesis using k assms(1) by (simp add: divide_le_eq)
  next
    case False
    then show ?thesis using err bm by linarith
  qed
  then show "0 \<le> round4 (b - round4 (b * m))" by (simp add: py_round_nonneg)
  show "round4 (b - round4 (b * m)) \<le> round4 b"
    using py_round_nonneg [OF bm(1), of 4] by (intro py_round_mono) simp
qed

section \<open>The steps of a plan\<close>

lemma local_text_step_simps [simp]:
  "ps_format (local_text_step h b pid) = TEXT" "ps_kind (local_text_step h b pid) = LOCAL"
  "ps_estimated_cost_rub (local_text_step h b pid) = 0" "ps_step_id (local_text_step h b pid) = step_id_of TEXT"
  by (simp_all add: local_text_step_def)

lemma ensure_text_cost: "steps_estimated_cost (fst (ensure_text h b pid ss)) = steps_estimated_cost ss"
  by (simp add: ensure_text_def steps_estimated_cost_def)

text \<open>A step of a saved plan is the local copy, or a catalog request at an exact price.\<close>

definition catalog_step :: "crypto \<Rightarrow> capabilities \<Rightarrow> policy \<Rightarrow> brief \<Rightarrow> overrides \<Rightarrow> string \<Rightarrow> plan_step \<Rightarrow> bool" where
  "catalog_step h caps pol b ov pid t \<longleftrightarrow>
     (\<exists>f c a. candidate_ok caps pol b ov f c \<and> same_request (to_step h f c a pid) t \<and>
        on_grid 4 (ps_estimated_cost_rub t) \<and> ps_cost_source t = ''estimate'')"

lemma drawn_from_steps:
  assumes d: "drawn_from sv b p payload ov draft priced" and dist: "distinct (b_formats b)"
  defines "h \<equiv> sv_crypto sv" and "kept \<equiv> fst (drop_until_affordable (sv_policy sv) (p_spendable_rub p) priced)"
  shows "distinct (map ps_format (p_steps p))"
    and "set (map ps_format (p_steps p)) \<subseteq> set (b_formats b)"
    and "TEXT \<in> set (b_formats b) \<Longrightarrow> has_format TEXT (p_steps p)"
    and "t \<in> set (p_steps p) \<Longrightarrow> t = local_text_step h b (p_plan_id p) \<or>
       catalog_step h (parse_capabilities payload) (sv_policy sv) b ov (p_plan_id p) t"
proof -
  have build: "build h (parse_capabilities payload) (sv_policy sv) b (p_plan_id p) (p_spendable_rub p) ov = Inr draft"
    and steps: "p_steps p = fst (ensure_text h b (p_plan_id p) kept)"
    using d by (simp_all add: drawn_from_def h_def kept_def)
  have from_draft: "priced_from sv (d_steps draft) kept"
    using d by (auto simp: drawn_from_def kept_def intro: priced_from_subseq [OF _ drop_until_affordable_subseq])
  note facts = build_facts [OF build dist]
  have sub: "subseq (map ps_format kept) (map ps_format (d_steps draft))"
    using from_draft by (rule priced_from_formats)
  have dk: "distinct (map ps_format kept)" using sub facts(1) by (auto simp: subseq_conv_nths)
  have "set (map ps_format kept) \<subseteq> set (map ps_format (d_steps draft))"
    using list_emb_set [OF sub] by blast
  then have sk: "set (map ps_format kept) \<subseteq> set (b_formats b)" using facts(2) by (rule subset_trans)
  show "distinct (map ps_format (p_steps p))"
    using dk unfolding steps by (auto simp: ensure_text_def has_format_iff)
  show "set (map ps_format (p_steps p)) \<subseteq> set (b_formats b)"
    using sk unfolding steps by (auto simp: ensure_text_def)
  show "has_format TEXT (p_steps p)" if "TEXT \<in> set (b_formats b)"
    using that unfolding steps by (auto simp: ensure_text_def has_format_iff)
  show "t = local_text_step h b (p_plan_id p) \<or> catalog_step h (parse_capabilities payload) (sv_policy sv) b ov (p_plan_id p) t"
    if "t \<in> set (p_steps p)"
  proof (cases "t \<in> set kept")
    case True
    with from_draft obtain s where s: "s \<in> set (d_steps draft)" "repriced sv s t" by (rule priced_from_in)
    from facts(5) [OF s(1)] show ?thesis
    proof
      assume "s = local_step h b TEXT (p_plan_id p)"
      with s(2) show ?thesis by (simp add: repriced_def local_text_step_def)
    next
      assume "\<exists>f c a. candidate_ok (parse_capabilities payload) (sv_policy sv) b ov f c \<and> s = to_step h f c a (p_plan_id p)"
      then obtain f c a where c: "candidate_ok (parse_capabilities payload) (sv_policy sv) b ov f c"
        "s = to_step h f c a (p_plan_id p)" by blast
      with s(2) show ?thesis unfolding catalog_step_def by (auto simp: repriced_def)
    qed
  next
    case False
    with that show ?thesis unfolding steps by (auto simp: ensure_text_def split: if_splits)
  qed
qed

lemma drawn_from_total:
  assumes d: "drawn_from sv b p payload ov draft priced" and dist: "distinct (b_formats b)"
    and "0 \<le> p_spendable_rub p"
  shows "steps_estimated_cost (p_steps p) \<le> p_spendable_rub p"
proof -
  define kept where "kept = fst (drop_until_affordable (sv_policy sv) (p_spendable_rub p) priced)"
  have steps: "p_steps p = fst (ensure_text (sv_crypto sv) b (p_plan_id p) kept)"
    using d by (simp add: drawn_from_def kept_def)
  consider "steps_estimated_cost kept \<le> p_spendable_rub p" | "filter is_billable kept = []"
    using drop_until_affordable_fits unfolding kept_def by blast
  then show ?thesis
  proof cases
    case 1
    then show ?thesis by (simp add: steps ensure_text_cost)
  next
    case 2
    have "ps_estimated_cost_rub t = 0" if "t \<in> set kept" for t
    proof -
      have "t \<in> set (p_steps p)" using that by (simp add: steps ensure_text_def)
      then have "t = local_text_step (sv_crypto sv) b (p_plan_id p) \<or>
          catalog_step (sv_crypto sv) (parse_capabilities payload) (sv_policy sv) b ov (p_plan_id p) t"
        by (rule drawn_from_steps(4) [OF d dist])
      moreover have "ps_kind t \<noteq> GENERATION" using 2 that by (auto simp: is_billable_def filter_empty_conv)
      ultimately show ?thesis by (auto simp: catalog_step_def same_request_def)
    qed
    then have "sum_list (map ps_estimated_cost_rub kept) = 0" by (simp add: sum_list_0 cong: map_cong)
    then show ?thesis using assms(3) by (simp add: steps ensure_text_cost) (simp add: steps_estimated_cost_def)
  qed
qed

section \<open>The properties\<close>

text \<open>C7: Planning spends nothing. Whatever the platform answers and however planning ends, not one
  request goes to the generating endpoint, no job is queued, and no table but the plans changes.\<close>

theorem create_plan_never_spends:
  "only_plans w (snd (create_plan (logged_sv sv) b w))"
  using planning.create_plan_keeps [of sv b] by (simp add: keeps_def)



lemma created_plan_shape:
  assumes "create_plan sv b w = (Inr p, w')" and "distinct (b_formats b)"
  shows "distinct (map ps_format (p_steps p))" "set (map ps_format (p_steps p)) \<subseteq> set (b_formats b)"
    "distinct (map ps_step_id (p_steps p))" "TEXT \<in> set (b_formats b) \<Longrightarrow> TEXT \<in> set (map ps_format (p_steps p))"
proof -
  obtain payload ov draft priced where src: "drawn_from sv b p payload ov draft priced"
    using assms(1) by (rule create_plan_source)
  note facts = drawn_from_steps [OF src assms(2)]
  have ids: "map ps_step_id (p_steps p) = map (step_id_of \<circ> ps_format) (p_steps p)"
  proof (rule map_cong [OF refl])
    fix t assume "t \<in> set (p_steps p)"
    from facts(4) [OF this] show "ps_step_id t = (step_id_of \<circ> ps_format) t"
      by (auto simp: catalog_step_def same_request_def)
  qed
  have inj: "inj step_id_of" by (auto simp: inj_def step_id_of_def)
  show "distinct (map ps_step_id (p_steps p))"
    unfolding ids map_map [symmetric] distinct_map [of step_id_of] using facts(1) inj by (auto intro: inj_on_subset)
  show "distinct (map ps_format (p_steps p))" "set (map ps_format (p_steps p)) \<subseteq> set (b_formats b)"
    "TEXT \<in> set (b_formats b) \<Longrightarrow> TEXT \<in> set (map ps_format (p_steps p))"
    using facts(1,2,3) by (auto simp: has_format_iff)
qed

text \<open>C16: A created plan serves the brief: one step per format at most and only formats the brief
  asked for, distinct step ids, and always a text step when the brief asks for text.\<close>

theorem created_plan_covers_brief:
  assumes "create_plan sv b w = (Inr p, w')" and "distinct (b_formats b)"
  shows "distinct (map ps_format (p_steps p)) \<and> set (map ps_format (p_steps p)) \<subseteq> set (b_formats b) \<and>
    distinct (map ps_step_id (p_steps p)) \<and> (TEXT \<in> set (b_formats b) \<longrightarrow> TEXT \<in> set (map ps_format (p_steps p)))"
  using created_plan_shape [OF assms] by blast

lemma created_plan_covers_brief_witness:
  "\<exists>p w'. create_plan shop shop_brief shop_world = (Inr p, w') \<and> map ps_model (p_steps p) = [Some ''fine''] \<and>
     distinct (map ps_step_id (p_steps p)) \<and> set (map ps_format (p_steps p)) \<subseteq> {IMAGE}"
proof -
  obtain p w' where c: "create_plan shop shop_brief shop_world = (Inr p, w')" "map ps_model (p_steps p) = [Some ''fine'']"
    using shop_create by auto
  with created_plan_covers_brief [OF c(1)] show ?thesis by auto
qed



end
