(* ===== verification/Demo_Run.thy ===== *)
theory Demo_Run
  imports Admission Demo Service_Facts
begin

text \<open>
  A whole run of the demo job, evaluated by rewriting: the job is claimed, both prices are
  confirmed at ten rubles, both steps are launched and settled. Nothing here models code of the
  repository.
\<close>

definition demo_service :: "money \<Rightarrow> nat service" where
  "demo_service price = \<lparr>sv_client = demo_client price, sv_settings = default_settings, sv_policy = demo_policy,
     sv_crypto = demo_crypto, sv_has_media = False, sv_has_queue = True\<rparr>"

definition demo_start :: "nat world" where
  "demo_start = \<lparr>w_db = demo_db, w_ext = 0, w_queue = []\<rparr>"

lemma demo_status: "status_of [(''status'', JStr ''complete''), (''cost'', c)] = ''complete''"
proof -
  have "py_lower ''complete'' = ''complete''" by code_simp
  then show ?thesis by (simp add: status_of_def)
qed

lemmas serv_eval = bind_apply try_vibe_apply andthen_def ret_def catch_def finally_do_def gets_def modify_def Let_def in_db_def in_ext_def clock_def
  run_job_def jobs_get_def job_at_def claim_for_execution_def sql_update_def run_claimed_def plans_get_def plan_at_def
  account_snapshot_def start_run_def after_recheck_def launched_steps_def recheck_prices_def recheck_step_def recheck_reply_def
  hand_over_def plans_save_def run_executor_def plan_row_of_def start_state_def
lemmas exec_eval = exec_env_of_def run_def utcnow_def on_ext_def on_db_def modify_job_def save_job_def jobs_save_def now_is_def job_row_of_def empty_db_def
  attempt_step_def run_step_def modify_step_def find_step_def launch_or_resume_def claim_step_def get_step_def step_at_def insert_step_def
     launch_def check_all_def check_def check_account_def hard_remaining_rub_def remaining_rub_def spendable_rub_def margin_rub_def EPSILON_def daily_remaining_rub_def
   record_charge_def as_float_def generation_id_of_def text_of_def update_step_def commit_def coalesce_def modify_guard_def
   await_step_def the_step_def await_result_def wait_for_def settle_def apply_outcome_def demo_status SUCCESS_STATUSES_def TERMINAL_STATUSES_def
   refresh_cost_def steps_actual_cost_def finish_run_def aggregate_status_def count_status_def release_def j_or_def
lemmas demo_defs = demo_service_def demo_client_def demo_db_eq demo_job_def demo_plan_def demo_step_def demo_job_step_def 
   new_guard_def  default_settings_def

lemma demo_run_job:
  "\<exists>j w'. run_job (demo_service 10) ''j1'' demo_start = (Inr j, w') \<and> map js_actual_cost_rub (j_steps j) = [10, 10] \<and>
     j_status j = JOB_SUCCEEDED"
  by (simp add: poll_done serv_eval exec_eval demo_defs demo_start_def estimated_cost_of_def PRICE_TOLERANCE_RUB_def
    total_blockers_def merge_account_def rk_block_def)

end
