(* ===== verification/Running.thy ===== *)
theory Running
  imports Admission_Facts Spending Planning Demo_Run
begin

text \<open>
  The properties of admission and of a job's run: who may start it, what it may send, and what it
  may spend.
\<close>

section \<open>Claiming\<close>

lemma claim_frame:
  assumes "claim_for_execution jid now d = (r, d')"
  shows "t_plans d' = t_plans d" and "t_steps d' = t_steps d"
  using assms by (auto simp: claim_for_execution_def Let_def case_prod_beta)

lemma claim_job:
  assumes "db_ok d" and "claim_for_execution jid now d = (Inr True, d')"
  obtains j where "job_at d jid = Some j" and "j_status j = JOB_QUEUED"
    and "job_at d' jid = Some (j\<lparr>j_status := JOB_RUNNING, j_started_at := Some now\<rparr>)"
proof -
  have "job_queued d jid" using claim_for_execution_result [OF assms(1), of jid now] assms(2) by simp
  then obtain r where r: "r \<in> set (t_jobs d)" "jr_job_id r = jid" "jr_status r = JOB_QUEUED"
    by (auto simp: job_queued_def list_ex_iff)
  have ok: "distinct (map jr_job_id (t_jobs d))" "jr_status r = j_status (jr_document r)"
    using assms(1) r(1) by (auto simp: db_ok_def jobs_ok_def list_all_iff)
  have f: "find (\<lambda>x. jr_job_id x = jid) (t_jobs d) = Some r" using find_distinct [OF ok(1) r(1)] r(2) by simp
  have "job_at d' jid = Some ((jr_document r)\<lparr>j_status := JOB_RUNNING, j_started_at := Some now\<rparr>)"
    using assms(2) f r by (auto simp: claim_for_execution_def Let_def case_prod_beta job_at_def find_sql_update)
  with f r ok show thesis using that [of "jr_document r"] by (simp add: job_at_def)
qed

text \<open>What \<open>run_job\<close> comes down to.\<close>

lemma run_job_cases:
  assumes "db_ok (w_db w)"
  obtains (unknown) "job_at (w_db w) jid = None" "run_job sv jid w = (Inl (app_raise NotFoundError (Msg ''job_not_found'' [JStr jid])), w)"
  | (clock) e w1 j where "clock sv w = (Inl e, w1)" "job_at (w_db w) jid = Some j" "run_job sv jid w = (Inl e, w1)"
  | (taken) j now w1 w2 k where "clock sv w = (Inr now, w1)" "job_at (w_db w) jid = Some j" "j_status j \<noteq> JOB_QUEUED"
      "in_db (claim_for_execution jid now) w1 = (Inr False, w2)" "run_job sv jid w = (Inr k, w2)"
  | (claimed) j now w1 w2 where "clock sv w = (Inr now, w1)" "job_at (w_db w) jid = Some j" "j_status j = JOB_QUEUED"
      "in_db (claim_for_execution jid now) w1 = (Inr True, w2)" "w_db w1 = w_db w"
      "t_plans (w_db w2) = t_plans (w_db w)" "t_steps (w_db w2) = t_steps (w_db w)"
      "run_job sv jid w = run_claimed sv (j\<lparr>j_status := JOB_RUNNING, j_started_at := Some now\<rparr>) w2"
proof (cases "job_at (w_db w) jid")
  case None
  then show thesis by (intro unknown) (simp_all add: run_job_def jobs_get_def)
next
  case (Some j)
  obtain cr w1 where c: "clock sv w = (cr, w1)" by fastforce
  have db1: "w_db w1 = w_db w" using c by (auto simp: clock_def in_ext_def now_is_def Let_def case_prod_beta)
  show thesis
  proof (cases cr)
    case (Inl e)
    with c Some show thesis by (intro clock) (simp_all add: run_job_def jobs_get_def)
  next
    case (Inr now)
    obtain b d2 where cl: "claim_for_execution jid now (w_db w) = (Inr b, d2)"
      using claim_for_execution_Inr by blast
    let ?w2 = "w1\<lparr>w_db := d2\<rparr>"
    have cw: "in_db (claim_for_execution jid now) w1 = (Inr b, ?w2)" by (simp add: in_db_def db1 cl)
    have run: "run_job sv jid w = (if \<not> b then
             bind (in_db (jobs_get jid)) (\<lambda>current. ret (case current of Some j \<Rightarrow> j | None \<Rightarrow> j))
           else
             bind (in_db (jobs_get jid)) (\<lambda>found2. case found2 of
               None \<Rightarrow> raise AssertionFailed
             | Some j \<Rightarrow> run_claimed sv j)) ?w2"
      using Some c Inr cw by (simp add: run_job_def jobs_get_def)
    show thesis
    proof (cases b)
      case True
      with cl have "claim_for_execution jid now (w_db w) = (Inr True, d2)" by simp
      then obtain j' where "job_at (w_db w) jid = Some j'" "j_status j' = JOB_QUEUED"
        "job_at d2 jid = Some (j'\<lparr>j_status := JOB_RUNNING, j_started_at := Some now\<rparr>)"
        by (rule claim_job [OF assms])
      with Some have q: "j_status j = JOB_QUEUED"
        "job_at d2 jid = Some (j\<lparr>j_status := JOB_RUNNING, j_started_at := Some now\<rparr>)" by simp_all
      with run True have "run_job sv jid w = run_claimed sv (j\<lparr>j_status := JOB_RUNNING, j_started_at := Some now\<rparr>) ?w2"
        by (simp add: jobs_get_def)
      with c Inr Some q(1) cw True db1 claim_frame [OF cl] show thesis
        by (intro claimed [where j = j and now = now and ?w1.0 = w1 and ?w2.0 = ?w2]) simp_all
    next
      case False
      have "\<not> job_queued (w_db w) jid" using claim_for_execution_result [OF assms, of jid now] cl False by simp
      moreover obtain r where "r \<in> set (t_jobs (w_db w))" "jr_job_id r = jid" "jr_document r = j"
        using Some by (auto simp: job_at_def dest: find_in)
      moreover from this assms have "jr_status r = j_status j" by (auto simp: db_ok_def jobs_ok_def list_all_iff)
      ultimately have "j_status j \<noteq> JOB_QUEUED" by (auto simp: job_queued_def list_ex_iff)
      with run c Inr Some cw False show thesis
        by (intro taken [where j = j and now = now and ?w1.0 = w1 and ?w2.0 = ?w2]) (simp_all add: jobs_get_def)
    qed
  qed
qed

section \<open>The calls of a job\<close>

text \<open>Running a job calls \<open>/generate\<close> only when the job was queued and this call claimed it, and
  then only for generation steps of its plan that were never launched, each at most once and with
  exactly the body of the plan: the recheck changes prices, never what is sent.\<close>

theorem run_job_calls:
  assumes "db_ok (w_db w)"
  shows "\<exists>called. billed (snd (run_job (logged_sv sv) jid w)) =
      billed w @ map (\<lambda>ps. generate_body ps (callback_url (sv_settings sv))) called \<and>
    (called \<noteq> [] \<longrightarrow> (\<exists>j p. job_at (w_db w) jid = Some j \<and> j_status j = JOB_QUEUED \<and>
       plan_at (w_db w) (j_plan_id j) = Some p \<and> subseq called (p_steps p) \<and>
       list_all (\<lambda>ps. ps_kind ps = GENERATION \<and> unlaunched (w_db w) p ps) called))"
  using assms
proof (cases rule: run_job_cases [of w jid "logged_sv sv"])
  case (clock e w1 j)
  then show ?thesis using keepsD [OF unbilled.clock_keeps clock(1)] by (intro exI [of _ "[]"]) (simp add: unbilled_def)
next
  case (taken j now w1 w2 k)
  then show ?thesis
    using keepsD [OF unbilled.clock_keeps taken(1)] keepsD [OF unbilled.claim_keeps taken(4)]
    by (intro exI [of _ "[]"]) (simp add: unbilled_def)
next
  case (claimed j now w1 w2)
  let ?j = "j\<lparr>j_status := JOB_RUNNING, j_started_at := Some now\<rparr>"
  have b: "billed w2 = billed w"
    using keepsD [OF unbilled.clock_keeps claimed(1)] keepsD [OF unbilled.claim_keeps claimed(4)]
    by (simp add: unbilled_def)
  have pl: "plan_at (w_db w2) = plan_at (w_db w)" by (intro ext) (simp add: plan_at_def claimed(6))
  have un: "unlaunched (w_db w2) = unlaunched (w_db w)" by (rule unlaunched_same) (rule claimed(7))
  show ?thesis
  proof (cases "plan_at (w_db w) (j_plan_id j)")
    case None
    then have "run_claimed (logged_sv sv) ?j w2 = abort_job (logged_sv sv) ?j [Msg ''plan_unavailable'' [JStr (j_plan_id j)]] w2"
      by (simp add: run_claimed_def plans_get_def pl)
    then have "unbilled w2 (snd (run_job (logged_sv sv) jid w))"
      using unbilled.abort_job_keeps [of sv ?j "[Msg ''plan_unavailable'' [JStr (j_plan_id j)]]"] claimed(8) by (simp add: keeps_def)
    then show ?thesis using b by (intro exI [of _ "[]"]) (simp add: unbilled_def)
  next
    case (Some p)
    have "job_calls sv p w2 (snd (run_job (logged_sv sv) jid w))"
      using run_claimed_calls [where sv = sv and w = w2 and j = ?j and q = p] claimed(8) Some by (simp add: pl)
    then show ?thesis using Some claimed(2,3) b unfolding job_calls_def un by auto
  qed
qed (intro exI [of _ "[]"], simp)

definition demo_world :: "(nat \<times> obj list) world" where
  "demo_world = \<lparr>w_db = demo_db, w_ext = (0, []), w_queue = []\<rparr>"

lemma run_job_calls_witness:
  "db_ok (w_db demo_world) \<and> job_at (w_db demo_world) ''j1'' = Some demo_job \<and> j_status demo_job = JOB_QUEUED \<and>
   (\<exists>called. billed (snd (run_job (logged_sv (demo_service 10)) ''j1'' demo_world)) = map (\<lambda>ps. generate_body ps None) called)"
proof -
  have ok: "db_ok (w_db demo_world)" by (simp add: demo_world_def demo_db_ok)
  have "callback_url (sv_settings (demo_service 10)) = None"
    by (simp add: demo_service_def default_settings_def callback_url_def unset_def)
  with run_job_calls [OF ok, of "demo_service 10" "''j1''"]
  have "\<exists>called. billed (snd (run_job (logged_sv (demo_service 10)) ''j1'' demo_world)) = map (\<lambda>ps. generate_body ps None) called"
    by (auto simp: billed_def demo_world_def)
  then show ?thesis using ok by (simp add: demo_world_def demo_db_eq job_at_def demo_job_def job_row_of_def)
qed

section \<open>The money of a job\<close>

definition same_steps :: "'x world \<Rightarrow> 'x world \<Rightarrow> bool" where
  "same_steps w w' \<longleftrightarrow> t_steps (w_db w') = t_steps (w_db w)"

interpretation same_steps: admission_relation same_steps sv for sv :: "'x service"
  by unfold_locales (auto simp: same_steps_def keeps_def clock_def fresh_uuid_def in_ext_def in_db_def plans_save_def
    jobs_save_def claim_for_execution_def enqueue_def Let_def case_prod_beta)

text \<open>The documented form of a quote: not negative.\<close>

definition quoting_client :: "'x client \<Rightarrow> bool" where
  "quoting_client c \<longleftrightarrow> (\<forall>body. gives (\<lambda>payload. \<forall>q kind. estimated_cost_of payload = Some (q, kind) \<longrightarrow> 0 \<le> q) (cl_estimate c body))"

text \<open>A job of a plan for which nothing was launched or spent.\<close>

definition fresh_job :: "db \<Rightarrow> plan \<Rightarrow> job \<Rightarrow> bool" where
  "fresh_job d p j \<longleftrightarrow> distinct (map ps_step_id (p_steps p)) \<and>
     list_all (\<lambda>ps. 0 \<le> ps_estimated_cost_rub ps \<and> on_grid 4 (ps_estimated_cost_rub ps) \<and> unlaunched d p ps) (p_steps p) \<and>
     list_all (\<lambda>t. js_actual_cost_rub t = 0 \<and> js_generation_id t = None) (j_steps j)"

definition paid :: "job \<Rightarrow> money" where
  "paid j = sum_list (map js_actual_cost_rub (j_steps j))"

definition overcharge :: "(string \<Rightarrow> money) \<Rightarrow> job \<Rightarrow> money" where
  "overcharge q j = sum_list (map (\<lambda>t. max 0 (js_actual_cost_rub t - q (js_step_id t))) (j_steps j))"

lemma overcharge_nonneg: "0 \<le> overcharge q j"
  unfolding overcharge_def by (rule sum_list_nonneg) auto

lemma quote_of_mono:
  assumes "list_all2 rechecked (p_steps p) (p_steps p1)"
  shows "quote_of p1 sid \<le> quote_of p sid"
proof -
  have "(case find (\<lambda>ps. ps_step_id ps = sid) ys of Some ps \<Rightarrow> ps_estimated_cost_rub ps | None \<Rightarrow> 0)
     \<le> (case find (\<lambda>ps. ps_step_id ps = sid) xs of Some ps \<Rightarrow> ps_estimated_cost_rub ps | None \<Rightarrow> 0)"
    if "list_all2 rechecked xs ys" for xs ys
    using that by (induction rule: list_all2_induct) (auto simp: rechecked_def same_request_def)
  then show ?thesis using assms by (simp add: quote_of_def)
qed

lemma run_result: "run env p s = (Inr j, t) \<Longrightarrow> e_job t = j"
  by (auto simp: run_def bind_eq_Inr andthen_eq_Inr)

lemma hand_over_spending:
  assumes client: "priced_client (sv_client sv)"
    and fresh: "fresh_job (w_db w) p j" and g: "g_committed_rub g = 0" "0 \<le> spendable_rub g"
    and run: "hand_over sv p j g w = (Inr j', w')"
  shows "paid j' \<le> spendable_rub g + overcharge (quote_of p) j'"
proof -
  let ?p = "p\<lparr>p_job_id := Some (j_job_id j), p_status := PLAN_EXECUTED\<rparr>"
  obtain u where save: "in_db (plans_save ?p) w = (Inr (), u)"
    by (simp add: in_db_def plans_save_def)
  have st: "t_steps (w_db u) = t_steps (w_db w)" using keepsD [OF same_steps.save_plan_keeps save] by (simp add: same_steps_def)
  let ?s = "start_state u j g"
  obtain t where t: "run (exec_env_of sv) ?p ?s = (Inr j', t)"
    using run save by (auto simp: hand_over_def Let_def run_executor_def case_prod_beta prod_eq_iff)
  have "step_at (w_db u) = step_at (w_db w)" using st by (rule step_at_steps)
  then have "fresh_run ?p ?s" using fresh g
    by (auto simp: fresh_run_def fresh_job_def start_state_def list_all_iff unlaunched_def split: option.splits)
  then have "sum_list (map js_actual_cost_rub (j_steps (e_job t))) \<le> spendable_rub (e_guard ?s) +
    sum_list (map (\<lambda>js. max 0 (js_actual_cost_rub js - quote_of ?p (js_step_id js))) (j_steps (e_job t)))"
    using run_money_total [OF _ _ t] client by (simp add: exec_env_of_def)
  moreover have "quote_of ?p = quote_of p" by (intro ext) (simp add: quote_of_def)
  ultimately show ?thesis using run_result [OF t] by (simp add: paid_def overcharge_def start_state_def)
qed

lemma fresh_job_rechecked:
  assumes "fresh_job d p j" and "list_all2 (\<lambda>s t. rechecked s t \<and> quoted sv s t) (p_steps p) (p_steps p1)"
    and "quoting_client (sv_client sv)" and "p_plan_id p1 = p_plan_id p" and "j_steps j1 = j_steps j"
  shows "fresh_job d p1 j1"
proof -
  have quote: "0 \<le> ps_estimated_cost_rub t \<and> on_grid 4 (ps_estimated_cost_rub t)"
    if "quoted sv s t" "0 \<le> ps_estimated_cost_rub s" "on_grid 4 (ps_estimated_cost_rub s)" for s t
    using that assms(3) unfolding quoted_def estimated_def quoting_client_def gives_def
    by (metis estimated_cost_grid)
  have "map ps_step_id ys = map ps_step_id xs \<and>
     (list_all (\<lambda>ps. 0 \<le> ps_estimated_cost_rub ps \<and> on_grid 4 (ps_estimated_cost_rub ps) \<and> unlaunched d p ps) xs \<longrightarrow>
      list_all (\<lambda>ps. 0 \<le> ps_estimated_cost_rub ps \<and> on_grid 4 (ps_estimated_cost_rub ps) \<and> unlaunched d p1 ps) ys)"
    if "list_all2 (\<lambda>s t. rechecked s t \<and> quoted sv s t) xs ys" for xs ys
    using that
  proof (induction rule: list_all2_induct)
    case (Cons s xs t ys)
    have "ps_step_id t = ps_step_id s" using Cons by (simp add: rechecked_def same_request_def)
    with Cons quote [of s t] show ?case by (auto simp: unlaunched_def assms(4))
  qed simp
  from this [OF assms(2)] assms(1,5) show ?thesis by (auto simp: fresh_job_def)
qed

lemma paid_zero: "fresh_job d p j \<Longrightarrow> paid j = 0"
  by (simp add: fresh_job_def paid_def list_all_iff cong: map_cong)

lemma aborted_job_paid: "paid (aborted_job now bs j) = paid j"
proof -
  have "js_actual_cost_rub (skip_pending t) = js_actual_cost_rub t" for t by (simp add: skip_pending_def)
  then show ?thesis by (simp add: paid_def aborted_job_def comp_def)
qed

lemma fresh_not_launched: "fresh_job d p j \<Longrightarrow> launched_steps j = []"
  by (auto simp: fresh_job_def launched_steps_def filter_empty_conv list_all_iff)

lemma start_run_spending:
  assumes client: "priced_client (sv_client sv)" "quoting_client (sv_client sv)"
    and fresh: "fresh_job (w_db w) p j" and sp: "0 \<le> spendable_rub (new_guard (p_budget_rub p) (budget_safety_margin (sv_settings sv)) None)"
    and run: "start_run sv j p x w = (Inr j', w')"
  shows "\<exists>q. (\<forall>sid. q sid \<le> quote_of p sid) \<and>
    paid j' \<le> spendable_rub (new_guard (p_budget_rub p) (budget_safety_margin (sv_settings sv)) None) + overcharge q j'"
proof -
  obtain acc ws where x: "x = (acc, ws)" by (cases x)
  let ?g = "new_guard (p_budget_rub p) (budget_safety_margin (sv_settings sv)) (Some acc)"
  let ?j1 = "j\<lparr>j_warnings := j_warnings j @ ws\<rparr>"
  have sg: "spendable_rub ?g = spendable_rub (new_guard (p_budget_rub p) (budget_safety_margin (sv_settings sv)) None)"
    by (simp add: spendable_new_guard)
  have "launched_steps ?j1 = []" using fresh_not_launched [OF fresh] by (simp add: launched_steps_def)
  then have "bind (recheck_prices sv p ?g) (after_recheck sv ?j1) w = (Inr j', w')"
    using run by (simp add: x start_run_def Let_def)
  then obtain y u where r: "recheck_prices sv p ?g w = (Inr y, u)" and a: "after_recheck sv ?j1 y u = (Inr j', w')"
    by (auto simp: bind_eq_Inr)
  obtain p1 g1 ws1 bs where y: "y = (p1, g1, ws1, bs)" by (cases y)
  note R = recheck_prices_result [OF r [unfolded y]]
  have st: "t_steps (w_db u) = t_steps (w_db w)" using keepsD [OF same_steps.recheck_prices_keeps r] by (simp add: same_steps_def)
  let ?j2 = "?j1\<lparr>j_warnings := j_warnings ?j1 @ ws1\<rparr>"
  have id1: "p_plan_id p1 = p_plan_id p" by (subst R(2)) simp
  have "fresh_job (w_db w) p1 ?j2" by (rule fresh_job_rechecked [OF fresh R(1) client(2) id1]) simp
  moreover have "fresh_job (w_db u) p1 ?j2 = fresh_job (w_db w) p1 ?j2"
    unfolding fresh_job_def unlaunched_same [OF st] ..
  ultimately have f1: "fresh_job (w_db u) p1 ?j2" by simp
  have mono: "\<forall>sid. quote_of p1 sid \<le> quote_of p sid"
  proof -
    have "list_all2 rechecked (p_steps p) (p_steps p1)" using R(1) by (rule list_all2_mono) simp
    then show ?thesis by (simp add: quote_of_mono)
  qed
  have g1: "g_committed_rub g1 = 0" "spendable_rub g1 = spendable_rub ?g"
    by (subst R(3), simp add: new_guard_def, subst R(3), simp add: spendable_rub_def margin_rub_def)
  show ?thesis
  proof (cases "bs = []")
    case True
    with a y have "hand_over sv p1 ?j2 g1 u = (Inr j', w')" by (simp add: after_recheck_def Let_def)
    from hand_over_spending [OF client(1) f1 g1(1) _ this] g1(2) sg sp mono show ?thesis
      by (intro exI [of _ "quote_of p1"]) simp
  next
    case False
    with a y obtain now where "j' = aborted_job now bs ?j2"
      by (auto simp: after_recheck_def Let_def abort_job_def bind_eq_Inr andthen_eq_Inr)
    then have "paid j' = 0" using paid_zero [OF f1] by (simp add: aborted_job_paid)
    then show ?thesis using sp overcharge_nonneg [of "quote_of p" j'] by (intro exI [of _ "quote_of p"]) simp
  qed
qed

lemma job_spending:
  assumes "priced_client (sv_client sv)" and "quoting_client (sv_client sv)" and "fields_in_range (sv_settings sv)"
    and "db_ok (w_db w)" and "job_at (w_db w) jid = Some j" and "j_status j = JOB_QUEUED"
    and "plan_at (w_db w) (j_plan_id j) = Some p" and "fresh_job (w_db w) p j" and "0 \<le> p_budget_rub p"
    and "run_job sv jid w = (Inr j', w')"
  shows "\<exists>q. (\<forall>sid. q sid \<le> quote_of p sid) \<and>
    paid j' \<le> spendable_rub (new_guard (p_budget_rub p) (budget_safety_margin (sv_settings sv)) None) + overcharge q j'"
proof -
  have m: "0 \<le> budget_safety_margin (sv_settings sv)" "budget_safety_margin (sv_settings sv) < 1 / 2"
    using assms(3) by (simp_all add: fields_in_range_def)
  have sp: "0 \<le> spendable_rub (new_guard (p_budget_rub p) (budget_safety_margin (sv_settings sv)) None)"
    using margin_leaves(1) [OF assms(9) m] by (simp add: spendable_new_guard)
  from assms(4) show ?thesis
  proof (cases rule: run_job_cases [of w jid sv])
    case (claimed j0 now w1 w2)
    let ?j = "j\<lparr>j_status := JOB_RUNNING, j_started_at := Some now\<rparr>"
    have j0: "j0 = j" using claimed(2) assms(5) by simp
    have pl: "plan_at (w_db w2) (j_plan_id j) = Some p" using assms(7) by (simp add: plan_at_def claimed(6))
    have "bind (account_snapshot sv) (start_run sv ?j p) w2 = (Inr j', w')"
      using assms(10) claimed(8) pl j0 by (simp add: run_claimed_def plans_get_def)
    then obtain x u where a: "account_snapshot sv w2 = (Inr x, u)" and r: "start_run sv ?j p x u = (Inr j', w')"
      by (auto simp: bind_eq_Inr)
    have "t_steps (w_db u) = t_steps (w_db w)"
      using keepsD [OF same_steps.account_snapshot_keeps a] claimed(7) by (simp add: same_steps_def)
    then have "fresh_job (w_db u) p ?j"
      using assms(8) unfolding fresh_job_def by (auto simp: unlaunched_same [of "w_db u" "w_db w"])
    from start_run_spending [OF assms(1,2) this sp r] show ?thesis .
  qed (use assms in auto)
qed

text \<open>A queued job of a plan for which nothing was launched yet, run to its end, reports at most
  the spendable amount as spent (the budget minus the safety margin), except for what the platform
  charged above prices that were confirmed right before the run; and no confirmed price is above
  the price in the plan the user confirmed.\<close>

theorem run_job_spending:
  assumes "priced_client (sv_client sv)" and "quoting_client (sv_client sv)" and "fields_in_range (sv_settings sv)"
    and "db_ok (w_db w)" and "job_at (w_db w) jid = Some j" and "j_status j = JOB_QUEUED"
    and "plan_at (w_db w) (j_plan_id j) = Some p" and "fresh_job (w_db w) p j" and "0 \<le> p_budget_rub p"
    and "run_job sv jid w = (Inr j', w')"
  shows "\<exists>q. (\<forall>sid. q sid \<le> quote_of p sid) \<and>
    paid j' \<le> spendable_rub (new_guard (p_budget_rub p) (budget_safety_margin (sv_settings sv)) None) + overcharge q j'"
  using assms by (rule job_spending)

lemma run_job_spending_witness:
  "\<exists>j' w' q. run_job (demo_service 10) ''j1'' demo_start = (Inr j', w') \<and> paid j' = 20 \<and>
     (\<forall>sid. q sid \<le> quote_of demo_plan sid) \<and> paid j' \<le> 95 + overcharge q j'"
proof -
  obtain j' w' where r: "run_job (demo_service 10) ''j1'' demo_start = (Inr j', w')"
    and c: "map js_actual_cost_rub (j_steps j') = [10, 10]" using demo_run_job by auto
  have p: "priced_client (sv_client (demo_service 10))"
    using demo_client_priced [of 10] on_grid_of_int [of 4 10] by (simp add: demo_service_def)
  have q: "quoting_client (sv_client (demo_service 10))"
    by (simp add: quoting_client_def gives_def demo_service_def demo_client_def estimated_cost_of_def)
  have f: "fields_in_range (sv_settings (demo_service 10))"
    by (simp add: demo_service_def fields_in_range_def default_settings_def)
  have db: "db_ok (w_db demo_start)" "job_at (w_db demo_start) ''j1'' = Some demo_job" "j_status demo_job = JOB_QUEUED"
    "plan_at (w_db demo_start) (j_plan_id demo_job) = Some demo_plan" "0 \<le> p_budget_rub demo_plan"
    by (simp_all add: demo_start_def demo_db_ok)
      (simp_all add: demo_db_eq job_at_def plan_at_def demo_job_def job_row_of_def plan_row_of_def demo_plan_def)
  have fr: "fresh_job (w_db demo_start) demo_plan demo_job"
    by (simp add: fresh_job_def demo_start_def demo_db_eq demo_plan_def demo_job_def demo_step_def demo_job_step_def
      unlaunched_def step_at_def empty_db_def on_grid_of_int [of 4 10, simplified] on_grid_of_int [of 4 30, simplified])
  have sp: "spendable_rub (new_guard (p_budget_rub demo_plan) (budget_safety_margin (sv_settings (demo_service 10))) None) = 95"
    by (simp add: demo_plan_def demo_service_def default_settings_def spendable_new_guard)
  show ?thesis
    using run_job_spending [OF p q f db(1,2,3,4) fr db(5) r] r c by (auto simp: sp paid_def)
qed

section \<open>Admission\<close>

text \<open>C12: Without confirmation, in estimate mode, for an unknown plan and for a plan without steps, the
  request to execute is refused with an error and nothing happened at all: no clock read, no id
  drawn, no row written, no call made.\<close>

theorem execute_plan_refuses:
  assumes "\<not> confirmed \<or> app_mode (sv_settings sv) = ESTIMATE \<or>
    (case plan_at (w_db w) pid of None \<Rightarrow> True | Some p \<Rightarrow> p_status p = PLAN_INFEASIBLE)"
  shows "\<exists>c m. execute_plan sv pid confirmed wait w = (Inl (app_raise c m), w) \<and>
    c \<in> {NotFoundError, ConfirmationRequiredError, ModeNotAllowedError, ConflictError}"
  using assms by (cases "plan_at (w_db w) pid") (auto simp: execute_plan_def plans_get_def)

lemma execute_plan_refuses_witness:
  "plan_at (w_db demo_start) ''p1'' = Some demo_plan \<and>
   (\<exists>c m. execute_plan (demo_service 10) ''p1'' False False demo_start = (Inl (app_raise c m), demo_start))"
  using execute_plan_refuses [of False "demo_service 10" demo_start "''p1''" False]
  by (auto simp: demo_start_def demo_db_eq plan_at_def plan_row_of_def demo_plan_def)

lemma execute_replay:
  assumes "plan_at (w_db w) pid = Some p" and "p_status p \<noteq> PLAN_INFEASIBLE" and "app_mode (sv_settings sv) \<noteq> ESTIMATE"
    and "jobs_get_by_plan pid (w_db w) = (Inr (Some j), w_db w)" and "j_status j \<noteq> JOB_PENDING"
  shows "execute_plan sv pid True wait w = (Inr j, w)"
proof -
  have "is_terminal (j_status j) \<or> is_active (j_status j)"
    using assms(5) by (cases "j_status j") simp_all
  then show ?thesis using assms(1-4) by (simp add: execute_plan_def plans_get_def in_db_def [of "jobs_get_by_plan pid"] Let_def)
qed

text \<open>A plan that has a job is answered with that job, its latest one, and nothing else happens:
  a repeated request starts no second job. This includes a job that was aborted before spending, so
  such a plan cannot be run again.\<close>

theorem execute_plan_replays:
  assumes "plan_at (w_db w) pid = Some p" and "p_status p \<noteq> PLAN_INFEASIBLE" and "app_mode (sv_settings sv) \<noteq> ESTIMATE"
    and "jobs_get_by_plan pid (w_db w) = (Inr (Some j), w_db w)" and "j_status j \<noteq> JOB_PENDING"
  shows "execute_plan sv pid True wait w = (Inr j, w)"
  using assms by (rule execute_replay)

lemma execute_plan_replays_witness:
  "execute_plan (demo_service 10) ''p1'' True True demo_start = (Inr demo_job, demo_start)"
proof (rule execute_plan_replays)
  show "plan_at (w_db demo_start) ''p1'' = Some demo_plan"
    by (simp add: demo_start_def demo_db_eq plan_at_def plan_row_of_def demo_plan_def)
  show "jobs_get_by_plan ''p1'' (w_db demo_start) = (Inr (Some demo_job), w_db demo_start)"
    by (simp add: demo_start_def demo_db_eq jobs_get_by_plan_def job_row_of_def demo_job_def)
qed (simp_all add: demo_plan_def demo_job_def demo_service_def default_settings_def)

text \<open>With a job queue and without \<open>wait\<close>, executing a plan never spends: whatever the outcome, no
  request goes to the generating endpoint and no step is claimed.\<close>

theorem execute_later_never_spends:
  assumes "sv_has_queue sv" and "\<not> wait"
  shows "unbilled w (snd (execute_plan (logged_sv sv) pid confirmed wait w))"
  using unbilled.execute_later_keeps [of sv wait pid confirmed] assms by (simp add: keeps_def logged_sv_def)

lemma execute_later_never_spends_witness:
  "unbilled demo_world (snd (execute_plan (logged_sv (demo_service 10)) ''p1'' True False demo_world))"
  by (rule execute_later_never_spends) (simp_all add: demo_service_def)

lemma upsert_new: "key row \<notin> set (map key rs) \<Longrightarrow> upsert key f row rs = rs @ [row]"
  by (induction rs) auto

lemma admit_result:
  assumes "admit sv p w = (Inr j, w')"
  obtains jid now u where "j = (new_job jid now p)\<lparr>j_status := JOB_QUEUED\<rparr>" and "w_db u = w_db w"
    and "fresh_uuid sv w = (Inr jid, u)"
    and "t_jobs (w_db w') = upsert jr_job_id (\<lambda>r. r\<lparr>jr_status := j_status j, jr_document := j\<rparr>) (job_row_of j) (t_jobs (w_db w))"
    and "t_plans (w_db w') = t_plans (snd (plans_save (p\<lparr>p_job_id := Some jid\<rparr>) (w_db w)))"
proof -
  obtain jid u where u: "fresh_uuid sv w = (Inr jid, u)" using assms by (auto simp: admit_def bind_eq_Inr)
  have db1: "w_db u = w_db w" using u by (auto simp: fresh_uuid_def in_ext_def Let_def case_prod_beta)
  obtain now v where v: "clock sv u = (Inr now, v)" using assms u by (auto simp: admit_def bind_eq_Inr)
  have db2: "w_db v = w_db w" using v db1 by (auto simp: clock_def in_ext_def now_is_def Let_def case_prod_beta)
  show thesis
    by (rule that [where jid = jid and now = now and u = u])
      (use assms u v db1 db2 in \<open>auto simp: admit_def Let_def andthen_def bind_apply in_db_def jobs_save_def plans_save_def
         case_prod_beta split: if_splits sum.splits\<close>)
qed

text \<open>Admission is idempotent. Once a plan was admitted and its job queued, executing it again
  returns the same job, still queued, and changes nothing.\<close>

theorem execute_plan_idempotent:
  assumes "execute_plan sv pid True False w = (Inr j, w')" and "sv_has_queue sv" and "db_ok (w_db w)"
    and "jobs_get_by_plan pid (w_db w) = (Inr None, w_db w)"
    and "\<And>jid u. fresh_uuid sv w = (Inr jid, u) \<Longrightarrow> job_at (w_db w) jid = None"
  shows "j_status j = JOB_QUEUED \<and> last (w_queue w') = j_job_id j \<and> execute_plan sv pid True False w' = (Inr j, w')"
proof -
  obtain p where p: "plan_at (w_db w) pid = Some p" "app_mode (sv_settings sv) \<noteq> ESTIMATE" "p_status p \<noteq> PLAN_INFEASIBLE"
    using assms(1) by (cases "plan_at (w_db w) pid") (auto simp: execute_plan_def plans_get_def split: if_splits)
  have pid: "p_plan_id p = pid"
  proof -
    obtain r where "find (\<lambda>r. pr_plan_id r = pid) (t_plans (w_db w)) = Some r" "pr_document r = p"
      using p(1) by (auto simp: plan_at_def)
    with assms(3) show ?thesis by (auto simp: db_ok_def plans_ok_def list_all_iff dest: find_in)
  qed
  have "bind (admit sv p) (\<lambda>j. andthen (enqueue (j_job_id j)) (ret j)) w = (Inr j, w')"
    using assms(1,2,4) p by (simp add: execute_plan_def plans_get_def in_db_def [of "jobs_get_by_plan pid"] Let_def)
  then obtain v where v: "admit sv p w = (Inr j, v)" and w': "w' = v\<lparr>w_queue := w_queue v @ [j_job_id j]\<rparr>"
    by (auto simp: bind_eq_Inr andthen_eq_Inr enqueue_def)
  from v obtain jid now u where a: "j = (new_job jid now p)\<lparr>j_status := JOB_QUEUED\<rparr>" "fresh_uuid sv w = (Inr jid, u)"
    "t_jobs (w_db v) = upsert jr_job_id (\<lambda>r. r\<lparr>jr_status := j_status j, jr_document := j\<rparr>) (job_row_of j) (t_jobs (w_db w))"
    "t_plans (w_db v) = t_plans (snd (plans_save (p\<lparr>p_job_id := Some jid\<rparr>) (w_db w)))"
    by (rule admit_result)
  have jfields: "j_job_id j = jid" "j_plan_id j = pid" "j_status j = JOB_QUEUED"
    using a(1) pid by (simp_all add: new_job_def)
  have "jid \<notin> set (map jr_job_id (t_jobs (w_db w)))"
    using assms(5) [OF a(2)] by (auto simp: job_at_def find_None_iff)
  then have "upsert jr_job_id f (job_row_of j) (t_jobs (w_db w)) = t_jobs (w_db w) @ [job_row_of j]" for f
    using upsert_new [of jr_job_id "job_row_of j"] jfields by (simp add: job_row_of_def)
  then have jobs: "t_jobs (w_db v) = t_jobs (w_db w) @ [job_row_of j]" using a(3) by simp
  have none: "filter (\<lambda>r. jr_plan_id r = pid) (t_jobs (w_db w)) = []"
    using assms(4) by (simp add: jobs_get_by_plan_def)
  have "jobs_get_by_plan pid (w_db w') = (Inr (Some j), w_db w')"
    by (simp add: jobs_get_by_plan_def w' jobs none) (simp add: job_row_of_def jfields)
  moreover have "plan_at (w_db w') pid = Some (p\<lparr>p_job_id := Some jid\<rparr>)"
    using pid by (simp add: w' plan_at_def a(4) plans_save_def find_upsert plan_row_of_def split: option.splits)
  ultimately have "execute_plan sv pid True False w' = (Inr j, w')"
    using p(2,3) jfields(3) by (intro execute_replay [where p = "p\<lparr>p_job_id := Some jid\<rparr>"]) simp_all
  then show ?thesis using jfields w' by simp
qed

definition demo_planned :: "nat world" where
  "demo_planned = \<lparr>w_db = empty_db\<lparr>t_plans := [plan_row_of demo_plan]\<rparr>, w_ext = 0, w_queue = []\<rparr>"

lemma execute_plan_idempotent_witness:
  "\<exists>j w'. execute_plan (demo_service 10) ''p1'' True False demo_planned = (Inr j, w') \<and> w_queue w' = [j_job_id j] \<and>
     execute_plan (demo_service 10) ''p1'' True False w' = (Inr j, w')"
proof -
  have "\<exists>j w'. execute_plan (demo_service 10) ''p1'' True False demo_planned = (Inr j, w') \<and> w_queue w' = [j_job_id j]"
    by (simp add: serv_eval execute_plan_def admit_def enqueue_def fresh_uuid_def jobs_get_by_plan_def jobs_save_def now_is_def
      demo_planned_def demo_service_def demo_client_def default_settings_def empty_db_def demo_plan_def new_job_def)
  then obtain j w' where e: "execute_plan (demo_service 10) ''p1'' True False demo_planned = (Inr j, w')"
    and q: "w_queue w' = [j_job_id j]" by blast
  have "execute_plan (demo_service 10) ''p1'' True False w' = (Inr j, w')"
    using execute_plan_idempotent [OF e]
    by (simp add: demo_service_def demo_planned_def db_ok_def plans_ok_def jobs_ok_def steps_ok_def empty_db_def
      plan_row_of_def jobs_get_by_plan_def job_at_def)
  with e q show ?thesis by blast
qed

section \<open>A resumed run\<close>

text \<open>The loop over the steps asks first whether the run is aborted, then whether the step is already done: in a
  resumed run that is aborted at one step, a later step that an earlier run paid for and finished is marked as
  skipped, with its price still on it.\<close>

lemma aborted_run_unmakes_success:
  assumes "find_step (e_job s) (ps_step_id ps) = Some js" and "js_status js = STEP_SUCCEEDED"
  shows "\<exists>s' js'. run_steps env p [ps] True s = (Inr True, s') \<and> find_step (e_job s') (ps_step_id ps) = Some js' \<and>
    js_status js' = STEP_SKIPPED \<and> js_actual_cost_rub js' = js_actual_cost_rub js \<and> js_generation_id js' = js_generation_id js"
  using assms by (simp add: bind_apply modify_step_simps andthen_def find_step_def find_step_modified)

end
