(* ===== verification/Mock.thy ===== *)
theory Mock
  imports Client Config
begin

text \<open>
  The in-memory platform (\<open>app/clients/mock.py\<close>): it validates, prices, charges, replays a repeated
  idempotency key and refunds a failed generation once. The state is the client object; the clock and
  the supply of identifiers belong to it here. The catalog fixture is an argument. Messages of the
  errors it raises are named by a tag.
\<close>

section \<open>State\<close>

record generation =
  gn_generation_id :: int
  gn_task_id :: string
  gn_model :: string
  gn_type :: string
  gn_cost :: money
  gn_will_fail :: bool
  gn_refunded :: bool
  gn_created_at :: time
  gn_idempotency_key :: json
  gn_text :: "string option"

record voiceover =
  vo_voiceover_id :: int
  vo_cost :: money
  vo_will_fail :: bool
  vo_refunded :: bool
  vo_chars :: nat

record mock =
  mk_payload :: obj
  mk_caps :: capabilities
  mk_balance_rub :: money
  mk_daily_limit_rub :: money
  mk_daily_spent_rub :: money
  mk_price_multiplier :: rat
  mk_complete_after_polls :: nat
  mk_fail_models :: "string list"
  mk_calls :: "(string \<times> obj) list"
  mk_generations :: "(int \<times> generation) list"
  mk_voiceovers :: "(int \<times> voiceover) list"
  mk_by_idempotency :: "(json \<times> obj) list"
  mk_poll_counts :: "(int \<times> nat) list"
  mk_next_id :: int
  mk_now :: time

text \<open>Standard-library functions it calls: \<open>sha1\<close>, \<open>isoformat\<close>, and the identifier supply of the
  surrounding process.\<close>

record mock_env =
  me_sha1 :: "string \<Rightarrow> string"
  me_sha256 :: "string \<Rightarrow> string"
  me_iso :: "time \<Rightarrow> string"
  me_uuid :: "time \<Rightarrow> string"

definition new_mock :: "obj \<Rightarrow> money \<Rightarrow> money \<Rightarrow> money \<Rightarrow> rat \<Rightarrow> nat \<Rightarrow> string list \<Rightarrow> time \<Rightarrow> mock" where
  "new_mock payload balance limit spent multiplier polls fails now =
     \<lparr>mk_payload = payload, mk_caps = parse_capabilities payload, mk_balance_rub = balance, mk_daily_limit_rub = limit,
      mk_daily_spent_rub = spent, mk_price_multiplier = multiplier, mk_complete_after_polls = polls,
      mk_fail_models = fails, mk_calls = [], mk_generations = [], mk_voiceovers = [], mk_by_idempotency = [],
      mk_poll_counts = [], mk_next_id = 5811, mk_now = now\<rparr>"

type_synonym 'a mocked = "(mock, exn, 'a) eff"

section \<open>Helpers\<close>

definition FAILURE_MARKER :: string where
  "FAILURE_MARKER = ''__mock_fail__''"

definition TOKEN_RATE_RUB :: "(string, rat) dict" where
  "TOKEN_RATE_RUB = [(''claude'', 76 / 10000), (''gpt'', 91 / 10000)]"

definition DEFAULT_TOKEN_RATE_RUB :: rat where
  "DEFAULT_TOKEN_RATE_RUB = 8 / 1000"

definition TOKEN_ACTUAL_SHARE :: rat where
  "TOKEN_ACTUAL_SHARE = 6 / 10"

definition record_call :: "string \<Rightarrow> obj \<Rightarrow> unit mocked" where
  "record_call name payload = modify (\<lambda>m. m\<lparr>mk_calls := mk_calls m @ [(name, payload)]\<rparr>)"

definition calls_named :: "mock \<Rightarrow> string \<Rightarrow> obj list" where
  "calls_named m name = map snd (filter (\<lambda>(called, payload). called = name) (mk_calls m))"

definition mock_error :: "int \<Rightarrow> string \<Rightarrow> string \<Rightarrow> json \<Rightarrow> json \<Rightarrow> rat option \<Rightarrow> exn" where
  "mock_error status code message details request_id retry_after =
     Vibe (VibeAPIError \<lparr>api_status_code = status, api_code = code, api_message = message, api_details = details,
       api_request_id = request_id, api_retry_after = retry_after\<rparr>)"

definition str_or_empty :: "json \<Rightarrow> string" where
  "str_or_empty v = py_str (j_or v (JStr []))"

definition spec_or_error :: "mock_env \<Rightarrow> mock \<Rightarrow> obj \<Rightarrow> exn + model_spec" where
  "spec_or_error env m body =
     (let ty = str_or_empty (jget body ''type''); key = str_or_empty (jget body ''model'')
      in case cap_get (mk_caps m) ty key of
           Some spec \<Rightarrow> Inr spec
         | None \<Rightarrow> Inl (mock_error 422 ''model_not_supported'' ''model unavailable for type'' JNull
                     (JStr (''mock-'' @ take 12 (me_sha1 env key))) None))"

definition validate_missing :: "obj \<Rightarrow> model_spec \<Rightarrow> string list" where
  "validate_missing body spec = filter (\<lambda>p. jget body p \<in> {JNull, JStr [], JArr []}) (m_required spec)"

definition validate_rejected :: "obj \<Rightarrow> model_spec \<Rightarrow> string list" where
  "validate_rejected body spec =
     sort (filter (\<lambda>k. k \<notin> set [''type'', ''model'', ''strict'', ''idempotency_key''] \<and>
       k \<notin> set (known_params spec) \<union> {''callback_url'', ''generation_type''}) (remdups (map fst body)))"

definition mock_validate :: "obj \<Rightarrow> model_spec \<Rightarrow> exn + string list \<times> string list" where
  "mock_validate body spec =
     (let missing = validate_missing body spec; rejected = validate_rejected body spec in
      if missing \<noteq> [] then
        Inl (mock_error 422 ''validation_failed'' ''required fields are missing''
          (JObj (map (\<lambda>p. (p, JArr [JStr ''required''])) missing)) (JStr ''mock-validation'') None)
      else if rejected \<noteq> [] \<and> jget body ''strict'' = JBool True then
        Inl (mock_error 422 ''validation_failed'' ''unknown parameters under strict''
          (JObj (map (\<lambda>p. (p, JArr [JStr ''unsupported''])) rejected)) (JStr ''mock-strict'') None)
      else Inr (missing, rejected))"

text \<open>\<open>_price\<close>: the cost and whether it is a reserve.\<close>

definition mock_price :: "mock \<Rightarrow> obj \<Rightarrow> model_spec \<Rightarrow> exn + money \<times> bool" where
  "mock_price m body spec =
     (if is_token_billed spec then
        (let tokens = (case as_num (jget body ''max_tokens'') of Some t \<Rightarrow> t | None \<Rightarrow> 1000);
             rate = (case map_of TOKEN_RATE_RUB (hd (py_split CHR ''-'' (m_key spec))) of
                       Some r \<Rightarrow> r | None \<Rightarrow> DEFAULT_TOKEN_RATE_RUB)
         in Inr (py_round 2 (tokens * rate * mk_price_multiplier m), True))
      else
        (let bounds = price_bounds_of spec body [''voice''] in
         if \<not> pb_known bounds then
           Inl (mock_error 422 ''validation_failed'' ''price depends on actual parameters'' JNull (JStr ''mock-price'') None)
         else Inr (py_round 2 (pb_indicative bounds * mk_price_multiplier m), False)))"

section \<open>Reading endpoints\<close>

definition mock_capabilities :: "obj mocked" where
  "mock_capabilities = andthen (record_call ''capabilities'' []) (gets mk_payload)"

definition mock_me :: "obj mocked" where
  "mock_me = andthen (record_call ''me'' []) (gets (\<lambda>m.
     [(''status'', JStr ''ok''),
      (''token'', JObj [(''id'', JInt 1), (''name'', JStr ''mock-token''), (''scopes'', JArr [JStr ''read'', JStr ''generate''])]),
      (''balance'', JFloat (mk_balance_rub m)), (''daily_spend_limit'', JFloat (mk_daily_limit_rub m)),
      (''daily_spent'', JFloat (mk_daily_spent_rub m))]))"

definition mock_balance :: "obj mocked" where
  "mock_balance = andthen (record_call ''balance'' []) (gets (\<lambda>m.
     [(''status'', JStr ''ok''), (''balance'', JFloat (mk_balance_rub m)), (''currency'', JStr ''RUB'')]))"

definition estimate_reply :: "mock \<Rightarrow> model_spec \<Rightarrow> string list \<Rightarrow> money \<Rightarrow> bool \<Rightarrow> obj" where
  "estimate_reply m spec rejected cost is_reserve =
     [(''valid'', JBool True), (''dry_run'', JBool True), (''model'', JStr (m_key spec)), (''type'', JStr (m_type spec)),
      (''estimated_cost_rub'', if is_reserve then JNull else JFloat cost),
      (''balance'', JObj [(''current'', JFloat (mk_balance_rub m)),
         (if is_reserve then ''after_reserve'' else ''after'', JFloat (py_round 2 (mk_balance_rub m - cost)))]),
      (''daily_spend'', JObj [(''limit'', JFloat (mk_daily_limit_rub m)), (''today'', JFloat (mk_daily_spent_rub m)),
         (''within_limit'', JBool (mk_daily_spent_rub m + cost \<le> mk_daily_limit_rub m))]),
      (''validation'', JObj [(''required_missing'', JArr [])]),
      (''rejected'', JArr (map JStr rejected)), (''valid_params'', JArr (map JStr (sort (known_params spec)))),
      (''warnings'', JArr [])]"

definition quote_request :: "mock_env \<Rightarrow> mock \<Rightarrow> obj \<Rightarrow> exn + model_spec \<times> string list \<times> money \<times> bool" where
  "quote_request env m body =
     (case spec_or_error env m body of
        Inl e \<Rightarrow> Inl e
      | Inr spec \<Rightarrow>
          (case mock_validate body spec of
             Inl e \<Rightarrow> Inl e
           | Inr (missing, rejected) \<Rightarrow>
               (case mock_price m body spec of
                  Inl e \<Rightarrow> Inl e
                | Inr (cost, is_reserve) \<Rightarrow> Inr (spec, rejected, cost, is_reserve))))"

definition mock_estimate :: "mock_env \<Rightarrow> obj \<Rightarrow> obj mocked" where
  "mock_estimate env body = andthen (record_call ''estimate'' body) (\<lambda>m.
     case quote_request env m body of
       Inl e \<Rightarrow> (Inl e, m)
     | Inr (spec, rejected, cost, is_reserve) \<Rightarrow> (Inr (estimate_reply m spec rejected cost is_reserve), m))"

section \<open>Generating\<close>

definition hashable :: "json \<Rightarrow> bool" where
  "hashable v = (case v of JArr xs \<Rightarrow> False | JObj o1 \<Rightarrow> False | _ \<Rightarrow> True)"

text \<open>Lookup in a Python dictionary whose keys are parsed values.\<close>

definition replay_of :: "mock \<Rightarrow> json \<Rightarrow> obj option" where
  "replay_of m key = map_option snd (find (\<lambda>(k, r). py_eq k key) (mk_by_idempotency m))"

definition mock_text :: "model_spec \<Rightarrow> obj \<Rightarrow> string option" where
  "mock_text spec body =
     (if m_type spec = ''text'' then
        Some (''[mock '' @ m_key spec @
          bytes [93, 32, 208, 160, 208, 181, 208, 186, 208, 187, 208, 176, 208, 188, 208, 189, 209, 139, 208, 185, 32,
            209, 130, 208, 181, 208, 186, 209, 129, 209, 130, 32, 208, 191, 208, 190, 32, 208, 177, 209, 128, 208, 184,
            209, 132, 209, 131, 58, 32]
          @ py_take 120 (case map_of body ''prompt'' of Some v \<Rightarrow> py_str v | None \<Rightarrow> []) @ bytes [226, 128, 166])
      else None)"

definition will_fail :: "mock \<Rightarrow> model_spec \<Rightarrow> obj \<Rightarrow> bool" where
  "will_fail m spec body \<longleftrightarrow> m_key spec \<in> set (mk_fail_models m) \<or>
     py_contains FAILURE_MARKER (case map_of body ''prompt'' of Some v \<Rightarrow> py_str v | None \<Rightarrow> [])"

definition task_id_of :: "int \<Rightarrow> string" where
  "task_id_of gid = ''task_mock_'' @ show_int gid"

text \<open>What happens once the money is taken: \<open>m\<close> is the state after the charge.\<close>

definition start_voiceover :: "mock \<Rightarrow> model_spec \<Rightarrow> obj \<Rightarrow> json \<Rightarrow> money \<Rightarrow> nat \<Rightarrow> obj \<times> mock" where
  "start_voiceover m spec body key cost prompt_len =
     (let vid = mk_next_id m;
          response = [(''status'', JStr ''processing''), (''long_voiceover'', JBool True), (''voiceover_id'', JInt vid),
            (''chars'', JInt (int prompt_len)), (''chunks'', JInt \<lceil>(of_nat prompt_len / 4800 :: rat)\<rceil>), (''cost'', JFloat cost),
            (''status_url'', JStr (''https://lk.vibemarketolog.ru/api/agent/voiceover/long/'' @ show_int vid))]
      in (response, m\<lparr>mk_next_id := vid + 1,
            mk_voiceovers := AList.update vid \<lparr>vo_voiceover_id = vid, vo_cost = cost, vo_will_fail = will_fail m spec body,
              vo_refunded = False, vo_chars = prompt_len\<rparr> (mk_voiceovers m),
            mk_by_idempotency := mk_by_idempotency m @ [(key, response)]\<rparr>))"

definition start_generation :: "mock \<Rightarrow> model_spec \<Rightarrow> obj \<Rightarrow> json \<Rightarrow> money \<Rightarrow> int \<Rightarrow> obj \<times> mock" where
  "start_generation m spec body key cost gid =
     (let text = mock_text spec body;
          base = [(''status'', JStr ''processing''), (''generation_id'', JInt gid), (''task_id'', JStr (task_id_of gid)),
            (''cost'', JFloat cost), (''balance_after'', JFloat (mk_balance_rub m))];
          response = (case text of
              Some t \<Rightarrow> if will_fail m spec body then base
                        else AList.update ''output'' (JStr t) (AList.update ''status'' (JStr ''complete'') base)
            | None \<Rightarrow> base)
      in (response, m\<lparr>mk_generations := AList.update gid
              \<lparr>gn_generation_id = gid, gn_task_id = task_id_of gid, gn_model = m_key spec, gn_type = m_type spec,
               gn_cost = cost, gn_will_fail = will_fail m spec body, gn_refunded = False, gn_created_at = mk_now m,
               gn_idempotency_key = key, gn_text = text\<rparr> (mk_generations m),
            mk_by_idempotency := mk_by_idempotency m @ [(key, response)]\<rparr>))"

definition actual_cost :: "money \<Rightarrow> bool \<Rightarrow> money" where
  "actual_cost reserve is_reserve = (if is_reserve then py_round 2 (reserve * TOKEN_ACTUAL_SHARE) else reserve)"

definition charge :: "money \<Rightarrow> mock \<Rightarrow> mock" where
  "charge cost m = m\<lparr>mk_balance_rub := py_round 2 (mk_balance_rub m - cost),
     mk_daily_spent_rub := py_round 2 (mk_daily_spent_rub m + cost)\<rparr>"

definition admit_generation :: "mock \<Rightarrow> model_spec \<Rightarrow> obj \<Rightarrow> json \<Rightarrow> money \<Rightarrow> bool \<Rightarrow> (exn + obj) \<times> mock" where
  "admit_generation m spec body key reserve is_reserve =
     (if reserve > mk_balance_rub m then
        (Inl (mock_error 402 ''insufficient_balance'' ''insufficient balance'' JNull (JStr ''mock-balance'') None), m)
      else if mk_daily_spent_rub m + reserve > mk_daily_limit_rub m then
        (Inl (mock_error 429 ''daily_spend_limit_exceeded'' ''daily limit reached'' JNull (JStr ''mock-daily'') (Some 3600)), m)
      else
        (let cost = actual_cost reserve is_reserve;
             gid = mk_next_id m;
             m1 = (charge cost m)\<lparr>mk_next_id := gid + 1\<rparr>;
             prompt_len = py_len (str_or_empty (jget body ''prompt''));
             (response, m2) = (if supports_long_voiceover spec \<and> int prompt_len > or_zero (prompt_max spec)
               then start_voiceover m1 spec body key cost prompt_len
               else start_generation m1 spec body key cost gid)
         in (Inr response, m2)))"

definition mock_generate :: "mock_env \<Rightarrow> obj \<Rightarrow> obj mocked" where
  "mock_generate env body = andthen (record_call ''generate'' body) (\<lambda>m.
     let key = jget body ''idempotency_key'' in
     if \<not> truthy key then
       (Inl (mock_error 422 ''validation_failed'' ''idempotency_key required'' JNull JNull None), m)
     else if \<not> hashable key then (Inl (TypeError (Text ''unhashable type'')), m)
     else case replay_of m key of
       Some response \<Rightarrow> (Inr response, m)
     | None \<Rightarrow>
         (case quote_request env m body of
            Inl e \<Rightarrow> (Inl e, m)
          | Inr (spec, rejected, reserve, is_reserve) \<Rightarrow> admit_generation m spec body key reserve is_reserve))"

section \<open>Status and refunds\<close>

definition polls_of :: "mock \<Rightarrow> int \<Rightarrow> nat" where
  "polls_of m i = (case map_of (mk_poll_counts m) i of Some n \<Rightarrow> n | None \<Rightarrow> 0)"

definition count_poll :: "int \<Rightarrow> mock \<Rightarrow> mock" where
  "count_poll i m = m\<lparr>mk_poll_counts := AList.update i (polls_of m i + 1) (mk_poll_counts m)\<rparr>"

definition pay_back :: "money \<Rightarrow> mock \<Rightarrow> mock" where
  "pay_back cost m = m\<lparr>mk_balance_rub := py_round 2 (mk_balance_rub m + cost),
     mk_daily_spent_rub := py_round 2 (mk_daily_spent_rub m - cost)\<rparr>"

definition refund_voiceover :: "int \<Rightarrow> voiceover \<Rightarrow> mock \<Rightarrow> mock" where
  "refund_voiceover vid v m = (if vo_refunded v then m
     else pay_back (vo_cost v) (m\<lparr>mk_voiceovers := AList.update vid (v\<lparr>vo_refunded := True\<rparr>) (mk_voiceovers m)\<rparr>))"

definition refund_generation :: "int \<Rightarrow> generation \<Rightarrow> mock \<Rightarrow> mock" where
  "refund_generation gid g m = (if gn_refunded g then m
     else pay_back (gn_cost g) (m\<lparr>mk_generations := AList.update gid (g\<lparr>gn_refunded := True\<rparr>) (mk_generations m)\<rparr>))"

text \<open>\<open>int(generation_id)\<close> of \<open>None\<close> raises.\<close>

definition mock_voiceover_status :: "int option \<Rightarrow> obj mocked" where
  "mock_voiceover_status voiceover_id =
     andthen (record_call ''voiceover_status'' [(''voiceover_id'', case voiceover_id of Some n \<Rightarrow> JInt n | None \<Rightarrow> JNull)]) (\<lambda>m.
     case voiceover_id of None \<Rightarrow> (Inl (TypeError (Text ''int() argument'')), m)
     | Some vid \<Rightarrow>
       (case map_of (mk_voiceovers m) vid of
          None \<Rightarrow> (Inl (mock_error 404 ''not_found'' ''voiceover not found'' JNull JNull None), m)
        | Some v \<Rightarrow>
            (let polls = polls_of m vid; m1 = count_poll vid m in
             if polls < mk_complete_after_polls m then
               (Inr [(''status'', JStr ''processing''), (''voiceover_id'', JInt vid), (''progress'', JInt (int polls))], m1)
             else if vo_will_fail v then
               (Inr [(''status'', JStr ''error''), (''voiceover_id'', JInt vid), (''cost'', JFloat 0),
                     (''error_message'', JStr ''mock: long voiceover failed, refunded''), (''refunded'', JBool True)],
                refund_voiceover vid v m1)
             else
               (Inr [(''status'', JStr ''complete''), (''voiceover_id'', JInt vid), (''cost'', JFloat (vo_cost v)),
                     (''chars'', JInt (int (vo_chars v))),
                     (''result_url'', JStr (''https://mock.local/voiceover/'' @ show_int vid @ ''.mp3'')),
                     (''display_url'', JStr (''https://lk.vibemarketolog.ru/files/voiceover/'' @ show_int vid @ ''?mock=1'')),
                     (''refunded'', JBool False)], m1))))"

definition status_base :: "mock_env \<Rightarrow> int \<Rightarrow> generation \<Rightarrow> obj" where
  "status_base env gid g = [(''generation_id'', JInt gid), (''task_id'', JStr (gn_task_id g)), (''model'', JStr (gn_model g)),
     (''type'', JStr (gn_type g)), (''created_at'', JStr (me_iso env (gn_created_at g))),
     (''updated_at'', JStr (me_iso env (gn_created_at g + 42)))]"

definition mock_generation_status :: "mock_env \<Rightarrow> int option \<Rightarrow> obj mocked" where
  "mock_generation_status env generation_id =
     andthen (record_call ''generation_status'' [(''generation_id'', case generation_id of Some n \<Rightarrow> JInt n | None \<Rightarrow> JNull)]) (\<lambda>m.
     case generation_id of None \<Rightarrow> (Inl (TypeError (Text ''int() argument'')), m)
     | Some gid \<Rightarrow>
       (case map_of (mk_generations m) gid of
          None \<Rightarrow> (Inl (mock_error 404 ''not_found'' ''generation not found'' JNull JNull None), m)
        | Some g \<Rightarrow>
            (let polls = polls_of m gid; m1 = count_poll gid m; base = status_base env gid g in
             if polls < mk_complete_after_polls m then
               (Inr (base @ [(''status'', JStr ''processing''), (''cost'', JFloat (gn_cost g))]), m1)
             else if gn_will_fail g then
               (Inr (base @ [(''status'', JStr ''error''), (''cost'', JFloat 0),
                   (''error_message'', JStr ''mock: provider failed, refunded''), (''refunded'', JBool True)]),
                refund_generation gid g m1)
             else (case gn_text g of
                 Some (c # cs) \<Rightarrow>
                   (Inr (base @ [(''status'', JStr ''complete''), (''cost'', JFloat (gn_cost g)), (''output'', JNull),
                      (''refunded'', JBool False)]), m1)
               | _ \<Rightarrow>
                   (Inr (base @ [(''status'', JStr ''complete''), (''cost'', JFloat (gn_cost g)),
                      (''result_url'', JStr (''https://mock.local/result/'' @ show_int gid @ ''.bin'')),
                      (''display_url'', JStr (''https://lk.vibemarketolog.ru/files/generation/'' @ show_int gid @ ''?mock=1'')),
                      (''refunded'', JBool False)]), m1)))))"

section \<open>Uploads\<close>

definition last_dot_part :: "string \<Rightarrow> string" where
  "last_dot_part s = last (py_split CHR ''.'' s)"

definition mock_upload_media :: "mock_env \<Rightarrow> string \<Rightarrow> string \<Rightarrow> string \<Rightarrow> obj mocked" where
  "mock_upload_media env filename content content_type =
     andthen (record_call ''upload_media'' [(''filename'', JStr filename), (''content_type'', JStr content_type),
         (''size_bytes'', JInt (int (length content)))]) (
     let digest = take 16 (me_sha256 env content);
         suffix = (if CHR ''.'' \<in> set filename then py_lower (last_dot_part filename) else ''bin'')
     in ret [(''status'', JStr ''ok''),
             (''url'', JStr (''https://lk.vibemarketolog.ru/files/media/'' @ digest @ ''.'' @ suffix @ ''?mock=1'')),
             (''expires_in_days'', JInt 7)])"

section \<open>The client\<close>

definition mock_client :: "mock_env \<Rightarrow> mock client" where
  "mock_client env =
     \<lparr>cl_now = (\<lambda>m. (mk_now m, m)), cl_sleep = (\<lambda>d m. m\<lparr>mk_now := mk_now m + d\<rparr>),
      cl_uuid = (\<lambda>m. (me_uuid env (mk_now m), m\<lparr>mk_now := mk_now m + 1\<rparr>)),
      cl_capabilities = mock_capabilities, cl_me = mock_me, cl_balance = mock_balance, cl_estimate = mock_estimate env,
      cl_generate = mock_generate env, cl_generation_status = mock_generation_status env,
      cl_voiceover_status = Some mock_voiceover_status, cl_wait_for_generation = None,
      cl_upload_media = mock_upload_media env\<rparr>"

end
