(* ===== verification/Replay.thy ===== *)
theory Replay
  imports Effects
begin

text \<open>
  The contract behind every idempotency key in the program: an answer that was given once is stored
  under its key, stays stored whatever happens next, and is given again for the same key at no
  cost. The mock platform and the HTTP API's own keys both provide it.
\<close>

locale replaying =
  fixes submit :: "'b \<Rightarrow> 's \<Rightarrow> ('e + 'r) \<times> 's"
    and key :: "'b \<Rightarrow> 'k"
    and stored :: "'s \<Rightarrow> 'k \<Rightarrow> 'r option"
    and spent :: "'s \<Rightarrow> 'm"
    and happens :: "'s \<Rightarrow> 's \<Rightarrow> bool"
  assumes submit_stores: "submit b s = (Inr r, t) \<Longrightarrow> stored t (key b) = Some r"
    and submit_replays: "stored s (key b) = Some r \<Longrightarrow> \<exists>t. submit b s = (Inr r, t) \<and> spent t = spent s"
    and stays_stored: "happens s t \<Longrightarrow> stored s k = Some r \<Longrightarrow> stored t k = Some r"
begin

lemma stays_stored_star: "happens\<^sup>*\<^sup>* s t \<Longrightarrow> stored s k = Some r \<Longrightarrow> stored t k = Some r"
  by (induction rule: rtranclp_induct) (auto intro: stays_stored)

text \<open>A retry with the same key, any time later, gets the first answer and pays nothing.\<close>

lemma retry_is_free:
  assumes "submit b s = (Inr r, t)" and "happens\<^sup>*\<^sup>* t u" and "key b' = key b"
  shows "\<exists>v. submit b' u = (Inr r, v) \<and> spent v = spent u"
  using submit_stores [OF assms(1)] stays_stored_star [OF assms(2)] submit_replays assms(3) by metis

end

end
