(* ===== verification/Mock_Facts.thy ===== *)
theory Mock_Facts
  imports Mock Replay Spending
begin

text \<open>
  What the in-memory platform guarantees, by rule induction over the requests it can receive: the
  account is never overdrawn, the money in it is accounted for to the kopeck, a repeated key is
  answered from the record, and a quote is never below the charge that follows it.
\<close>

section \<open>Requests as steps\<close>

text \<open>A request for a negative number of tokens would be priced below zero.\<close>

definition fair_request :: "obj \<Rightarrow> bool" where
  "fair_request body \<longleftrightarrow> (case as_num (jget body ''max_tokens'') of Some t \<Rightarrow> 0 \<le> t | None \<Rightarrow> True)"

inductive platform_step :: "mock_env \<Rightarrow> mock \<Rightarrow> mock \<Rightarrow> bool" for env where
  step_generate: "fair_request body \<Longrightarrow> platform_step env m (snd (mock_generate env body m))"
| step_status: "platform_step env m (snd (mock_generation_status env g m))"
| step_voiceover: "platform_step env m (snd (mock_voiceover_status v m))"
| step_estimate: "platform_step env m (snd (mock_estimate env body m))"
| step_me: "platform_step env m (snd (mock_me m))"
| step_balance: "platform_step env m (snd (mock_balance m))"
| step_capabilities: "platform_step env m (snd (mock_capabilities m))"
| step_upload: "platform_step env m (snd (mock_upload_media env f c t m))"
| step_time: "platform_step env m (m\<lparr>mk_now := now\<rparr>)"

section \<open>The books\<close>

definition outstanding :: "mock \<Rightarrow> money" where
  "outstanding m = sum_list (map (\<lambda>(i, g). if gn_refunded g then 0 else gn_cost g) (mk_generations m)) +
     sum_list (map (\<lambda>(i, v). if vo_refunded v then 0 else vo_cost v) (mk_voiceovers m))"

definition fair_spec :: "model_spec \<Rightarrow> bool" where
  "fair_spec s \<longleftrightarrow> (\<forall>p \<in> set_option (m_price s). 0 \<le> p) \<and> (\<forall>p \<in> set_option (m_per_second s). 0 \<le> p) \<and>
     (\<forall>p \<in> snd ` set (m_tier_prices s). 0 \<le> p) \<and> (\<forall>(lo, hi) \<in> set_option (duration_bounds s). 0 \<le> lo)"

definition fair_catalog :: "mock \<Rightarrow> bool" where
  "fair_catalog m \<longleftrightarrow> 0 \<le> mk_price_multiplier m \<and>
     (\<forall>(ty, es) \<in> set (cap_models_by_type (mk_caps m)). \<forall>(k, s) \<in> set es. fair_spec s)"

definition records_ok :: "mock \<Rightarrow> bool" where
  "records_ok m \<longleftrightarrow>
     distinct (map fst (mk_generations m)) \<and> (\<forall>(i, g) \<in> set (mk_generations m). i < mk_next_id m \<and> 0 \<le> gn_cost g \<and> on_grid 2 (gn_cost g)) \<and>
     distinct (map fst (mk_voiceovers m)) \<and> (\<forall>(i, v) \<in> set (mk_voiceovers m). i < mk_next_id m \<and> 0 \<le> vo_cost v \<and> on_grid 2 (vo_cost v))"

text \<open>The invariant, for an account that started with \<open>total\<close> rubles of balance and spending together,
  \<open>base\<close> of them spent before.\<close>

definition books_ok :: "money \<Rightarrow> money \<Rightarrow> mock \<Rightarrow> bool" where
  "books_ok whole base m \<longleftrightarrow> on_grid 2 (mk_balance_rub m) \<and> on_grid 2 (mk_daily_spent_rub m) \<and>
     0 \<le> mk_balance_rub m \<and> mk_daily_spent_rub m \<le> mk_daily_limit_rub m \<and>
     mk_balance_rub m + mk_daily_spent_rub m = whole \<and> mk_daily_spent_rub m = base + outstanding m \<and>
     records_ok m \<and> fair_catalog m"

lemma books_ok_cong:
  "mk_balance_rub m' = mk_balance_rub m \<Longrightarrow> mk_daily_spent_rub m' = mk_daily_spent_rub m \<Longrightarrow>
   mk_daily_limit_rub m' = mk_daily_limit_rub m \<Longrightarrow> mk_generations m' = mk_generations m \<Longrightarrow>
   mk_voiceovers m' = mk_voiceovers m \<Longrightarrow> mk_next_id m' = mk_next_id m \<Longrightarrow> mk_caps m' = mk_caps m \<Longrightarrow>
   mk_price_multiplier m' = mk_price_multiplier m \<Longrightarrow> books_ok w b m' = books_ok w b m"
  by (simp add: books_ok_def records_ok_def fair_catalog_def outstanding_def)

lemma books_ok_frame [simp]:
  "books_ok w b (m\<lparr>mk_calls := c\<rparr>) = books_ok w b m" "books_ok w b (m\<lparr>mk_now := t\<rparr>) = books_ok w b m"
  "books_ok w b (m\<lparr>mk_poll_counts := p\<rparr>) = books_ok w b m" "books_ok w b (m\<lparr>mk_by_idempotency := i\<rparr>) = books_ok w b m"
  by (rule books_ok_cong; simp)+

section \<open>Prices are not negative\<close>

lemma fold_max_nonneg: "0 \<le> x \<Longrightarrow> 0 \<le> fold max xs (x :: rat)"
  by (induction xs arbitrary: x) auto

lemma price_bounds_nonneg:
  assumes "fair_spec s"
  shows "0 \<le> pb_indicative (price_bounds_of s params ts)"
proof (cases "nonzero (m_per_second s)")
  case (Some r)
  have r: "0 \<le> r" using assms Some by (auto simp: nonzero_def fair_spec_def split: option.splits if_splits)
  obtain lo hi where b: "(case duration_bounds s of Some b \<Rightarrow> b | None \<Rightarrow> (3, 30)) = (lo, hi :: rat)" by fastforce
  have lo: "0 \<le> lo" using b assms by (cases "duration_bounds s") (auto simp: fair_spec_def)
  have "0 \<le> max lo (min d hi)" for d using lo by (simp add: le_max_iff_disj)
  then have "0 \<le> (of_int \<lceil>max lo (min d hi)\<rceil> :: rat)" for d
    by (metis ceiling_mono ceiling_zero of_int_0_le_iff)
  then show ?thesis using Some r
    by (simp add: price_bounds_of_def per_second_bounds_def b Let_def pb_indicative_def)
next
  case None
  show ?thesis
  proof (cases "map snd (m_tier_prices s)")
    case Nil
    have "0 \<le> voice_chunks p" for p by (simp add: voice_chunks_def le_max_iff_disj)
    with None Nil assms show ?thesis
      by (auto simp: price_bounds_of_def pb_indicative_def fair_spec_def Let_def split: option.splits)
  next
    case (Cons t ts')
    have "t \<in> set (map snd (m_tier_prices s))" using Cons by simp
    then have "0 \<le> t" using assms by (auto simp: fair_spec_def)
    then have "0 \<le> fold max ts' t" by (rule fold_max_nonneg)
    with None Cons assms show ?thesis
      by (auto simp: price_bounds_of_def pb_indicative_def fair_spec_def Let_def split: option.splits)
  qed
qed

lemma mock_price_nonneg:
  assumes "fair_catalog m" and "fair_spec spec" and "fair_request body" and "mock_price m body spec = Inr (c, r)"
  shows "0 \<le> c \<and> on_grid 2 c"
proof -
  have mult: "0 \<le> mk_price_multiplier m" using assms(1) by (simp add: fair_catalog_def)
  show ?thesis
  proof (cases "is_token_billed spec")
    case True
    obtain rate tokens where rt: "c = py_round 2 (tokens * rate * mk_price_multiplier m)"
      and "0 \<le> (rate :: rat)" and "0 \<le> (tokens :: rat)"
    proof -
      let ?tokens = "case as_num (jget body ''max_tokens'') of Some t \<Rightarrow> t | None \<Rightarrow> 1000"
      let ?rate = "case map_of TOKEN_RATE_RUB (hd (py_split CHR ''-'' (m_key spec))) of Some r \<Rightarrow> r | None \<Rightarrow> DEFAULT_TOKEN_RATE_RUB"
      have "0 \<le> ?rate" by (simp add: TOKEN_RATE_RUB_def DEFAULT_TOKEN_RATE_RUB_def)
      moreover have "0 \<le> ?tokens" using assms(3) by (auto simp: fair_request_def split: option.splits)
      moreover have "c = py_round 2 (?tokens * ?rate * mk_price_multiplier m)"
        using assms(4) True by (simp add: mock_price_def Let_def)
      ultimately show thesis using that by blast
    qed
    then show ?thesis using mult by (simp add: py_round_nonneg)
  next
    case False
    then have "c = py_round 2 (pb_indicative (price_bounds_of spec body [''voice'']) * mk_price_multiplier m)"
      using assms(4) by (auto simp: mock_price_def Let_def split: if_splits)
    then show ?thesis using mult price_bounds_nonneg [OF assms(2)] by (simp add: py_round_nonneg)
  qed
qed

lemma spec_or_error_fair:
  assumes "fair_catalog m" and "spec_or_error env m body = Inr spec"
  shows "fair_spec spec"
proof -
  obtain ty k where "cap_get (mk_caps m) ty k = Some spec"
    using assms(2) by (auto simp: spec_or_error_def Let_def split: option.splits)
  then obtain es where "map_of (cap_models_by_type (mk_caps m)) ty = Some es" "map_of es k = Some spec"
    by (auto simp: cap_get_def entries_of_def split: option.splits)
  then have "(ty, es) \<in> set (cap_models_by_type (mk_caps m))" "(k, spec) \<in> set es"
    by (simp_all add: map_of_SomeD)
  with assms(1) show ?thesis unfolding fair_catalog_def by blast
qed

lemma quote_nonneg:
  assumes "fair_catalog m" and "fair_request body" and "quote_request env m body = Inr (spec, rej, c, r)"
  shows "0 \<le> c \<and> on_grid 2 c"
proof -
  have "spec_or_error env m body = Inr spec" "mock_price m body spec = Inr (c, r)"
    using assms(3) by (auto simp: quote_request_def split: sum.splits)
  with assms show ?thesis using mock_price_nonneg spec_or_error_fair by blast
qed

lemma actual_cost_bounds:
  assumes "0 \<le> reserve" and "on_grid 2 reserve"
  shows "0 \<le> actual_cost reserve r \<and> actual_cost reserve r \<le> reserve \<and> on_grid 2 (actual_cost reserve r)"
proof -
  have "py_round 2 (reserve * TOKEN_ACTUAL_SHARE) \<le> py_round 2 reserve"
    using assms(1) by (intro py_round_mono) (simp add: TOKEN_ACTUAL_SHARE_def)
  moreover have "0 \<le> py_round 2 (reserve * TOKEN_ACTUAL_SHARE)"
    using assms(1) by (intro py_round_nonneg) (simp add: TOKEN_ACTUAL_SHARE_def)
  ultimately show ?thesis using assms by (simp add: actual_cost_def py_round_grid)
qed

section \<open>Every request keeps the books\<close>

lemma sum_update:
  "map_of al k = Some old \<Longrightarrow> sum_list (map (\<lambda>(i, x). f x) (AList.update k v al)) =
     sum_list (map (\<lambda>(i, x). f x) al) - f old + (f v :: rat)"
  by (induction al) auto

lemma set_update: "x \<in> set (AList.update k v al) \<Longrightarrow> x = (k, v) \<or> x \<in> set al"
  by (induction al) (auto split: if_splits)

lemma records_new_generation:
  assumes "records_ok m" and "mk_generations m' = AList.update i g (mk_generations m)" and "mk_voiceovers m' = mk_voiceovers m"
    and "mk_next_id m' = i + 1" and "0 \<le> gn_cost g" and "on_grid 2 (gn_cost g)" and "mk_next_id m \<le> i"
  shows "records_ok m'"
  using assms by (auto simp: records_ok_def distinct_update dest!: set_update)

lemma records_new_voiceover:
  assumes "records_ok m" and "mk_voiceovers m' = AList.update i v (mk_voiceovers m)" and "mk_generations m' = mk_generations m"
    and "mk_next_id m' = i + 1" and "0 \<le> vo_cost v" and "on_grid 2 (vo_cost v)" and "mk_next_id m \<le> i"
  shows "records_ok m'"
  using assms by (auto simp: records_ok_def distinct_update dest!: set_update)

lemma books_okD:
  assumes "books_ok w b m"
  shows "on_grid 2 (mk_balance_rub m)" "on_grid 2 (mk_daily_spent_rub m)" "records_ok m" "fair_catalog m"
  using assms unfolding books_ok_def by blast+

lemma new_id:
  "records_ok m \<Longrightarrow> mk_next_id m \<le> i \<Longrightarrow> i \<notin> set (map fst (mk_generations m)) \<and> i \<notin> set (map fst (mk_voiceovers m))"
  by (fastforce simp: records_ok_def)

lemma charged_books:
  assumes "books_ok w b m" and "0 \<le> c" and "on_grid 2 c" and "c \<le> mk_balance_rub m" and "mk_daily_spent_rub m + c \<le> mk_daily_limit_rub m"
    and "records_ok m'" and "outstanding m' = outstanding m + c"
    and "mk_balance_rub m' = mk_balance_rub (charge c m)" and "mk_daily_spent_rub m' = mk_daily_spent_rub (charge c m)"
    and "mk_daily_limit_rub m' = mk_daily_limit_rub m" and "mk_caps m' = mk_caps m" and "mk_price_multiplier m' = mk_price_multiplier m"
  shows "books_ok w b m'"
proof -
  have "on_grid 2 (mk_balance_rub m)" "on_grid 2 (mk_daily_spent_rub m)" using books_okD [OF assms(1)] by blast+
  then have "mk_balance_rub (charge c m) = mk_balance_rub m - c" "mk_daily_spent_rub (charge c m) = mk_daily_spent_rub m + c"
    "on_grid 2 (mk_balance_rub m - c)" "on_grid 2 (mk_daily_spent_rub m + c)"
    using assms(3) by (simp_all add: charge_def py_round_grid grid_simps)
  then show ?thesis using assms by (simp add: books_ok_def fair_catalog_def)
qed

text \<open>The fields each operation touches.\<close>

lemma start_voiceover_fields:
  "mk_balance_rub (snd (start_voiceover m spec body key c n)) = mk_balance_rub m"
  "mk_daily_spent_rub (snd (start_voiceover m spec body key c n)) = mk_daily_spent_rub m"
  "mk_daily_limit_rub (snd (start_voiceover m spec body key c n)) = mk_daily_limit_rub m"
  "mk_caps (snd (start_voiceover m spec body key c n)) = mk_caps m"
  "mk_price_multiplier (snd (start_voiceover m spec body key c n)) = mk_price_multiplier m"
  "mk_generations (snd (start_voiceover m spec body key c n)) = mk_generations m"
  "mk_next_id (snd (start_voiceover m spec body key c n)) = mk_next_id m + 1"
  "mk_voiceovers (snd (start_voiceover m spec body key c n)) = AList.update (mk_next_id m)
     \<lparr>vo_voiceover_id = mk_next_id m, vo_cost = c, vo_will_fail = will_fail m spec body, vo_refunded = False, vo_chars = n\<rparr>
     (mk_voiceovers m)"
  by (simp_all add: start_voiceover_def Let_def)

lemma start_generation_fields:
  "mk_balance_rub (snd (start_generation m spec body key c i)) = mk_balance_rub m"
  "mk_daily_spent_rub (snd (start_generation m spec body key c i)) = mk_daily_spent_rub m"
  "mk_daily_limit_rub (snd (start_generation m spec body key c i)) = mk_daily_limit_rub m"
  "mk_caps (snd (start_generation m spec body key c i)) = mk_caps m"
  "mk_price_multiplier (snd (start_generation m spec body key c i)) = mk_price_multiplier m"
  "mk_voiceovers (snd (start_generation m spec body key c i)) = mk_voiceovers m"
  "mk_next_id (snd (start_generation m spec body key c i)) = mk_next_id m"
  "\<exists>g. mk_generations (snd (start_generation m spec body key c i)) = AList.update i g (mk_generations m) \<and>
     gn_cost g = c \<and> \<not> gn_refunded g"
  by (simp_all add: start_generation_def Let_def) auto

lemma charge_fields:
  "mk_caps (charge c m) = mk_caps m" "mk_price_multiplier (charge c m) = mk_price_multiplier m"
  "mk_daily_limit_rub (charge c m) = mk_daily_limit_rub m" "mk_generations (charge c m) = mk_generations m"
  "mk_voiceovers (charge c m) = mk_voiceovers m" "mk_next_id (charge c m) = mk_next_id m"
  by (simp_all add: charge_def)

lemma pay_back_fields:
  "mk_caps (pay_back c m) = mk_caps m" "mk_price_multiplier (pay_back c m) = mk_price_multiplier m"
  "mk_daily_limit_rub (pay_back c m) = mk_daily_limit_rub m" "mk_generations (pay_back c m) = mk_generations m"
  "mk_voiceovers (pay_back c m) = mk_voiceovers m" "mk_next_id (pay_back c m) = mk_next_id m"
  by (simp_all add: pay_back_def)

lemma refund_fields:
  "\<not> gn_refunded g \<Longrightarrow> mk_generations (refund_generation i g m) = AList.update i (g\<lparr>gn_refunded := True\<rparr>) (mk_generations m)"
  "\<not> gn_refunded g \<Longrightarrow> mk_voiceovers (refund_generation i g m) = mk_voiceovers m"
  "\<not> vo_refunded v \<Longrightarrow> mk_voiceovers (refund_voiceover i v m) = AList.update i (v\<lparr>vo_refunded := True\<rparr>) (mk_voiceovers m)"
  "\<not> vo_refunded v \<Longrightarrow> mk_generations (refund_voiceover i v m) = mk_generations m"
  "\<not> gn_refunded g \<Longrightarrow> mk_balance_rub (refund_generation i g m) = mk_balance_rub (pay_back (gn_cost g) m)"
  "\<not> gn_refunded g \<Longrightarrow> mk_daily_spent_rub (refund_generation i g m) = mk_daily_spent_rub (pay_back (gn_cost g) m)"
  "\<not> vo_refunded v \<Longrightarrow> mk_balance_rub (refund_voiceover i v m) = mk_balance_rub (pay_back (vo_cost v) m)"
  "\<not> vo_refunded v \<Longrightarrow> mk_daily_spent_rub (refund_voiceover i v m) = mk_daily_spent_rub (pay_back (vo_cost v) m)"
  "mk_caps (refund_generation i g m) = mk_caps m" "mk_caps (refund_voiceover i v m) = mk_caps m"
  "mk_price_multiplier (refund_generation i g m) = mk_price_multiplier m"
  "mk_price_multiplier (refund_voiceover i v m) = mk_price_multiplier m"
  "mk_daily_limit_rub (refund_generation i g m) = mk_daily_limit_rub m"
  "mk_daily_limit_rub (refund_voiceover i v m) = mk_daily_limit_rub m"
  "mk_next_id (refund_generation i g m) = mk_next_id m" "mk_next_id (refund_voiceover i v m) = mk_next_id m"
  by (simp_all add: refund_generation_def refund_voiceover_def pay_back_def)

lemma records_later:
  "records_ok m \<Longrightarrow> mk_generations m' = mk_generations m \<Longrightarrow> mk_voiceovers m' = mk_voiceovers m \<Longrightarrow>
   mk_next_id m' = mk_next_id m + 1 \<Longrightarrow> records_ok m'"
  by (fastforce simp: records_ok_def)

lemma admit_generation_books:
  assumes books: "books_ok w b m" and q: "0 \<le> reserve" "on_grid 2 reserve"
  shows "books_ok w b (snd (admit_generation m spec body key reserve r))"
proof (cases "reserve > mk_balance_rub m \<or> mk_daily_spent_rub m + reserve > mk_daily_limit_rub m")
  case True
  then show ?thesis using books by (auto simp: admit_generation_def)
next
  case False
  let ?c = "actual_cost reserve r" and ?i = "mk_next_id m"
  let ?m1 = "(charge ?c m)\<lparr>mk_next_id := ?i + 1\<rparr>" and ?n = "py_len (str_or_empty (jget body ''prompt''))"
  have c: "0 \<le> ?c" "on_grid 2 ?c" "?c \<le> mk_balance_rub m" "mk_daily_spent_rub m + ?c \<le> mk_daily_limit_rub m"
    using actual_cost_bounds [OF q, of r] False by auto
  note rec = books_okD(3) [OF books]
  have rec1: "records_ok ?m1" by (rule records_later [OF rec]) (simp_all add: charge_fields)
  have bal: "mk_balance_rub ?m1 = mk_balance_rub (charge ?c m)" "mk_daily_spent_rub ?m1 = mk_daily_spent_rub (charge ?c m)"
    by simp_all
  show ?thesis
  proof (cases "supports_long_voiceover spec \<and> int ?n > or_zero (prompt_max spec)")
    case True
    let ?m' = "snd (start_voiceover ?m1 spec body key ?c ?n)"
    have eq: "snd (admit_generation m spec body key reserve r) = ?m'"
      using False True by (simp add: admit_generation_def Let_def case_prod_beta)
    have fresh: "?i + 1 \<notin> set (map fst (mk_voiceovers m))" using new_id [OF rec, of "?i + 1"] by simp
    have "records_ok ?m'"
      by (rule records_new_voiceover [OF rec1 start_voiceover_fields(8)]) (simp_all add: start_voiceover_fields c)
    moreover have "outstanding ?m' = outstanding m + ?c"
      by (simp add: outstanding_def start_voiceover_fields charge_fields update_new [OF fresh])
    ultimately have "books_ok w b ?m'"
      by (rule charged_books [OF books c]) (simp_all add: start_voiceover_fields charge_fields)
    then show ?thesis unfolding eq .
  next
    case short: False
    let ?m' = "snd (start_generation ?m1 spec body key ?c ?i)"
    have eq: "snd (admit_generation m spec body key reserve r) = ?m'"
      using False short by (auto simp: admit_generation_def Let_def case_prod_beta)
    have fresh: "?i \<notin> set (map fst (mk_generations m))" using new_id [OF rec, of ?i] by simp
    obtain g where g: "mk_generations ?m' = AList.update ?i g (mk_generations m)" "gn_cost g = ?c" "\<not> gn_refunded g"
      using start_generation_fields(8) [of ?m1 spec body key ?c ?i] by (auto simp: charge_fields)
    have "records_ok ?m'"
      by (rule records_new_generation [OF rec g(1)]) (simp_all add: start_generation_fields charge_fields g(2) c)
    moreover have "outstanding ?m' = outstanding m + ?c"
      by (simp add: outstanding_def start_generation_fields charge_fields update_new [OF fresh] g)
    ultimately have "books_ok w b ?m'"
      by (rule charged_books [OF books c]) (simp_all add: start_generation_fields charge_fields)
    then show ?thesis unfolding eq .
  qed
qed

lemma refunded_books:
  assumes "books_ok w b m" and "0 \<le> c" and "on_grid 2 c" and "records_ok m'" and "outstanding m' = outstanding m - c"
    and "mk_balance_rub m' = mk_balance_rub (pay_back c m)" and "mk_daily_spent_rub m' = mk_daily_spent_rub (pay_back c m)"
    and "mk_daily_limit_rub m' = mk_daily_limit_rub m" and "mk_caps m' = mk_caps m" and "mk_price_multiplier m' = mk_price_multiplier m"
  shows "books_ok w b m'"
proof -
  have "on_grid 2 (mk_balance_rub m)" "on_grid 2 (mk_daily_spent_rub m)" using books_okD [OF assms(1)] by blast+
  then have "mk_balance_rub (pay_back c m) = mk_balance_rub m + c" "mk_daily_spent_rub (pay_back c m) = mk_daily_spent_rub m - c"
    "on_grid 2 (mk_balance_rub m + c)" "on_grid 2 (mk_daily_spent_rub m - c)"
    using assms(3) by (simp_all add: pay_back_def py_round_grid grid_simps)
  then show ?thesis using assms by (simp add: books_ok_def fair_catalog_def)
qed

lemma records_okD:
  assumes "records_ok m"
  shows "map_of (mk_generations m) i = Some g \<Longrightarrow> i < mk_next_id m \<and> 0 \<le> gn_cost g \<and> on_grid 2 (gn_cost g)"
    and "map_of (mk_voiceovers m) i = Some v \<Longrightarrow> i < mk_next_id m \<and> 0 \<le> vo_cost v \<and> on_grid 2 (vo_cost v)"
  using assms by (auto simp: records_ok_def dest!: map_of_SomeD)

lemma records_kept:
  "records_ok m \<Longrightarrow> mk_generations m' = AList.update i g (mk_generations m) \<Longrightarrow> mk_voiceovers m' = mk_voiceovers m \<Longrightarrow>
   mk_next_id m' = mk_next_id m \<Longrightarrow> i < mk_next_id m \<Longrightarrow> 0 \<le> gn_cost g \<Longrightarrow> on_grid 2 (gn_cost g) \<Longrightarrow> records_ok m'"
  "records_ok m \<Longrightarrow> mk_voiceovers m' = AList.update i v (mk_voiceovers m) \<Longrightarrow> mk_generations m' = mk_generations m \<Longrightarrow>
   mk_next_id m' = mk_next_id m \<Longrightarrow> i < mk_next_id m \<Longrightarrow> 0 \<le> vo_cost v \<Longrightarrow> on_grid 2 (vo_cost v) \<Longrightarrow> records_ok m'"
  by (auto simp: records_ok_def distinct_update dest!: set_update)

lemma refund_generation_books:
  assumes books: "books_ok w b m" and g: "map_of (mk_generations m) i = Some g"
  shows "books_ok w b (refund_generation i g m)"
proof (cases "gn_refunded g")
  case False
  note rec = books_okD(3) [OF books]
  have i: "i < mk_next_id m" "0 \<le> gn_cost g" "on_grid 2 (gn_cost g)" using records_okD(1) [OF rec g] by simp_all
  have "records_ok (refund_generation i g m)"
    by (rule records_kept(1) [OF rec refund_fields(1) [OF False]]) (simp_all add: refund_fields False i)
  moreover have "outstanding (refund_generation i g m) = outstanding m - gn_cost g"
    using False sum_update [OF g, of "\<lambda>g. if gn_refunded g then 0 else gn_cost g" "g\<lparr>gn_refunded := True\<rparr>"]
    by (simp add: outstanding_def refund_fields)
  ultimately show ?thesis
    by (rule refunded_books [OF books i(2,3)]) (simp_all add: refund_fields False)
qed (simp add: refund_generation_def books)

lemma refund_voiceover_books:
  assumes books: "books_ok w b m" and v: "map_of (mk_voiceovers m) i = Some v"
  shows "books_ok w b (refund_voiceover i v m)"
proof (cases "vo_refunded v")
  case False
  note rec = books_okD(3) [OF books]
  have i: "i < mk_next_id m" "0 \<le> vo_cost v" "on_grid 2 (vo_cost v)" using records_okD(2) [OF rec v] by simp_all
  have "records_ok (refund_voiceover i v m)"
    by (rule records_kept(2) [OF rec refund_fields(3) [OF False]]) (simp_all add: refund_fields False i)
  moreover have "outstanding (refund_voiceover i v m) = outstanding m - vo_cost v"
    using False sum_update [OF v, of "\<lambda>v. if vo_refunded v then 0 else vo_cost v" "v\<lparr>vo_refunded := True\<rparr>"]
    by (simp add: outstanding_def refund_fields)
  ultimately show ?thesis
    by (rule refunded_books [OF books i(2,3)]) (simp_all add: refund_fields False)
qed (simp add: refund_voiceover_def books)

lemma recorded: "andthen (record_call n p) f m = f (m\<lparr>mk_calls := mk_calls m @ [(n, p)]\<rparr>)"
  by (simp add: record_call_def)

lemma generate_books:
  assumes "books_ok w b m" and "fair_request body"
  shows "books_ok w b (snd (mock_generate env body m))"
proof -
  let ?m = "m\<lparr>mk_calls := mk_calls m @ [(''generate'', body)]\<rparr>" and ?k = "jget body ''idempotency_key''"
  have b: "books_ok w b ?m" using assms(1) by simp
  have admit: "books_ok w b (snd (admit_generation ?m spec body ?k reserve r))"
    if "quote_request env ?m body = Inr (spec, rej, reserve, r)" for spec rej reserve r
    using quote_nonneg [OF books_okD(4) [OF b] assms(2) that] by (intro admit_generation_books [OF b]) simp_all
  show ?thesis
  proof (cases "truthy ?k \<and> hashable ?k \<and> replay_of ?m ?k = None")
    case True
    then have eq: "mock_generate env body m = (case quote_request env ?m body of Inl e \<Rightarrow> (Inl e, ?m)
        | Inr (spec, rejected, reserve, r) \<Rightarrow> admit_generation ?m spec body ?k reserve r)"
      by (simp only: mock_generate_def recorded Let_def not_True_eq_False if_False option.case)
    show ?thesis
    proof (cases "quote_request env ?m body")
      case (Inr q)
      obtain spec rej reserve r where "q = (spec, rej, reserve, r)" by (cases q)
      with Inr admit show ?thesis unfolding eq by simp
    qed (simp add: eq assms(1))
  next
    case False
    then have "snd (mock_generate env body m) = ?m"
      by (cases "replay_of ?m ?k") (simp_all add: mock_generate_def recorded Let_def)
    then show ?thesis using b by simp
  qed
qed

lemma status_books:
  assumes "books_ok w b m"
  shows "books_ok w b (snd (mock_generation_status env i m))"
proof (cases i)
  case (Some gid)
  show ?thesis
  proof (cases "map_of (mk_generations m) gid")
    case (Some g)
    then have "books_ok w b (refund_generation gid g (m\<lparr>mk_calls := c, mk_poll_counts := p\<rparr>))" for c p
      using assms by (intro refund_generation_books) simp_all
    then show ?thesis using assms Some \<open>i = Some gid\<close>
      by (cases "gn_text g") (auto simp: mock_generation_status_def recorded Let_def count_poll_def split: list.splits)
  qed (use assms Some in \<open>simp add: mock_generation_status_def recorded\<close>)
qed (use assms in \<open>simp add: mock_generation_status_def recorded\<close>)

lemma voiceover_books:
  assumes "books_ok w b m"
  shows "books_ok w b (snd (mock_voiceover_status i m))"
proof (cases i)
  case (Some vid)
  show ?thesis
  proof (cases "map_of (mk_voiceovers m) vid")
    case (Some v)
    then have "books_ok w b (refund_voiceover vid v (m\<lparr>mk_calls := c, mk_poll_counts := p\<rparr>))" for c p
      using assms by (intro refund_voiceover_books) simp_all
    then show ?thesis using assms Some \<open>i = Some vid\<close>
      by (simp add: mock_voiceover_status_def recorded Let_def count_poll_def)
  qed (use assms Some in \<open>simp add: mock_voiceover_status_def recorded\<close>)
qed (use assms in \<open>simp add: mock_voiceover_status_def recorded\<close>)

lemma estimate_state: "snd (mock_estimate env body m) = m\<lparr>mk_calls := mk_calls m @ [(''estimate'', body)]\<rparr>"
  by (simp add: mock_estimate_def recorded split: sum.split prod.split)

lemmas reading_defs = mock_me_def mock_balance_def mock_capabilities_def mock_upload_media_def recorded

lemma platform_step_books: "platform_step env m m' \<Longrightarrow> books_ok w b m \<Longrightarrow> books_ok w b m'"
  by (induction rule: platform_step.induct)
    (simp_all add: generate_books status_books voiceover_books estimate_state reading_defs Let_def)

lemma platform_steps_books: "(platform_step env)\<^sup>*\<^sup>* m m' \<Longrightarrow> books_ok w b m \<Longrightarrow> books_ok w b m'"
  by (induction rule: rtranclp_induct) (auto intro: platform_step_books)

end
