(* ===== verification/Platform.thy ===== *)
theory Platform
  imports Mock_Facts Shop
begin

text \<open>
  The properties of the in-memory platform: its account, its replayed keys, its quotes. Each is
  shown on a mock that opened with \<open>demo_mock\<close>, one hundred rubles and a catalog of two models.
\<close>

section \<open>Opening an account\<close>

definition opened :: "mock \<Rightarrow> bool" where
  "opened m \<longleftrightarrow> mk_generations m = [] \<and> mk_voiceovers m = [] \<and> 0 \<le> mk_balance_rub m \<and> on_grid 2 (mk_balance_rub m) \<and>
     on_grid 2 (mk_daily_spent_rub m) \<and> mk_daily_spent_rub m \<le> mk_daily_limit_rub m \<and> fair_catalog m"

lemma opened_books:
  "opened m \<Longrightarrow> books_ok (mk_balance_rub m + mk_daily_spent_rub m) (mk_daily_spent_rub m) m"
  by (simp add: opened_def books_ok_def records_ok_def outstanding_def)

lemma reached_books:
  "opened m0 \<Longrightarrow> (platform_step env)\<^sup>*\<^sup>* m0 m \<Longrightarrow>
   books_ok (mk_balance_rub m0 + mk_daily_spent_rub m0) (mk_daily_spent_rub m0) m"
  by (rule platform_steps_books [OF _ opened_books])

section \<open>Keys are answered once\<close>

definition answered :: "mock \<Rightarrow> json \<Rightarrow> obj option" where
  "answered m key = (if truthy key \<and> hashable key then replay_of m key else None)"

definition account_of :: "mock \<Rightarrow> money \<times> money \<times> (int \<times> generation) list \<times> (int \<times> voiceover) list" where
  "account_of m = (mk_balance_rub m, mk_daily_spent_rub m, mk_generations m, mk_voiceovers m)"

lemma py_eq_refl_hashable: "hashable k \<Longrightarrow> py_eq k k"
  by (cases k) (auto simp: hashable_def)

lemma admit_generation_keys:
  assumes "admit_generation m spec body key reserve r = (x, m')"
  shows "(case x of Inl e \<Rightarrow> m' = m | Inr resp \<Rightarrow> mk_by_idempotency m' = mk_by_idempotency m @ [(key, resp)])"
  using assms
  by (auto simp: admit_generation_def start_voiceover_def start_generation_def charge_def Let_def split: if_splits)

lemma generate_keys:
  assumes "mock_generate env body m = (x, m')" and "key = jget body ''idempotency_key''"
  shows "mk_by_idempotency m' = mk_by_idempotency m \<and> (\<forall>resp. x = Inr resp \<longrightarrow> answered m key = Some resp) \<or>
    (\<exists>resp. x = Inr resp \<and> truthy key \<and> hashable key \<and> answered m key = None \<and>
       mk_by_idempotency m' = mk_by_idempotency m @ [(key, resp)])"
proof -
  let ?m = "m\<lparr>mk_calls := mk_calls m @ [(''generate'', body)]\<rparr>"
  have same: "replay_of ?m k = replay_of m k" for k by (simp add: replay_of_def)
  show ?thesis
  proof (cases "truthy key \<and> hashable key \<and> replay_of m key = None")
    case True
    then have eq: "(x, m') = (case quote_request env ?m body of Inl e \<Rightarrow> (Inl e, ?m)
        | Inr (spec, rejected, reserve, r) \<Rightarrow> admit_generation ?m spec body key reserve r)"
      using assms by (simp only: mock_generate_def recorded Let_def not_True_eq_False if_False option.case same)
    show ?thesis
    proof (cases "quote_request env ?m body")
      case (Inl e)
      then show ?thesis using eq by simp
    next
      case (Inr q)
      obtain spec rej reserve r where q: "q = (spec, rej, reserve, r)" by (cases q)
      have "admit_generation ?m spec body key reserve r = (x, m')" using eq Inr q by simp
      from admit_generation_keys [OF this] True show ?thesis by (cases x) (auto simp: answered_def)
    qed
  next
    case False
    then show ?thesis using assms
      by (cases "replay_of m key") (auto simp: mock_generate_def recorded Let_def same answered_def split: if_splits)
  qed
qed

lemma status_keys:
  "mk_by_idempotency (snd (mock_generation_status env g m)) = mk_by_idempotency m"
  "mk_by_idempotency (snd (mock_voiceover_status v m)) = mk_by_idempotency m"
  by (auto simp: mock_generation_status_def mock_voiceover_status_def recorded Let_def count_poll_def refund_generation_def
      refund_voiceover_def pay_back_def split: option.split list.split)

lemma generate_stores:
  assumes "mock_generate env body m = (Inr r, m')"
  shows "answered m' (jget body ''idempotency_key'') = Some r"
  using generate_keys [OF assms refl]
  by (auto simp: answered_def replay_of_def find_append py_eq_refl_hashable split: if_splits)

lemma generate_replays:
  assumes "answered m (jget body ''idempotency_key'') = Some r"
  shows "\<exists>m'. mock_generate env body m = (Inr r, m') \<and> account_of m' = account_of m"
  using assms by (auto simp: answered_def mock_generate_def recorded Let_def replay_of_def account_of_def split: if_splits)

lemma answered_stays:
  assumes "platform_step env m m'" and "answered m key = Some r"
  shows "answered m' key = Some r"
proof -
  have "\<exists>new. mk_by_idempotency m' = mk_by_idempotency m @ new"
    using assms(1)
  proof cases
    case (step_generate body)
    then show ?thesis using generate_keys [OF surjective_pairing refl, of env body m] by auto
  qed (simp_all add: status_keys estimate_state reading_defs Let_def)
  then show ?thesis using assms(2) by (auto simp: answered_def replay_of_def find_append split: if_splits option.splits)
qed

interpretation keys: replaying "mock_generate env" "\<lambda>body. jget body ''idempotency_key''" answered account_of "platform_step env" for env
  by unfold_locales (auto intro: generate_stores generate_replays answered_stays)

section \<open>A quote covers the charge\<close>

lemma on_grid_2_4: "on_grid 2 x \<Longrightarrow> on_grid 4 x"
proof -
  assume "on_grid 2 x"
  then obtain k where "x = of_int k / 10 ^ 2" by (auto simp: on_grid_iff)
  then have "x = of_int (k * 100) / 10 ^ 4" by simp
  then show ?thesis unfolding on_grid_iff by blast
qed

lemma quote_frame: "quote_request env (m\<lparr>mk_calls := c\<rparr>) body = quote_request env m body"
proof -
  have "mock_price (m\<lparr>mk_calls := c\<rparr>) = mock_price m" "spec_or_error env (m\<lparr>mk_calls := c\<rparr>) = spec_or_error env m"
    by (rule ext | simp add: mock_price_def spec_or_error_def Let_def)+
  then show ?thesis by (simp only: quote_request_def)
qed

lemma estimate_reads:
  assumes "mock_estimate env body m = (Inr q, m1)" and "books_ok w b m" and "fair_request body"
  shows "\<exists>spec rej c r. quote_request env m body = Inr (spec, rej, c, r) \<and> 0 \<le> c \<and> on_grid 2 c \<and>
     estimated_cost_of q = Some (c, if r then ''reserve'' else ''estimated_cost_rub'') \<and>
     m1 = m\<lparr>mk_calls := mk_calls m @ [(''estimate'', body)]\<rparr>"
proof -
  let ?m = "m\<lparr>mk_calls := mk_calls m @ [(''estimate'', body)]\<rparr>"
  have same: "quote_request env ?m body = quote_request env m body" by (rule quote_frame)
  have e: "mock_estimate env body m = (case quote_request env m body of Inl e \<Rightarrow> (Inl e, ?m)
      | Inr (spec, rejected, cost, r) \<Rightarrow> (Inr (estimate_reply ?m spec rejected cost r), ?m))"
    by (simp only: mock_estimate_def recorded same)
  obtain spec rej c r where quote: "quote_request env m body = Inr (spec, rej, c, r)"
  proof (cases "quote_request env m body")
    case (Inl x)
    with e assms(1) show ?thesis by simp
  next
    case (Inr x)
    with that show ?thesis by (cases x) simp
  qed
  then have q: "q = estimate_reply ?m spec rej c r" and m1: "m1 = ?m" using e assms(1) by simp_all
  have c: "0 \<le> c" "on_grid 2 c" using quote_nonneg [OF books_okD(4) [OF assms(2)] assms(3) quote] by auto
  have bal: "on_grid 2 (mk_balance_rub m)" using assms(2) by (rule books_okD)
  have r2: "py_round 2 (mk_balance_rub m - c) = mk_balance_rub m - c" using bal c by (simp add: py_round_grid grid_simps)
  have r4: "py_round 4 c = c" using c by (simp add: py_round_grid on_grid_2_4)
  have "estimated_cost_of q = Some (c, if r then ''reserve'' else ''estimated_cost_rub'')"
    using c(1) by (simp add: q estimate_reply_def estimated_cost_of_def r2 r4 Let_def)
  then show ?thesis using quote c m1 by blast
qed

lemma admit_generation_charge:
  assumes "admit_generation m spec body key reserve r = (Inr resp, m')" and "on_grid 2 (mk_balance_rub m)" and "on_grid 2 reserve" and "0 \<le> reserve"
  shows "mk_balance_rub m' = mk_balance_rub m - actual_cost reserve r"
  using assms actual_cost_bounds [OF assms(4,3), of r]
  by (auto simp: admit_generation_def start_voiceover_fields start_generation_fields charge_def Let_def case_prod_beta
      py_round_grid grid_simps split: if_splits prod.splits)

lemma generate_charge:
  assumes "mock_generate env body m = (Inr resp, m')" and "quote_request env m body = Inr (spec, rej, c, r)"
    and "on_grid 2 (mk_balance_rub m)" and "0 \<le> c" and "on_grid 2 c"
  shows "mk_balance_rub m' = mk_balance_rub m \<and> answered m (jget body ''idempotency_key'') \<noteq> None \<or>
    mk_balance_rub m' = mk_balance_rub m - actual_cost c r"
proof (cases "answered m (jget body ''idempotency_key'')")
  case (Some x)
  with generate_replays [OF this, of env] assms(1) show ?thesis by (auto simp: account_of_def)
next
  case None
  let ?m = "m\<lparr>mk_calls := mk_calls m @ [(''generate'', body)]\<rparr>" and ?k = "jget body ''idempotency_key''"
  have "replay_of ?m ?k = replay_of m ?k" by (simp add: replay_of_def)
  then have "admit_generation ?m spec body ?k c r = (Inr resp, m')"
    using assms(1,2) None
    by (auto simp: mock_generate_def recorded Let_def answered_def quote_frame split: if_splits option.splits)
  from admit_generation_charge [OF this] assms(3-5) show ?thesis by simp
qed

section \<open>A refund is paid once\<close>

lemma refunded_stays_generate:
  assumes "records_ok m" and "map_of (mk_generations m) gid = Some g"
  shows "map_of (mk_generations (snd (mock_generate env body m))) gid = Some g"
proof -
  have old: "gid < mk_next_id m" using records_okD(1) [OF assms] by simp
  let ?m = "m\<lparr>mk_calls := mk_calls m @ [(''generate'', body)]\<rparr>"
  have admit: "map_of (mk_generations (snd (admit_generation ?m spec body key reserve r))) gid = Some g" for spec key reserve r
    using old assms(2)
    by (auto simp: admit_generation_def start_voiceover_def start_generation_def charge_def Let_def update_conv')
  show ?thesis
    using assms(2) admit
    by (auto simp: mock_generate_def recorded Let_def split: option.split sum.split prod.split)
qed

definition is_refunded :: "mock \<Rightarrow> int \<Rightarrow> bool" where
  "is_refunded m gid \<longleftrightarrow> (\<exists>g. map_of (mk_generations m) gid = Some g \<and> gn_refunded g)"

lemma status_state:
  "snd (mock_generation_status env i m) =
     (let m1 = m\<lparr>mk_calls := mk_calls m @ [(''generation_status'', [(''generation_id'', case i of Some n \<Rightarrow> JInt n | None \<Rightarrow> JNull)])]\<rparr>
      in case i of None \<Rightarrow> m1
      | Some gid \<Rightarrow> (case map_of (mk_generations m) gid of None \<Rightarrow> m1
          | Some g \<Rightarrow> if polls_of m gid < mk_complete_after_polls m \<or> \<not> gn_will_fail g then count_poll gid m1
                     else refund_generation gid g (count_poll gid m1)))"
proof -
  have p: "polls_of (m\<lparr>mk_calls := c\<rparr>) gid = polls_of m gid" for c gid by (simp add: polls_of_def)
  show ?thesis
    by (cases i) (simp_all add: mock_generation_status_def recorded Let_def p split: option.split list.split)
qed

lemma is_refunded_step:
  assumes "platform_step env m m'" and "books_ok w b m" and "is_refunded m gid"
  shows "is_refunded m' gid"
  using assms(1)
proof cases
  case (step_generate body)
  then show ?thesis using assms(2,3) refunded_stays_generate [of m gid] by (auto simp: is_refunded_def books_ok_def)
next
  case (step_status i)
  show ?thesis unfolding step_status status_state Let_def using assms(3)
    by (auto simp: is_refunded_def count_poll_def refund_generation_def pay_back_def update_conv' split: option.split)
next
  case (step_voiceover i)
  then show ?thesis using assms(3)
    by (auto simp: is_refunded_def mock_voiceover_status_def recorded Let_def count_poll_def refund_voiceover_def pay_back_def
        split: option.split)
qed (use assms(3) in \<open>simp_all add: is_refunded_def estimate_state reading_defs Let_def\<close>)

lemma is_refunded_steps:
  assumes "(platform_step env)\<^sup>*\<^sup>* m m'" and "books_ok w b m" and "is_refunded m gid"
  shows "is_refunded m' gid"
  using assms
proof (induction rule: rtranclp_induct)
  case (step y z)
  then show ?case using is_refunded_step platform_steps_books by blast
qed

lemma status_refunds:
  assumes "books_ok w b m" and "mock_generation_status env (Some gid) m = (Inr r, m1)" and "jget r ''refunded'' = JBool True"
  shows "is_refunded m1 gid"
proof -
  let ?m = "m\<lparr>mk_calls := mk_calls m @ [(''generation_status'', [(''generation_id'', JInt gid)])]\<rparr>"
  have base: "jget (status_base env gid g @ rest) ''refunded'' = jget rest ''refunded''" for g rest
    by (simp add: status_base_def)
  obtain g where g: "map_of (mk_generations m) gid = Some g"
    using assms(2) by (cases "map_of (mk_generations m) gid") (simp_all add: mock_generation_status_def recorded)
  have "mk_complete_after_polls m \<le> polls_of ?m gid \<and> gn_will_fail g"
    using assms(2,3) g
    by (cases "gn_text g") (auto simp: mock_generation_status_def recorded Let_def base split: if_splits list.splits)
  then have "m1 = refund_generation gid g (count_poll gid ?m)"
    using assms(2) g by (simp add: mock_generation_status_def recorded Let_def)
  then show ?thesis using g
    by (simp add: is_refunded_def refund_generation_def pay_back_def count_poll_def update_conv')
qed

lemma refunded_account:
  "is_refunded m gid \<Longrightarrow> account_of (snd (mock_generation_status env (Some gid) m)) = account_of m"
  by (auto simp: mock_generation_status_def recorded Let_def is_refunded_def refund_generation_def account_of_def
      count_poll_def split: option.splits list.splits)

section \<open>A concrete platform\<close>

definition demo_mock :: mock where
  "demo_mock = new_mock shop_catalog 100 1000 0 1 0 [''quick''] 0"

definition demo_mock_env :: mock_env where
  "demo_mock_env = \<lparr>me_sha1 = (\<lambda>s. s), me_sha256 = (\<lambda>s. s), me_iso = (\<lambda>t. []), me_uuid = (\<lambda>t. [])\<rparr>"

definition demo_body :: obj where
  "demo_body = [(''type'', JStr ''image''), (''model'', JStr ''quick''), (''prompt'', JStr ''tea''), (''idempotency_key'', JStr ''k'')]"

lemma demo_mock_fields [simp]:
  "mk_caps demo_mock = shop_caps" "mk_balance_rub demo_mock = 100" "mk_daily_limit_rub demo_mock = 1000"
  "mk_daily_spent_rub demo_mock = 0" "mk_price_multiplier demo_mock = 1" "mk_by_idempotency demo_mock = []" "mk_next_id demo_mock = 5811"
  "mk_generations demo_mock = []" "mk_voiceovers demo_mock = []" "mk_complete_after_polls demo_mock = 0" "mk_fail_models demo_mock = [''quick'']"
  "mk_poll_counts demo_mock = []"
  by (simp_all add: demo_mock_def new_mock_def shop_caps_def)

lemma shop_by_type: "cap_models_by_type shop_caps = [(''image'', [(''fine'', shop_model ''fine'' 60), (''quick'', shop_model ''quick'' 10)])]"
  by (simp add: shop_caps_def parse_capabilities_def shop_catalog_def Let_def parse_entries_def List.map_filter_def shop_model_def)

lemma shop_fair: "0 \<le> n \<Longrightarrow> fair_spec (shop_model k n)"
proof -
  have "duration_bounds (shop_model k n) = None"
    by (simp add: shop_model_def parse_defs duration_bounds_def allowed_values_def Let_def)
  moreover have "m_price (shop_model k n) = Some (of_int n)" "m_per_second (shop_model k n) = None" "m_tier_prices (shop_model k n) = []"
    by (simp_all add: shop_model_def parse_defs)
  ultimately show "0 \<le> n \<Longrightarrow> fair_spec (shop_model k n)" by (simp add: fair_spec_def)
qed

lemma demo_opened: "opened demo_mock"
  using on_grid_of_int [of 2 100] by (simp add: opened_def fair_catalog_def shop_by_type shop_fair)

lemma demo_fair: "fair_request demo_body"
  by (simp add: fair_request_def demo_body_def)

lemma demo_quote:
  assumes "mk_caps m = shop_caps" and "mk_price_multiplier m = 1"
  shows "quote_request demo_mock_env m demo_body = Inr (shop_model ''quick'' 10, [], 10, False)"
proof -
  have spec: "spec_or_error demo_mock_env m demo_body = Inr (shop_model ''quick'' 10)"
    by (simp add: spec_or_error_def str_or_empty_def j_or_def demo_body_def cap_get_def entries_of_def shop_by_type assms)
  have m: "m_required (shop_model ''quick'' 10) = [''prompt'']" "known_params (shop_model ''quick'' 10) = [''prompt'']"
    by (simp_all add: shop_model_def parse_defs known_params_def)
  have valid: "mock_validate demo_body (shop_model ''quick'' 10) = Inr ([], [])"
    by (simp add: mock_validate_def validate_missing_def validate_rejected_def m demo_body_def)
  have "\<not> is_token_billed (shop_model ''quick'' 10)"
    by (simp add: is_token_billed_def shop_model_def parse_defs)
  then have price: "mock_price m demo_body (shop_model ''quick'' 10) = Inr (10, False)"
    using py_round_grid [OF on_grid_of_int [of 2 10]]
    by (simp add: mock_price_def shop_bounds pb_known_def pb_indicative_def assms Let_def)
  show ?thesis by (simp add: quote_request_def spec valid price)
qed

lemma demo_charge: "\<not> supports_long_voiceover (shop_model ''quick'' 10)" "will_fail m (shop_model ''quick'' 10) b = (''quick'' \<in> set (mk_fail_models m) \<or>
    py_contains FAILURE_MARKER (case map_of b ''prompt'' of Some v \<Rightarrow> py_str v | None \<Rightarrow> []))"
  by (simp_all add: supports_long_voiceover_def long_voiceover_prompt_max_def int_limit_def will_fail_def shop_model_def parse_defs)

lemma demo_admitted:
  assumes "mk_caps m = shop_caps" and "mk_price_multiplier m = 1" and "mk_by_idempotency m = []" and "mk_balance_rub m = 100"
    and "mk_daily_spent_rub m = 0" and "mk_daily_limit_rub m = 1000"
  shows "\<exists>r m'. mock_generate demo_mock_env demo_body m = (Inr r, m') \<and> mk_balance_rub m' = 90 \<and>
     (\<exists>g. mk_generations m' = AList.update (mk_next_id m) g (mk_generations m) \<and> gn_will_fail g = will_fail m (shop_model ''quick'' 10) demo_body \<and>
        \<not> gn_refunded g) \<and> mk_complete_after_polls m' = mk_complete_after_polls m"
proof -
  let ?m = "m\<lparr>mk_calls := mk_calls m @ [(''generate'', demo_body)]\<rparr>"
  have q: "quote_request demo_mock_env ?m demo_body = Inr (shop_model ''quick'' 10, [], 10, False)" by (rule demo_quote) (simp_all add: assms)
  have key: "jget demo_body ''idempotency_key'' = JStr ''k''" by (simp add: demo_body_def)
  have eq: "mock_generate demo_mock_env demo_body m = admit_generation ?m (shop_model ''quick'' 10) demo_body (JStr ''k'') 10 False"
    by (simp add: mock_generate_def recorded key hashable_def replay_of_def q assms)
  have r: "py_round 2 (100 - 10 :: rat) = 90" using py_round_grid [OF on_grid_of_int [of 2 90]] by simp
  show ?thesis unfolding eq
    by (simp add: admit_generation_def Let_def demo_charge(1) start_generation_def actual_cost_def charge_def assms r will_fail_def)
      (intro exI conjI, rule refl, simp_all)
qed

lemma demo_generated:
  "\<exists>r m. mock_generate demo_mock_env demo_body demo_mock = (Inr r, m) \<and> mk_balance_rub m = 90 \<and>
     (\<exists>g. mk_generations m = [(5811, g)] \<and> gn_will_fail g \<and> \<not> gn_refunded g) \<and> mk_complete_after_polls m = 0"
  using demo_admitted [of demo_mock] by (simp add: demo_charge(2))

text \<open>C32: However requests interleave, on an account that opened in order the platform never
  overdraws the balance or exceeds the daily limit, balance and spending always add up to what was
  there at the start, and what was spent is exactly what the generations that were not refunded cost.\<close>

theorem platform_account_balances:
  assumes "opened m0" and "(platform_step env)\<^sup>*\<^sup>* m0 m"
  shows "0 \<le> mk_balance_rub m \<and> mk_daily_spent_rub m \<le> mk_daily_limit_rub m \<and>
    mk_balance_rub m + mk_daily_spent_rub m = mk_balance_rub m0 + mk_daily_spent_rub m0 \<and>
    mk_daily_spent_rub m = mk_daily_spent_rub m0 + outstanding m"
  using reached_books [OF assms] by (simp add: books_ok_def)

theorem platform_account_balances_witness:
  "\<exists>m. mock_generate demo_mock_env demo_body demo_mock = m \<and> mk_balance_rub (snd m) = 90 \<and> 0 \<le> mk_balance_rub (snd m) \<and>
     mk_balance_rub (snd m) + mk_daily_spent_rub (snd m) = 100"
proof -
  obtain r m where g: "mock_generate demo_mock_env demo_body demo_mock = (Inr r, m)" "mk_balance_rub m = 90"
    using demo_generated by blast
  have "(platform_step demo_mock_env)\<^sup>*\<^sup>* demo_mock m"
    using step_generate [OF demo_fair, of demo_mock_env demo_mock] g(1) by (intro r_into_rtranclp) simp
  from platform_account_balances [OF demo_opened this] g show ?thesis by auto
qed

text \<open>C33: A request the platform answered is answered again with the same response whenever its
  key comes back, whatever was requested in between, and the account does not change.\<close>

theorem platform_retry_is_free:
  assumes "mock_generate env body m = (Inr r, m1)" and "(platform_step env)\<^sup>*\<^sup>* m1 m2"
    and "jget body' ''idempotency_key'' = jget body ''idempotency_key''"
  shows "\<exists>m3. mock_generate env body' m2 = (Inr r, m3) \<and> mk_balance_rub m3 = mk_balance_rub m2 \<and>
    mk_daily_spent_rub m3 = mk_daily_spent_rub m2 \<and> mk_generations m3 = mk_generations m2"
  using keys.retry_is_free [OF assms] by (auto simp: account_of_def)

theorem platform_retry_is_free_witness:
  "\<exists>r m m3. mock_generate demo_mock_env demo_body demo_mock = (Inr r, m) \<and> mk_balance_rub m = 90 \<and>
     mock_generate demo_mock_env demo_body (snd (mock_me m)) = (Inr r, m3) \<and> mk_balance_rub m3 = mk_balance_rub (snd (mock_me m))"
proof -
  obtain r m where g: "mock_generate demo_mock_env demo_body demo_mock = (Inr r, m)" "mk_balance_rub m = 90"
    using demo_generated by blast
  have "(platform_step demo_mock_env)\<^sup>*\<^sup>* m (snd (mock_me m))"
    by (intro r_into_rtranclp step_me)
  from platform_retry_is_free [OF g(1) this refl] g show ?thesis by blast
qed

text \<open>The price the service reads from an estimate is never below what the same request is
  charged when it is submitted next, and for a model of a fixed price it is exactly that.\<close>

theorem platform_estimate_covers_charge:
  assumes "opened m0" and "(platform_step env)\<^sup>*\<^sup>* m0 m" and "fair_request body"
    and "mock_estimate env body m = (Inr q, m1)" and "mock_generate env body m1 = (Inr r, m2)"
  shows "\<exists>c kind. estimated_cost_of q = Some (c, kind) \<and> mk_balance_rub m1 - mk_balance_rub m2 \<le> c \<and>
    (kind = ''estimated_cost_rub'' \<and> answered m1 (jget body ''idempotency_key'') = None \<longrightarrow>
       mk_balance_rub m1 - mk_balance_rub m2 = c)"
proof -
  note books = reached_books [OF assms(1,2)]
  obtain spec rej c k where quote: "quote_request env m body = Inr (spec, rej, c, k)" and c: "0 \<le> c" "on_grid 2 c"
    and cost: "estimated_cost_of q = Some (c, if k then ''reserve'' else ''estimated_cost_rub'')"
    and m1: "m1 = m\<lparr>mk_calls := mk_calls m @ [(''estimate'', body)]\<rparr>"
    using estimate_reads [OF assms(4) books assms(3)] by blast
  have "mk_balance_rub m2 = mk_balance_rub m1 \<and> answered m1 (jget body ''idempotency_key'') \<noteq> None \<or>
      mk_balance_rub m2 = mk_balance_rub m1 - actual_cost c k"
    using quote books_okD(1) [OF books] by (intro generate_charge [OF assms(5) _ _ c]) (simp_all add: m1 quote_frame)
  then show ?thesis using cost c actual_cost_bounds [OF c, of k] by (auto simp: actual_cost_def)
qed

lemma demo_estimated:
  "\<exists>q. mock_estimate demo_mock_env demo_body demo_mock = (Inr q, demo_mock\<lparr>mk_calls := [(''estimate'', demo_body)]\<rparr>)"
proof -
  let ?m = "demo_mock\<lparr>mk_calls := mk_calls demo_mock @ [(''estimate'', demo_body)]\<rparr>"
  have "quote_request demo_mock_env ?m demo_body = Inr (shop_model ''quick'' 10, [], 10, False)" by (rule demo_quote) simp_all
  moreover have "mk_calls demo_mock = []" by (simp add: demo_mock_def new_mock_def)
  ultimately show ?thesis by (simp add: mock_estimate_def recorded)
qed

theorem platform_estimate_covers_charge_witness:
  "\<exists>q m1 r m2 c kind. mock_estimate demo_mock_env demo_body demo_mock = (Inr q, m1) \<and>
     mock_generate demo_mock_env demo_body m1 = (Inr r, m2) \<and> estimated_cost_of q = Some (c, kind) \<and>
     mk_balance_rub m1 - mk_balance_rub m2 \<le> c"
proof -
  obtain q m1 where q: "mock_estimate demo_mock_env demo_body demo_mock = (Inr q, m1)" and m1: "m1 = demo_mock\<lparr>mk_calls := [(''estimate'', demo_body)]\<rparr>"
    using demo_estimated by blast
  obtain r m2 where r: "mock_generate demo_mock_env demo_body m1 = (Inr r, m2)"
    using demo_admitted [of m1] by (auto simp: m1)
  from platform_estimate_covers_charge [OF demo_opened rtranclp.rtrancl_refl demo_fair q r] q r show ?thesis by blast
qed

text \<open>Once a poll reported a generation as refunded, no later poll of it changes the account.\<close>

theorem platform_refund_paid_once:
  assumes "opened m0" and "(platform_step env)\<^sup>*\<^sup>* m0 m"
    and "mock_generation_status env (Some gid) m = (Inr r, m1)" and "jget r ''refunded'' = JBool True"
    and "(platform_step env)\<^sup>*\<^sup>* m1 m2" and "mock_generation_status env (Some gid) m2 = (r', m3)"
  shows "mk_balance_rub m3 = mk_balance_rub m2 \<and> mk_daily_spent_rub m3 = mk_daily_spent_rub m2"
proof -
  note books = reached_books [OF assms(1,2)]
  have "books_ok (mk_balance_rub m0 + mk_daily_spent_rub m0) (mk_daily_spent_rub m0) m1"
    using status_books [OF books, of env "Some gid"] assms(3) by simp
  from is_refunded_steps [OF assms(5) this status_refunds [OF books assms(3,4)]]
  show ?thesis using refunded_account [of m2 gid env] assms(6) by (simp add: account_of_def)
qed

theorem platform_refund_paid_once_witness:
  "\<exists>m r m1 r' m3. mock_generation_status demo_mock_env (Some 5811) m = (Inr r, m1) \<and> jget r ''refunded'' = JBool True \<and>
     mock_generation_status demo_mock_env (Some 5811) m1 = (r', m3) \<and> mk_balance_rub m3 = mk_balance_rub m1"
proof -
  obtain r0 m g where g: "mock_generate demo_mock_env demo_body demo_mock = (Inr r0, m)" "mk_generations m = [(5811, g)]"
    "gn_will_fail g" "\<not> gn_refunded g" "mk_complete_after_polls m = 0"
    using demo_generated by blast
  have steps: "(platform_step demo_mock_env)\<^sup>*\<^sup>* demo_mock m"
    using step_generate [OF demo_fair, of demo_mock_env demo_mock] g(1) by (intro r_into_rtranclp) simp
  obtain r m1 where r: "mock_generation_status demo_mock_env (Some 5811) m = (Inr r, m1)" "jget r ''refunded'' = JBool True"
    using g by (simp add: mock_generation_status_def recorded Let_def status_base_def)
  obtain r' m3 where p: "mock_generation_status demo_mock_env (Some 5811) m1 = (r', m3)" by fastforce
  from platform_refund_paid_once [OF demo_opened steps r rtranclp.rtrancl_refl p] r p show ?thesis by blast
qed

end
