(* ===== verification/Webhooks.thy ===== *)
theory Webhooks
  imports Service
begin

text \<open>
  Signed callbacks of the platform (\<open>app/services/webhooks.py\<close>, \<open>app/api/routers/webhooks.py\<close>):
  the signature check over the raw body, and the handler that applies an authentic callback to the
  job and to the step ledger. \<open>json.loads\<close> is the argument \<open>loads\<close>, \<open>None\<close> where it raises
  \<open>ValueError\<close>; the clock is read once for the job a callback concludes.
\<close>

section \<open>Signatures\<close>

definition legacy_secret :: "crypto \<Rightarrow> string \<Rightarrow> string" where
  "legacy_secret h api_token = sha256_hex h api_token"

definition compute_signature :: "crypto \<Rightarrow> string \<Rightarrow> string \<Rightarrow> string" where
  "compute_signature h raw_body secret = hmac_sha256_hex h secret raw_body"

text \<open>\<open>hmac.compare_digest\<close> of two strings refuses a string with a character beyond ASCII.\<close>

definition is_ascii :: "string \<Rightarrow> bool" where
  "is_ascii s \<longleftrightarrow> list_all (\<lambda>c. (of_char c :: nat) < 128) s"

definition compare_digest :: "string \<Rightarrow> string \<Rightarrow> exn + bool" where
  "compare_digest a b =
     (if is_ascii a \<and> is_ascii b then Inr (a = b)
      else Inl (TypeError (Text ''comparing strings with non-ASCII characters is not supported'')))"

definition signature_matches :: "crypto \<Rightarrow> string \<Rightarrow> string \<Rightarrow> string \<Rightarrow> exn + bool" where
  "signature_matches h raw_body signature secret =
     (if signature = [] \<or> secret = [] then Inr False
      else compare_digest (compute_signature h raw_body secret) (py_lower (py_strip signature)))"

text \<open>\<open>any(...)\<close>: the first match ends the search, an exception ends it too.\<close>

fun any_matches :: "crypto \<Rightarrow> string \<Rightarrow> string \<Rightarrow> string list \<Rightarrow> exn + bool" where
  "any_matches h raw_body signature [] = Inr False"
| "any_matches h raw_body signature (secret # secrets) =
     (case signature_matches h raw_body signature secret of
        Inl e \<Rightarrow> Inl e
      | Inr True \<Rightarrow> Inr True
      | Inr False \<Rightarrow> any_matches h raw_body signature secrets)"

definition candidate_secrets :: "crypto \<Rightarrow> string option \<Rightarrow> string option \<Rightarrow> bool \<Rightarrow> string list" where
  "candidate_secrets h secret api_token allow_legacy =
     (case secret of Some (c # cs) \<Rightarrow> [c # cs] | _ \<Rightarrow> []) @
     (case api_token of Some (c # cs) \<Rightarrow> if allow_legacy then [legacy_secret h (c # cs)] else [] | _ \<Rightarrow> [])"

definition verify_webhook :: "crypto \<Rightarrow> string \<Rightarrow> string option \<Rightarrow> string option \<Rightarrow> string option \<Rightarrow> bool \<Rightarrow> exn + unit" where
  "verify_webhook h raw_body signature secret api_token allow_legacy =
     (case signature of
        Some (c # cs) \<Rightarrow>
          (let secrets = candidate_secrets h secret api_token allow_legacy in
           if secrets = [] then Inl (app_raise WebhookVerificationError (Msg ''secret_not_configured'' []))
           else case any_matches h raw_body (c # cs) secrets of
             Inl e \<Rightarrow> Inl e
           | Inr True \<Rightarrow> Inr ()
           | Inr False \<Rightarrow> Inl (app_raise WebhookVerificationError (Msg ''signature_mismatch'' [])))
      | _ \<Rightarrow> Inl (app_raise WebhookVerificationError (Msg ''signature_missing'' [])))"

section \<open>Applying a callback\<close>

definition CALLBACK_SUCCESS :: "string list" where
  "CALLBACK_SUCCESS = [''complete'', ''completed'', ''success'']"

definition callback_step_status :: "obj \<Rightarrow> step_status" where
  "callback_step_status payload =
     (if py_lower (py_str (j_or (jget payload ''status'') (JStr []))) \<in> set CALLBACK_SUCCESS
      then STEP_SUCCEEDED else STEP_FAILED)"

definition callback_cost :: "obj \<Rightarrow> money" where
  "callback_cost payload =
     (if truthy (jget payload ''refunded'') then 0 else case as_num (jget payload ''cost'') of Some c \<Rightarrow> c | None \<Rightarrow> 0)"

definition callback_step :: "obj \<Rightarrow> job_step \<Rightarrow> job_step" where
  "callback_step payload s =
     (let status = callback_step_status payload in
      s\<lparr>js_status := status, js_refunded := truthy (jget payload ''refunded''), js_actual_cost_rub := callback_cost payload,
        js_result_url := j_or (jget payload ''result_url'') (js_result_url s),
        js_display_url := j_or (jget payload ''display_url'') (js_display_url s),
        js_error := (if status = STEP_FAILED then
            Some (if truthy (jget payload ''error_message'') then Text (py_str (jget payload ''error_message''))
                  else Msg ''generation_failed'' [])
          else js_error s)\<rparr>)"

definition conclude :: "time \<Rightarrow> job \<Rightarrow> job" where
  "conclude now j =
     (case terminal_status_of (j_steps j) of
        Some final \<Rightarrow>
          if is_terminal (j_status j) then j
          else j\<lparr>j_status := final, j_finished_at := coalesce (j_finished_at j) (Some now)\<rparr>
      | None \<Rightarrow> j)"

text \<open>\<open>_apply\<close>\<close>

definition apply_callback :: "time \<Rightarrow> job \<Rightarrow> string \<Rightarrow> obj \<Rightarrow> job" where
  "apply_callback now j sid payload =
     (case find_step j sid of
        None \<Rightarrow> j
      | Some s \<Rightarrow>
          if js_status s = STEP_SUCCEEDED then j
          else
            (let steps = upd_first (\<lambda>t. js_step_id t = sid) (callback_step payload) (j_steps j)
             in conclude now (j\<lparr>j_steps := steps, j_actual_cost_rub := steps_actual_cost steps\<rparr>)))"

section \<open>The handler\<close>

definition callback_generation :: "obj \<Rightarrow> int option" where
  "callback_generation payload =
     (case jget payload ''generation_id'' of
        JInt n \<Rightarrow> if 0 \<le> n then Some n else None
      | JStr s \<Rightarrow> if py_isdigit s then Some (int (digits_val s)) else None
      | _ \<Rightarrow> None)"

definition callback_event :: "obj \<Rightarrow> string option \<Rightarrow> string" where
  "callback_event payload header =
     py_str (j_or (j_or (jget payload ''event'') (case header of Some e \<Rightarrow> JStr e | None \<Rightarrow> JNull)) (JStr ''unknown''))"

text \<open>The job and the ledger row of the generation the callback is about. The answer is the step it
  matched.\<close>

definition settle_callback :: "'x service \<Rightarrow> int \<Rightarrow> obj \<Rightarrow> ('x, string option) serv" where
  "settle_callback sv gid payload =
     bind (in_db (find_by_generation gid)) (\<lambda>found. case found of
       None \<Rightarrow> ret None
     | Some (j, sid) \<Rightarrow>
         bind (clock sv) (\<lambda>t.
         andthen (in_db (jobs_save (apply_callback t j sid payload)))
         (bind (clock sv) (\<lambda>t2.
         andthen (in_db (update_step (j_plan_id j) sid (callback_step_status payload) (Some gid) (Some (callback_cost payload)) t2))
           (ret (Some sid))))))"

definition accept_callback :: "'x service \<Rightarrow> obj \<Rightarrow> string option \<Rightarrow> ('x, int option \<times> string option) serv" where
  "accept_callback sv payload event_header =
     (let gid = callback_generation payload in
      bind (clock sv) (\<lambda>t.
      andthen (in_db (record_webhook gid (callback_event payload event_header) payload t))
        (case gid of
           None \<Rightarrow> ret (None, None)
         | Some g \<Rightarrow> bind (settle_callback sv g payload) (\<lambda>matched. ret (Some g, matched)))))"

definition vibe_webhook ::
  "'x service \<Rightarrow> (string \<Rightarrow> json option) \<Rightarrow> string \<Rightarrow> string option \<Rightarrow> string option \<Rightarrow> ('x, int option \<times> string option) serv" where
  "vibe_webhook sv loads raw_body signature event_header =
     (let st = sv_settings sv in
      case verify_webhook (sv_crypto sv) raw_body signature (webhook_secret_value st) (token_value st)
             (vibe_webhook_legacy_fallback st) of
        Inl e \<Rightarrow> raise e
      | Inr _ \<Rightarrow>
          (case loads raw_body of
             Some (JObj payload) \<Rightarrow> accept_callback sv payload event_header
           | Some _ \<Rightarrow> raise (app_raise ValidationError (Msg ''body_not_an_object'' []))
           | None \<Rightarrow> raise (app_raise ValidationError (Msg ''body_not_json'' []))))"

section \<open>Authenticity\<close>

lemma is_ascii_lower: "is_ascii s \<Longrightarrow> is_ascii (py_lower s)"
  by (induction s) (auto simp: is_ascii_def py_lower_def lower_char_def less_eq_char_def)

lemma signature_matchesD:
  "signature_matches h raw_body signature secret = Inr True \<Longrightarrow>
     secret \<noteq> [] \<and> py_lower (py_strip signature) = compute_signature h raw_body secret"
  by (auto simp: signature_matches_def compare_digest_def split: if_splits)

lemma any_matchesD:
  "any_matches h raw_body signature secrets = Inr True \<Longrightarrow>
     \<exists>secret \<in> set secrets. secret \<noteq> [] \<and> py_lower (py_strip signature) = compute_signature h raw_body secret"
  by (induction secrets) (auto split: sum.splits bool.splits dest: signature_matchesD)

lemma verify_webhookD:
  assumes "verify_webhook h raw_body signature secret api_token allow_legacy = Inr ()"
  shows "\<exists>sig s. signature = Some sig \<and> s \<in> set (candidate_secrets h secret api_token allow_legacy) \<and> s \<noteq> [] \<and>
    py_lower (py_strip sig) = compute_signature h raw_body s"
  using assms
  by (auto simp: verify_webhook_def Let_def split: option.splits list.splits sum.splits bool.splits if_splits
      dest!: any_matchesD)

lemma candidate_secretsD:
  "s \<in> set (candidate_secrets h secret api_token allow_legacy) \<Longrightarrow>
     secret = Some s \<or> allow_legacy \<and> (\<exists>token. api_token = Some token \<and> s = legacy_secret h token)"
  by (auto simp: candidate_secrets_def split: option.splits list.splits if_splits)

text \<open>Without a configured secret nothing is authentic.\<close>

lemma verify_webhook_unconfigured:
  "verify_webhook h raw_body signature None None allow_legacy = Inr () \<Longrightarrow> False"
  by (auto simp: verify_webhook_def candidate_secrets_def split: option.splits list.splits)

text \<open>A correctly signed body is accepted.\<close>

lemma verify_webhook_signed:
  assumes "secret \<noteq> []" and "py_lower (py_strip sig) = compute_signature h raw_body secret" and "sig \<noteq> []"
    and "is_ascii (compute_signature h raw_body secret)"
  shows "verify_webhook h raw_body (Some sig) (Some secret) api_token allow_legacy = Inr ()"
  using assms by (cases sig; cases secret) (simp_all add: verify_webhook_def candidate_secrets_def signature_matches_def compare_digest_def)

end
