(* ===== verification/Reconciler.thy ===== *)
theory Reconciler
  imports Service
begin

text \<open>
  Follow-up on steps that were paid for but never reported back (\<open>app/services/reconciler.py\<close>): the
  sweep asks the platform about launched steps of ended jobs and rewrites the step, the job and the
  ledger with the verdict. The job object it mutates is threaded through.
\<close>

text \<open>The message for a generation the platform does not know, around its id.\<close>

definition UNKNOWN_GENERATION :: string where
  "UNKNOWN_GENERATION = bytes [208, 159, 208, 187, 208, 176, 209, 130, 209, 132, 208, 190, 209, 128, 208, 188, 208, 176, 32,
     208, 189, 208, 181, 32, 208, 183, 208, 189, 208, 176, 208, 181, 209, 130, 32, 208, 179, 208, 181, 208, 189, 208, 181,
     209, 128, 208, 176, 209, 134, 208, 184, 209, 142, 32]"

definition NO_RESULT_POSSIBLE :: string where
  "NO_RESULT_POSSIBLE = bytes [32, 40, 52, 48, 52, 32, 208, 191, 209, 128, 208, 184, 32, 208, 180, 208, 190, 209, 129, 208, 188,
     208, 190, 209, 130, 209, 128, 208, 181, 41, 32, 226, 128, 148, 32, 209, 128, 208, 181, 208, 183, 209, 131, 208, 187, 209,
     140, 209, 130, 208, 176, 209, 130, 32, 208, 191, 208, 190, 208, 187, 209, 131, 209, 135, 208, 184, 209, 130, 209, 140, 32,
     208, 189, 208, 181, 208, 178, 208, 190, 208, 183, 208, 188, 208, 190, 208, 182, 208, 189, 208, 190, 46]"

definition lost_generation :: "job_step \<Rightarrow> obj" where
  "lost_generation s =
     [(''status'', JStr ''error''),
      (''error_message'', JStr (UNKNOWN_GENERATION @ show_id (js_generation_id s) @ NO_RESULT_POSSIBLE)),
      (''cost'', JFloat (js_actual_cost_rub s))]"

text \<open>\<open>_final_status\<close>: the verdict, or \<open>None\<close> while the platform is still working\<close>

definition ask_status :: "'x service \<Rightarrow> job_step \<Rightarrow> ('x, obj option) serv" where
  "ask_status sv s =
     (if js_is_long_voiceover s then
        (case cl_voiceover_status (sv_client sv) of
           None \<Rightarrow> ret None
         | Some status_fn \<Rightarrow> bind (in_ext (status_fn (js_generation_id s))) (\<lambda>payload. ret (Some payload)))
      else bind (in_ext (cl_generation_status (sv_client sv) (js_generation_id s))) (\<lambda>payload. ret (Some payload)))"

definition verdict_of :: "job_step \<Rightarrow> vibe_error + obj option \<Rightarrow> exn + obj option" where
  "verdict_of s reply =
     (case reply of
        Inl (VibeAPIError e) \<Rightarrow>
          if api_status_code e = 404 then Inr (Some (lost_generation s)) else Inl (Vibe (VibeAPIError e))
      | Inl e \<Rightarrow> Inl (Vibe e)
      | Inr None \<Rightarrow> Inr None
      | Inr (Some payload) \<Rightarrow> Inr (if status_of payload \<in> set TERMINAL_STATUSES then Some payload else None))"

definition final_status :: "'x service \<Rightarrow> job_step \<Rightarrow> ('x, obj option) serv" where
  "final_status sv s = bind (try_vibe (ask_status sv s)) (\<lambda>reply. case verdict_of s reply of Inl e \<Rightarrow> raise e | Inr v \<Rightarrow> ret v)"

text \<open>\<open>_rewrite_job\<close>: \<open>s\<close> is the step as the verdict left it, already in the job\<close>

definition rewrite_job :: "time \<Rightarrow> job \<Rightarrow> job_step \<Rightarrow> step_status \<Rightarrow> job" where
  "rewrite_job now j s previous_status =
     (let sid = js_step_id s;
          errors = filter (\<lambda>e. \<not> msg_startswith e sid) (j_errors j)
            @ (if js_status s = STEP_FAILED
               then [Pref sid (case js_error s of Some e \<Rightarrow> e | None \<Rightarrow> Text ''None'')] else []);
          j1 = j\<lparr>j_errors := errors,
            j_warnings := j_warnings j @ [Msg ''reconciled'' [JStr sid, JStr (step_status_value previous_status),
               JStr (step_status_value (js_status s)), JFloat (js_actual_cost_rub s)]],
            j_actual_cost_rub := steps_actual_cost (j_steps j)\<rparr>
      in case terminal_status_of (j_steps j) of
           Some final \<Rightarrow> j1\<lparr>j_status := final, j_finished_at := coalesce (j_finished_at j) (Some now)\<rparr>
         | None \<Rightarrow> j1)"

text \<open>The job with the verdict written onto the step, and the step.\<close>

definition settled_step :: "time \<Rightarrow> job_step \<Rightarrow> obj \<Rightarrow> job_step" where
  "settled_step now s payload = (let (s1, cost) = apply_outcome now s payload in s1\<lparr>js_actual_cost_rub := cost\<rparr>)"

definition settled_job :: "time \<Rightarrow> job \<Rightarrow> job_step \<Rightarrow> obj \<Rightarrow> job" where
  "settled_job now j s payload =
     rewrite_job now (j\<lparr>j_steps := upd_first (\<lambda>t. js_step_id t = js_step_id s) (\<lambda>_. settled_step now s payload) (j_steps j)\<rparr>)
       (settled_step now s payload) (js_status s)"

definition write_verdict :: "'x service \<Rightarrow> job \<Rightarrow> job_step \<Rightarrow> obj \<Rightarrow> ('x, unit) serv" where
  "write_verdict sv j s payload =
     bind (clock sv) (\<lambda>t.
     let s1 = settled_step t s payload; j1 = settled_job t j s payload in
     andthen (in_db (jobs_save j1))
     (bind (clock sv) (\<lambda>t2.
        in_db (update_step (j_plan_id j) (js_step_id s) (js_status s1) (js_generation_id s1) (Some (js_actual_cost_rub s1)) t2))))"

definition reconcile :: "'x service \<Rightarrow> step_row \<Rightarrow> ('x, bool) serv" where
  "reconcile sv record =
     bind (in_db (jobs_get (sx_job_id record))) (\<lambda>found. case found of
       None \<Rightarrow> ret False
     | Some j \<Rightarrow>
         (case find_step j (sx_step_id record) of
            None \<Rightarrow> ret False
          | Some s \<Rightarrow>
              if js_generation_id s = None then ret False
              else bind (final_status sv s) (\<lambda>verdict. case verdict of
                 None \<Rightarrow> ret False
               | Some payload \<Rightarrow> andthen (write_verdict sv j s payload) (ret True))))"

text \<open>One unreachable generation does not stop the sweep.\<close>

fun sweep_records :: "'x service \<Rightarrow> step_row list \<Rightarrow> ('x, nat) serv" where
  "sweep_records sv [] = ret 0"
| "sweep_records sv (record # rest) =
     bind (try_vibe (reconcile sv record)) (\<lambda>settled.
     bind (sweep_records sv rest) (\<lambda>n. ret (if settled = Inr True then n + 1 else n)))"

definition sweep :: "'x service \<Rightarrow> ('x, nat) serv" where
  "sweep sv =
     bind (clock sv) (\<lambda>now.
     bind (in_db (stale_steps (now - reconcile_min_age_seconds (sv_settings sv)))) (sweep_records sv))"

end
