(* ===== verification/Verdicts.thy ===== *)
theory Verdicts
  imports Webhooks Reconciler Service_Facts
begin

text \<open>
  What the two late writers have in common: they save a job and then settle one row of the ledger.
  The lemmas say how a database looks after such a pair, and the locale \<open>late_relation\<close> is the
  contract under which neither can do anything else.
\<close>

section \<open>Reading after writing\<close>

lemma job_at_id: "db_ok d \<Longrightarrow> job_at d jid = Some j \<Longrightarrow> j_job_id j = jid"
  by (auto simp: job_at_def db_ok_def jobs_ok_def list_all_iff find_Some_iff)

lemma job_at_update_step [simp]: "job_at (snd (update_step pid sid st gid c now d)) k = job_at d k"
  by (simp add: update_step_def job_at_def)

lemma step_at_jobs_save [simp]: "step_at (snd (jobs_save j d)) pid sid = step_at d pid sid"
  by (simp add: jobs_save_def step_at_def Let_def)

definition settled_row :: "step_status \<Rightarrow> int option \<Rightarrow> money option \<Rightarrow> time \<Rightarrow> step_row \<Rightarrow> step_row" where
  "settled_row st gid c now r = r\<lparr>sx_status := st, sx_generation_id := coalesce gid (sx_generation_id r),
     sx_actual_cost_rub := (case c of Some x \<Rightarrow> x | None \<Rightarrow> sx_actual_cost_rub r), sx_updated_at := now\<rparr>"

lemma step_at_update_step:
  "step_at (snd (update_step pid sid st gid c now d)) pid' sid' =
     (if (pid', sid') = (pid, sid) then map_option (settled_row st gid c now) (step_at d pid sid) else step_at d pid' sid')"
proof -
  let ?key = "\<lambda>r. (sx_plan_id r, sx_step_id r)" and ?P = "\<lambda>r. sx_plan_id r = pid \<and> sx_step_id r = sid"
  have upd: "t_steps (snd (update_step pid sid st gid c now d)) = fst (sql_update ?P (settled_row st gid c now) (t_steps d))"
    by (simp add: update_step_def settled_row_def [abs_def])
  have "step_at (snd (update_step pid sid st gid c now d)) pid' sid' =
      map_option (\<lambda>r. if ?P r then settled_row st gid c now r else r) (step_at d pid' sid')"
    unfolding step_at_def upd by (rule find_sql_update) (simp add: settled_row_def)
  moreover have "step_at d pid' sid' = Some r \<Longrightarrow> ?key r = (pid', sid')" for r
    by (simp add: step_at_def find_Some_iff) blast
  ultimately show ?thesis by (cases "step_at d pid' sid'") auto
qed

lemma find_by_generation_some:
  assumes "fst (find_by_generation gid d) = Inr (Some (j, sid))" and "db_ok d"
  shows "\<exists>r. r \<in> set (t_steps d) \<and> sx_generation_id r = Some gid \<and> sx_step_id r = sid \<and> sx_job_id r = j_job_id j \<and> job_at d (j_job_id j) = Some j"
proof -
  obtain r where r: "find (\<lambda>r. sx_generation_id r = Some gid) (t_steps d) = Some r" "job_at d (sx_job_id r) = Some j" "sx_step_id r = sid"
    using assms(1) by (auto simp: find_by_generation_def split: option.splits)
  then show ?thesis using find_in [OF r(1)] job_at_id [OF assms(2) r(2)] by auto
qed

text \<open>The pair of writes, on a job that exists.\<close>

definition settle_in_db :: "job \<Rightarrow> string \<Rightarrow> step_status \<Rightarrow> int option \<Rightarrow> money option \<Rightarrow> time \<Rightarrow> db \<Rightarrow> db" where
  "settle_in_db j sid st gid c now d = snd (update_step (j_plan_id j) sid st gid c now (snd (jobs_save j d)))"

lemma settle_in_db_reads:
  assumes "job_at d (j_job_id j) \<noteq> None"
  shows "job_at (settle_in_db j sid st gid c now d) k = (if k = j_job_id j then Some j else job_at d k)"
    and "step_at (settle_in_db j sid st gid c now d) pid' sid' =
      (if (pid', sid') = (j_plan_id j, sid) then map_option (settled_row st gid c now) (step_at d (j_plan_id j) sid)
       else step_at d pid' sid')"
  using assms by (simp_all add: settle_in_db_def step_at_update_step job_at_save job_accepted_def)

lemma settle_in_db_frame:
  "t_plans (settle_in_db j sid st gid c now d) = t_plans d" "t_idem (settle_in_db j sid st gid c now d) = t_idem d"
  "t_uploads (settle_in_db j sid st gid c now d) = t_uploads d" "t_webhooks (settle_in_db j sid st gid c now d) = t_webhooks d"
  by (simp_all add: settle_in_db_def update_step_def jobs_save_def Let_def)

lemma settle_in_db_ok: "db_ok d \<Longrightarrow> db_ok (settle_in_db j sid st gid c now d)"
  using jobs_save_ok [of j] update_step_ok [of "j_plan_id j" sid st gid c now]
  by (simp add: settle_in_db_def keeps_def ok_step_def)

text \<open>The same pair as the two handlers write it.\<close>

lemma clock_apply:
  "clock sv w = (Inr (fst (cl_now (sv_client sv) (w_ext w))), w\<lparr>w_ext := snd (cl_now (sv_client sv) (w_ext w))\<rparr>)"
  by (simp add: clock_def in_ext_def now_is_def Let_def case_prod_beta)

lemma save_then_settle:
  assumes "job_at (w_db w) (j_job_id j) \<noteq> None" and "pid = j_plan_id j"
  shows "\<exists>t2 u. (\<forall>k. andthen (in_db (jobs_save j)) (bind (clock sv) (\<lambda>t2. andthen (in_db (update_step pid sid st gid c t2)) k)) w = k u) \<and>
      andthen (in_db (jobs_save j)) (bind (clock sv) (\<lambda>t2. in_db (update_step pid sid st gid c t2))) w = (Inr (), u) \<and>
      w_db u = settle_in_db j sid st gid c t2 (w_db w)"
proof -
  let ?w1 = "w\<lparr>w_db := snd (jobs_save j (w_db w))\<rparr>"
  let ?t2 = "fst (cl_now (sv_client sv) (w_ext w))" and ?w2 = "?w1\<lparr>w_ext := snd (cl_now (sv_client sv) (w_ext w))\<rparr>"
  let ?u = "?w2\<lparr>w_db := settle_in_db j sid st gid c ?t2 (w_db w)\<rparr>"
  have saved: "in_db (jobs_save j) w = (Inr (), ?w1)"
    using assms(1) by (simp add: in_db_def jobs_save_accepted job_accepted_def)
  have clock: "clock sv ?w1 = (Inr ?t2, ?w2)" by (simp add: clock_apply)
  have upd: "in_db (update_step pid sid st gid c ?t2) ?w2 = (Inr (), ?u)"
    by (simp add: in_db_def update_step_def settle_in_db_def assms(2))
  show ?thesis using saved clock upd
    by (intro exI [of _ ?t2] exI [of _ ?u]) (simp add: andthen_def bind_apply)
qed

section \<open>What late writers may touch\<close>

locale late_relation = step_order R for R :: "'x world \<Rightarrow> 'x world \<Rightarrow> bool" +
  fixes sv :: "'x service"
  assumes clock_keeps: "keeps R (clock sv)"
    and save_job_keeps: "keeps R (in_db (jobs_save j))"
    and update_step_keeps: "keeps R (in_db (update_step pid sid st gid c now))"
    and webhook_keeps: "keeps R (in_db (record_webhook g ev pl now))"
    and generation_status_keeps: "keeps R (in_ext (cl_generation_status (sv_client sv) g))"
    and voiceover_status_keeps: "cl_voiceover_status (sv_client sv) = Some f \<Longrightarrow> keeps R (in_ext (f g))"
begin

lemma read_keeps: "keeps R (in_db (gets f))"
  by (simp add: keeps_def R_refl)

lemmas parts = keeps_intros keeps_ret keeps_raise keeps_gets read_keeps clock_keeps save_job_keeps update_step_keeps
  webhook_keeps generation_status_keeps voiceover_status_keeps try_vibe_keeps [OF step_order_axioms]

lemma settle_callback_keeps: "keeps R (settle_callback sv gid payload)"
  unfolding settle_callback_def find_by_generation_def by (intro parts) (auto intro!: parts)

lemma vibe_webhook_keeps: "keeps R (vibe_webhook sv loads raw sig hdr)"
  unfolding vibe_webhook_def accept_callback_def Let_def
  by (auto intro!: parts settle_callback_keeps split: sum.splits option.splits json.splits)

lemma final_status_keeps: "keeps R (final_status sv s)"
  unfolding final_status_def ask_status_def by (auto intro!: parts split: option.splits sum.splits)

lemma reconcile_keeps: "keeps R (reconcile sv record)"
  unfolding reconcile_def write_verdict_def jobs_get_def Let_def
  by (auto intro!: parts final_status_keeps split: option.splits)

lemma sweep_records_keeps: "keeps R (sweep_records sv records)"
proof (induction records)
  case (Cons r rs)
  then show ?case unfolding sweep_records.simps by (intro parts reconcile_keeps)
qed (simp only: sweep_records.simps keeps_ret)

lemma sweep_keeps: "keeps R (sweep sv)"
  unfolding sweep_def stale_steps_def by (intro parts sweep_records_keeps)

end

text \<open>Late writers never spend, never touch a plan, an API key, an upload or the queue.\<close>

definition late_only :: "('x \<times> obj list) world \<Rightarrow> ('x \<times> obj list) world \<Rightarrow> bool" where
  "late_only w w' \<longleftrightarrow> billed w' = billed w \<and> w_queue w' = w_queue w \<and> t_plans (w_db w') = t_plans (w_db w) \<and>
     t_idem (w_db w') = t_idem (w_db w) \<and> t_uploads (w_db w') = t_uploads (w_db w)"

lemma late_only_log: "keeps late_only (in_ext (with_log m))"
  by (auto simp: keeps_def late_only_def billed_def in_ext_def with_log_def Let_def case_prod_beta)

interpretation late: late_relation late_only "logged_sv sv" for sv :: "'x service"
proof
  fix w u v :: "('x \<times> obj list) world"
  show "late_only w w" by (simp add: late_only_def)
  show "late_only w u \<Longrightarrow> late_only u v \<Longrightarrow> late_only w v" by (simp add: late_only_def)
next
  show "keeps late_only (clock (logged_sv sv))"
    by (auto simp: keeps_def late_only_def billed_def clock_def in_ext_def now_is_def logged_sv_def logged_def Let_def case_prod_beta)
  show "keeps late_only (in_db (jobs_save j) :: ('x \<times> obj list, unit) serv)" for j
    by (simp add: keeps_def late_only_def billed_def in_db_def jobs_save_def Let_def case_prod_beta)
  show "keeps late_only (in_db (update_step pid sid st gid c now) :: ('x \<times> obj list, unit) serv)" for pid sid st gid c now
    by (simp add: keeps_def late_only_def billed_def in_db_def update_step_def)
  show "keeps late_only (in_db (record_webhook g ev pl now) :: ('x \<times> obj list, unit) serv)" for g ev pl now
    by (simp add: keeps_def late_only_def billed_def in_db_def record_webhook_def)
qed (auto simp: logged_sv_def logged_def late_only_log)

end
