(* ===== verification/Late.thy ===== *)
theory Late
  imports Verdicts Demo_Run
begin

text \<open>
  The properties of the late writers: a forged callback changes nothing, an authentic one settles
  exactly the step it names, the sweep leaves the job and the ledger in agreement, and neither ever
  spends.
\<close>

section \<open>Jobs after a verdict\<close>

lemma settled_step_facts:
  "js_step_id (settled_step t s payload) = js_step_id s"
  "js_status (settled_step t s payload) = (if status_of payload \<in> set SUCCESS_STATUSES then STEP_SUCCEEDED else STEP_FAILED)"
  "js_generation_id (settled_step t s payload) = js_generation_id s"
  by (simp_all add: settled_step_def apply_outcome_def Let_def)

lemma rewrite_job_frame:
  "j_steps (rewrite_job t j s st) = j_steps j" "j_job_id (rewrite_job t j s st) = j_job_id j" "j_plan_id (rewrite_job t j s st) = j_plan_id j"
  "j_actual_cost_rub (rewrite_job t j s st) = steps_actual_cost (j_steps j)"
  by (auto simp: rewrite_job_def Let_def split: option.splits)

lemma settled_job_frame:
  "j_job_id (settled_job t j s payload) = j_job_id j" "j_plan_id (settled_job t j s payload) = j_plan_id j"
  "j_actual_cost_rub (settled_job t j s payload) = steps_actual_cost (j_steps (settled_job t j s payload))"
  by (simp_all add: settled_job_def rewrite_job_frame)

lemma find_settled:
  assumes "find_step j sid = Some s"
  shows "find_step (settled_job t j s payload) sid = Some (settled_step t s payload)"
proof -
  have "js_step_id s = sid" using assms by (auto simp: find_step_def dest: find_in)
  then show ?thesis using assms
    by (simp add: settled_job_def find_step_def rewrite_job_frame find_upd_first settled_step_facts)
qed

lemma conclude_frame: "j_steps (conclude t j) = j_steps j" "j_job_id (conclude t j) = j_job_id j" "j_plan_id (conclude t j) = j_plan_id j"
  by (auto simp: conclude_def split: option.splits)

lemma apply_callback_frame:
  "j_job_id (apply_callback t j sid payload) = j_job_id j" "j_plan_id (apply_callback t j sid payload) = j_plan_id j"
  by (auto simp: apply_callback_def Let_def conclude_frame split: option.splits)

text \<open>\<open>aggregate_status\<close> reports success only when every step succeeded.\<close>

lemma count_status_0: "count_status st ss = 0 \<longleftrightarrow> (\<forall>s \<in> set ss. js_status s \<noteq> st)"
  by (auto simp: count_status_def filter_empty_conv)

lemma aggregate_succeeded:
  "terminal_status_of ss = Some JOB_SUCCEEDED \<Longrightarrow> s \<in> set ss \<Longrightarrow> js_status s = STEP_SUCCEEDED"
  by (cases "js_status s") (auto simp: terminal_status_of_def aggregate_status_def count_status_0 Let_def list_ex_iff split: if_splits)

section \<open>Callbacks\<close>

text \<open>C18: A callback whose signature is not the HMAC of its raw body under the configured secret (or,
  where the fallback is allowed, under the digest of the API token) is refused and changes nothing,
  whatever its body says.\<close>

theorem webhook_rejects_forgery:
  assumes "\<And>sig secret. signature = Some sig \<Longrightarrow>
      webhook_secret_value (sv_settings sv) = Some secret \<or>
      vibe_webhook_legacy_fallback (sv_settings sv) \<and>
        (\<exists>token. token_value (sv_settings sv) = Some token \<and> secret = sha256_hex (sv_crypto sv) token) \<Longrightarrow>
      py_lower (py_strip sig) \<noteq> hmac_sha256_hex (sv_crypto sv) secret raw_body"
  shows "\<exists>e. vibe_webhook sv loads raw_body signature event_header w = (Inl e, w)"
proof (cases "verify_webhook (sv_crypto sv) raw_body signature (webhook_secret_value (sv_settings sv)) (token_value (sv_settings sv))
    (vibe_webhook_legacy_fallback (sv_settings sv))")
  case (Inl e)
  then show ?thesis by (simp add: vibe_webhook_def Let_def)
next
  case (Inr u)
  then obtain sig s where "signature = Some sig" and s: "s \<in> set (candidate_secrets (sv_crypto sv) (webhook_secret_value (sv_settings sv))
      (token_value (sv_settings sv)) (vibe_webhook_legacy_fallback (sv_settings sv)))"
    and "py_lower (py_strip sig) = compute_signature (sv_crypto sv) raw_body s"
    using verify_webhookD by (metis (full_types) old.unit.exhaust)
  with candidate_secretsD [OF s] assms show ?thesis by (auto simp: compute_signature_def legacy_secret_def)
qed

lemma accept_callback_result:
  assumes "accept_callback sv payload hdr w = (Inr (gid, matched), w')"
  shows "gid = callback_generation payload"
  using assms by (auto simp: accept_callback_def Let_def bind_eq_Inr andthen_eq_Inr split: option.splits)

lemma settle_callback_result:
  assumes "settle_callback sv g payload w = (Inr matched, w')" and "db_ok (w_db w)"
  shows "case matched of None \<Rightarrow> w' = w
    | Some sid \<Rightarrow> \<exists>j t t2. job_at (w_db w) (j_job_id j) = Some j \<and>
        (\<exists>r \<in> set (t_steps (w_db w)). sx_generation_id r = Some g \<and> sx_step_id r = sid \<and> sx_job_id r = j_job_id j) \<and>
        w_db w' = settle_in_db (apply_callback t j sid payload) sid (callback_step_status payload) (Some g) (Some (callback_cost payload)) t2 (w_db w)"
proof (cases "find_by_generation g (w_db w)")
  case (Pair x d)
  then obtain found where f: "find_by_generation g (w_db w) = (Inr found, w_db w)"
    by (simp add: find_by_generation_def)
  then have rf: "in_db (find_by_generation g) w = (Inr found, w)" by (simp add: in_db_def)
  show ?thesis
  proof (cases found)
    case None
    then show ?thesis using assms(1) by (simp add: settle_callback_def bind_apply rf)
  next
    case (Some js)
    obtain j sid where js: "js = (j, sid)" by (cases js)
    obtain r where r: "r \<in> set (t_steps (w_db w))" "sx_generation_id r = Some g" "sx_step_id r = sid" "sx_job_id r = j_job_id j"
        "job_at (w_db w) (j_job_id j) = Some j"
      using find_by_generation_some [of g "w_db w" j sid] f Some js assms(2) by auto
    let ?t = "fst (cl_now (sv_client sv) (w_ext w))" and ?w1 = "w\<lparr>w_ext := snd (cl_now (sv_client sv) (w_ext w))\<rparr>"
    have "job_at (w_db ?w1) (j_job_id (apply_callback ?t j sid payload)) \<noteq> None" by (simp add: apply_callback_frame r)
    from save_then_settle [OF this, of "j_plan_id j" sv sid "callback_step_status payload" "Some g" "Some (callback_cost payload)"]
    obtain t2 u where u: "\<And>k :: ('a, string option) serv. andthen (in_db (jobs_save (apply_callback ?t j sid payload)))
          (bind (clock sv) (\<lambda>t2. andthen (in_db (update_step (j_plan_id j) sid (callback_step_status payload) (Some g) (Some (callback_cost payload)) t2)) k)) ?w1 = k u"
      "w_db u = settle_in_db (apply_callback ?t j sid payload) sid (callback_step_status payload) (Some g) (Some (callback_cost payload)) t2 (w_db w)"
      by (auto simp: apply_callback_frame)
    have "settle_callback sv g payload w = (Inr (Some sid), u)"
      by (simp add: settle_callback_def bind_apply rf Some js clock_apply u(1))
    then show ?thesis using assms(1) r u(2) by auto
  qed
qed

text \<open>The event log: an accepted callback leaves a row whatever it is about.\<close>

lemma accept_callback_settles:
  assumes "accept_callback sv payload hdr w = (Inr (gid, matched), w')"
  shows "\<exists>u. t_jobs (w_db u) = t_jobs (w_db w) \<and> t_steps (w_db u) = t_steps (w_db w) \<and> t_plans (w_db u) = t_plans (w_db w) \<and>
     (db_ok (w_db w) \<longrightarrow> db_ok (w_db u)) \<and>
     (case gid of None \<Rightarrow> matched = None \<and> w' = u | Some g \<Rightarrow> settle_callback sv g payload u = (Inr matched, w'))"
proof -
  let ?t = "fst (cl_now (sv_client sv) (w_ext w))" and ?w1 = "w\<lparr>w_ext := snd (cl_now (sv_client sv) (w_ext w))\<rparr>"
  let ?rec = "record_webhook (callback_generation payload) (callback_event payload hdr) payload ?t"
  let ?u = "?w1\<lparr>w_db := snd (?rec (w_db w))\<rparr>"
  have rec: "in_db ?rec ?w1 = (Inr (), ?u)" by (simp add: in_db_def record_webhook_def)
  have ok: "db_ok (w_db w) \<longrightarrow> db_ok (w_db ?u)"
    using record_webhook_ok [of "callback_generation payload" "callback_event payload hdr" payload ?t]
    by (simp add: keeps_def ok_step_def)
  have frame: "t_jobs (w_db ?u) = t_jobs (w_db w)" "t_steps (w_db ?u) = t_steps (w_db w)" "t_plans (w_db ?u) = t_plans (w_db w)"
    by (simp_all add: record_webhook_def)
  have eq: "accept_callback sv payload hdr w =
      (case callback_generation payload of None \<Rightarrow> ret (None, None)
       | Some g \<Rightarrow> bind (settle_callback sv g payload) (\<lambda>matched. ret (Some g, matched))) ?u"
    by (simp only: accept_callback_def Let_def bind_apply andthen_def clock_apply rec prod.case sum.case)
  have "case gid of None \<Rightarrow> matched = None \<and> w' = ?u | Some g \<Rightarrow> settle_callback sv g payload ?u = (Inr matched, w')"
  proof (cases "callback_generation payload")
    case (Some g)
    with assms eq have "bind (settle_callback sv g payload) (\<lambda>matched. ret (Some g, matched)) ?u = (Inr (gid, matched), w')"
      by simp
    then show ?thesis by (auto simp: bind_eq_Inr)
  qed (use assms eq in simp)
  then show ?thesis using ok frame by blast
qed

lemma vibe_webhook_accepts:
  assumes "vibe_webhook sv loads raw_body signature event_header w = (Inr (gid, matched), w')"
  obtains payload where "loads raw_body = Some (JObj payload)" and "accept_callback sv payload event_header w = (Inr (gid, matched), w')"
  using assms by (auto simp: vibe_webhook_def Let_def split: sum.splits option.splits json.splits)



section \<open>The sweep\<close>

lemma verdict_terminal:
  "verdict_of s reply = Inr (Some payload) \<Longrightarrow> status_of payload \<in> set TERMINAL_STATUSES \<or> payload = lost_generation s"
  by (auto simp: verdict_of_def split: sum.splits vibe_error.splits option.splits if_splits)

text \<open>What \<open>_reconcile\<close> leaves behind when it settles: the pair of writes, on the job as it was.\<close>

lemma final_status_db: "w_db (snd (final_status sv s w)) = w_db w"
proof -
  have ext: "w_db (snd (in_ext m w)) = w_db w" for m :: "('a, exn, obj) eff" and w
    by (simp add: in_ext_def Let_def case_prod_beta)
  have "w_db (snd (ask_status sv s w)) = w_db w"
    using ext by (auto simp: ask_status_def bind_apply split: option.split prod.split sum.split) (metis snd_conv)+
  then have "w_db (snd (try_vibe (ask_status sv s) w)) = w_db w"
    by (auto simp: try_vibe_apply split: prod.split sum.split exn.split)
  then show ?thesis
    by (auto simp: final_status_def bind_apply split: prod.split sum.split)
qed

lemma write_verdict_result:
  assumes "job_at (w_db u) (j_job_id j) \<noteq> None"
  shows "\<exists>t t2 v. write_verdict sv j s payload u = (Inr (), v) \<and>
    w_db v = settle_in_db (settled_job t j s payload) (js_step_id s) (js_status (settled_step t s payload)) (js_generation_id s)
      (Some (js_actual_cost_rub (settled_step t s payload))) t2 (w_db u)"
proof -
  let ?t = "fst (cl_now (sv_client sv) (w_ext u))" and ?u1 = "u\<lparr>w_ext := snd (cl_now (sv_client sv) (w_ext u))\<rparr>"
  have "job_at (w_db ?u1) (j_job_id (settled_job ?t j s payload)) \<noteq> None" using assms by (simp add: settled_job_frame)
  from save_then_settle [OF this, of "j_plan_id j" sv "js_step_id s" "js_status (settled_step ?t s payload)" "js_generation_id s"
      "Some (js_actual_cost_rub (settled_step ?t s payload))"]
  obtain t2 v where v: "andthen (in_db (jobs_save (settled_job ?t j s payload))) (bind (clock sv) (\<lambda>t2.
        in_db (update_step (j_plan_id j) (js_step_id s) (js_status (settled_step ?t s payload)) (js_generation_id s)
          (Some (js_actual_cost_rub (settled_step ?t s payload))) t2))) ?u1 = (Inr (), v)"
    "w_db v = settle_in_db (settled_job ?t j s payload) (js_step_id s) (js_status (settled_step ?t s payload)) (js_generation_id s)
      (Some (js_actual_cost_rub (settled_step ?t s payload))) t2 (w_db u)"
    by (auto simp: settled_job_frame)
  have "write_verdict sv j s payload u = (Inr (), v)"
    by (simp add: write_verdict_def bind_apply [of "clock sv" _ u] clock_apply [of sv u] Let_def settled_step_facts(3) v(1))
  with v(2) show ?thesis by blast
qed

lemma reconcile_result:
  assumes "reconcile sv record w = (Inr True, w')" and "db_ok (w_db w)"
  shows "\<exists>j s payload t t2. job_at (w_db w) (sx_job_id record) = Some j \<and> j_job_id j = sx_job_id record \<and>
    find_step j (sx_step_id record) = Some s \<and> js_generation_id s \<noteq> None \<and>
    w_db w' = settle_in_db (settled_job t j s payload) (sx_step_id record) (js_status (settled_step t s payload)) (js_generation_id s)
      (Some (js_actual_cost_rub (settled_step t s payload))) t2 (w_db w)"
proof -
  have job: "in_db (jobs_get (sx_job_id record)) w = (Inr (job_at (w_db w) (sx_job_id record)), w)"
    by (simp add: jobs_get_def)
  obtain j where j: "job_at (w_db w) (sx_job_id record) = Some j"
    using assms(1) by (cases "job_at (w_db w) (sx_job_id record)") (simp_all add: reconcile_def bind_apply job)
  obtain s where s: "find_step j (sx_step_id record) = Some s"
    using assms(1) by (cases "find_step j (sx_step_id record)") (simp_all add: reconcile_def bind_apply job j)
  have id: "js_step_id s = sx_step_id record" using s by (auto simp: find_step_def dest: find_in)
  have g: "js_generation_id s \<noteq> None" using assms(1) by (cases "js_generation_id s") (simp_all add: reconcile_def bind_apply job j s)
  obtain payload u where f: "final_status sv s w = (Inr (Some payload), u)" and wr: "andthen (write_verdict sv j s payload) (ret True) u = (Inr True, w')"
    using assms(1) g by (auto simp: reconcile_def bind_eq_Inr job j s split: option.splits)
  have u: "w_db u = w_db w" using final_status_db [of sv s w] f by simp
  have jid: "j_job_id j = sx_job_id record" by (rule job_at_id [OF assms(2) j])
  then have "job_at (w_db u) (j_job_id j) \<noteq> None" by (simp add: u j)
  from write_verdict_result [OF this, of sv s payload] obtain t t2 v where v: "write_verdict sv j s payload u = (Inr (), v)"
    "w_db v = settle_in_db (settled_job t j s payload) (js_step_id s) (js_status (settled_step t s payload)) (js_generation_id s)
      (Some (js_actual_cost_rub (settled_step t s payload))) t2 (w_db w)"
    by (auto simp: u)
  then have "w' = v" using wr by simp
  then show ?thesis using j jid s g v(2) id by auto
qed

text \<open>C22: When the sweep settles a step, the job document and the ledger tell the same story about it: the
  same final status, the same cost, and the job's total is the sum over its steps.\<close>

theorem reconcile_agrees:
  assumes "db_ok (w_db w)" and "reconcile sv record w = (Inr True, w')"
  shows "\<exists>j s. job_at (w_db w') (sx_job_id record) = Some j \<and> find_step j (sx_step_id record) = Some s \<and>
    js_status s \<in> {STEP_SUCCEEDED, STEP_FAILED} \<and> j_actual_cost_rub j = steps_actual_cost (j_steps j) \<and>
    (\<forall>row. step_at (w_db w') (j_plan_id j) (sx_step_id record) = Some row \<longrightarrow>
       sx_status row = js_status s \<and> sx_actual_cost_rub row = js_actual_cost_rub s)"
proof -
  obtain j s payload t t2 where j: "job_at (w_db w) (sx_job_id record) = Some j" "j_job_id j = sx_job_id record"
    "find_step j (sx_step_id record) = Some s"
    and d: "w_db w' = settle_in_db (settled_job t j s payload) (sx_step_id record) (js_status (settled_step t s payload)) (js_generation_id s)
      (Some (js_actual_cost_rub (settled_step t s payload))) t2 (w_db w)"
    using reconcile_result [OF assms(2,1)] by blast
  have ex: "job_at (w_db w) (j_job_id (settled_job t j s payload)) \<noteq> None" by (simp add: settled_job_frame j)
  show ?thesis
    using find_settled [OF j(3), of t payload]
    by (intro exI [of _ "settled_job t j s payload"] exI [of _ "settled_step t s payload"])
      (auto simp: d settle_in_db_reads [OF ex] settled_job_frame j(2) settled_step_facts settled_row_def)
qed


text \<open>The sweep never settles more steps than were stale, and it ends whatever the platform answers
  for a single one.\<close>

lemma sweep_records_bound: "sweep_records sv records w = (Inr n, w') \<Longrightarrow> n \<le> length records"
proof (induction records arbitrary: w w' n)
  case (Cons r rs)
  then obtain m u where "sweep_records sv rs u = (Inr m, w')" and "n \<le> m + 1"
    by (auto simp: bind_eq_Inr split: if_splits)
  then show ?case using Cons.IH [of u m w'] by simp
qed simp

section \<open>A contradiction a late callback leaves\<close>

text \<open>The job keeps a step that succeeded, the ledger does not: a second callback about the same
  generation that does not report success turns the row into a failure that cost nothing.\<close>

lemma callback_contradicts_job:
  assumes "find_step j sid = Some s" and "js_status s = STEP_SUCCEEDED" and "callback_step_status payload = STEP_FAILED"
    and "job_at d (j_job_id j) = Some j" and "step_at d (j_plan_id j) sid = Some row"
  shows "\<exists>row'. job_at (settle_in_db (apply_callback t j sid payload) sid (callback_step_status payload) (Some g) (Some (callback_cost payload)) t2 d) (j_job_id j) = Some j \<and>
    step_at (settle_in_db (apply_callback t j sid payload) sid (callback_step_status payload) (Some g) (Some (callback_cost payload)) t2 d) (j_plan_id j) sid = Some row' \<and>
    sx_status row' = STEP_FAILED"
  using assms by (simp add: apply_callback_def settle_in_db_reads settled_row_def)

section \<open>Concrete cases\<close>

lemma is_space_byte: "is_space [c] \<Longrightarrow> (of_char c :: nat) \<le> 32"
  by (auto simp: is_space_def space_chars_def bytes_def)

lemma py_strip_plain: "list_all (\<lambda>c. 32 < (of_char c :: nat) \<and> (of_char c :: nat) < 128) s \<Longrightarrow> py_strip s = s"
proof -
  have keep: "list_all (\<lambda>c. 32 < (of_char c :: nat)) s \<Longrightarrow> dropWhile is_space (map (\<lambda>c. [c]) s) = map (\<lambda>c. [c]) s" for s
    using is_space_byte by (cases s) fastforce+
  have single: "concat (map (\<lambda>c. [c]) s) = s" for s :: string by (induction s) auto
  assume p: "list_all (\<lambda>c. 32 < (of_char c :: nat) \<and> (of_char c :: nat) < 128) s"
  then have c: "py_chars s = map (\<lambda>c. [c]) s"
    by (intro py_chars_ascii) (auto simp: list_all_iff utf8_cont_def)
  have l: "list_all (\<lambda>c. 32 < (of_char c :: nat)) s" "list_all (\<lambda>c. 32 < (of_char c :: nat)) (rev s)"
    using p by (auto simp: list_all_iff)
  have "py_rstrip s = s"
    using keep [OF l(2)] by (simp add: py_rstrip_def c rev_map [symmetric] single)
  then show ?thesis using keep [OF l(1)] by (simp add: py_strip_def py_lstrip_def c single)
qed

lemma plain_lower:
  "py_lower (py_strip ''bad'') = ''bad''" "py_lower (py_strip ''s{}'') = ''s{}''" "is_ascii ''s{}''"
  by (subst py_strip_plain, simp, code_simp)+ (simp add: is_ascii_def)

definition hooked :: "nat service" where
  "hooked = (demo_service 10)\<lparr>sv_settings := default_settings\<lparr>vibe_webhook_secret := Some ''s''\<rparr>\<rparr>"

definition demo_row :: step_row where
  "demo_row = \<lparr>sx_idempotency_key = ''key-image-1'', sx_plan_id = ''p1'', sx_step_id = ''image-1'', sx_job_id = ''j1'',
     sx_request_hash = [], sx_generation_id = Some 7, sx_status = STEP_RUNNING, sx_actual_cost_rub = 10, sx_updated_at = 0\<rparr>"

definition launched_job :: job where
  "launched_job = demo_job\<lparr>j_steps := [(demo_job_step (demo_step ''image-1'' IMAGE 10))\<lparr>js_status := STEP_RUNNING, js_generation_id := Some 7\<rparr>]\<rparr>"

definition launched_world :: "nat world" where
  "launched_world = \<lparr>w_db = empty_db\<lparr>t_plans := [plan_row_of demo_plan], t_jobs := [job_row_of launched_job], t_steps := [demo_row]\<rparr>,
     w_ext = 0, w_queue = []\<rparr>"

lemma launched_ok: "db_ok (w_db launched_world)"
  by (simp add: launched_world_def db_ok_def empty_db_def plans_ok_def jobs_ok_def steps_ok_def plan_row_of_def job_row_of_def)

theorem webhook_rejects_forgery_witness:
  "\<exists>e. vibe_webhook hooked (\<lambda>_. Some (JObj [])) ''{}'' (Some ''bad'') None launched_world = (Inl e, launched_world)"
proof (rule webhook_rejects_forgery)
  fix sig secret
  assume "Some ''bad'' = Some sig" and "webhook_secret_value (sv_settings hooked) = Some secret \<or>
      vibe_webhook_legacy_fallback (sv_settings hooked) \<and>
        (\<exists>token. token_value (sv_settings hooked) = Some token \<and> secret = sha256_hex (sv_crypto hooked) token)"
  then have "sig = ''bad''" "secret = ''s''"
    by (auto simp: hooked_def webhook_secret_value_def default_settings_def unset_def)
  moreover note plain_lower(1)
  ultimately show "py_lower (py_strip sig) \<noteq> hmac_sha256_hex (sv_crypto hooked) secret ''{}''"
    by (simp add: hooked_def demo_service_def demo_crypto_def)
qed

definition demo_callback :: obj where
  "demo_callback = [(''generation_id'', JInt 7), (''status'', JStr ''complete''), (''cost'', JInt 10)]"

lemma demo_callback_done: "callback_step_status demo_callback = STEP_SUCCEEDED"
proof -
  have "py_lower ''complete'' = ''complete''" by code_simp
  then show ?thesis by (simp add: callback_step_status_def demo_callback_def j_or_def CALLBACK_SUCCESS_def)
qed

lemma demo_hooked: "\<exists>w'. vibe_webhook hooked (\<lambda>_. Some (JObj demo_callback)) ''{}'' (Some ''s{}'') None launched_world = (Inr (Some 7, Some ''image-1''), w')"
proof -
  have "verify_webhook (sv_crypto hooked) ''{}'' (Some ''s{}'') (Some ''s'') t l = Inr ()" for t l
    by (intro verify_webhook_signed) (simp_all add: hooked_def demo_service_def demo_crypto_def compute_signature_def plain_lower)
  moreover have "webhook_secret_value (sv_settings hooked) = Some ''s''" by (simp add: hooked_def webhook_secret_value_def unset_def)
  moreover have "callback_generation demo_callback = Some 7" by (simp add: callback_generation_def demo_callback_def)
  moreover have "fst (find_by_generation 7 d) = Inr (Some (launched_job, ''image-1''))" "snd (find_by_generation 7 d) = d"
    if "t_steps d = [demo_row]" "t_jobs d = [job_row_of launched_job]" for d
    using that by (simp_all add: find_by_generation_def demo_row_def job_at_def job_row_of_def launched_job_def demo_job_def)
  ultimately show ?thesis
    by (simp add: vibe_webhook_def Let_def accept_callback_def bind_apply andthen_def clock_apply in_db_def record_webhook_def settle_callback_def
        launched_world_def case_prod_beta jobs_save_def apply_callback_frame update_step_def)
      (simp add: job_row_of_def launched_job_def)
qed



lemma demo_reconciled: "\<exists>w'. reconcile (demo_service 10) demo_row launched_world = (Inr True, w')"
proof -
  have job: "in_db (jobs_get ''j1'') launched_world = (Inr (Some launched_job), launched_world)"
    by (simp add: jobs_get_def job_at_def launched_world_def job_row_of_def launched_job_def demo_job_def)
  obtain s where s: "find_step launched_job ''image-1'' = Some s" "js_generation_id s = Some 7" "\<not> js_is_long_voiceover s"
    by (simp add: find_step_def launched_job_def demo_job_step_def demo_step_def)
  have ask: "ask_status (demo_service 10) s w = (Inr (Some [(''status'', JStr ''complete''), (''cost'', JFloat 10)]), w)" for w
    by (simp add: ask_status_def s demo_service_def demo_client_def bind_apply in_ext_def)
  have verdict: "final_status (demo_service 10) s w = (Inr (Some [(''status'', JStr ''complete''), (''cost'', JFloat 10)]), w)" for w
    by (simp add: final_status_def bind_apply try_vibe_apply ask verdict_of_def demo_status TERMINAL_STATUSES_def SUCCESS_STATUSES_def)
  have "j_job_id launched_job = ''j1''" by (simp add: launched_job_def demo_job_def)
  then have "job_at (w_db launched_world) (j_job_id launched_job) \<noteq> None"
    by (simp add: job_at_def launched_world_def job_row_of_def)
  from write_verdict_result [OF this, of "demo_service 10" s "[(''status'', JStr ''complete''), (''cost'', JFloat 10)]"]
  obtain u where u: "write_verdict (demo_service 10) launched_job s [(''status'', JStr ''complete''), (''cost'', JFloat 10)] launched_world = (Inr (), u)"
    by blast
  have "sx_job_id demo_row = ''j1''" "sx_step_id demo_row = ''image-1''" by (simp_all add: demo_row_def)
  then show ?thesis by (simp add: reconcile_def bind_apply andthen_def job s verdict u)
qed

theorem reconcile_agrees_witness:
  "\<exists>w' j s. reconcile (demo_service 10) demo_row launched_world = (Inr True, w') \<and> job_at (w_db w') ''j1'' = Some j \<and>
     find_step j ''image-1'' = Some s \<and> js_status s \<in> {STEP_SUCCEEDED, STEP_FAILED}"
proof -
  obtain w' where w': "reconcile (demo_service 10) demo_row launched_world = (Inr True, w')" using demo_reconciled by blast
  have "sx_job_id demo_row = ''j1''" "sx_step_id demo_row = ''image-1''" by (simp_all add: demo_row_def)
  with reconcile_agrees [OF launched_ok w'] w' show ?thesis by metis
qed

end
