(* ===== verification/Responses.thy ===== *)
theory Responses
  imports Admission
begin

text \<open>
  The models this service answers with (\<open>app/api/schemas.py\<close>) and how they are built from plans and
  jobs, and the answers of the error handlers (\<open>app/main.py\<close>).
\<close>

section \<open>Plans\<close>

record plan_step_response =
  psr_step_id :: string
  psr_format :: content_format
  psr_kind :: step_kind
  psr_type :: "string option"
  psr_model :: "string option"
  psr_model_description :: string
  psr_params :: obj
  psr_idempotency_key :: string
  psr_estimated_cost_rub :: money
  psr_cost_source :: string
  psr_cost_basis :: msg
  psr_reason :: msg
  psr_rejected_alternatives :: "rejected_candidate list"
  psr_warnings :: "msg list"
  psr_local_output :: "string option"

record plan_response =
  plr_plan_id :: string
  plr_created_at :: time
  plr_mode :: string
  plr_status :: plan_status
  plr_currency :: string
  plr_budget_rub :: money
  plr_safety_margin_rub :: money
  plr_spendable_rub :: money
  plr_total_estimated_rub :: money
  plr_budget_remaining_rub :: money
  plr_steps :: "plan_step_response list"
  plr_warnings :: "msg list"
  plr_account :: account
  plr_capabilities_fingerprint :: string
  plr_job_id :: "string option"

text \<open>\<open>PlanStepResponse(**step.model_dump())\<close>\<close>

definition plan_step_response_of :: "plan_step \<Rightarrow> plan_step_response" where
  "plan_step_response_of s =
     \<lparr>psr_step_id = ps_step_id s, psr_format = ps_format s, psr_kind = ps_kind s, psr_type = ps_type s, psr_model = ps_model s,
      psr_model_description = ps_model_description s, psr_params = ps_params s, psr_idempotency_key = ps_idempotency_key s,
      psr_estimated_cost_rub = ps_estimated_cost_rub s, psr_cost_source = ps_cost_source s, psr_cost_basis = ps_cost_basis s,
      psr_reason = ps_reason s, psr_rejected_alternatives = ps_rejected_alternatives s, psr_warnings = ps_warnings s,
      psr_local_output = ps_local_output s\<rparr>"

definition from_plan :: "plan \<Rightarrow> plan_response" where
  "from_plan p =
     \<lparr>plr_plan_id = p_plan_id p, plr_created_at = p_created_at p, plr_mode = p_mode p, plr_status = p_status p,
      plr_currency = ''RUB'', plr_budget_rub = p_budget_rub p, plr_safety_margin_rub = p_safety_margin_rub p,
      plr_spendable_rub = p_spendable_rub p, plr_total_estimated_rub = p_total_estimated_rub p,
      plr_budget_remaining_rub = plan_budget_remaining_rub p, plr_steps = map plan_step_response_of (p_steps p),
      plr_warnings = p_warnings p, plr_account = p_account p, plr_capabilities_fingerprint = p_capabilities_fingerprint p,
      plr_job_id = p_job_id p\<rparr>"

section \<open>Jobs\<close>

record job_step_response =
  jsr_step_id :: string
  jsr_format :: content_format
  jsr_kind :: step_kind
  jsr_type :: "string option"
  jsr_model :: "string option"
  jsr_status :: step_status
  jsr_generation_id :: "int option"
  jsr_idempotency_key :: string
  jsr_estimated_cost_rub :: money
  jsr_actual_cost_rub :: money
  jsr_refunded :: bool
  jsr_display_url :: json
  jsr_result_url :: json
  jsr_local_output :: "string option"
  jsr_text_output :: "string option"
  jsr_error :: "msg option"
  jsr_duration_seconds :: "time option"

record job_response =
  jbr_job_id :: string
  jbr_plan_id :: string
  jbr_mode :: string
  jbr_status :: job_status
  jbr_currency :: string
  jbr_budget_rub :: money
  jbr_estimated_cost_rub :: money
  jbr_actual_cost_rub :: money
  jbr_budget_remaining_rub :: money
  jbr_steps :: "job_step_response list"
  jbr_warnings :: "msg list"
  jbr_errors :: "msg list"
  jbr_created_at :: time
  jbr_started_at :: "time option"
  jbr_finished_at :: "time option"
  jbr_duration_seconds :: "time option"

definition job_step_response_of :: "job_step \<Rightarrow> job_step_response" where
  "job_step_response_of s =
     \<lparr>jsr_step_id = js_step_id s, jsr_format = js_format s, jsr_kind = js_kind s, jsr_type = js_type s, jsr_model = js_model s,
      jsr_status = js_status s, jsr_generation_id = js_generation_id s, jsr_idempotency_key = js_idempotency_key s,
      jsr_estimated_cost_rub = js_estimated_cost_rub s, jsr_actual_cost_rub = js_actual_cost_rub s, jsr_refunded = js_refunded s,
      jsr_display_url = js_display_url s, jsr_result_url = js_result_url s, jsr_local_output = js_local_output s,
      jsr_text_output = js_text_output s, jsr_error = js_error s, jsr_duration_seconds = js_duration_seconds s\<rparr>"

definition from_job :: "job \<Rightarrow> job_response" where
  "from_job j =
     \<lparr>jbr_job_id = j_job_id j, jbr_plan_id = j_plan_id j, jbr_mode = j_mode j, jbr_status = j_status j, jbr_currency = ''RUB'',
      jbr_budget_rub = j_budget_rub j, jbr_estimated_cost_rub = j_estimated_cost_rub j, jbr_actual_cost_rub = j_actual_cost_rub j,
      jbr_budget_remaining_rub = job_budget_remaining_rub j, jbr_steps = map job_step_response_of (j_steps j),
      jbr_warnings = j_warnings j, jbr_errors = j_errors j, jbr_created_at = j_created_at j, jbr_started_at = j_started_at j,
      jbr_finished_at = j_finished_at j, jbr_duration_seconds = j_duration_seconds j\<rparr>"

section \<open>Errors\<close>

record error_response =
  er_status_code :: int
  er_error :: string
  er_message :: msg
  er_details :: json
  er_correlation_id :: "string option"

definition app_error_handler :: "string option \<Rightarrow> app_error \<Rightarrow> error_response" where
  "app_error_handler cid e =
     \<lparr>er_status_code = class_status_code (ae_class e), er_error = ae_code e, er_message = ae_message e, er_details = ae_details e,
      er_correlation_id = cid\<rparr>"

definition vibe_error_handler :: "string option \<Rightarrow> vibe_error \<Rightarrow> error_response" where
  "vibe_error_handler cid e =
     \<lparr>er_status_code = (case e of VibeAPIError a \<Rightarrow> if api_status_code a \<in> {401, 402, 403, 429} then api_status_code a else 502
                         | _ \<Rightarrow> 502),
      er_error = (case e of VibeAPIError a \<Rightarrow> api_code a | _ \<Rightarrow> ''upstream_unavailable''),
      er_message = vibe_str e, er_details = JNull, er_correlation_id = cid\<rparr>"

text \<open>What the application answers to an exception; \<open>None\<close> is the framework's own 500.\<close>

definition error_answer :: "string option \<Rightarrow> exn \<Rightarrow> error_response option" where
  "error_answer cid e =
     (case e of App a \<Rightarrow> Some (app_error_handler cid a) | Vibe v \<Rightarrow> Some (vibe_error_handler cid v) | _ \<Rightarrow> None)"

section \<open>What the answers keep\<close>

lemma from_plan_reports:
  "plr_budget_remaining_rub (from_plan p) = round4 (plr_budget_rub (from_plan p) - plr_total_estimated_rub (from_plan p))"
  "map psr_idempotency_key (plr_steps (from_plan p)) = map ps_idempotency_key (p_steps p)"
  by (simp_all add: from_plan_def plan_budget_remaining_rub_def plan_step_response_of_def)

lemma class_status_bounds: "400 \<le> class_status_code c \<and> class_status_code c < 600"
  by (cases c) simp_all

lemma error_answer_status:
  "error_answer cid e = Some r \<Longrightarrow> 400 \<le> er_status_code r \<and> er_status_code r < 600"
  using class_status_bounds
  by (auto simp: error_answer_def app_error_handler_def vibe_error_handler_def order_less_imp_le
      intro: order.strict_trans split: exn.splits vibe_error.splits)

end
