(* ===== verification/Media.thy ===== *)
theory Media
  imports Responses
begin

text \<open>
  Uploads: the limits read from the catalog (\<open>app/domain/media.py\<close>), the service that checks a file
  against them before any byte leaves the process (\<open>app/services/media.py\<close>), and the two endpoints
  (\<open>app/api/routers/media.py\<close>). The stream of chunks is the list of byte strings it yields.
\<close>

section \<open>Limits\<close>

record media_kind =
  md_name :: string
  md_max_bytes :: int
  md_extensions :: "string list"

record media_limits =
  ml_kinds :: "media_kind list"
  ml_ttl_days :: int
  ml_source :: string

definition MEGABYTE :: int where
  "MEGABYTE = 1024 * 1024"

definition FALLBACK_LIMITS :: "(string \<times> int \<times> string list) list" where
  "FALLBACK_LIMITS = [(''image'', 30, [''jpeg'', ''jpg'', ''png'', ''webp'', ''gif'']), (''video'', 50, [''mp4'', ''mov'']),
     (''audio'', 15, [''mp3'', ''wav''])]"

definition EXTENSION_ALIASES :: "(string, string list) dict" where
  "EXTENSION_ALIASES = [(''jpeg'', [''jpg'']), (''jpg'', [''jpeg''])]"

definition aliases_of :: "string \<Rightarrow> string list" where
  "aliases_of ext = (case map_of EXTENSION_ALIASES ext of Some al \<Rightarrow> al | None \<Rightarrow> [])"

fun extend_new :: "string list \<Rightarrow> string list \<Rightarrow> string list" where
  "extend_new expanded [] = expanded"
| "extend_new expanded (a # al) = extend_new (if a \<in> set expanded then expanded else expanded @ [a]) al"

definition with_aliases :: "string list \<Rightarrow> string list" where
  "with_aliases extensions = fold (\<lambda>ext expanded. extend_new expanded (aliases_of ext)) extensions extensions"

definition accepts :: "media_kind \<Rightarrow> string \<Rightarrow> bool" where
  "accepts k extension \<longleftrightarrow> lstrip_char CHR ''.'' (py_lower extension) \<in> set (md_extensions k)"

text \<open>The regular expression \<open>(\d+)\s*MB\s*\(([^)]*)\)\<close>, letters in either case. Giving back digits never
  lets the rest match, so no backtracking is needed.\<close>

definition match_limit :: "string \<Rightarrow> (nat \<times> string) option" where
  "match_limit s =
     (let ds = takeWhile is_digit s; r = py_lstrip (dropWhile is_digit s); r2 = py_lstrip (drop 2 r) in
      if ds = [] \<or> py_lower (take 2 r) \<noteq> ''mb'' then None
      else case r2 of
        [] \<Rightarrow> None
      | c # body \<Rightarrow>
          if c = CHR ''('' \<and> CHR '')'' \<in> set body then Some (digits_val ds, takeWhile (\<lambda>d. d \<noteq> CHR '')'') body)
          else None)"

fun search_limit :: "string \<Rightarrow> (nat \<times> string) option" where
  "search_limit [] = None"
| "search_limit (c # cs) = (case match_limit (c # cs) of Some r \<Rightarrow> Some r | None \<Rightarrow> search_limit cs)"

definition limit_extensions :: "string \<Rightarrow> string list" where
  "limit_extensions formats =
     map (\<lambda>part. lstrip_char CHR ''.'' (py_lower (py_strip part))) (filter (\<lambda>part. py_strip part \<noteq> []) (py_split CHR ''/'' formats))"

definition parse_limit :: "string \<Rightarrow> string \<Rightarrow> media_kind option" where
  "parse_limit name description =
     (case search_limit description of
        None \<Rightarrow> None
      | Some (megabytes, formats) \<Rightarrow>
          if megabytes = 0 \<or> limit_extensions formats = [] then None
          else Some \<lparr>md_name = name, md_max_bytes = int megabytes * MEGABYTE,
                 md_extensions = with_aliases (limit_extensions formats)\<rparr>)"

definition fallback_limits :: media_limits where
  "fallback_limits = \<lparr>ml_kinds = map (\<lambda>(name, mb, exts). \<lparr>md_name = name, md_max_bytes = mb * MEGABYTE,
     md_extensions = with_aliases exts\<rparr>) FALLBACK_LIMITS, ml_ttl_days = 7, ml_source = ''fallback''\<rparr>"

definition parse_limits :: "obj \<Rightarrow> media_limits" where
  "parse_limits payload =
     (case jget payload ''upload_endpoint'' of
        JObj endpoint \<Rightarrow>
          (case jget endpoint ''limits'' of
             JObj limits \<Rightarrow>
               (let kinds = List.map_filter (\<lambda>(name, description). parse_limit name (py_str description)) limits in
                if kinds = [] then fallback_limits
                else \<lparr>ml_kinds = kinds,
                  ml_ttl_days = (case as_int (jget endpoint ''ttl_days'') of Some n \<Rightarrow> if n > 0 then n else 7 | None \<Rightarrow> 7),
                  ml_source = ''capabilities''\<rparr>)
           | _ \<Rightarrow> fallback_limits)
      | _ \<Rightarrow> fallback_limits)"

definition kind_for :: "media_limits \<Rightarrow> string \<Rightarrow> media_kind option" where
  "kind_for l extension = find (\<lambda>k. accepts k extension) (ml_kinds l)"

definition limits_max_bytes :: "media_limits \<Rightarrow> int" where
  "limits_max_bytes l = (case map md_max_bytes (ml_kinds l) of [] \<Rightarrow> 0 | b # bs \<Rightarrow> fold max bs b)"

definition describe_kind :: "media_kind \<Rightarrow> string" where
  "describe_kind k = md_name k @ '': '' @ bytes [208, 180, 208, 190, 32] @ show_int (md_max_bytes k div MEGABYTE)
     @ bytes [32, 208, 156, 208, 145, 32, 40] @ py_join '', '' (sort (md_extensions k)) @ '')''"

definition describe_limits :: "media_limits \<Rightarrow> string" where
  "describe_limits l = py_join ''; '' (map describe_kind (ml_kinds l))"

section \<open>The service\<close>

record uploaded_media =
  um_url :: string
  um_filename :: string
  um_content_type :: string
  um_size_bytes :: int
  um_kind :: string
  um_expires_in_days :: int

definition media_limits_of :: "'x service \<Rightarrow> ('x, media_limits) serv" where
  "media_limits_of sv =
     bind (try_vibe (in_ext (cl_capabilities (sv_client sv)))) (\<lambda>res. ret (case res of
       Inr payload \<Rightarrow> parse_limits payload | Inl e \<Rightarrow> fallback_limits))"

definition extension_of :: "string \<Rightarrow> string" where
  "extension_of filename = (if CHR ''.'' \<in> set filename then last (py_split CHR ''.'' filename) else [])"

definition select_kind :: "string \<Rightarrow> media_limits \<Rightarrow> exn + media_kind" where
  "select_kind filename limits =
     (case (if extension_of filename \<noteq> [] then kind_for limits (extension_of filename) else None) of
        Some k \<Rightarrow> Inr k
      | None \<Rightarrow> Inl (App (new_app_error ValidationError
          (Msg ''format_not_accepted'' [JStr (if extension_of filename \<noteq> [] then extension_of filename else filename),
             JStr (describe_limits limits)])
          (JObj [(''limits_source'', JStr (ml_source limits))]) None)))"

text \<open>\<open>_read_bounded\<close>: the content or the refusal, and the chunks that were not read.\<close>

fun read_chunks :: "media_kind \<Rightarrow> string \<Rightarrow> string list \<Rightarrow> (exn + string) \<times> string list" where
  "read_chunks k buffer [] =
     ((if buffer = [] then Inl (app_raise ValidationError (Msg ''empty_file'' [])) else Inr buffer), [])"
| "read_chunks k buffer (c # cs) =
     (if int (length (buffer @ c)) > md_max_bytes k
      then (Inl (app_raise ValidationError (Msg ''file_too_large'' [JInt (md_max_bytes k div MEGABYTE), JStr (md_name k)])), cs)
      else read_chunks k (buffer @ c) cs)"

definition direct_url :: "obj \<Rightarrow> string list \<Rightarrow> string option" where
  "direct_url payload ks =
     (case List.map_filter (\<lambda>k. case jget payload k of JStr v \<Rightarrow> if py_startswith v ''http'' then Some v else None | _ \<Rightarrow> None) ks of
        [] \<Rightarrow> None | u # us \<Rightarrow> Some u)"

definition URL_KEYS :: "string list" where
  "URL_KEYS = [''url'', ''file_url'', ''media_url'', ''stable_url'', ''public_url'', ''link'']"

definition NESTED_KEYS :: "string list" where
  "NESTED_KEYS = [''data'', ''file'', ''media'', ''result'']"

function nested_url :: "obj \<Rightarrow> string list \<Rightarrow> string option" where
  "nested_url payload [] = None"
| "nested_url payload (k # ks) =
     (case jget payload k of
        JObj o1 \<Rightarrow>
          (case direct_url o1 URL_KEYS of
             Some u \<Rightarrow> Some u
           | None \<Rightarrow> (case nested_url o1 NESTED_KEYS of Some u \<Rightarrow> Some u | None \<Rightarrow> nested_url payload ks))
      | _ \<Rightarrow> nested_url payload ks)"
  by pat_completeness auto
termination
  by (relation "measures [\<lambda>(p, ks). size_list (size_prod (\<lambda>_. 0) size) p, \<lambda>(p, ks). length ks]")
    (auto dest: size_jget)

definition url_of :: "obj \<Rightarrow> string option" where
  "url_of payload = (case direct_url payload URL_KEYS of Some u \<Rightarrow> Some u | None \<Rightarrow> nested_url payload NESTED_KEYS)"

fun first_positive :: "obj \<Rightarrow> string list \<Rightarrow> int option" where
  "first_positive payload [] = None"
| "first_positive payload (k # ks) =
     (case as_int (jget payload k) of Some n \<Rightarrow> if n > 0 then Some n else first_positive payload ks
      | None \<Rightarrow> first_positive payload ks)"

definition ttl_of :: "obj \<Rightarrow> media_limits \<Rightarrow> int" where
  "ttl_of payload limits =
     (case first_positive payload [''expires_in_days'', ''ttl_days''] of Some n \<Rightarrow> n | None \<Rightarrow> ml_ttl_days limits)"

definition store_upload :: "'x service \<Rightarrow> string \<Rightarrow> string \<Rightarrow> media_kind \<Rightarrow> string \<Rightarrow> media_limits \<Rightarrow> obj \<Rightarrow> ('x, uploaded_media) serv" where
  "store_upload sv filename content_type k content limits payload =
     (case url_of payload of
        None \<Rightarrow> raise (Vibe (VibeError (Msg ''upload_without_url'' [JArr (map JStr (sort (map fst payload)))])))
      | Some url \<Rightarrow>
          (let ttl = ttl_of payload limits;
               answer = \<lparr>um_url = url, um_filename = filename, um_content_type = content_type,
                 um_size_bytes = int (length content), um_kind = md_name k, um_expires_in_days = ttl\<rparr>
           in if sv_has_media sv then
                bind (clock sv) (\<lambda>now.
                bind (in_db (media_record url filename (md_name k) (int (length content)) ttl now)) (\<lambda>_. ret answer))
              else ret answer))"

definition media_upload :: "'x service \<Rightarrow> string \<Rightarrow> string \<Rightarrow> string list \<Rightarrow> ('x, uploaded_media) serv" where
  "media_upload sv filename content_type chunks =
     bind (media_limits_of sv) (\<lambda>limits.
     case select_kind filename limits of
       Inl e \<Rightarrow> raise e
     | Inr k \<Rightarrow>
         (case fst (read_chunks k [] chunks) of
            Inl e \<Rightarrow> raise e
          | Inr content \<Rightarrow>
              bind (in_ext (cl_upload_media (sv_client sv) filename content
                     (if content_type = [] then ''application/'' @ md_name k else content_type)))
                (store_upload sv filename content_type k content limits)))"

section \<open>The endpoints\<close>

definition CHUNK_BYTES :: nat where
  "CHUNK_BYTES = 256 * 1024"

function chunks_of :: "nat \<Rightarrow> string \<Rightarrow> string list" where
  "chunks_of n content = (if n = 0 \<or> content = [] then [] else take n content # chunks_of n (drop n content))"
  by pat_completeness auto
termination
  by (relation "measure (\<lambda>(n, content). length content)") auto

declare chunks_of.simps [simp del]

definition upload_endpoint :: "'x service \<Rightarrow> string \<Rightarrow> string \<Rightarrow> string \<Rightarrow> ('x, uploaded_media) serv" where
  "upload_endpoint sv filename content_type content =
     media_upload sv (if filename = [] then ''upload.bin'' else filename) content_type (chunks_of CHUNK_BYTES content)"

record kind_response =
  kr_kind :: string
  kr_max_bytes :: int
  kr_max_megabytes :: int
  kr_extensions :: "string list"

definition limits_endpoint :: "'x service \<Rightarrow> ('x, kind_response list \<times> int \<times> string) serv" where
  "limits_endpoint sv = bind (media_limits_of sv) (\<lambda>l. ret
     (map (\<lambda>k. \<lparr>kr_kind = md_name k, kr_max_bytes = md_max_bytes k, kr_max_megabytes = md_max_bytes k div MEGABYTE,
        kr_extensions = sort (md_extensions k)\<rparr>) (ml_kinds l), ml_ttl_days l, ml_source l))"

end
