(* ===== verification/Uploads.thy ===== *)
theory Uploads
  imports Media Demo_Run Verdicts
begin

text \<open>
  What an upload does (\<open>app/services/media.py\<close>): the limits it checks against are well formed
  whatever the catalog says, a file is sent whole or not at all, no more than the limit and one
  chunk is ever held in memory, and the link that comes back is remembered until it dies.
\<close>

section \<open>Limits\<close>

definition kind_ok :: "media_kind \<Rightarrow> bool" where
  "kind_ok k \<longleftrightarrow> MEGABYTE \<le> md_max_bytes k \<and> md_extensions k \<noteq> [] \<and>
     (''jpg'' \<in> set (md_extensions k) \<longleftrightarrow> ''jpeg'' \<in> set (md_extensions k))"

lemma set_extend_new: "set (extend_new xs ys) = set xs \<union> set ys"
  by (induction ys arbitrary: xs) auto

lemma set_fold_aliases: "set (fold (\<lambda>ext expanded. extend_new expanded (aliases_of ext)) es xs) = set xs \<union> (\<Union>e \<in> set es. set (aliases_of e))"
  by (induction es arbitrary: xs) (auto simp: set_extend_new)

lemma set_with_aliases: "set (with_aliases es) = set es \<union> (\<Union>e \<in> set es. set (aliases_of e))"
  by (simp add: with_aliases_def set_fold_aliases)

lemma aliases_of_simps: "aliases_of e = (if e = ''jpeg'' then [''jpg''] else if e = ''jpg'' then [''jpeg''] else [])"
  by (auto simp: aliases_of_def EXTENSION_ALIASES_def)

lemma aliases_member: "x \<in> set (aliases_of e) \<longleftrightarrow> (e = ''jpeg'' \<and> x = ''jpg'') \<or> (e = ''jpg'' \<and> x = ''jpeg'')"
  by (cases "e = ''jpeg''"; cases "e = ''jpg''") (simp_all add: aliases_of_simps)

lemma aliases_closed: "''jpg'' \<in> set (with_aliases es) \<longleftrightarrow> ''jpeg'' \<in> set (with_aliases es)"
proof -
  have "x \<in> set (with_aliases es) \<longleftrightarrow> x \<in> set es \<or> (x = ''jpg'' \<and> ''jpeg'' \<in> set es) \<or> (x = ''jpeg'' \<and> ''jpg'' \<in> set es)" for x
    unfolding set_with_aliases Un_iff UN_iff aliases_member by blast
  then show ?thesis by blast
qed

lemma with_aliases_nonempty: "es \<noteq> [] \<Longrightarrow> with_aliases es \<noteq> []"
  by (simp add: set_with_aliases flip: set_empty)

lemma aliased_kind_ok: "MEGABYTE \<le> n \<Longrightarrow> es \<noteq> [] \<Longrightarrow> kind_ok \<lparr>md_name = name, md_max_bytes = n, md_extensions = with_aliases es\<rparr>"
  unfolding kind_ok_def media_kind.simps by (intro conjI with_aliases_nonempty aliases_closed)

lemma parse_limit_ok: "parse_limit name description = Some k \<Longrightarrow> kind_ok k"
  by (auto simp: parse_limit_def MEGABYTE_def intro!: aliased_kind_ok split: option.splits if_splits)

lemma fallback_ok: "ml_kinds fallback_limits \<noteq> []" "list_all kind_ok (ml_kinds fallback_limits)" "ml_ttl_days fallback_limits = 7"
proof -
  have "list_all (\<lambda>(name, mb, exts). 1 \<le> mb \<and> exts \<noteq> []) FALLBACK_LIMITS" by (simp add: FALLBACK_LIMITS_def)
  then show "list_all kind_ok (ml_kinds fallback_limits)"
    by (auto simp: fallback_limits_def list_all_iff MEGABYTE_def intro!: aliased_kind_ok)
qed (simp_all add: fallback_limits_def FALLBACK_LIMITS_def)

lemma parse_limits_ok:
  "ml_kinds (parse_limits payload) \<noteq> [] \<and> list_all kind_ok (ml_kinds (parse_limits payload)) \<and> 0 < ml_ttl_days (parse_limits payload)"
proof -
  define kinds :: "obj \<Rightarrow> media_kind list" where
    "kinds limits = List.map_filter (\<lambda>(name, description). parse_limit name (py_str description)) limits" for limits
  have kinds: "list_all kind_ok (kinds limits)" for limits
    by (auto simp: kinds_def list_all_iff List.map_filter_def parse_limit_ok)
  have "parse_limits payload = fallback_limits \<or> (\<exists>limits ttl. kinds limits \<noteq> [] \<and> 0 < ttl \<and>
      parse_limits payload = \<lparr>ml_kinds = kinds limits, ml_ttl_days = ttl, ml_source = ''capabilities''\<rparr>)"
    unfolding parse_limits_def kinds_def [symmetric] by (simp add: Let_def split: json.split option.split) blast
  then show ?thesis
  proof
    assume "parse_limits payload = fallback_limits"
    then show ?thesis using fallback_ok by simp
  next
    assume "\<exists>limits ttl. kinds limits \<noteq> [] \<and> 0 < ttl \<and>
      parse_limits payload = \<lparr>ml_kinds = kinds limits, ml_ttl_days = ttl, ml_source = ''capabilities''\<rparr>"
    then show ?thesis using kinds by auto
  qed
qed

text \<open>Whatever the catalog's text says, the limits read from it are usable: at least one kind of file, each
  with room for a megabyte or more and at least one extension, \<open>jpg\<close> and \<open>jpeg\<close> together, and a
  positive time to live.\<close>

theorem limits_usable:
  "ml_kinds (parse_limits payload) \<noteq> [] \<and> list_all kind_ok (ml_kinds (parse_limits payload)) \<and> 0 < ml_ttl_days (parse_limits payload)"
  by (rule parse_limits_ok)

section \<open>Reading\<close>

definition too_large :: "media_kind \<Rightarrow> exn" where
  "too_large k = app_raise ValidationError (Msg ''file_too_large'' [JInt (md_max_bytes k div MEGABYTE), JStr (md_name k)])"

definition bounded :: "media_kind \<Rightarrow> string \<Rightarrow> exn + string" where
  "bounded k content = (if content = [] then Inl (app_raise ValidationError (Msg ''empty_file'' []))
     else if int (length content) > md_max_bytes k then Inl (too_large k) else Inr content)"

lemma concat_chunks: "0 < n \<Longrightarrow> concat (chunks_of n content) = content"
proof (induction n content rule: chunks_of.induct)
  case (1 n content)
  then show ?case by (cases "content = []") (simp_all add: chunks_of.simps [of n])
qed

lemma chunk_sizes: "c \<in> set (chunks_of n content) \<Longrightarrow> length c \<le> n"
proof (induction n content rule: chunks_of.induct)
  case (1 n content)
  then show ?case by (auto simp: chunks_of.simps [of n content] split: if_splits)
qed

lemma read_chunks_result:
  assumes "int (length buffer) \<le> md_max_bytes k"
  shows "fst (read_chunks k buffer cs) = bounded k (buffer @ concat cs)"
  using assms
proof (induction cs arbitrary: buffer)
  case (Cons c cs)
  then show ?case using Cons.IH [of "buffer @ c"] by (auto simp: bounded_def too_large_def)
qed (simp add: bounded_def)

lemma read_chunks_held:
  assumes "int (length buffer) \<le> md_max_bytes k" and "\<And>c. c \<in> set cs \<Longrightarrow> length c \<le> n"
  shows "int (length (buffer @ concat cs)) \<le> md_max_bytes k + int n + int (length (concat (snd (read_chunks k buffer cs))))"
  using assms
proof (induction cs arbitrary: buffer)
  case (Cons c cs)
  show ?case
  proof (cases "int (length (buffer @ c)) > md_max_bytes k")
    case True
    then show ?thesis using Cons.prems(1) Cons.prems(2) [of c] by simp
  next
    case False
    then show ?thesis using Cons.IH [of "buffer @ c"] Cons.prems(2) by simp
  qed
qed simp

text \<open>C35: Reading a file in chunks gives back exactly the file when it is neither empty nor over the limit,
  and a refusal otherwise; however large the file, the process never holds more of it than the limit
  and one chunk, the rest is left unread.\<close>

theorem bounded_read_roundtrip:
  assumes "0 < n" and "0 \<le> md_max_bytes k" and "read_chunks k [] (chunks_of n content) = (res, unread)"
  shows "res = (if content = [] then Inl (app_raise ValidationError (Msg ''empty_file'' []))
     else if int (length content) > md_max_bytes k then Inl (too_large k) else Inr content) \<and>
    int (length content) - int (length (concat unread)) \<le> md_max_bytes k + int n"
proof -
  have "res = bounded k content" using read_chunks_result [of "[]" k "chunks_of n content"] assms by (simp add: concat_chunks)
  then show ?thesis
    using read_chunks_held [of "[]" k "chunks_of n content" n] assms by (simp add: concat_chunks chunk_sizes bounded_def)
qed

theorem bounded_read_roundtrip_witness:
  "\<exists>unread. read_chunks \<lparr>md_name = ''image'', md_max_bytes = 4, md_extensions = [''png'']\<rparr> [] (chunks_of 2 ''abc'') = (Inr ''abc'', unread)"
proof -
  let ?k = "\<lparr>md_name = ''image'', md_max_bytes = 4, md_extensions = [''png'']\<rparr>"
  obtain res unread where r: "read_chunks ?k [] (chunks_of 2 ''abc'') = (res, unread)" by fastforce
  have "res = Inr ''abc''" using bounded_read_roundtrip [OF _ _ r] by simp
  with r show ?thesis by blast
qed

section \<open>Uploading\<close>

definition upload_name :: "string \<Rightarrow> string" where
  "upload_name filename = (if filename = [] then ''upload.bin'' else filename)"

lemma upload_endpoint_eq:
  assumes "media_limits_of sv w = (Inr l, w1)" and "list_all kind_ok (ml_kinds l)"
  shows "upload_endpoint sv filename ct content w =
    (case select_kind (upload_name filename) l of
       Inl e \<Rightarrow> (Inl e, w1)
     | Inr k \<Rightarrow>
         if content = [] then (Inl (app_raise ValidationError (Msg ''empty_file'' [])), w1)
         else if int (length content) > md_max_bytes k then (Inl (too_large k), w1)
         else bind (in_ext (cl_upload_media (sv_client sv) (upload_name filename) content (if ct = [] then ''application/'' @ md_name k else ct)))
                (store_upload sv (upload_name filename) ct k content l) w1)"
proof (cases "select_kind (upload_name filename) l")
  case (Inr k)
  then have "k \<in> set (ml_kinds l)"
    by (auto simp: select_kind_def kind_for_def find_Some_iff in_set_conv_nth split: option.splits if_splits)
  then have "0 \<le> md_max_bytes k" using assms(2) by (auto simp: list_all_iff kind_ok_def MEGABYTE_def)
  then have "fst (read_chunks k [] (chunks_of CHUNK_BYTES content)) = bounded k content"
    by (simp add: read_chunks_result concat_chunks CHUNK_BYTES_def)
  with Inr show ?thesis by (simp add: upload_endpoint_def media_upload_def bind_apply assms(1) upload_name_def bounded_def)
qed (simp add: upload_endpoint_def media_upload_def bind_apply assms(1) upload_name_def)

text \<open>C34: Nothing of a file leaves the process unless the whole of it may: with a name of no accepted kind, an
  empty file or one over its kind's limit the request ends right after the limits were read, and
  otherwise the platform is sent exactly the bytes of the file.\<close>

theorem upload_checks_first:
  assumes "media_limits_of sv w = (Inr l, w1)" and "list_all kind_ok (ml_kinds l)"
  shows "upload_endpoint sv filename ct content w =
    (case select_kind (upload_name filename) l of
       Inl e \<Rightarrow> (Inl e, w1)
     | Inr k \<Rightarrow>
         if content = [] then (Inl (app_raise ValidationError (Msg ''empty_file'' [])), w1)
         else if int (length content) > md_max_bytes k then (Inl (too_large k), w1)
         else bind (in_ext (cl_upload_media (sv_client sv) (upload_name filename) content (if ct = [] then ''application/'' @ md_name k else ct)))
                (store_upload sv (upload_name filename) ct k content l) w1)"
  using assms by (rule upload_endpoint_eq)

theorem upload_checks_first_witness:
  "upload_endpoint (demo_service 10) ''a.png'' [] [] demo_start = (Inl (app_raise ValidationError (Msg ''empty_file'' [])), demo_start)"
proof -
  have limits: "media_limits_of (demo_service 10) demo_start = (Inr fallback_limits, demo_start)"
    by (simp add: media_limits_of_def bind_apply try_vibe_apply in_ext_def demo_service_def demo_client_def demo_start_def parse_limits_def)
  have "select_kind ''a.png'' fallback_limits = Inr (hd (ml_kinds fallback_limits))" by code_simp
  then show ?thesis unfolding upload_checks_first [OF limits fallback_ok(2)] by (simp add: upload_name_def)
qed

lemma direct_url_http: "direct_url payload ks = Some u \<Longrightarrow> py_startswith u ''http''"
proof -
  have "\<forall>v \<in> set (List.map_filter (\<lambda>k. case jget payload k of JStr v \<Rightarrow> if py_startswith v ''http'' then Some v else None | _ \<Rightarrow> None) ks). py_startswith v ''http''"
    by (auto simp: List.map_filter_def split: json.splits if_splits)
  then show "direct_url payload ks = Some u \<Longrightarrow> py_startswith u ''http''"
    unfolding direct_url_def by (auto split: list.splits)
qed

lemma nested_url_http: "nested_url payload ks = Some u \<Longrightarrow> py_startswith u ''http''"
  by (induction payload ks rule: nested_url.induct) (auto split: json.splits option.splits dest: direct_url_http)

lemma url_of_http: "url_of payload = Some u \<Longrightarrow> py_startswith u ''http''"
  by (auto simp: url_of_def split: option.splits dest: direct_url_http nested_url_http)

lemma media_record_result:
  "upload_at (snd (media_record url fn k sz ttl now d)) u = (if u = url
     then Some (case upload_at d url of None \<Rightarrow> \<lparr>mu_url = url, mu_filename = fn, mu_kind = k, mu_size_bytes = sz, mu_uploaded_at = now,
                  mu_expires_at = now + of_int ttl * SECONDS_PER_DAY\<rparr>
           | Some r \<Rightarrow> r\<lparr>mu_uploaded_at := now, mu_expires_at := now + of_int ttl * SECONDS_PER_DAY\<rparr>)
     else upload_at d u)"
  by (simp add: media_record_def upload_at_def find_upsert Let_def)

lemma store_upload_result:
  assumes "store_upload sv fn ct k content l payload w = (Inr um, w')"
  shows "url_of payload = Some (um_url um)" "um_size_bytes um = int (length content)" "um_kind um = md_name k"
    "um_expires_in_days um = ttl_of payload l"
    "sv_has_media sv \<Longrightarrow> \<exists>now. w_db w' = snd (media_record (um_url um) fn (md_name k) (int (length content)) (ttl_of payload l) now (w_db w))"
proof -
  obtain url where url: "url_of payload = Some url" using assms by (cases "url_of payload") (simp_all add: store_upload_def)
  define answer where "answer = \<lparr>um_url = url, um_filename = fn, um_content_type = ct, um_size_bytes = int (length content),
     um_kind = md_name k, um_expires_in_days = ttl_of payload l\<rparr>"
  have run: "store_upload sv fn ct k content l payload w = (if sv_has_media sv then
      bind (clock sv) (\<lambda>now. bind (in_db (media_record url fn (md_name k) (int (length content)) (ttl_of payload l) now)) (\<lambda>_. ret answer))
      else ret answer) w"
    by (simp add: store_upload_def url answer_def Let_def)
  obtain now x where t: "clock sv w = (Inr now, w\<lparr>w_ext := x\<rparr>)"
    using clock_apply by blast
  have "um = answer \<and> (sv_has_media sv \<longrightarrow> w_db w' = snd (media_record url fn (md_name k) (int (length content)) (ttl_of payload l) now (w_db w)))"
    using assms t by (auto simp: run bind_apply in_db_def media_record_def Let_def split: if_splits)
  then show "url_of payload = Some (um_url um)" "um_size_bytes um = int (length content)" "um_kind um = md_name k"
    "um_expires_in_days um = ttl_of payload l"
    "sv_has_media sv \<Longrightarrow> \<exists>now. w_db w' = snd (media_record (um_url um) fn (md_name k) (int (length content)) (ttl_of payload l) now (w_db w))"
    using url by (auto simp: answer_def)
qed

text \<open>An upload that succeeded hands out a link, not longer-lived than the record the service keeps of it:
  the record under that link expires exactly the stated number of days after it was made, every
  other record and every plan, job and step is as it was.\<close>

theorem upload_is_remembered:
  assumes "upload_endpoint sv filename ct content w = (Inr um, w')" and "sv_has_media sv"
  shows "py_startswith (um_url um) ''http'' \<and> um_size_bytes um = int (length content) \<and>
    (\<exists>r. upload_at (w_db w') (um_url um) = Some r \<and>
       mu_expires_at r = mu_uploaded_at r + of_int (um_expires_in_days um) * SECONDS_PER_DAY) \<and>
    (\<forall>url. url \<noteq> um_url um \<longrightarrow> upload_at (w_db w') url = upload_at (w_db w) url) \<and>
    t_plans (w_db w') = t_plans (w_db w) \<and> t_jobs (w_db w') = t_jobs (w_db w) \<and> t_steps (w_db w') = t_steps (w_db w)"
proof -
  have db: "w_db (snd (media_limits_of sv w)) = w_db w"
    by (auto simp: media_limits_of_def bind_apply try_vibe_apply in_ext_def split: prod.splits sum.splits exn.splits)
  obtain l w1 where l: "media_limits_of sv w = (Inr l, w1)"
    using assms(1) by (auto simp: upload_endpoint_def media_upload_def bind_eq_Inr)
  have w1: "w_db w1 = w_db w" using db l by simp
  have kinds: "list_all kind_ok (ml_kinds l)"
    using l by (auto simp: media_limits_of_def bind_apply fallback_ok parse_limits_ok split: sum.splits prod.splits)
  note run = assms(1) [unfolded upload_endpoint_eq [OF l kinds]]
  obtain k where k: "select_kind (upload_name filename) l = Inr k" "content \<noteq> []" "\<not> md_max_bytes k < int (length content)"
    using run by (auto split: sum.splits if_splits)
  have "\<exists>payload x. store_upload sv (upload_name filename) ct k content l payload (w1\<lparr>w_ext := x\<rparr>) = (Inr um, w')"
    using run by (auto simp: k bind_eq_Inr in_ext_def split: prod.splits)
  then obtain payload x where st: "store_upload sv (upload_name filename) ct k content l payload (w1\<lparr>w_ext := x\<rparr>) = (Inr um, w')"
    by blast
  note up = store_upload_result [OF st]
  obtain now where w': "w_db w' = snd (media_record (um_url um) (upload_name filename) (md_name k) (int (length content)) (ttl_of payload l) now (w_db w))"
    using up(5) [OF assms(2)] by (auto simp: w1)
  have "py_startswith (um_url um) ''http''" using up(1) by (rule url_of_http)
  moreover have "t_plans (w_db w') = t_plans (w_db w)" "t_jobs (w_db w') = t_jobs (w_db w)" "t_steps (w_db w') = t_steps (w_db w)"
    by (simp_all add: w' media_record_def Let_def)
  moreover have "\<exists>r. upload_at (w_db w') (um_url um) = Some r \<and> mu_expires_at r = mu_uploaded_at r + of_int (um_expires_in_days um) * SECONDS_PER_DAY"
    by (simp add: w' media_record_result up(4) split: option.split)
  moreover have "\<forall>url. url \<noteq> um_url um \<longrightarrow> upload_at (w_db w') url = upload_at (w_db w) url"
    by (simp add: w' media_record_result)
  ultimately show ?thesis using up(2) by blast
qed

definition drive :: "nat service" where
  "drive = (demo_service 10)\<lparr>sv_client := (demo_client 10)\<lparr>cl_upload_media := (\<lambda>f c t. ret [(''url'', JStr ''http://x/1'')])\<rparr>, sv_has_media := True\<rparr>"

lemma drive_uploads: "\<exists>um w'. upload_endpoint drive ''a.png'' [] ''png'' demo_start = (Inr um, w')"
proof -
  have limits: "media_limits_of drive demo_start = (Inr fallback_limits, demo_start)"
    by (simp add: media_limits_of_def bind_apply try_vibe_apply in_ext_def drive_def demo_client_def demo_start_def parse_limits_def)
  have kind: "select_kind ''a.png'' fallback_limits = Inr (hd (ml_kinds fallback_limits))"
    by code_simp
  have max: "MEGABYTE \<le> md_max_bytes (hd (ml_kinds fallback_limits))" by (simp add: fallback_limits_def FALLBACK_LIMITS_def MEGABYTE_def)
  have "url_of [(''url'', JStr ''http://x/1'')] = Some ''http://x/1''" by code_simp
  then show ?thesis
    unfolding upload_endpoint_eq [OF limits fallback_ok(2)] using kind max
    by (simp add: upload_name_def bind_apply in_ext_def drive_def demo_start_def store_upload_def clock_apply demo_client_def in_db_def
        media_record_def Let_def MEGABYTE_def)
qed

theorem upload_is_remembered_witness:
  "\<exists>um w' r. upload_endpoint drive ''a.png'' [] ''png'' demo_start = (Inr um, w') \<and> upload_at (w_db w') (um_url um) = Some r \<and> um_size_bytes um = 3"
proof -
  obtain um w' where u: "upload_endpoint drive ''a.png'' [] ''png'' demo_start = (Inr um, w')" using drive_uploads by blast
  have "sv_has_media drive" by (simp add: drive_def)
  from upload_is_remembered [OF u this] u show ?thesis by auto
qed

end
