(* ===== verification/Retention.thy ===== *)
theory Retention
  imports Service
begin

text \<open>
  Housekeeping (\<open>app/services/retention.py\<close>): replay keys older than their time to live and upload
  records whose link is dead are dropped, nothing else. And the body of the loop both housekeeping jobs run in
  (\<open>app/services/scheduling.py\<close>), whose passes may fail; starting and stopping it is in \<open>Tasks\<close>.
\<close>

record purge_result =
  pu_idempotency_keys :: nat
  pu_expired_uploads :: nat

definition purge_total :: "purge_result \<Rightarrow> nat" where
  "purge_total r = pu_idempotency_keys r + pu_expired_uploads r"

definition purge_at :: "'x service \<Rightarrow> time \<Rightarrow> ('x, purge_result) serv" where
  "purge_at sv now =
     bind (in_db (idem_purge_older_than (now - idempotency_ttl_hours (sv_settings sv) * 3600))) (\<lambda>keys.
     bind (in_db (media_purge_expired now)) (\<lambda>uploads.
     ret \<lparr>pu_idempotency_keys = keys, pu_expired_uploads = uploads\<rparr>))"

definition purge :: "'x service \<Rightarrow> time option \<Rightarrow> ('x, purge_result) serv" where
  "purge sv now = (case now of Some t \<Rightarrow> purge_at sv t | None \<Rightarrow> bind (clock sv) (purge_at sv))"

section \<open>The loop\<close>

text \<open>\<open>_loop\<close>, cut after a number of rounds: sleep, run the pass, swallow what it raises.\<close>

definition periodic_pass :: "'x service \<Rightarrow> rat \<Rightarrow> ('x, 'a) serv \<Rightarrow> ('x, unit) serv" where
  "periodic_pass sv interval work =
     andthen (in_ext (modify (cl_sleep (sv_client sv) interval)))
       (catch (andthen work (ret ())) (\<lambda>e. ret ()))"

fun periodic_loop :: "nat \<Rightarrow> 'x service \<Rightarrow> rat \<Rightarrow> ('x, 'a) serv \<Rightarrow> ('x, unit) serv" where
  "periodic_loop 0 sv interval work = ret ()"
| "periodic_loop (Suc rounds) sv interval work =
     andthen (periodic_pass sv interval work) (periodic_loop rounds sv interval work)"

section \<open>Facts\<close>

lemma periodic_pass_returns: "fst (periodic_pass sv interval work w) = Inr ()"
  by (auto simp: periodic_pass_def andthen_def bind_apply in_ext_def catch_def split: prod.split sum.split)

lemma periodic_loop_returns: "fst (periodic_loop n sv interval work w) = Inr ()"
proof (induction n arbitrary: w)
  case (Suc n)
  obtain u where "periodic_pass sv interval work w = (Inr (), u)"
    using periodic_pass_returns [of sv interval work w] by (cases "periodic_pass sv interval work w") simp
  then show ?case using Suc.IH [of u] by simp
qed simp

lemma periodic_loop_unfold:
  "snd (periodic_loop (Suc n) sv interval work w) = snd (periodic_loop n sv interval work (snd (periodic_pass sv interval work w)))"
proof -
  obtain u where "periodic_pass sv interval work w = (Inr (), u)"
    using periodic_pass_returns [of sv interval work w] by (cases "periodic_pass sv interval work w") simp
  then show ?thesis by simp
qed

text \<open>What a purge leaves.\<close>

lemma purge_at_result:
  "purge_at sv now w =
     (Inr \<lparr>pu_idempotency_keys = length (filter (\<lambda>r. ik_created_at r < now - idempotency_ttl_hours (sv_settings sv) * 3600 \<and> is_complete r) (t_idem (w_db w))),
           pu_expired_uploads = length (filter (\<lambda>r. mu_expires_at r \<le> now) (t_uploads (w_db w)))\<rparr>,
      w\<lparr>w_db := (w_db w)\<lparr>t_idem := filter (\<lambda>r. \<not> (ik_created_at r < now - idempotency_ttl_hours (sv_settings sv) * 3600 \<and> is_complete r)) (t_idem (w_db w)),
         t_uploads := filter (\<lambda>r. \<not> mu_expires_at r \<le> now) (t_uploads (w_db w))\<rparr>\<rparr>)"
  by (simp add: purge_at_def bind_apply in_db_def idem_purge_older_than_def media_purge_expired_def sql_delete_def)

end
