(* ===== verification/Housekeeping.thy ===== *)
theory Housekeeping
  imports Retention Demo_Run
begin

text \<open>
  What the housekeeping passes leave behind (\<open>app/services/retention.py\<close>), and that the loop they run
  in outlives whatever a pass raises (\<open>app/services/scheduling.py\<close>).
\<close>

definition expired_key :: "'x service \<Rightarrow> time \<Rightarrow> idem_row \<Rightarrow> bool" where
  "expired_key sv now r \<longleftrightarrow> is_complete r \<and> ik_created_at r < now - idempotency_ttl_hours (sv_settings sv) * 3600"

lemma find_filter_distinct:
  "distinct (map key rs) \<Longrightarrow> find (\<lambda>r. key r = k) (filter Q rs) =
     (case find (\<lambda>r. key r = k) rs of None \<Rightarrow> None | Some r \<Rightarrow> if Q r then Some r else None)"
proof (induction rs)
  case (Cons r rs)
  have "key r = k \<Longrightarrow> find (\<lambda>r. key r = k) (filter Q rs) = None"
    using Cons.prems by (auto simp: find_None_iff) (metis image_eqI)
  then show ?case using Cons by auto
qed simp

lemma purge_result:
  assumes "db_ok (w_db w)" and "purge sv (Some now) w = (Inr res, w')"
  shows "idem_at (w_db w') k = (case idem_at (w_db w) k of None \<Rightarrow> None | Some r \<Rightarrow> if expired_key sv now r then None else Some r)"
    and "upload_at (w_db w') url = (case upload_at (w_db w) url of None \<Rightarrow> None | Some r \<Rightarrow> if is_expired r now then None else Some r)"
    and "w_db w' = (w_db w)\<lparr>t_idem := t_idem (w_db w'), t_uploads := t_uploads (w_db w')\<rparr>"
    and "purge_total res + length (t_idem (w_db w')) + length (t_uploads (w_db w')) = length (t_idem (w_db w)) + length (t_uploads (w_db w))"
    and "purge sv (Some now) w' = (Inr \<lparr>pu_idempotency_keys = 0, pu_expired_uploads = 0\<rparr>, w')"
proof -
  let ?dead = "\<lambda>r. ik_created_at r < now - idempotency_ttl_hours (sv_settings sv) * 3600 \<and> is_complete r"
  have w': "w' = w\<lparr>w_db := (w_db w)\<lparr>t_idem := filter (\<lambda>r. \<not> ?dead r) (t_idem (w_db w)), t_uploads := filter (\<lambda>r. \<not> mu_expires_at r \<le> now) (t_uploads (w_db w))\<rparr>\<rparr>"
    and res: "res = \<lparr>pu_idempotency_keys = length (filter ?dead (t_idem (w_db w))), pu_expired_uploads = length (filter (\<lambda>r. mu_expires_at r \<le> now) (t_uploads (w_db w)))\<rparr>"
    using assms(2) by (simp_all add: purge_def purge_at_result)
  have keys: "distinct (map ik_key (t_idem (w_db w)))" "distinct (map mu_url (t_uploads (w_db w)))"
    using assms(1) by (simp_all add: db_ok_def)
  show "idem_at (w_db w') k = (case idem_at (w_db w) k of None \<Rightarrow> None | Some r \<Rightarrow> if expired_key sv now r then None else Some r)"
    by (auto simp: idem_at_def w' find_filter_distinct [OF keys(1)] expired_key_def split: option.split)
  show "upload_at (w_db w') url = (case upload_at (w_db w) url of None \<Rightarrow> None | Some r \<Rightarrow> if is_expired r now then None else Some r)"
    by (auto simp: upload_at_def w' find_filter_distinct [OF keys(2)] is_expired_def split: option.split)
  show "w_db w' = (w_db w)\<lparr>t_idem := t_idem (w_db w'), t_uploads := t_uploads (w_db w')\<rparr>" by (simp add: w')
  show "purge_total res + length (t_idem (w_db w')) + length (t_uploads (w_db w')) = length (t_idem (w_db w)) + length (t_uploads (w_db w))"
    using sum_length_filter_compl [of ?dead "t_idem (w_db w)"] sum_length_filter_compl [of "\<lambda>r. mu_expires_at r \<le> now" "t_uploads (w_db w)"]
    by (simp only: w' res purge_total_def) simp
  have "filter ?dead (filter (\<lambda>r. \<not> ?dead r) rs) = []" for rs by (auto simp: filter_empty_conv)
  moreover have "filter (\<lambda>r. mu_expires_at r \<le> now) (filter (\<lambda>r. \<not> mu_expires_at r \<le> now) us) = []" for us by (auto simp: filter_empty_conv)
  moreover have "filter (\<lambda>r. \<not> ?dead r) (filter (\<lambda>r. \<not> ?dead r) rs) = filter (\<lambda>r. \<not> ?dead r) rs" for rs by simp
  ultimately show "purge sv (Some now) w' = (Inr \<lparr>pu_idempotency_keys = 0, pu_expired_uploads = 0\<rparr>, w')"
    unfolding purge_def option.case purge_at_result w' by simp
qed

text \<open>C36: A purge drops the answered keys past their time to live and the uploads whose link is dead, and
  nothing else: an unanswered or younger key and a live link are found as before, no plan, job, step
  or callback is touched, and a second purge at the same instant finds nothing left to drop.\<close>

theorem purge_drops_only_dead:
  assumes "db_ok (w_db w)" and "purge sv (Some now) w = (Inr res, w')"
  shows "(\<forall>k. idem_at (w_db w') k = (case idem_at (w_db w) k of None \<Rightarrow> None | Some r \<Rightarrow> if expired_key sv now r then None else Some r)) \<and>
    (\<forall>url. upload_at (w_db w') url = (case upload_at (w_db w) url of None \<Rightarrow> None | Some r \<Rightarrow> if is_expired r now then None else Some r)) \<and>
    w_db w' = (w_db w)\<lparr>t_idem := t_idem (w_db w'), t_uploads := t_uploads (w_db w')\<rparr> \<and>
    purge_total res + length (t_idem (w_db w')) + length (t_uploads (w_db w')) = length (t_idem (w_db w)) + length (t_uploads (w_db w)) \<and>
    purge sv (Some now) w' = (Inr \<lparr>pu_idempotency_keys = 0, pu_expired_uploads = 0\<rparr>, w')"
  by (intro conjI allI purge_result [OF assms])

definition aged_world :: "nat world" where
  "aged_world = \<lparr>w_db = empty_db\<lparr>t_uploads := [\<lparr>mu_url = ''http://x/1'', mu_filename = ''a.png'', mu_kind = ''image'', mu_size_bytes = 3,
     mu_uploaded_at = 0, mu_expires_at = 5\<rparr>]\<rparr>, w_ext = 0, w_queue = []\<rparr>"

theorem purge_drops_only_dead_witness:
  "\<exists>res w'. purge (demo_service 10) (Some 7) aged_world = (Inr res, w') \<and> upload_at (w_db w') ''http://x/1'' = None \<and> purge_total res = 1 \<and>
     purge (demo_service 10) (Some 7) w' = (Inr \<lparr>pu_idempotency_keys = 0, pu_expired_uploads = 0\<rparr>, w')"
proof -
  have ok: "db_ok (w_db aged_world)" by (simp add: aged_world_def db_ok_def empty_db_def plans_ok_def jobs_ok_def steps_ok_def)
  obtain res w' where p: "purge (demo_service 10) (Some 7) aged_world = (Inr res, w')" by (simp add: purge_def purge_at_result)
  have at: "upload_at (w_db aged_world) ''http://x/1'' = Some \<lparr>mu_url = ''http://x/1'', mu_filename = ''a.png'', mu_kind = ''image'', mu_size_bytes = 3,
     mu_uploaded_at = 0, mu_expires_at = 5\<rparr>"
    by (simp add: upload_at_def aged_world_def)
  note facts = purge_drops_only_dead [OF ok p]
  have "upload_at (w_db w') ''http://x/1'' = None" using facts by (simp add: at is_expired_def)
  moreover have "purge_total res = 1" using p by (auto simp: purge_def purge_at_result purge_total_def aged_world_def empty_db_def)
  ultimately show ?thesis using facts p by blast
qed

text \<open>The housekeeping loop never dies: after any number of rounds it is still running, whatever its passes
  raised, and each round did what one pass does.\<close>

theorem periodic_loop_survives:
  "periodic_loop rounds sv interval work w = (Inr (), ((\<lambda>w. snd (periodic_pass sv interval work w)) ^^ rounds) w)"
proof (induction rounds arbitrary: w)
  case (Suc n)
  have "snd (periodic_loop (Suc n) sv interval work w) = snd (periodic_loop n sv interval work (snd (periodic_pass sv interval work w)))"
    by (rule periodic_loop_unfold)
  also have "\<dots> = ((\<lambda>w. snd (periodic_pass sv interval work w)) ^^ n) (snd (periodic_pass sv interval work w))" by (simp add: Suc)
  also have "\<dots> = ((\<lambda>w. snd (periodic_pass sv interval work w)) ^^ Suc n) w" by (simp only: funpow_Suc_right comp_def)
  finally show ?case using periodic_loop_returns [of "Suc n" sv interval work w] by (metis prod.collapse)
qed simp

end
