(* ===== verification/Idempotency.thy ===== *)
theory Idempotency
  imports Responses Replay
begin

text \<open>
  The \<open>Idempotency-Key\<close> of this service's own endpoints (\<open>app/api/idempotency.py\<close>) and the two
  endpoints that accept one (\<open>app/api/routers/plans.py\<close>). An answer is a status, headers and a body;
  \<open>model_dump(mode="json")\<close> is the library's serialisation and a parameter. The producer of an
  answer is an operation that may raise.
\<close>

record answer =
  an_status_code :: int
  an_headers :: "(string, string) dict"
  an_body :: json

definition REPLAY_HEADER :: string where
  "REPLAY_HEADER = ''Idempotency-Replayed''"

definition body_digest :: "crypto \<Rightarrow> json \<Rightarrow> string" where
  "body_digest h body = take 32 (sha256_hex h (json_dumps True body))"

definition conflict :: "string \<Rightarrow> exn" where
  "conflict code = App (new_app_error ConflictError (Msg code []) JNull (Some code))"

definition replay :: "idem_row \<Rightarrow> string \<Rightarrow> string \<Rightarrow> exn + answer" where
  "replay r endpoint digest =
     (if ik_endpoint r \<noteq> endpoint \<or> ik_request_hash r \<noteq> digest then Inl (conflict ''idempotency_key_reused'')
      else case ik_response r of
        None \<Rightarrow> Inl (conflict ''idempotency_key_in_flight'')
      | Some s \<Rightarrow> Inr \<lparr>an_status_code = (if sr_status_code s = 0 then 200 else sr_status_code s),
            an_headers = AList.update REPLAY_HEADER ''true'' (sr_headers s), an_body = sr_body s\<rparr>)"

definition stored_answer :: "answer \<Rightarrow> stored_response" where
  "stored_answer a = \<lparr>sr_status_code = an_status_code a, sr_headers = an_headers a, sr_body = an_body a\<rparr>"

definition fresh_answer :: "answer \<Rightarrow> answer" where
  "fresh_answer a = a\<lparr>an_headers := AList.update REPLAY_HEADER ''false'' (an_headers a)\<rparr>"

text \<open>The work under a key this request owns: a failed attempt gives the key back.\<close>

definition produce_once :: "'x service \<Rightarrow> string \<Rightarrow> ('x, answer) serv \<Rightarrow> ('x, answer) serv" where
  "produce_once sv key produce =
     bind (catch produce (\<lambda>e. andthen (in_db (idem_release key)) (raise e))) (\<lambda>a.
     bind (clock sv) (\<lambda>t.
     andthen (in_db (idem_complete key (stored_answer a) t)) (ret (fresh_answer a))))"

definition with_key :: "'x service \<Rightarrow> string \<Rightarrow> string \<Rightarrow> json \<Rightarrow> ('x, answer) serv \<Rightarrow> ('x, answer) serv" where
  "with_key sv key endpoint body produce =
     (let digest = body_digest (sv_crypto sv) body in
      bind (clock sv) (\<lambda>t.
      bind (in_db (idem_claim key endpoint digest t)) (\<lambda>existing. case existing of
        Some r \<Rightarrow> (case replay r endpoint digest of Inl e \<Rightarrow> raise e | Inr a \<Rightarrow> ret a)
      | None \<Rightarrow> produce_once sv key produce)))"

definition with_idempotency ::
  "'x service \<Rightarrow> string option \<Rightarrow> string \<Rightarrow> json \<Rightarrow> ('x, answer) serv \<Rightarrow> ('x, answer) serv" where
  "with_idempotency sv key endpoint body produce =
     (case key of Some (c # cs) \<Rightarrow> with_key sv (c # cs) endpoint body produce | _ \<Rightarrow> produce)"

section \<open>The endpoints\<close>

record model_dump =
  dump_brief :: "brief \<Rightarrow> json"
  dump_plan :: "plan_response \<Rightarrow> json"
  dump_job :: "job_response \<Rightarrow> json"

definition produce_plan :: "'x service \<Rightarrow> model_dump \<Rightarrow> brief \<Rightarrow> ('x, answer) serv" where
  "produce_plan sv md b =
     bind (create_plan sv b) (\<lambda>p. ret \<lparr>an_status_code = 201, an_headers = [], an_body = dump_plan md (from_plan p)\<rparr>)"

definition post_plans :: "'x service \<Rightarrow> model_dump \<Rightarrow> brief \<Rightarrow> string option \<Rightarrow> ('x, answer) serv" where
  "post_plans sv md b key = with_idempotency sv key ''POST /api/v1/plans'' (dump_brief md b) (produce_plan sv md b)"

definition get_plan_endpoint :: "string \<Rightarrow> ('x, plan_response) serv" where
  "get_plan_endpoint pid = bind (service_get_plan pid) (\<lambda>p. ret (from_plan p))"

definition get_job_endpoint :: "string \<Rightarrow> ('x, job_response) serv" where
  "get_job_endpoint jid = bind (service_get_job jid) (\<lambda>j. ret (from_job j))"

record execute_request =
  xr_confirmed :: bool
  xr_wait :: bool

definition dump_execute :: "execute_request \<Rightarrow> json" where
  "dump_execute r = JObj [(''confirmed'', JBool (xr_confirmed r)), (''wait'', JBool (xr_wait r))]"

definition produce_job :: "'x service \<Rightarrow> model_dump \<Rightarrow> string \<Rightarrow> execute_request \<Rightarrow> ('x, answer) serv" where
  "produce_job sv md pid r =
     bind (execute_plan sv pid (xr_confirmed r) (xr_wait r)) (\<lambda>j. ret
       \<lparr>an_status_code = (if j_status j = JOB_QUEUED then 202 else 200),
        an_headers = [(''location'', ''/api/v1/jobs/'' @ j_job_id j)], an_body = dump_job md (from_job j)\<rparr>)"

definition post_execute :: "'x service \<Rightarrow> model_dump \<Rightarrow> string \<Rightarrow> execute_request \<Rightarrow> string option \<Rightarrow> ('x, answer) serv" where
  "post_execute sv md pid r key =
     with_idempotency sv key (''POST /api/v1/plans/'' @ pid @ ''/execute'') (dump_execute r) (produce_job sv md pid r)"

end
