(* ===== verification/Queue.thy ===== *)
theory Queue
  imports Admission
begin

text \<open>
  The background execution queue (\<open>app/services/job_queue.py\<close>) as a state machine: what is waiting,
  what each worker holds, and the count of unfinished items that \<open>drain\<close> waits on. A step is what
  the event loop can do next. The workers as tasks of that loop are in \<open>Tasks\<close>.
\<close>

section \<open>State and operations\<close>

record queue =
  qu_concurrency :: nat
  qu_waiting :: "string list"
  qu_workers :: "string option list"
  qu_unfinished :: nat

definition new_queue :: "int \<Rightarrow> queue" where
  "new_queue concurrency = \<lparr>qu_concurrency = nat (max 1 concurrency), qu_waiting = [], qu_workers = [], qu_unfinished = 0\<rparr>"

definition queue_depth :: "queue \<Rightarrow> nat" where
  "queue_depth q = length (qu_waiting q)"

definition queue_running :: "queue \<Rightarrow> bool" where
  "queue_running q \<longleftrightarrow> qu_workers q \<noteq> []"

definition queue_start :: "queue \<Rightarrow> queue" where
  "queue_start q = (if qu_workers q \<noteq> [] then q else q\<lparr>qu_workers := replicate (qu_concurrency q) None\<rparr>)"

definition queue_enqueue :: "string \<Rightarrow> queue \<Rightarrow> queue" where
  "queue_enqueue jid q = q\<lparr>qu_waiting := qu_waiting q @ [jid], qu_unfinished := qu_unfinished q + 1\<rparr>"

definition busy :: "queue \<Rightarrow> nat" where
  "busy q = length (filter (\<lambda>w. w \<noteq> None) (qu_workers q))"

text \<open>Cancelled workers mark their item as done on the way out; the items that wait stay.\<close>

definition queue_stop :: "queue \<Rightarrow> queue" where
  "queue_stop q = q\<lparr>qu_workers := [], qu_unfinished := qu_unfinished q - busy q\<rparr>"

text \<open>\<open>_worker\<close>: an idle worker takes the oldest item; a worker that holds one ends it, whether the
  runner returned or raised.\<close>

definition worker_take :: "nat \<Rightarrow> queue \<Rightarrow> queue option" where
  "worker_take i q =
     (case qu_waiting q of
        jid # rest \<Rightarrow>
          if i < length (qu_workers q) \<and> qu_workers q ! i = None
          then Some (q\<lparr>qu_waiting := rest, qu_workers := (qu_workers q)[i := Some jid]\<rparr>) else None
      | [] \<Rightarrow> None)"

definition worker_done :: "nat \<Rightarrow> queue \<Rightarrow> queue option" where
  "worker_done i q =
     (if i < length (qu_workers q) \<and> qu_workers q ! i \<noteq> None
      then Some (q\<lparr>qu_workers := (qu_workers q)[i := None], qu_unfinished := qu_unfinished q - 1\<rparr>) else None)"

definition drained :: "queue \<Rightarrow> bool" where
  "drained q \<longleftrightarrow> qu_unfinished q = 0"

section \<open>Steps\<close>

datatype queue_event = Started | Enqueued string | Taken nat string | Done nat | Stopped

inductive queue_step :: "queue \<Rightarrow> queue_event \<Rightarrow> queue \<Rightarrow> bool" where
  qs_start: "queue_step q Started (queue_start q)"
| qs_enqueue: "queue_step q (Enqueued jid) (queue_enqueue jid q)"
| qs_take: "worker_take i q = Some q' \<Longrightarrow> jid = hd (qu_waiting q) \<Longrightarrow> queue_step q (Taken i jid) q'"
| qs_done: "worker_done i q = Some q' \<Longrightarrow> queue_step q (Done i) q'"
| qs_stop: "queue_step q Stopped (queue_stop q)"

inductive_cases queue_stepE [elim]: "queue_step q ev q'"

inductive queue_trace :: "queue \<Rightarrow> queue_event list \<Rightarrow> queue \<Rightarrow> bool" where
  qt_nil: "queue_trace q [] q"
| qt_snoc: "queue_trace q evs q' \<Longrightarrow> queue_step q' ev q'' \<Longrightarrow> queue_trace q (evs @ [ev]) q''"

fun enqueued :: "queue_event list \<Rightarrow> string list" where
  "enqueued [] = []"
| "enqueued (Enqueued jid # evs) = jid # enqueued evs"
| "enqueued (_ # evs) = enqueued evs"

fun taken :: "queue_event list \<Rightarrow> string list" where
  "taken [] = []"
| "taken (Taken i jid # evs) = jid # taken evs"
| "taken (_ # evs) = taken evs"

lemma enqueued_append: "enqueued (xs @ ys) = enqueued xs @ enqueued ys"
  by (induction xs rule: enqueued.induct) simp_all

lemma taken_append: "taken (xs @ ys) = taken xs @ taken ys"
  by (induction xs rule: taken.induct) simp_all

section \<open>The invariant\<close>

definition queue_ok :: "queue \<Rightarrow> bool" where
  "queue_ok q \<longleftrightarrow> 1 \<le> qu_concurrency q \<and> (qu_workers q = [] \<or> length (qu_workers q) = qu_concurrency q) \<and>
     qu_unfinished q = length (qu_waiting q) + busy q"

lemma new_queue_ok: "queue_ok (new_queue n)"
  by (simp add: queue_ok_def new_queue_def busy_def)

lemma filter_update:
  assumes "i < length ws"
  shows "length (filter P (ws[i := v])) + (if P (ws ! i) then 1 else 0) = length (filter P ws) + (if P v then 1 else 0)"
  using assms
proof (induction ws arbitrary: i)
  case (Cons w ws)
  then show ?case by (cases i) auto
qed simp

lemma worker_take_result:
  assumes "worker_take i q = Some q'"
  shows "\<exists>jid. qu_waiting q = jid # qu_waiting q' \<and> qu_workers q' = (qu_workers q)[i := Some jid] \<and>
    qu_unfinished q' = qu_unfinished q \<and> qu_concurrency q' = qu_concurrency q \<and> i < length (qu_workers q) \<and> busy q' = busy q + 1"
proof -
  obtain jid rest where w: "qu_waiting q = jid # rest" "i < length (qu_workers q)" "qu_workers q ! i = None"
    "q' = q\<lparr>qu_waiting := rest, qu_workers := (qu_workers q)[i := Some jid]\<rparr>"
    using assms by (auto simp: worker_take_def split: list.splits if_splits)
  then show ?thesis using filter_update [OF w(2), of "\<lambda>w. w \<noteq> None" "Some jid"] by (simp add: busy_def)
qed

lemma worker_done_result:
  assumes "worker_done i q = Some q'"
  shows "qu_waiting q' = qu_waiting q \<and> qu_workers q' = (qu_workers q)[i := None] \<and> qu_unfinished q' = qu_unfinished q - 1 \<and>
    qu_concurrency q' = qu_concurrency q \<and> i < length (qu_workers q) \<and> busy q = busy q' + 1"
proof -
  have w: "i < length (qu_workers q)" "qu_workers q ! i \<noteq> None"
    and q': "q' = q\<lparr>qu_workers := (qu_workers q)[i := None], qu_unfinished := qu_unfinished q - 1\<rparr>"
    using assms by (auto simp: worker_done_def split: if_splits)
  then show ?thesis using filter_update [OF w(1), of "\<lambda>w. w \<noteq> None" None] by (simp add: busy_def)
qed

lemma queue_step_ok: "queue_step q ev q' \<Longrightarrow> queue_ok q \<Longrightarrow> queue_ok q'"
proof (induction rule: queue_step.induct)
  case (qs_take i q q' jid)
  then show ?case using worker_take_result [OF qs_take(1)] by (auto simp: queue_ok_def)
next
  case (qs_done i q q')
  then show ?case using worker_done_result [OF qs_done(1)] by (auto simp: queue_ok_def)
qed (auto simp: queue_ok_def queue_start_def queue_enqueue_def queue_stop_def busy_def)

lemma queue_trace_ok: "queue_trace q evs q' \<Longrightarrow> queue_ok q \<Longrightarrow> queue_ok q'"
  by (induction rule: queue_trace.induct) (auto intro: queue_step_ok)

lemma busy_bound: "queue_ok q \<Longrightarrow> busy q \<le> qu_concurrency q"
proof -
  assume "queue_ok q"
  then have "length (qu_workers q) \<le> qu_concurrency q" by (auto simp: queue_ok_def)
  then show "busy q \<le> qu_concurrency q"
    using length_filter_le [of "\<lambda>w. w \<noteq> None" "qu_workers q"] by (simp only: busy_def)
qed

lemma queue_step_fifo:
  "queue_step q ev q' \<Longrightarrow> taken [ev] @ qu_waiting q' = qu_waiting q @ enqueued [ev]"
proof (induction rule: queue_step.induct)
  case (qs_take i q q' jid)
  then show ?case using worker_take_result [OF qs_take(1)] by auto
next
  case (qs_done i q q')
  then show ?case using worker_done_result [OF qs_done(1)] by auto
qed (simp_all add: queue_start_def queue_enqueue_def queue_stop_def)

lemma queue_trace_fifo:
  "queue_trace q evs q' \<Longrightarrow> taken evs @ qu_waiting q' = qu_waiting q @ enqueued evs"
proof (induction rule: queue_trace.induct)
  case (qt_snoc q evs q' ev q'')
  then show ?case using queue_step_fifo [OF qt_snoc(2)] by (simp add: taken_append enqueued_append)
qed simp

section \<open>Draining\<close>

text \<open>What only the workers do, after the last enqueue.\<close>

inductive worker_step :: "queue \<Rightarrow> queue \<Rightarrow> bool" where
  ws_take: "worker_take i q = Some q' \<Longrightarrow> worker_step q q'"
| ws_done: "worker_done i q = Some q' \<Longrightarrow> worker_step q q'"

definition work_left :: "queue \<Rightarrow> nat" where
  "work_left q = 2 * queue_depth q + busy q"

lemma worker_step_less: "worker_step q q' \<Longrightarrow> work_left q' < work_left q"
  by (induction rule: worker_step.induct)
    (auto simp: work_left_def queue_depth_def dest!: worker_take_result worker_done_result)

lemma worker_step_ok: "worker_step q q' \<Longrightarrow> queue_ok q \<Longrightarrow> queue_ok q'"
  by (induction rule: worker_step.induct) (auto intro: queue_step_ok queue_step.intros)

lemma worker_step_running: "worker_step q q' \<Longrightarrow> queue_running q \<Longrightarrow> queue_running q'"
proof (induction rule: worker_step.induct)
  case (ws_take i q q')
  from worker_take_result [OF ws_take(1)] have "length (qu_workers q') = length (qu_workers q)" by auto
  then show ?case using ws_take(2) unfolding queue_running_def by (metis length_0_conv)
next
  case (ws_done i q q')
  from worker_done_result [OF ws_done(1)] have "length (qu_workers q') = length (qu_workers q)" by auto
  then show ?case using ws_done(2) unfolding queue_running_def by (metis length_0_conv)
qed

text \<open>A running queue that is not drained can move.\<close>

lemma worker_can_move:
  assumes "queue_ok q" and "queue_running q" and "\<not> drained q"
  shows "\<exists>q'. worker_step q q'"
proof (cases "busy q = 0")
  case True
  then have "qu_waiting q \<noteq> []" using assms by (auto simp: queue_ok_def drained_def)
  moreover have "qu_workers q ! 0 = None" "0 < length (qu_workers q)"
    using True assms(2) by (auto simp: busy_def queue_running_def filter_empty_conv)
  ultimately obtain q' where "worker_take 0 q = Some q'" by (cases "qu_waiting q") (auto simp: worker_take_def)
  then show ?thesis by (blast intro: ws_take)
next
  case False
  then obtain w where "w \<in> set (qu_workers q)" "w \<noteq> None" by (auto simp: busy_def filter_empty_conv)
  then obtain i where "i < length (qu_workers q)" "qu_workers q ! i \<noteq> None" by (auto simp: in_set_conv_nth)
  then obtain q' where "worker_done i q = Some q'" by (auto simp: worker_done_def)
  then show ?thesis by (blast intro: ws_done)
qed

inductive worker_run :: "queue \<Rightarrow> nat \<Rightarrow> queue \<Rightarrow> bool" where
  wr_nil: "worker_run q 0 q"
| wr_cons: "worker_step q q' \<Longrightarrow> worker_run q' n q'' \<Longrightarrow> worker_run q (Suc n) q''"

lemma worker_run_bound: "worker_run q n q' \<Longrightarrow> n + work_left q' \<le> work_left q"
  by (induction rule: worker_run.induct) (auto dest: worker_step_less)

lemma worker_run_keeps: "worker_run q n q' \<Longrightarrow> queue_ok q \<Longrightarrow> queue_running q \<Longrightarrow> queue_ok q' \<and> queue_running q'"
  by (induction rule: worker_run.induct) (auto intro: worker_step_ok worker_step_running)

section \<open>Properties\<close>

text \<open>C29: Whatever happens to the queue, at most the configured number of jobs runs at once, ids are handed
  to workers in the order they were enqueued, each exactly once per enqueue, and what \<open>drain\<close> counts
  is what waits plus what runs.\<close>

theorem queue_serves_in_order:
  assumes "queue_trace (new_queue n) evs q"
  shows "busy q \<le> nat (max 1 n) \<and> enqueued evs = taken evs @ qu_waiting q \<and> qu_unfinished q = queue_depth q + busy q"
proof -
  have ok: "queue_ok q" using assms new_queue_ok by (rule queue_trace_ok)
  have "queue_step a ev b \<Longrightarrow> qu_concurrency b = qu_concurrency a" for a ev b
    by (induction rule: queue_step.induct)
      (auto simp: queue_start_def queue_enqueue_def queue_stop_def dest!: worker_take_result worker_done_result)
  with assms have "qu_concurrency q = nat (max 1 n)"
    by (induction "new_queue n" evs q rule: queue_trace.induct) (auto simp: new_queue_def)
  then show ?thesis using busy_bound [OF ok] ok queue_trace_fifo [OF assms]
    by (simp add: queue_ok_def queue_depth_def) (simp add: new_queue_def)
qed

theorem queue_serves_in_order_witness:
  "\<exists>q. queue_trace (new_queue 0) [Enqueued ''a'', Started, Enqueued ''b'', Taken 0 ''a''] q \<and>
     [''a'', ''b''] = [''a''] @ qu_waiting q \<and> busy q \<le> 1"
proof -
  let ?q0 = "new_queue 0"
  let ?q3 = "queue_enqueue ''b'' (queue_start (queue_enqueue ''a'' ?q0))"
  obtain q where q: "worker_take 0 ?q3 = Some q"
    by (simp add: worker_take_def queue_enqueue_def queue_start_def new_queue_def)
  have "''a'' = hd (qu_waiting ?q3)" by (simp add: queue_enqueue_def queue_start_def new_queue_def)
  then have "queue_step ?q3 (Taken 0 ''a'') q" by (rule qs_take [OF q])
  from qt_snoc [OF qt_snoc [OF qt_snoc [OF qt_snoc [OF qt_nil qs_enqueue] qs_start] qs_enqueue] this]
  have t: "queue_trace ?q0 [Enqueued ''a'', Started, Enqueued ''b'', Taken 0 ''a''] q" by simp
  from queue_serves_in_order [OF t] t show ?thesis by auto
qed

text \<open>C28: A running queue drains: the workers can move as long as anything is unfinished, they can make at
  most two moves per waiting item and one per running one, and where they cannot move nothing is
  left to wait for. A failing job counts as done like any other.\<close>

theorem queue_drains:
  assumes "queue_ok q" and "queue_running q" and "worker_run q n q'"
  shows "n \<le> 2 * queue_depth q + busy q \<and> (drained q' \<or> (\<exists>q''. worker_step q' q'')) \<and>
    ((\<nexists>q''. worker_step q' q'') \<longrightarrow> queue_depth q' = 0 \<and> busy q' = 0)"
proof -
  have ok: "queue_ok q'" "queue_running q'" using worker_run_keeps [OF assms(3,1,2)] by auto
  have "n \<le> work_left q" using worker_run_bound [OF assms(3)] by simp
  moreover have "drained q' \<or> (\<exists>q''. worker_step q' q'')" using worker_can_move [OF ok] by blast
  moreover have "drained q' \<Longrightarrow> queue_depth q' = 0 \<and> busy q' = 0"
    using ok by (simp add: drained_def queue_ok_def queue_depth_def)
  ultimately show ?thesis by (auto simp: work_left_def)
qed

theorem queue_drains_witness:
  "\<exists>q q'. q = queue_enqueue ''a'' (queue_start (new_queue 1)) \<and> worker_run q 2 q' \<and> (2 :: nat) \<le> 2 * queue_depth q + busy q \<and>
     queue_depth q' = 0 \<and> busy q' = 0"
proof -
  let ?q = "queue_enqueue ''a'' (queue_start (new_queue 1))"
  obtain q1 where q1: "worker_take 0 ?q = Some q1" "qu_workers q1 = [Some ''a'']" "qu_waiting q1 = []"
    by (simp add: worker_take_def queue_enqueue_def queue_start_def new_queue_def)
  obtain q2 where q2: "worker_done 0 q1 = Some q2" "qu_workers q2 = [None]" "qu_waiting q2 = []"
    using q1 by (simp add: worker_done_def)
  have run: "worker_run ?q (Suc (Suc 0)) q2"
    by (rule wr_cons [OF ws_take [OF q1(1)] wr_cons [OF ws_done [OF q2(1)] wr_nil]])
  have ok: "queue_ok ?q" "queue_running ?q"
    by (simp_all add: queue_ok_def queue_running_def queue_enqueue_def queue_start_def new_queue_def busy_def)
  have stuck: "\<nexists>q''. worker_step q2 q''"
  proof
    assume "\<exists>q''. worker_step q2 q''"
    then obtain q'' where "worker_step q2 q''" ..
    then show False using q2(2,3) by cases (auto simp: worker_take_def worker_done_def less_Suc_eq split: if_splits)
  qed
  from queue_drains [OF ok run] stuck run show ?thesis by (auto simp: numeral_2_eq_2)
qed

end
