(* ===== verification/Wiring.thy ===== *)
theory Wiring
  imports Queue Mock Service_Facts
begin

text \<open>
  How the parts are put together (\<open>app/api/deps.py\<close>, \<open>app/main.py\<close>): which client a mode builds,
  the service over the shared database, and what startup does with the jobs a previous process left
  behind.
\<close>

section \<open>Clients and services\<close>

datatype built_client = BuiltMock mock | BuiltHttp http_config

text \<open>The catalog fixture and the clock are those of the process.\<close>

definition build_client :: "obj \<Rightarrow> time \<Rightarrow> settings \<Rightarrow> built_client" where
  "build_client fixture now st =
     (if app_mode st = MOCK then
        BuiltMock (new_mock fixture (mock_balance_rub st) (mock_daily_limit_rub st) (mock_daily_spent_rub st) 1 0 [] now)
      else BuiltHttp \<lparr>hc_retry = \<lparr>rp_max_attempts = nat (retry_max_attempts st), rp_base_delay = retry_base_delay st,
             rp_max_delay = retry_max_delay st, rp_jitter = retry_jitter st\<rparr>,
           hc_poll_interval = poll_interval_seconds st, hc_poll_timeout = poll_timeout_seconds st\<rparr>)"

definition build_plan_service :: "settings \<Rightarrow> policy \<Rightarrow> crypto \<Rightarrow> bool \<Rightarrow> 'x client \<Rightarrow> 'x service" where
  "build_plan_service st p h has_queue c =
     \<lparr>sv_client = c, sv_settings = st, sv_policy = p, sv_crypto = h, sv_has_media = True, sv_has_queue = has_queue\<rparr>"

section \<open>Recovery\<close>

definition recover_job :: "string \<Rightarrow> ('x, unit) serv" where
  "recover_job jid = andthen (in_db (jobs_requeue jid)) (enqueue jid)"

definition recover_unfinished_jobs :: "('x, string list) serv" where
  "recover_unfinished_jobs = bind (in_db unfinished_job_ids) (\<lambda>ids. andthen (for_each ids recover_job) (ret ids))"

section \<open>What recovery does\<close>

definition requeued :: "job_row \<Rightarrow> job_row" where
  "requeued r = r\<lparr>jr_status := JOB_QUEUED, jr_document := (jr_document r)\<lparr>j_status := JOB_QUEUED\<rparr>\<rparr>"

lemma requeued_simps [simp]:
  "jr_job_id (requeued r) = jr_job_id r" "requeued (requeued r) = requeued r" "jr_status (requeued r) = JOB_QUEUED"
  by (simp_all add: requeued_def)

lemma recover_job_apply:
  "recover_job jid w = (Inr (), w\<lparr>w_db := (w_db w)\<lparr>t_jobs := map (\<lambda>r. if jr_job_id r = jid then requeued r else r) (t_jobs (w_db w))\<rparr>,
     w_queue := w_queue w @ [jid]\<rparr>)"
  by (simp add: recover_job_def andthen_def bind_apply in_db_def jobs_requeue_def enqueue_def sql_update_def requeued_def)

lemma recover_jobs_apply:
  "for_each ids recover_job w = (Inr (), w\<lparr>w_db := (w_db w)\<lparr>t_jobs := map (\<lambda>r. if jr_job_id r \<in> set ids then requeued r else r) (t_jobs (w_db w))\<rparr>,
     w_queue := w_queue w @ ids\<rparr>)"
proof (induction ids arbitrary: w)
  case (Cons jid ids)
  have "(if jr_job_id (if jr_job_id r = jid then requeued r else r) \<in> set ids then requeued (if jr_job_id r = jid then requeued r else r)
      else (if jr_job_id r = jid then requeued r else r)) = (if jr_job_id r \<in> set (jid # ids) then requeued r else r)" for r
    by auto
  then show ?case by (simp only: for_each.simps andthen_Inr [OF recover_job_apply] Cons.IH) (simp add: comp_def)
qed simp

lemma recover_apply:
  "recover_unfinished_jobs w =
     (let ids = map jr_job_id (sort_key jr_created_at (filter (\<lambda>r. jr_status r \<in> {JOB_QUEUED, JOB_RUNNING}) (t_jobs (w_db w))))
      in (Inr ids, w\<lparr>w_db := (w_db w)\<lparr>t_jobs := map (\<lambda>r. if jr_job_id r \<in> set ids then requeued r else r) (t_jobs (w_db w))\<rparr>,
           w_queue := w_queue w @ ids\<rparr>))"
  by (simp add: recover_unfinished_jobs_def bind_apply unfinished_job_ids_def Let_def andthen_def recover_jobs_apply)

lemma recovered_ids:
  assumes "distinct (map jr_job_id rs)" and "r \<in> set rs"
  shows "jr_job_id r \<in> set (map jr_job_id (sort_key f (filter P rs))) \<longleftrightarrow> P r"
proof -
  have "inj_on jr_job_id (set rs)" using assms(1) by (simp add: distinct_map)
  then show ?thesis using assms(2) by (auto simp: inj_on_def)
qed

text \<open>After startup every job that was queued or running is queued again and waits in the queue, exactly
  once; no other job, no plan and no row of the step ledger is touched, and nothing is billed.\<close>

theorem recovery_requeues_unfinished:
  assumes "db_ok (w_db w)" and "recover_unfinished_jobs w = (Inr ids, w')"
  shows "w_queue w' = w_queue w @ ids \<and> distinct ids \<and> t_plans (w_db w') = t_plans (w_db w) \<and> t_steps (w_db w') = t_steps (w_db w) \<and>
    w_ext w' = w_ext w \<and>
    (\<forall>jid j. job_at (w_db w) jid = Some j \<longrightarrow>
       (jid \<in> set ids \<longleftrightarrow> j_status j \<in> {JOB_QUEUED, JOB_RUNNING}) \<and>
       job_at (w_db w') jid = Some (if jid \<in> set ids then j\<lparr>j_status := JOB_QUEUED\<rparr> else j))"
proof -
  let ?P = "\<lambda>r. jr_status r \<in> {JOB_QUEUED, JOB_RUNNING}"
  have ids: "ids = map jr_job_id (sort_key jr_created_at (filter ?P (t_jobs (w_db w))))"
    and w': "w' = w\<lparr>w_db := (w_db w)\<lparr>t_jobs := map (\<lambda>r. if jr_job_id r \<in> set ids then requeued r else r) (t_jobs (w_db w))\<rparr>, w_queue := w_queue w @ ids\<rparr>"
    using assms(2) by (auto simp: recover_apply Let_def)
  have keys: "distinct (map jr_job_id (t_jobs (w_db w)))" and rows: "\<And>r. r \<in> set (t_jobs (w_db w)) \<Longrightarrow> jr_status r = j_status (jr_document r)"
    using assms(1) by (auto simp: db_ok_def jobs_ok_def list_all_iff)
  have "distinct ids" unfolding ids using keys by (auto simp: distinct_map intro: inj_on_subset)
  moreover have "(jid \<in> set ids \<longleftrightarrow> j_status j \<in> {JOB_QUEUED, JOB_RUNNING}) \<and>
       job_at (w_db w') jid = Some (if jid \<in> set ids then j\<lparr>j_status := JOB_QUEUED\<rparr> else j)"
    if job: "job_at (w_db w) jid = Some j" for jid j
  proof -
    obtain r where r: "find (\<lambda>r. jr_job_id r = jid) (t_jobs (w_db w)) = Some r" "jr_document r = j"
      using job by (auto simp: job_at_def)
    then have m: "r \<in> set (t_jobs (w_db w))" "jr_job_id r = jid" using find_in by fastforce+
    have "jid \<in> set ids \<longleftrightarrow> ?P r" unfolding ids using recovered_ids [OF keys m(1), where P = ?P] m(2) by simp
    moreover have "find (\<lambda>r. jr_job_id r = jid) (map (\<lambda>r. if jr_job_id r \<in> set ids then requeued r else r) rs) =
        map_option (\<lambda>r. if jr_job_id r \<in> set ids then requeued r else r) (find (\<lambda>r. jr_job_id r = jid) rs)" for rs
      by (induction rs) auto
    ultimately show ?thesis using r m rows [OF m(1)] by (auto simp: w' job_at_def requeued_def)
  qed
  ultimately show ?thesis by (simp add: w')
qed

text \<open>A job that was running when the process died.\<close>

definition crashed_world :: "nat world" where
  "crashed_world = \<lparr>w_db = empty_db\<lparr>t_plans := [plan_row_of demo_plan], t_jobs := [job_row_of (demo_job\<lparr>j_status := JOB_RUNNING\<rparr>)]\<rparr>,
     w_ext = 0, w_queue = []\<rparr>"

theorem recovery_requeues_unfinished_witness:
  "\<exists>w'. recover_unfinished_jobs crashed_world = (Inr [''j1''], w') \<and> w_queue w' = [''j1''] \<and>
     job_at (w_db w') ''j1'' = Some (demo_job\<lparr>j_status := JOB_QUEUED\<rparr>)"
proof -
  have ok: "db_ok (w_db crashed_world)"
    by (simp add: crashed_world_def db_ok_def empty_db_def plans_ok_def jobs_ok_def steps_ok_def plan_row_of_def job_row_of_def)
  obtain w' where w': "recover_unfinished_jobs crashed_world = (Inr [''j1''], w')"
    by (simp add: recover_apply crashed_world_def job_row_of_def demo_job_def Let_def)
  have "job_at (w_db crashed_world) ''j1'' = Some (demo_job\<lparr>j_status := JOB_RUNNING\<rparr>)"
    by (simp add: job_at_def crashed_world_def job_row_of_def demo_job_def)
  with recovery_requeues_unfinished [OF ok w'] w' show ?thesis by (simp add: crashed_world_def)
qed

end
