(* ===== verification/System.thy ===== *)
theory System
  imports Admission_Facts Verdicts Idempotency Media Retention Wiring Demo_Run
begin

text \<open>
  The service as a whole. Every handler, worker and housekeeping pass is built from the same few
  operations on the database and the client; \<open>spending_relation\<close> and \<open>service_relation\<close> say what such
  an operation has to respect, and a relation on the database that the store's operations respect is
  respected by everything the service does. \<open>app_step\<close> is one request, one job, one pass or one
  restart.
\<close>

section \<open>Contracts\<close>

locale spending_relation = admission_relation R sv for R :: "'x world \<Rightarrow> 'x world \<Rightarrow> bool" and sv +
  assumes executor_keeps: "keeps R (run_executor sv p j g)"
begin

lemma hand_over_keeps: "keeps R (hand_over sv p j g)"
  unfolding hand_over_def Let_def by (intro parts executor_keeps)

lemma start_run_keeps: "keeps R (start_run sv j p x)"
  unfolding start_run_def after_recheck_def Let_def
  by (auto simp: case_prod_beta intro!: parts hand_over_keeps recheck_prices_keeps abort_job_keeps)

lemma run_job_keeps: "keeps R (run_job sv jid)"
  unfolding run_job_def run_claimed_def jobs_get_def plans_get_def
  by (auto intro!: parts claim_keeps abort_job_keeps account_snapshot_keeps start_run_keeps split: option.splits)

lemma execute_plan_keeps: "keeps R (execute_plan sv pid confirmed wait)"
  unfolding execute_plan_def Let_def plans_get_def jobs_get_by_plan_def
  by (auto intro!: parts admit_keeps enqueue_keeps run_job_keeps split: option.splits)

lemma produce_keeps: "keeps R (produce_plan sv md b)" "keeps R (produce_job sv md pid r)"
  unfolding produce_plan_def produce_job_def by (intro parts create_plan_keeps execute_plan_keeps)+

end

locale keyless_relation = spending_relation R sv + written: late_relation R sv for R :: "'x world \<Rightarrow> 'x world \<Rightarrow> bool" and sv +
  assumes requeue_keeps: "keeps R (in_db (jobs_requeue jid))"
    and upload_record_keeps: "keeps R (in_db (media_record url fn kd sz ttl now))"
    and upload_purge_keeps: "keeps R (in_db (media_purge_expired now))"
    and upload_keeps: "keeps R (in_ext (cl_upload_media (sv_client sv) f c t))"
begin

lemma media_limits_keeps: "keeps R (media_limits_of sv)"
  unfolding media_limits_of_def by (intro keeps_bind keeps_ret try_vibe_keeps [OF step_order_axioms] capabilities_keeps)

lemma upload_endpoint_keeps: "keeps R (upload_endpoint sv f ct content)"
  unfolding upload_endpoint_def media_upload_def store_upload_def Let_def
  by (auto intro!: parts media_limits_keeps upload_keeps upload_record_keeps split: sum.splits option.splits)

lemma recover_keeps: "keeps R recover_unfinished_jobs"
proof -
  have job: "keeps R (recover_job jid)" for jid
    unfolding recover_job_def by (intro parts requeue_keeps enqueue_keeps)
  show ?thesis unfolding recover_unfinished_jobs_def unfinished_job_ids_def
    by (intro parts job)
qed

lemma reading_keeps: "keeps R (get_plan_endpoint pid)" "keeps R (get_job_endpoint jid)" "keeps R (limits_endpoint sv)"
  unfolding get_plan_endpoint_def get_job_endpoint_def limits_endpoint_def service_get_plan_def service_get_job_def
    plans_get_def jobs_get_def
  by (intro parts media_limits_keeps)+

end

locale service_relation = keyless_relation R sv for R :: "'x world \<Rightarrow> 'x world \<Rightarrow> bool" and sv +
  assumes key_claim_keeps: "keeps R (in_db (idem_claim k ep rh now))"
    and key_complete_keeps: "keeps R (in_db (idem_complete k resp now))"
    and key_release_keeps: "keeps R (in_db (idem_release k))"
    and key_purge_keeps: "keeps R (in_db (idem_purge_older_than now))"
begin

lemma with_idempotency_keeps: "keeps R produce \<Longrightarrow> keeps R (with_idempotency sv key endpoint body produce)"
  unfolding with_idempotency_def with_key_def produce_once_def Let_def
  by (auto intro!: parts key_claim_keeps key_complete_keeps key_release_keeps split: option.splits list.splits sum.splits)

lemma post_keeps: "keeps R (post_plans sv md b key)" "keeps R (post_execute sv md pid r key)"
  unfolding post_plans_def post_execute_def by (intro with_idempotency_keeps produce_keeps)+

lemma purge_keeps: "keeps R (purge sv now)"
  unfolding purge_def purge_at_def by (auto intro!: parts key_purge_keeps upload_purge_keeps split: option.splits)

end

section \<open>Relations on the database\<close>

definition on_dbs :: "(db \<Rightarrow> db \<Rightarrow> bool) \<Rightarrow> 'x world \<Rightarrow> 'x world \<Rightarrow> bool" where
  "on_dbs R w w' \<longleftrightarrow> R (w_db w) (w_db w')"

lemma in_db_on_dbs: "keeps R m \<Longrightarrow> keeps (on_dbs R) (in_db m)"
  by (auto simp: keeps_def on_dbs_def in_db_def Let_def case_prod_beta)

lemma in_ext_on_dbs: "(\<And>d. R d d) \<Longrightarrow> keeps (on_dbs R) (in_ext m)"
  by (auto simp: keeps_def on_dbs_def in_ext_def Let_def case_prod_beta)

lemma run_executor_on_dbs:
  assumes "run_relation (dbs R) (exec_env_of sv)"
  shows "keeps (on_dbs R) (run_executor sv p j g)"
proof -
  have run: "keeps (dbs R) (run (exec_env_of sv) p)" using assms by (rule run_relation.run_keeps)
  show ?thesis
  proof (rule keepsI)
    fix w
    have "dbs R (start_state w j g) (snd (run (exec_env_of sv) p (start_state w j g)))"
      using run by (simp add: keeps_def)
    then show "on_dbs R w (snd (run_executor sv p j g w))"
      by (simp add: dbs_def on_dbs_def run_executor_def start_state_def Let_def case_prod_beta)
  qed
qed

text \<open>What has to be shown of a relation between databases: that it is a preorder and that every
  operation of the store keeps it.\<close>

definition core_keeps :: "(db \<Rightarrow> db \<Rightarrow> bool) \<Rightarrow> bool" where
  "core_keeps R \<longleftrightarrow> step_order R \<and> (\<forall>p. keeps R (plans_save p)) \<and> (\<forall>j. keeps R (jobs_save j)) \<and>
     (\<forall>jid now. keeps R (claim_for_execution jid now)) \<and> (\<forall>jid. keeps R (jobs_requeue jid)) \<and>
     (\<forall>h pid sid jid key body now. keeps R (claim_step h pid sid jid key body now)) \<and>
     (\<forall>pid sid st gid cost now. keeps R (update_step pid sid st gid cost now)) \<and>
     (\<forall>g ev pl now. keeps R (record_webhook g ev pl now)) \<and>
     (\<forall>url fn kd sz ttl now. keeps R (media_record url fn kd sz ttl now)) \<and> (\<forall>now. keeps R (media_purge_expired now))"

definition store_keeps :: "(db \<Rightarrow> db \<Rightarrow> bool) \<Rightarrow> bool" where
  "store_keeps R \<longleftrightarrow> core_keeps R \<and> (\<forall>k ep rh now. keeps R (idem_claim k ep rh now)) \<and>
     (\<forall>k resp now. keeps R (idem_complete k resp now)) \<and> (\<forall>k. keeps R (idem_release k)) \<and>
     (\<forall>now. keeps R (idem_purge_older_than now))"

lemma core_keeps_service:
  assumes "core_keeps R"
  shows "keyless_relation (on_dbs R) sv"
proof -
  note S = assms [unfolded core_keeps_def]
  have "step_order R" using S by (rule conjunct1)
  then have refl: "R d d" for d by (rule step_order.R_refl)
  have "run_relation (dbs R) (exec_env_of sv)"
    by (intro db_run_relation) (simp_all add: S)
  then have run: "keeps (on_dbs R) (run_executor sv p j g)" for p j g by (rule run_executor_on_dbs)
  have trans: "R c e" if "R c d" "R d e" for c d e
    using step_order.R_trans [OF \<open>step_order R\<close>] that .
  have ext: "keeps (on_dbs R) (in_ext m)" for m :: "('x, exn, 'b) eff" by (rule in_ext_on_dbs) (rule refl)
  have plain: "keeps (on_dbs R) (clock sv)" "keeps (on_dbs R) (fresh_uuid sv)" "keeps (on_dbs R) (enqueue jid)" for jid
    by (auto simp: clock_def fresh_uuid_def enqueue_def on_dbs_def keeps_def Let_def case_prod_beta in_ext_def modify_def refl)
  show ?thesis
  proof unfold_locales
    show "on_dbs R w w" for w :: "'x world" by (simp add: on_dbs_def refl)
    show "on_dbs R u w" if "on_dbs R u v" "on_dbs R v w" for u v w :: "'x world"
      using that by (auto simp: on_dbs_def intro: trans)
  qed (simp_all add: run ext plain in_db_on_dbs S)
qed

lemma store_keeps_service: "store_keeps R \<Longrightarrow> service_relation (on_dbs R) sv"
  unfolding store_keeps_def
  by (intro service_relation.intro service_relation_axioms.intro core_keeps_service) (simp_all add: in_db_on_dbs)

section \<open>What the database never loses\<close>

lemma store_keepsI:
  assumes "step_order R" "\<And>p. keeps R (plans_save p)" "\<And>j. keeps R (jobs_save j)"
    "\<And>jid now. keeps R (claim_for_execution jid now)" "\<And>jid. keeps R (jobs_requeue jid)"
    "\<And>h pid sid jid key body now. keeps R (claim_step h pid sid jid key body now)"
    "\<And>pid sid st gid cost now. keeps R (update_step pid sid st gid cost now)"
    "\<And>g ev pl now. keeps R (record_webhook g ev pl now)" "\<And>k ep rh now. keeps R (idem_claim k ep rh now)"
    "\<And>k resp now. keeps R (idem_complete k resp now)" "\<And>k. keeps R (idem_release k)"
    "\<And>now. keeps R (idem_purge_older_than now)" "\<And>url fn kd sz ttl now. keeps R (media_record url fn kd sz ttl now)"
    "\<And>now. keeps R (media_purge_expired now)"
  shows "store_keeps R"
  using assms by (simp add: store_keeps_def core_keeps_def)

lemma store_keeps_ok: "store_keeps ok_step"
  by (intro store_keepsI ok.step_order_axioms store_ok)

lemma store_keeps_ledger: "store_keeps ledger_grows"
  by (intro store_keepsI ledger.step_order_axioms store_grows)

text \<open>The plans and jobs by id, and the log of callbacks.\<close>

definition files_kept :: "db \<Rightarrow> db \<Rightarrow> bool" where
  "files_kept d d' \<longleftrightarrow> (\<forall>pid. plan_at d pid \<noteq> None \<longrightarrow> plan_at d' pid \<noteq> None) \<and>
     (\<forall>jid. job_at d jid \<noteq> None \<longrightarrow> job_at d' jid \<noteq> None) \<and> (\<exists>new. t_webhooks d' = t_webhooks d @ new)"

interpretation files: step_order files_kept
proof
  show "files_kept d f" if "files_kept d e" "files_kept e f" for d e f
    using that by (auto simp: files_kept_def) 
qed (auto simp: files_kept_def)

lemma files_same:
  "t_plans d' = t_plans d \<Longrightarrow> t_jobs d' = t_jobs d \<Longrightarrow> t_webhooks d' = t_webhooks d \<Longrightarrow> files_kept d d'"
  by (simp add: files_kept_def plan_at_def job_at_def)

lemma find_sql_update_None:
  "(\<And>r. key (f r) = key r) \<Longrightarrow> find (\<lambda>r. key r = k) (fst (sql_update P f rs)) = None \<longleftrightarrow> find (\<lambda>r. key r = k) rs = None"
  by (induction rs) (simp_all add: sql_update_def)

lemma store_keeps_files: "store_keeps files_kept"
proof (rule store_keepsI)
  show "keeps files_kept (plans_save p)" for p
    by (auto intro!: keepsI simp: files_kept_def plan_at_save) (auto simp: plans_save_def job_at_def)
  show "keeps files_kept (jobs_save j)" for j
  proof (rule keepsI)
    fix d show "files_kept d (snd (jobs_save j d))"
    proof (cases "job_accepted d j")
      case True
      have "plan_at (snd (jobs_save j d)) = plan_at d" "t_webhooks (snd (jobs_save j d)) = t_webhooks d"
        by (simp_all add: jobs_save_def plan_at_def fun_eq_iff)
      then show ?thesis by (auto simp: files_kept_def job_at_save [OF True])
    qed (simp add: jobs_save_refused files.R_refl)
  qed
  show "keeps files_kept (claim_for_execution jid now)" "keeps files_kept (jobs_requeue jid)" for jid now
    by (auto intro!: keepsI simp: files_kept_def claim_for_execution_def jobs_requeue_def plan_at_def job_at_def Let_def case_prod_beta
        find_sql_update_None [where key = jr_job_id, simplified])
  show "keeps files_kept (claim_step h pid sid jid key body now)" for h pid sid jid key body now
    unfolding claim_step_def Let_def get_step_def
    by (intro files.keeps_intros) (auto simp: keeps_def insert_step_def files_same)
  show "keeps files_kept (idem_claim k ep rh now)" for k ep rh now
    by (auto intro!: keepsI files_same simp: idem_claim_def split: option.splits)
  show "keeps files_kept (record_webhook g ev pl now)" for g ev pl now
    by (simp add: keeps_def record_webhook_def files_kept_def plan_at_def job_at_def)
qed (auto intro!: keepsI files_same files.step_order_axioms simp: update_step_def idem_complete_def idem_release_def
   idem_purge_older_than_def media_record_def media_purge_expired_def Let_def case_prod_beta)

section \<open>The steps of the service\<close>

text \<open>One request, one job, one callback, one sweep or one restart, answered or failed.\<close>

inductive serving_step :: "'x service \<Rightarrow> model_dump \<Rightarrow> (string \<Rightarrow> json option) \<Rightarrow> 'x world \<Rightarrow> 'x world \<Rightarrow> bool"
  for sv md loads where
  plan_asked: "serving_step sv md loads w (snd (post_plans sv md b key w))"
| execution_asked: "serving_step sv md loads w (snd (post_execute sv md pid r key w))"
| plan_read: "serving_step sv md loads w (snd (get_plan_endpoint pid w))"
| job_read: "serving_step sv md loads w (snd (get_job_endpoint jid w))"
| job_worked: "serving_step sv md loads w (snd (run_job sv jid w))"
| called_back: "serving_step sv md loads w (snd (vibe_webhook sv loads raw signature event w))"
| swept: "serving_step sv md loads w (snd (sweep sv w))"
| uploaded: "serving_step sv md loads w (snd (upload_endpoint sv f ct content w))"
| limits_asked: "serving_step sv md loads w (snd (limits_endpoint sv w))"
| restarted: "serving_step sv md loads w (snd (recover_unfinished_jobs w))"

inductive app_step :: "'x service \<Rightarrow> model_dump \<Rightarrow> (string \<Rightarrow> json option) \<Rightarrow> 'x world \<Rightarrow> 'x world \<Rightarrow> bool"
  for sv md loads where
  served: "serving_step sv md loads w w' \<Longrightarrow> app_step sv md loads w w'"
| purged: "app_step sv md loads w (snd (purge sv now w))"

context service_relation
begin

lemma serving_step_R: "serving_step sv md loads w w' \<Longrightarrow> R w w'"
  by (induction rule: serving_step.induct)
    (use post_keeps reading_keeps run_job_keeps written.vibe_webhook_keeps written.sweep_keeps upload_endpoint_keeps recover_keeps in \<open>auto simp: keeps_def\<close>)

lemma app_step_R: "app_step sv md loads w w' \<Longrightarrow> R w w'"
  by (induction rule: app_step.induct) (use serving_step_R purge_keeps in \<open>auto simp: keeps_def\<close>)

lemma app_steps_R: "(app_step sv md loads)\<^sup>*\<^sup>* w w' \<Longrightarrow> R w w'"
  by (induction rule: rtranclp_induct) (auto intro: R_refl R_trans app_step_R)

end

interpretation service_ok: service_relation "on_dbs ok_step" sv for sv
  by (rule store_keeps_service [OF store_keeps_ok])

interpretation service_ledger: service_relation "on_dbs ledger_grows" sv for sv
  by (rule store_keeps_service [OF store_keeps_ledger])

interpretation service_files: service_relation "on_dbs files_kept" sv for sv
  by (rule store_keeps_service [OF store_keeps_files])

text \<open>C9: Whatever the service is asked to do, in any order and however the calls to the platform end, it
  keeps the database well formed: no plan, no job and no recorded callback is lost, and a step once
  claimed stays claimed by the same idempotency key for the same request, with a generation id that
  is never forgotten.\<close>

theorem service_history:
  assumes "(app_step sv md loads)\<^sup>*\<^sup>* w w'" and "db_ok (w_db w)"
  shows "db_ok (w_db w') \<and> (\<exists>new. t_webhooks (w_db w') = t_webhooks (w_db w) @ new) \<and>
    (\<forall>pid. plan_at (w_db w) pid \<noteq> None \<longrightarrow> plan_at (w_db w') pid \<noteq> None) \<and>
    (\<forall>jid. job_at (w_db w) jid \<noteq> None \<longrightarrow> job_at (w_db w') jid \<noteq> None) \<and>
    (\<forall>pid sid r. step_at (w_db w) pid sid = Some r \<longrightarrow>
       (\<exists>r'. step_at (w_db w') pid sid = Some r' \<and> sx_idempotency_key r' = sx_idempotency_key r \<and>
          sx_request_hash r' = sx_request_hash r \<and> (sx_generation_id r \<noteq> None \<longrightarrow> sx_generation_id r' \<noteq> None)))"
proof -
  have "ledger_grows (w_db w) (w_db w')" using service_ledger.app_steps_R [OF assms(1)] by (simp add: on_dbs_def)
  note ledger = ledger_grows_step [OF this, unfolded same_claim_def]
  have "db_ok (w_db w')" using service_ok.app_steps_R [OF assms(1)] assms(2) by (simp add: on_dbs_def ok_step_def)
  moreover have "files_kept (w_db w) (w_db w')" using service_files.app_steps_R [OF assms(1)] by (simp add: on_dbs_def)
  ultimately show ?thesis using ledger by (auto simp: files_kept_def dest!: ledger)
qed

definition demo_dump :: model_dump where
  "demo_dump = \<lparr>dump_brief = (\<lambda>b. JStr (b_product_name b)), dump_plan = (\<lambda>p. JNull), dump_job = (\<lambda>j. JNull)\<rparr>"

theorem service_history_witness:
  "\<exists>w'. (app_step (demo_service 10) demo_dump (\<lambda>_. None))\<^sup>*\<^sup>* demo_start w' \<and> db_ok (w_db w') \<and> job_at (w_db w') ''j1'' \<noteq> None"
proof -
  let ?w = "snd (run_job (demo_service 10) ''j1'' (snd (recover_unfinished_jobs demo_start)))"
  let ?step = "app_step (demo_service 10) demo_dump (\<lambda>_. None)"
  have "?step demo_start (snd (recover_unfinished_jobs demo_start))"
    by (rule app_step.served) (rule serving_step.restarted)
  moreover have "?step (snd (recover_unfinished_jobs demo_start)) ?w"
    by (rule app_step.served) (rule serving_step.job_worked)
  ultimately have steps: "?step\<^sup>*\<^sup>* demo_start ?w"
    by (meson converse_rtranclp_into_rtranclp r_into_rtranclp)
  have ok: "db_ok (w_db demo_start)" "job_at (w_db demo_start) ''j1'' \<noteq> None"
    by (simp_all add: demo_start_def demo_db_ok) (simp add: demo_db_eq job_at_def job_row_of_def demo_job_def)
  have "db_ok (w_db ?w) \<and> job_at (w_db ?w) ''j1'' \<noteq> None"
    using service_history [OF steps ok(1)] ok(2) by blast
  with steps show ?thesis by blast
qed

end
