(* ===== verification/Api_Keys.thy ===== *)
theory Api_Keys
  imports System
begin

text \<open>
  What an \<open>Idempotency-Key\<close> promises to a caller of the API (\<open>app/api/idempotency.py\<close>): the first
  answer is stored under the key and given again to every retry, whatever the service did in between;
  a key cannot be used for anything else; and an attempt that failed leaves the key free.
\<close>

section \<open>Requests\<close>

datatype api_request = PlanRequest brief | ExecuteRequest string execute_request

fun request_endpoint :: "api_request \<Rightarrow> string" where
  "request_endpoint (PlanRequest b) = ''POST /api/v1/plans''"
| "request_endpoint (ExecuteRequest pid r) = ''POST /api/v1/plans/'' @ pid @ ''/execute''"

fun request_body :: "model_dump \<Rightarrow> api_request \<Rightarrow> json" where
  "request_body md (PlanRequest b) = dump_brief md b"
| "request_body md (ExecuteRequest pid r) = dump_execute r"

fun request_work :: "'x service \<Rightarrow> model_dump \<Rightarrow> api_request \<Rightarrow> ('x, answer) serv" where
  "request_work sv md (PlanRequest b) = produce_plan sv md b"
| "request_work sv md (ExecuteRequest pid r) = produce_job sv md pid r"

fun post :: "'x service \<Rightarrow> model_dump \<Rightarrow> string option \<Rightarrow> api_request \<Rightarrow> ('x, answer) serv" where
  "post sv md key (PlanRequest b) = post_plans sv md b key"
| "post sv md key (ExecuteRequest pid r) = post_execute sv md pid r key"

lemma post_with_idempotency:
  "post sv md key req = with_idempotency sv key (request_endpoint req) (request_body md req) (request_work sv md req)"
  by (cases req) (simp_all add: post_plans_def post_execute_def)

lemma post_with_key:
  "k \<noteq> [] \<Longrightarrow> post sv md (Some k) req = with_key sv k (request_endpoint req) (request_body md req) (request_work sv md req)"
  by (cases k) (simp_all add: post_with_idempotency with_idempotency_def)

section \<open>The key table during the work\<close>

definition keys_fixed :: "db \<Rightarrow> db \<Rightarrow> bool" where
  "keys_fixed d d' \<longleftrightarrow> t_idem d' = t_idem d"

interpretation fixed: step_order keys_fixed
  by unfold_locales (simp_all add: keys_fixed_def)

lemma core_keeps_fixed: "core_keeps keys_fixed"
proof -
  have "keeps keys_fixed (insert_step row)" for row by (simp add: keeps_def keys_fixed_def insert_step_def)
  then have "keeps keys_fixed (claim_step h pid sid jid key body now)" for h pid sid jid key body now
    unfolding claim_step_def Let_def get_step_def by (intro fixed.keeps_intros) auto
  then show ?thesis unfolding core_keeps_def
    by (auto intro!: keepsI fixed.step_order_axioms simp: keys_fixed_def plans_save_def jobs_save_def claim_for_execution_def
        jobs_requeue_def update_step_def record_webhook_def media_record_def media_purge_expired_def Let_def case_prod_beta)
qed

interpretation at_work: keyless_relation "on_dbs keys_fixed" sv for sv
  by (rule core_keeps_service [OF core_keeps_fixed])

lemma work_fixed: "t_idem (w_db (snd (request_work sv md req w))) = t_idem (w_db w)"
proof (cases req)
  case (PlanRequest b)
  then show ?thesis using at_work.produce_keeps(1) [of sv md b] by (simp add: keeps_def on_dbs_def keys_fixed_def)
next
  case (ExecuteRequest pid r)
  then show ?thesis using at_work.produce_keeps(2) [of sv md pid r] by (simp add: keeps_def on_dbs_def keys_fixed_def)
qed

section \<open>One request under a key\<close>

lemma clock_world: "\<exists>t x. clock sv w = (Inr t, w\<lparr>w_ext := x\<rparr>)"
  by (auto simp: clock_def in_ext_def now_is_def split: prod.split)

lemma with_key_known:
  assumes "idem_at (w_db w) k = Some r"
  shows "\<exists>x. with_key sv k ep body work w = (replay r ep (body_digest (sv_crypto sv) body), w\<lparr>w_ext := x\<rparr>)"
proof -
  obtain t x where "clock sv w = (Inr t, w\<lparr>w_ext := x\<rparr>)" using clock_world [of sv w] by blast
  then show ?thesis using assms
    by (auto simp: with_key_def Let_def bind_apply in_db_def idem_claim_def split: sum.split)
qed

definition claimed_key :: "string \<Rightarrow> string \<Rightarrow> string \<Rightarrow> time \<Rightarrow> idem_row" where
  "claimed_key k ep dg t = \<lparr>ik_key = k, ik_endpoint = ep, ik_request_hash = dg, ik_response = None,
     ik_created_at = t, ik_completed_at = None\<rparr>"

lemma claimed_key_simps [simp]:
  "ik_key (claimed_key k ep dg t) = k" "\<not> is_complete (claimed_key k ep dg t)"
  by (simp_all add: claimed_key_def is_complete_def)

lemma with_key_new:
  assumes "idem_at (w_db w) k = None"
  shows "\<exists>t x. with_key sv k ep body work w =
    produce_once sv k work (w\<lparr>w_ext := x, w_db := (w_db w)\<lparr>t_idem := t_idem (w_db w) @ [claimed_key k ep (body_digest (sv_crypto sv) body) t]\<rparr>\<rparr>)"
proof -
  obtain t x where "clock sv w = (Inr t, w\<lparr>w_ext := x\<rparr>)" using clock_world [of sv w] by blast
  then show ?thesis using assms
    by (intro exI [of _ t] exI [of _ x]) (simp add: with_key_def Let_def bind_apply in_db_def idem_claim_def claimed_key_def)
qed

lemma produce_once_failed:
  assumes "work w = (Inl e, u)"
  shows "produce_once sv k work w = (Inl e, u\<lparr>w_db := (w_db u)\<lparr>t_idem := filter (\<lambda>r. \<not> (ik_key r = k \<and> \<not> is_complete r)) (t_idem (w_db u))\<rparr>\<rparr>)"
  by (simp add: produce_once_def bind_apply catch_def assms andthen_def in_db_def idem_release_def sql_delete_def)

lemma produce_once_done:
  assumes "work w = (Inr a, u)"
  shows "\<exists>t x. produce_once sv k work w = (Inr (fresh_answer a), u\<lparr>w_ext := x, w_db := (w_db u)\<lparr>t_idem :=
      map (\<lambda>r. if ik_key r = k then r\<lparr>ik_response := Some (stored_answer a), ik_completed_at := Some t\<rparr> else r) (t_idem (w_db u))\<rparr>\<rparr>)"
proof -
  obtain t x where "clock sv u = (Inr t, u\<lparr>w_ext := x\<rparr>)" using clock_world [of sv u] by blast
  then show ?thesis
    by (intro exI [of _ t] exI [of _ x])
      (simp add: produce_once_def bind_apply catch_def assms andthen_def in_db_def idem_complete_def sql_update_def)
qed

lemma filter_claimed:
  "idem_at d k = None \<Longrightarrow> filter (\<lambda>r. \<not> (ik_key r = k \<and> \<not> is_complete r)) (t_idem d @ [claimed_key k ep dg t]) = t_idem d"
  by (auto simp: idem_at_def find_None_iff intro!: filter_True)

lemma find_completed:
  assumes "find (\<lambda>r. ik_key r = k) rs = None"
  shows "find (\<lambda>r. ik_key r = k') (map (\<lambda>r. if ik_key r = k then r\<lparr>ik_response := resp, ik_completed_at := t'\<rparr> else r) (rs @ [claimed_key k ep dg t])) =
    (if k' = k then Some ((claimed_key k ep dg t)\<lparr>ik_response := resp, ik_completed_at := t'\<rparr>) else find (\<lambda>r. ik_key r = k') rs)"
  using assms by (induction rs) auto

text \<open>A key nobody used: either the work failed and the key table is as it was, or the answer is stored.\<close>

lemma with_key_fresh:
  assumes "idem_at (w_db w) k = None" and "\<And>v. t_idem (w_db (snd (work v))) = t_idem (w_db v)"
    and "with_key sv k ep body work w = (res, w')"
  shows "(\<exists>e. res = Inl e \<and> t_idem (w_db w') = t_idem (w_db w)) \<or>
    (\<exists>a v u t t'. work v = (Inr a, u) \<and> res = Inr (fresh_answer a) \<and>
       (\<forall>k'. idem_at (w_db w') k' = (if k' = k
          then Some ((claimed_key k ep (body_digest (sv_crypto sv) body) t)\<lparr>ik_response := Some (stored_answer a), ik_completed_at := Some t'\<rparr>)
          else idem_at (w_db w) k')))"
proof -
  let ?dg = "body_digest (sv_crypto sv) body"
  obtain t x where c: "with_key sv k ep body work w = produce_once sv k work (w\<lparr>w_ext := x, w_db := (w_db w)\<lparr>t_idem := t_idem (w_db w) @ [claimed_key k ep ?dg t]\<rparr>\<rparr>)"
    (is "_ = produce_once sv k work ?v")
    using with_key_new [OF assms(1)] by blast
  obtain r u where ru: "work ?v = (r, u)" by (cases "work ?v")
  have rows: "t_idem (w_db u) = t_idem (w_db w) @ [claimed_key k ep ?dg t]" using assms(2) [of ?v] ru by simp
  show ?thesis
  proof (cases r)
    case (Inl e)
    then have "res = Inl e" "t_idem (w_db w') = t_idem (w_db w)"
      using assms(3) c produce_once_failed [of work ?v e u sv k] ru rows filter_claimed [OF assms(1)] by auto
    then show ?thesis by blast
  next
    case (Inr a)
    then obtain t' y where p: "produce_once sv k work ?v = (Inr (fresh_answer a), u\<lparr>w_ext := y, w_db := (w_db u)\<lparr>t_idem :=
      map (\<lambda>r. if ik_key r = k then r\<lparr>ik_response := Some (stored_answer a), ik_completed_at := Some t'\<rparr> else r) (t_idem (w_db u))\<rparr>\<rparr>)"
      using produce_once_done [of work ?v a u sv k] ru by blast
    have w': "res = Inr (fresh_answer a)" "t_idem (w_db w') = map (\<lambda>r. if ik_key r = k then r\<lparr>ik_response := Some (stored_answer a), ik_completed_at := Some t'\<rparr> else r) (t_idem (w_db u))"
      using assms(3) c p by auto
    have none: "find (\<lambda>r. ik_key r = k) (t_idem (w_db w)) = None" using assms(1) by (simp add: idem_at_def)
    have "idem_at (w_db w') k' = (if k' = k
          then Some ((claimed_key k ep ?dg t)\<lparr>ik_response := Some (stored_answer a), ik_completed_at := Some t'\<rparr>)
          else idem_at (w_db w) k')" for k'
      unfolding idem_at_def w'(2) rows by (rule find_completed [OF none])
    then show ?thesis using ru Inr w'(1) by blast
  qed
qed

section \<open>Answers\<close>

definition plain_answer :: "answer \<Rightarrow> answer" where
  "plain_answer a = a\<lparr>an_headers := AList.delete REPLAY_HEADER (an_headers a)\<rparr>"

text \<open>The answer stored for an endpoint and a digest under a key, but for the replay header.\<close>

definition given_answer :: "db \<Rightarrow> string \<times> string \<times> string \<Rightarrow> answer option" where
  "given_answer d = (\<lambda>(k, ep, dg). case idem_at d k of None \<Rightarrow> None
     | Some r \<Rightarrow> (case replay r ep dg of Inl e \<Rightarrow> None | Inr a \<Rightarrow> Some (plain_answer a)))"

lemma plain_fresh [simp]: "plain_answer (fresh_answer a) = plain_answer a"
  by (simp add: plain_answer_def fresh_answer_def delete_update_same)

lemma work_status: "request_work sv md req v = (Inr a, u) \<Longrightarrow> an_status_code a \<in> {200, 201, 202}"
  by (cases req) (auto simp: produce_plan_def produce_job_def bind_eq_Inr split: if_splits)

lemma replay_stored:
  assumes "an_status_code a \<noteq> 0"
  shows "replay ((claimed_key k ep dg t)\<lparr>ik_response := Some (stored_answer a), ik_completed_at := t'\<rparr>) ep dg =
    Inr (a\<lparr>an_headers := AList.update REPLAY_HEADER ''true'' (an_headers a)\<rparr>)"
  using assms by (simp add: replay_def claimed_key_def stored_answer_def)

definition answers_kept :: "db \<Rightarrow> db \<Rightarrow> bool" where
  "answers_kept d d' \<longleftrightarrow> (\<forall>k r. idem_at d k = Some r \<and> is_complete r \<longrightarrow> idem_at d' k = Some r)"

lemma answers_kept_fixed: "keys_fixed d d' \<Longrightarrow> answers_kept d d'"
  by (simp add: answers_kept_def keys_fixed_def idem_at_def)

lemma answers_kept_at_work: "keeps (on_dbs keys_fixed) m \<Longrightarrow> answers_kept (w_db v) (w_db (snd (m v)))"
  by (simp add: keeps_def on_dbs_def answers_kept_fixed)

lemma post_keeps_answers: "answers_kept (w_db w) (w_db (snd (post sv md key req w)))"
proof (cases "\<exists>k. key = Some k \<and> k \<noteq> []")
  case False
  then have "post sv md key req = request_work sv md req"
    by (auto simp: post_with_idempotency with_idempotency_def split: option.split list.split)
  then show ?thesis by (simp add: answers_kept_fixed keys_fixed_def work_fixed)
next
  case True
  then obtain k where k: "key = Some k" "k \<noteq> []" by blast
  note post = post_with_key [OF k(2), of sv md req]
  obtain res w' where pw: "post sv md key req w = (res, w')" by (cases "post sv md key req w")
  show ?thesis
  proof (cases "idem_at (w_db w) k")
    case (Some r)
    then show ?thesis
      using with_key_known [OF Some, of sv "request_endpoint req" "request_body md req" "request_work sv md req"]
      by (auto simp: k(1) post answers_kept_def)
  next
    case None
    have "with_key sv k (request_endpoint req) (request_body md req) (request_work sv md req) w = (res, w')"
      using pw by (simp add: k(1) post)
    from with_key_fresh [OF None work_fixed this] None pw
    show ?thesis by (auto simp: answers_kept_def idem_at_def)
  qed
qed

lemma serving_keeps_answers:
  assumes "serving_step sv md loads w w'"
  shows "answers_kept (w_db w) (w_db w')"
proof -
  have posts: "answers_kept (w_db v) (w_db (snd (post_plans sv md b key v)))"
      "answers_kept (w_db v) (w_db (snd (post_execute sv md pid r key v)))" for b key v pid r
    using post_keeps_answers [of v sv md key "PlanRequest b"] post_keeps_answers [of v sv md key "ExecuteRequest pid r"] by simp_all
  show ?thesis
    using assms
    by cases (auto simp: posts intro!: answers_kept_at_work at_work.reading_keeps at_work.run_job_keeps
      at_work.written.vibe_webhook_keeps at_work.written.sweep_keeps at_work.upload_endpoint_keeps at_work.recover_keeps)
qed

section \<open>Retrying\<close>

text \<open>A request under a key, with the replay header left out of its answer.\<close>

definition submit_post :: "'x service \<Rightarrow> model_dump \<Rightarrow> string \<times> api_request \<Rightarrow> 'x world \<Rightarrow> (exn + answer) \<times> 'x world" where
  "submit_post sv md = (\<lambda>(k, req) w.
     apfst (map_sum id plain_answer) (with_key sv k (request_endpoint req) (request_body md req) (request_work sv md req) w))"

definition post_key :: "'x service \<Rightarrow> model_dump \<Rightarrow> string \<times> api_request \<Rightarrow> string \<times> string \<times> string" where
  "post_key sv md = (\<lambda>(k, req). (k, request_endpoint req, body_digest (sv_crypto sv) (request_body md req)))"

lemma submit_post_stores:
  assumes "submit_post sv md b w = (Inr r, w')"
  shows "given_answer (w_db w') (post_key sv md b) = Some r"
proof -
  obtain k req where b: "b = (k, req)" by (cases b)
  obtain a where a: "with_key sv k (request_endpoint req) (request_body md req) (request_work sv md req) w = (Inr a, w')" "r = plain_answer a"
    using assms by (auto simp: b submit_post_def apfst_def map_prod_def split: prod.splits) (metis map_sum.simps obj_sumE sum.inject(2) sum.simps(4))
  show ?thesis
  proof (cases "idem_at (w_db w) k")
    case (Some row)
    from with_key_known [OF this, of sv "request_endpoint req" "request_body md req" "request_work sv md req"] a(1)
    obtain x where "replay row (request_endpoint req) (body_digest (sv_crypto sv) (request_body md req)) = Inr a" "w' = w\<lparr>w_ext := x\<rparr>"
      by auto
    then show ?thesis by (simp add: b post_key_def given_answer_def Some a(2))
  next
    case None
    from with_key_fresh [OF this work_fixed a(1)] obtain a0 v u t t' where f: "request_work sv md req v = (Inr a0, u)" "a = fresh_answer a0"
      "idem_at (w_db w') k = Some ((claimed_key k (request_endpoint req) (body_digest (sv_crypto sv) (request_body md req)) t)\<lparr>ik_response := Some (stored_answer a0), ik_completed_at := Some t'\<rparr>)"
      by auto
    from work_status [OF f(1)] have "an_status_code a0 \<noteq> 0" by auto
    from replay_stored [OF this] show ?thesis
      by (simp add: b post_key_def given_answer_def f a(2)) (simp add: plain_answer_def delete_update_same)
  qed
qed

lemma submit_post_replays:
  assumes "given_answer (w_db w) (post_key sv md b) = Some r"
  shows "\<exists>w'. submit_post sv md b w = (Inr r, w') \<and> (w_db w', w_queue w') = (w_db w, w_queue w)"
proof -
  obtain k req where b: "b = (k, req)" by (cases b)
  obtain row where row: "idem_at (w_db w) k = Some row"
    and ans: "map_sum id plain_answer (replay row (request_endpoint req) (body_digest (sv_crypto sv) (request_body md req))) = Inr r"
    using assms by (auto simp: b post_key_def given_answer_def split: option.splits sum.splits)
  from with_key_known [OF row, of sv "request_endpoint req" "request_body md req" "request_work sv md req"] ans
  show ?thesis by (auto simp: b submit_post_def)
qed

lemma given_answer_kept:
  assumes "answers_kept d d'" and "given_answer d k = Some r"
  shows "given_answer d' k = Some r"
proof -
  obtain key ep dg where k: "k = (key, ep, dg)" by (cases k)
  obtain row where row: "idem_at d key = Some row"
    using assms(2) by (auto simp: k given_answer_def split: option.splits)
  moreover have "is_complete row"
    using assms(2) row by (auto simp: k given_answer_def is_complete_def replay_def split: option.splits if_splits)
  ultimately have "idem_at d' key = Some row" using assms(1) by (simp add: answers_kept_def)
  then show ?thesis using assms(2) row by (simp add: k given_answer_def)
qed

interpretation http: replaying "submit_post sv md" "post_key sv md" "\<lambda>w. given_answer (w_db w)" "\<lambda>w. (w_db w, w_queue w)" "serving_step sv md loads"
  for sv :: "'x service" and md loads
proof unfold_locales
  fix w w' :: "'x world" and k r
  assume "serving_step sv md loads w w'" "given_answer (w_db w) k = Some r"
  then show "given_answer (w_db w') k = Some r" by (blast intro: given_answer_kept serving_keeps_answers)
qed (fact submit_post_stores submit_post_replays)+

lemma submit_post_eq:
  "k \<noteq> [] \<Longrightarrow> submit_post sv md (k, req) w = apfst (map_sum id plain_answer) (post sv md (Some k) req w)"
  by (simp add: submit_post_def post_with_key)


text \<open>C24: A key answers for one request only: under a key already claimed, another endpoint or another body
  is refused as a conflict, and so is the same request while its first attempt has no answer yet;
  the work is not done and the database is not touched.\<close>

theorem api_key_conflicts:
  assumes "idem_at (w_db w) k = Some r" and "k \<noteq> []"
    and "ik_endpoint r \<noteq> request_endpoint req \<or> ik_request_hash r \<noteq> body_digest (sv_crypto sv) (request_body md req) \<or> \<not> is_complete r"
  shows "\<exists>code u. post sv md (Some k) req w = (Inl (conflict code), u) \<and> w_db u = w_db w \<and> w_queue u = w_queue w \<and>
    code \<in> {''idempotency_key_reused'', ''idempotency_key_in_flight''}"
  using with_key_known [OF assms(1), of sv "request_endpoint req" "request_body md req" "request_work sv md req"] assms(3)
  by (auto simp: post_with_key [OF assms(2)] replay_def is_complete_def)

text \<open>C25: An attempt that failed gives its key back: the key table is exactly as it was before.\<close>

theorem api_failure_frees_key:
  assumes "post sv md (Some k) req w = (Inl e, w')" and "idem_at (w_db w) k = None"
  shows "t_idem (w_db w') = t_idem (w_db w)"
proof (cases k)
  case Nil
  then have "post sv md (Some k) req = request_work sv md req" by (simp add: post_with_idempotency with_idempotency_def)
  then show ?thesis using work_fixed [of sv md req w] assms(1) by simp
next
  case Cons
  then have "with_key sv k (request_endpoint req) (request_body md req) (request_work sv md req) w = (Inl e, w')"
    using assms(1) post_with_key [of k sv md req] by simp
  from with_key_fresh [OF assms(2) work_fixed this] show ?thesis by auto
qed

section \<open>Witnesses\<close>

definition done_job :: job where
  "done_job = demo_job\<lparr>j_status := JOB_SUCCEEDED\<rparr>"

definition done_world :: "idem_row list \<Rightarrow> nat world" where
  "done_world keys = \<lparr>w_db = empty_db\<lparr>t_plans := [plan_row_of demo_plan], t_jobs := [job_row_of done_job], t_idem := keys\<rparr>, w_ext = 0, w_queue = []\<rparr>"

lemma done_job_returned:
  assumes "t_plans (w_db w) = [plan_row_of demo_plan]" and "t_jobs (w_db w) = [job_row_of done_job]"
  shows "\<exists>a. request_work (demo_service 10) md (ExecuteRequest ''p1'' \<lparr>xr_confirmed = True, xr_wait = False\<rparr>) w = (Inr a, w) \<and>
    an_status_code a = 200"
proof -
  have "execute_plan (demo_service 10) ''p1'' True False w = (Inr done_job, w)"
    using assms by (simp add: execute_plan_def bind_apply in_db_def plans_get_def plan_at_def plan_row_of_def demo_plan_def jobs_get_by_plan_def
      job_row_of_def done_job_def demo_job_def demo_service_def default_settings_def)
  moreover have "j_status done_job = JOB_SUCCEEDED" by (simp add: done_job_def)
  ultimately show ?thesis by (simp add: produce_job_def bind_apply)
qed

lemma done_world_posted:
  "\<exists>a w'. post (demo_service 10) md (Some ''k'') (ExecuteRequest ''p1'' \<lparr>xr_confirmed = True, xr_wait = False\<rparr>) (done_world []) = (Inr a, w')"
proof -
  let ?req = "ExecuteRequest ''p1'' \<lparr>xr_confirmed = True, xr_wait = False\<rparr>"
  let ?sv = "demo_service 10" and ?k = "''k''"
  have none: "idem_at (w_db (done_world [])) ?k = None" by (simp add: idem_at_def done_world_def)
  obtain t x where c: "with_key ?sv ?k (request_endpoint ?req) (request_body md ?req) (request_work ?sv md ?req) (done_world []) =
     produce_once ?sv ?k (request_work ?sv md ?req) ((done_world [])\<lparr>w_ext := x, w_db := (w_db (done_world []))\<lparr>t_idem := t_idem (w_db (done_world [])) @
       [claimed_key ?k (request_endpoint ?req) (body_digest (sv_crypto ?sv) (request_body md ?req)) t]\<rparr>\<rparr>)" (is "_ = produce_once _ _ _ ?v")
    using with_key_new [OF none] by blast
  obtain a where a: "request_work ?sv md ?req ?v = (Inr a, ?v)"
    using done_job_returned [of ?v md] by (auto simp: done_world_def)
  from produce_once_done [where work = "request_work ?sv md ?req" and w = ?v, OF a, of ?sv ?k]
  show ?thesis unfolding post_with_key [of ?k ?sv md ?req, OF list.distinct(2)] c by blast
qed


definition taken_key :: idem_row where
  "taken_key = claimed_key ''k'' ''POST /api/v1/plans'' ''digest'' 0"

theorem api_key_conflicts_witness:
  "\<exists>code u. post (demo_service 10) demo_dump (Some ''k'') (ExecuteRequest ''p1'' \<lparr>xr_confirmed = True, xr_wait = False\<rparr>) (done_world [taken_key]) =
     (Inl (conflict code), u) \<and> w_db u = w_db (done_world [taken_key])"
proof -
  have at: "idem_at (w_db (done_world [taken_key])) ''k'' = Some taken_key" by (simp add: idem_at_def done_world_def taken_key_def)
  have "\<not> is_complete taken_key" by (simp add: taken_key_def)
  then have "ik_endpoint taken_key \<noteq> request_endpoint req \<or> ik_request_hash taken_key \<noteq> body_digest (sv_crypto (demo_service 10)) (request_body demo_dump req) \<or> \<not> is_complete taken_key"
    for req by simp
  from api_key_conflicts [OF at _ this] show ?thesis by blast
qed

theorem api_failure_frees_key_witness:
  "\<exists>e w'. post (demo_service 10) demo_dump (Some ''k'') (ExecuteRequest ''nope'' \<lparr>xr_confirmed = True, xr_wait = False\<rparr>) (done_world []) = (Inl e, w') \<and>
     t_idem (w_db w') = []"
proof -
  let ?req = "ExecuteRequest ''nope'' \<lparr>xr_confirmed = True, xr_wait = False\<rparr>"
  let ?sv = "demo_service 10" and ?k = "''k''" and ?w = "done_world []"
  have none: "idem_at (w_db ?w) ?k = None" and rows: "t_idem (w_db ?w) = []" by (simp_all add: idem_at_def done_world_def)
  obtain t x where c: "with_key ?sv ?k (request_endpoint ?req) (request_body demo_dump ?req) (request_work ?sv demo_dump ?req) ?w =
     produce_once ?sv ?k (request_work ?sv demo_dump ?req) (?w\<lparr>w_ext := x, w_db := (w_db ?w)\<lparr>t_idem := t_idem (w_db ?w) @
       [claimed_key ?k (request_endpoint ?req) (body_digest (sv_crypto ?sv) (request_body demo_dump ?req)) t]\<rparr>\<rparr>)" (is "_ = produce_once _ _ _ ?v")
    using with_key_new [OF none] by blast
  have "\<exists>e. request_work ?sv demo_dump ?req ?v = (Inl e, ?v)"
    by (simp add: produce_job_def execute_plan_def bind_apply in_db_def plans_get_def plan_at_def done_world_def plan_row_of_def demo_plan_def)
  then obtain e where "request_work ?sv demo_dump ?req ?v = (Inl e, ?v)" by blast
  from produce_once_failed [where work = "request_work ?sv demo_dump ?req" and w = ?v, OF this, of ?sv ?k] c
  obtain w' where p: "post ?sv demo_dump (Some ?k) ?req ?w = (Inl e, w')"
    unfolding post_with_key [of ?k ?sv demo_dump ?req, OF list.distinct(2)] c by blast
  from api_failure_frees_key [OF p none] p rows show ?thesis by auto
qed

text \<open>A claim left behind by a process that died is never purged: the purge drops completed keys only.\<close>

lemma find_filter_kept: "find P rs = Some r \<Longrightarrow> Q r \<Longrightarrow> find P (filter Q rs) = Some r"
  by (induction rs) (auto split: if_splits)

lemma unanswered_claim_survives_purge:
  "idem_at (w_db w) k = Some r \<Longrightarrow> \<not> is_complete r \<Longrightarrow> idem_at (w_db (snd (purge_at sv now w))) k = Some r"
  by (simp add: purge_at_result idem_at_def find_filter_kept)

end
