(* ===== verification/Guarantees.thy ===== *)
theory Guarantees
  imports Uploads Housekeeping Api_Keys Planner_Facts Shop
begin

text \<open>
  The guarantees of single components, stated on their own: the planner's fit to the budget, the
  parameters of a request, the retrying client, the wait for a generation, the lock on a job, and
  the store as a family of maps from keys to documents.
\<close>

section \<open>Fitting the budget\<close>

text \<open>C14: What fitting the budget keeps costs at most the spendable amount; the kept and the dropped formats
  are together exactly the analysed ones, no dropped format is more important than a kept one, every
  format keeps a candidate of its own analysis, and under the cheapest strategy the cheapest of them.\<close>

theorem fit_keeps_the_important:
  assumes "fit_to_budget p an b sp = Inr (sel, dropped, ws)" and "distinct (map fst an)" and "0 \<le> sp" and "grid_costs an"
  shows "selection_total sel \<le> sp \<and> set (map fst sel) \<union> set dropped = keys_of an \<and> set (map fst sel) \<inter> set dropped = {} \<and>
    (\<forall>x \<in> set dropped. \<forall>f \<in> set (map fst sel). (priority_of p f, f) \<le> (priority_of p x, x)) \<and>
    (\<forall>(f, c) \<in> set sel. \<exists>a. map_of an f = Some a \<and> c \<in> set (fa_candidates a) \<and> (b_strategy b = CHEAPEST \<longrightarrow> cheapest_in a c))"
proof -
  note facts = fit_to_budget_from [OF assms(1,2)]
  have "\<exists>a. map_of an f = Some a \<and> c \<in> set (fa_candidates a) \<and> (b_strategy b = CHEAPEST \<longrightarrow> cheapest_in a c)" if "(f, c) \<in> set sel" for f c
    using facts(1) fit_to_budget_cheapest [OF assms(1,2) _ that] that by (fastforce simp: selection_from_def)
  then show ?thesis using facts(2,4,5) facts(6) [OF assms(3,4)] by auto
qed

theorem fit_keeps_the_important_witness:
  "selection_total [(IMAGE, shop_candidate ''fine'' 60 0)] \<le> 95 \<and>
   set (map fst [(IMAGE, shop_candidate ''fine'' 60 0)]) \<union> set [] = keys_of [(IMAGE, shop_analysis)]"
proof -
  have "grid_costs [(IMAGE, shop_analysis)]" using on_grid_of_int [of 4 60] on_grid_of_int [of 4 10] by (simp add: grid_costs_def shop_analysis_def)
  then show ?thesis using fit_keeps_the_important [OF shop_fit] by simp
qed

section \<open>Request parameters\<close>



section \<open>Upstream calls\<close>

text \<open>C27: A retried operation runs at most the configured number of times (at least once), its result is the
  result of one of its executions, and an outcome that is not a transient upstream error is returned
  as it came, from a single execution.\<close>

theorem retries_are_bounded:
  "fst (snd (with_retry pol (counted_env env) (counted op) (0, x))) \<le> max 1 (rp_max_attempts pol) \<and>
    (\<exists>y. op y = with_retry pol env op x) \<and>
    ((\<forall>v. fst (op x) = Inl (Vibe v) \<longrightarrow> \<not> retryable v) \<longrightarrow> with_retry pol env op x = op x)"
  using with_retry_count [of pol env op x] retry_from_result [of op pol env 1 x]
    with_retry_final [of op x "fst (op x)" "snd (op x)" pol env]
  by (auto simp: with_retry_def)

theorem retries_are_bounded_witness:
  "with_retry \<lparr>rp_max_attempts = 3, rp_base_delay = 1, rp_max_delay = 8, rp_jitter = 0\<rparr> \<lparr>re_random = (\<lambda>n. (0, n)), re_sleep = (\<lambda>d n. n + 1)\<rparr>
     (\<lambda>n. (Inl (Vibe (VibeError (Msg ''no'' []))), n)) (0 :: nat) = ((Inl (Vibe (VibeError (Msg ''no'' []))) :: exn + obj), 0)"
proof -
  let ?op = "\<lambda>n :: nat. ((Inl (Vibe (VibeError (Msg ''no'' []))) :: exn + obj), n)"
  have "(\<forall>v. fst (?op 0) = Inl (Vibe v) \<longrightarrow> \<not> retryable v)" by simp
  with retries_are_bounded [of "\<lparr>rp_max_attempts = 3, rp_base_delay = 1, rp_max_delay = 8, rp_jitter = 0\<rparr>"
    "\<lparr>re_random = (\<lambda>n. (0, n)), re_sleep = (\<lambda>d n. n + 1)\<rparr>" ?op 0] show ?thesis by blast
qed

text \<open>Waiting for a generation always comes back: with a payload in a terminal status, or with an error of
  the upstream client (its timeout among them); it never hangs.\<close>

theorem waiting_ends:
  assumes "0 < hc_poll_interval cfg" and "0 \<le> interval"
  shows "case fst (http_wait_for_generation cfg tr g interval timeout x) of
      Inr payload \<Rightarrow> status_of payload \<in> set TERMINAL_STATUSES | Inl e \<Rightarrow> \<exists>v. e = Vibe v"
proof -
  obtain r y where r: "http_wait_for_generation cfg tr g interval timeout x = (r, y)" by fastforce
  from http_wait_result [OF assms r] r show ?thesis by simp
qed

definition silent :: "nat transport" where
  "silent = \<lparr>tr_request = (\<lambda>m p b n. (HttpTimeout ''late'', n + 1)), tr_upload = (\<lambda>f c t n. (HttpTimeout ''late'', n + 1)),
     tr_now = (\<lambda>n. (of_nat n, n)), tr_uuid = (\<lambda>n. (''u'', n)), tr_retry = \<lparr>re_random = (\<lambda>n. (0, n)), re_sleep = (\<lambda>d n. n + 1)\<rparr>\<rparr>"

theorem waiting_ends_witness:
  "case fst (http_wait_for_generation \<lparr>hc_retry = \<lparr>rp_max_attempts = 1, rp_base_delay = 1, rp_max_delay = 8, rp_jitter = 0\<rparr>,
       hc_poll_interval = 10, hc_poll_timeout = 60\<rparr> silent (Some 7) 0 0 0) of
     Inr payload \<Rightarrow> status_of payload \<in> set TERMINAL_STATUSES | Inl e \<Rightarrow> \<exists>v. e = Vibe v"
  by (rule waiting_ends) simp_all

section \<open>The lock on a job\<close>

text \<open>C13: However many workers, requests and recoveries try to start jobs, in whatever order, at most one of
  them gets to run a queued job.\<close>

theorem job_claimed_at_most_once:
  assumes "db_ok d" and "run_claims try_execute attempts d = (granted, d')"
  shows "length (filter (\<lambda>(a, g). fst a = jid \<and> g) (zip attempts granted)) \<le> 1"
  using execution.at_most_one [OF assms] by simp

theorem job_claimed_at_most_once_witness:
  "\<exists>granted d'. run_claims try_execute [(''j1'', 5 :: time), (''j1'', 6), (''j2'', 7)] demo_db = (granted, d') \<and>
     length (filter (\<lambda>(a, g). fst a = ''j1'' \<and> g) (zip [(''j1'', 5 :: time), (''j1'', 6), (''j2'', 7)] granted)) \<le> 1"
proof -
  obtain granted d' where r: "run_claims try_execute [(''j1'', 5 :: time), (''j1'', 6), (''j2'', 7)] demo_db = (granted, d')" by fastforce
  with job_claimed_at_most_once [OF demo_db_ok r, of "''j1''"] show ?thesis by blast
qed

section \<open>The store as maps\<close>

definition freed :: "idem_row option \<Rightarrow> idem_row option" where
  "freed r = (case r of Some x \<Rightarrow> if is_complete x then Some x else None | None \<Rightarrow> None)"

lemma idem_at_claim: "idem_at (snd (idem_claim k ep dg now d)) =
    (if idem_at d k = None then (idem_at d)(k \<mapsto> claimed_key k ep dg now) else idem_at d)"
proof (cases "idem_at d k")
  case None
  then have "find (\<lambda>r. ik_key r = k') (t_idem d @ [claimed_key k ep dg now]) =
      (if k' = k then Some (claimed_key k ep dg now) else find (\<lambda>r. ik_key r = k') (t_idem d))" for k'
    by (auto simp: idem_at_def find_append split: option.split)
  with None show ?thesis by (simp add: idem_claim_def fun_eq_iff) (simp add: idem_at_def claimed_key_def)
qed (simp add: idem_claim_def)

lemma idem_at_release:
  assumes "distinct (map ik_key (t_idem d))"
  shows "idem_at (snd (idem_release k d)) = (idem_at d)(k := freed (idem_at d k))"
proof -
  have at: "idem_at (snd (idem_release k d)) k' =
      (case idem_at d k' of None \<Rightarrow> None | Some r \<Rightarrow> if ik_key r = k \<and> \<not> is_complete r then None else Some r)" for k'
    by (simp add: idem_at_def idem_release_def sql_delete_def find_filter_distinct [OF assms] split: option.split)
  have key: "idem_at d k' = Some r \<Longrightarrow> ik_key r = k'" for k' r
    using find_in [of "\<lambda>r. ik_key r = k'" "t_idem d"] by (simp add: idem_at_def)
  have "idem_at (snd (idem_release k d)) k' = ((idem_at d)(k := freed (idem_at d k))) k'" for k'
  proof (cases "idem_at d k'")
    case (Some r)
    then show ?thesis using key [OF Some] by (cases "k' = k") (simp_all add: at freed_def)
  qed (cases "k' = k"; simp add: at freed_def)
  then show ?thesis by blast
qed

lemma step_at_claim:
  "claim_step h pid sid jid key body now d = (Inr r, d') \<Longrightarrow>
     (\<lambda>(p, s). step_at d' p s) = (\<lambda>(p, s). step_at d p s)((pid, sid) \<mapsto> r)"
proof (cases "step_at d pid sid")
  case None
  assume c: "claim_step h pid sid jid key body now d = (Inr r, d')"
  let ?row = "new_step_row h pid sid jid key body now"
  have d': "r = ?row" "d' = d\<lparr>t_steps := t_steps d @ [?row]\<rparr>" using c by (auto simp: claim_step_new [OF None] split: if_splits)
  have "step_at d' p s = (if (p, s) = (pid, sid) then Some ?row else step_at d p s)" for p s
    using None by (auto simp: d' step_at_def find_append new_step_row_def split: option.split)
  then show ?thesis by (auto simp: fun_eq_iff d'(1))
next
  case (Some r0)
  assume "claim_step h pid sid jid key body now d = (Inr r, d')"
  then have "r = r0" "d' = d" by (simp_all add: claim_step_repeat [OF Some] split: if_splits)
  then show ?thesis using Some by (simp add: fun_upd_idem)
qed



end
