(* ===== verification/Metrics.thy ===== *)
theory Metrics
  imports Queue Demo_Run
begin

text \<open>
  The spend dashboard (\<open>app/api/routers/metrics.py\<close>) over the aggregates of the database, and the
  health answer (\<open>app/api/routers/health.py\<close>). Whether OpenTelemetry is installed, and the name of its
  provider's class, belong to that library and are a parameter.
\<close>

definition VERSION :: string where
  "VERSION = ''0.1.0''"

text \<open>\<open>tracing_status\<close> of \<open>app/core/tracing.py\<close>: \<open>None\<close> when the packages are not installed\<close>

definition tracing_status :: "string option \<Rightarrow> string" where
  "tracing_status provider = (case provider of None \<Rightarrow> ''disabled''
     | Some name \<Rightarrow> if name = ''ProxyTracerProvider'' then ''available'' else ''otel'')"

section \<open>Rendering\<close>

definition NL :: char where
  "NL = CHR 0x0A"

definition escape_label :: "string \<Rightarrow> string" where
  "escape_label v = py_replace1 NL '' '' (py_replace1 (CHR 0x22) [CHR 0x5C, CHR 0x22] (py_replace1 (CHR 0x5C) [CHR 0x5C, CHR 0x5C] v))"

definition fixed4 :: "rat \<Rightarrow> string" where
  "fixed4 x = (let n = nat (round_half_even (\<bar>x\<bar> * 10000)) in
     (if x < 0 then ''-'' else []) @ show_nat (n div 10000) @ ''.''
       @ [char_of (48 + (n div 1000) mod 10), char_of (48 + (n div 100) mod 10), char_of (48 + (n div 10) mod 10), char_of (48 + n mod 10)])"

definition show_number :: "rat \<Rightarrow> string" where
  "show_number v = (if of_int \<lfloor>v\<rfloor> = v then show_int \<lfloor>v\<rfloor> else fixed4 v)"

type_synonym labels = "(string \<times> string) list"

definition render_labels :: "labels \<Rightarrow> string" where
  "render_labels labels = py_join '','' (map (\<lambda>(k, v). k @ [CHR ''='', CHR 0x22] @ escape_label v @ [CHR 0x22]) (sort_key fst labels))"

definition sample_line :: "string \<Rightarrow> labels \<times> rat \<Rightarrow> string" where
  "sample_line name s = (let rendered = render_labels (fst s) in
     name @ (if rendered = [] then [] else ''{'' @ rendered @ ''}'') @ '' '' @ show_number (snd s))"

text \<open>What \<open>_family\<close> appends\<close>

definition family_lines :: "string \<times> string \<times> string \<times> (labels \<times> rat) list \<Rightarrow> string list" where
  "family_lines = (\<lambda>(name, kind, help, samples).
     [''# HELP '' @ name @ '' '' @ help, ''# TYPE '' @ name @ '' '' @ kind] @ map (sample_line name) samples)"

definition by_status :: "(string, nat) dict \<Rightarrow> string list \<Rightarrow> (labels \<times> rat) list" where
  "by_status counts statuses = map (\<lambda>s. ([(''status'', s)],
     of_nat (case map_of counts s of Some n \<Rightarrow> n | None \<Rightarrow> 0))) statuses"

definition PLAN_STATUSES :: "plan_status list" where
  "PLAN_STATUSES = [PLAN_READY, PLAN_DEGRADED, PLAN_INFEASIBLE, PLAN_EXECUTED]"

definition JOB_STATUSES :: "job_status list" where
  "JOB_STATUSES = [JOB_PENDING, JOB_QUEUED, JOB_RUNNING, JOB_SUCCEEDED, JOB_PARTIAL, JOB_FAILED, JOB_ABORTED]"

definition STEP_STATUSES :: "step_status list" where
  "STEP_STATUSES = [STEP_PENDING, STEP_RUNNING, STEP_SUCCEEDED, STEP_FAILED, STEP_SKIPPED]"

definition metric_families :: "metrics_snapshot \<Rightarrow> string \<Rightarrow> string \<Rightarrow> nat \<Rightarrow> nat \<Rightarrow> (string \<times> string \<times> string \<times> (labels \<times> rat) list) list" where
  "metric_families m mode tracing depth workers = [
     (''vibe_app_info'', ''gauge'', bytes [208, 160, 208, 181, 208, 182, 208, 184, 208, 188, 32, 208, 184, 32, 208, 178, 208, 181, 209, 128, 209, 129, 208, 184, 209, 143, 32, 208, 191, 209, 128, 208, 190, 209, 134, 208, 181, 209, 129, 209, 129, 208, 176] @ ''.'',
        [([(''mode'', mode), (''version'', VERSION), (''tracing'', tracing)], 1)]),
     (''vibe_plan_estimated_rub_total'', ''counter'', bytes [208, 161, 209, 131, 208, 188, 208, 188, 208, 176, 32, 208, 191, 208, 187, 208, 176, 208, 189, 208, 190, 208, 178, 208, 190, 208, 185, 32, 209, 129, 209, 130, 208, 190, 208, 184, 208, 188, 208, 190, 209, 129, 209, 130, 208, 184, 32, 208, 178, 209, 129, 208, 181, 209, 133, 32, 208, 191, 208, 190, 209, 129, 209, 130, 209, 128, 208, 190, 208, 181, 208, 189, 208, 189, 209, 139, 209, 133, 32, 208, 191, 208, 187, 208, 176, 208, 189, 208, 190, 208, 178] @ '', '' @ bytes [226, 130, 189] @ ''.'',
        [([], ms_plan_estimated_rub m)]),
     (''vibe_job_estimated_rub_total'', ''counter'', bytes [208, 161, 209, 131, 208, 188, 208, 188, 208, 176, 32, 208, 191, 208, 187, 208, 176, 208, 189, 208, 190, 208, 178, 208, 190, 208, 185, 32, 209, 129, 209, 130, 208, 190, 208, 184, 208, 188, 208, 190, 209, 129, 209, 130, 208, 184, 32, 208, 178, 209, 129, 208, 181, 209, 133, 32, 208, 183, 208, 176, 208, 180, 208, 176, 208, 189, 208, 184, 208, 185] @ '', '' @ bytes [226, 130, 189] @ ''.'',
        [([], ms_job_estimated_rub m)]),
     (''vibe_job_actual_rub_total'', ''counter'', bytes [208, 161, 209, 131, 208, 188, 208, 188, 208, 176, 32, 209, 132, 208, 176, 208, 186, 209, 130, 208, 184, 209, 135, 208, 181, 209, 129, 208, 186, 208, 184, 32, 209, 129, 208, 191, 208, 184, 209, 129, 208, 176, 208, 189, 208, 189, 208, 190, 208, 179, 208, 190, 32, 208, 191, 208, 190, 32, 208, 178, 209, 129, 208, 181, 208, 188, 32, 208, 183, 208, 176, 208, 180, 208, 176, 208, 189, 208, 184, 209, 143, 208, 188] @ '', '' @ bytes [226, 130, 189] @ ''.'',
        [([], ms_job_actual_rub m)]),
     (''vibe_refunded_steps_total'', ''counter'', bytes [208, 168, 208, 176, 208, 179, 208, 184] @ '', '' @ bytes [208, 180, 208, 181, 208, 189, 209, 140, 208, 179, 208, 184, 32, 208, 183, 208, 176, 32, 208, 186, 208, 190, 209, 130, 208, 190, 209, 128, 209, 139, 208, 181, 32, 208, 178, 208, 181, 209, 128, 208, 189, 209, 131, 208, 187, 208, 176, 32, 208, 191, 208, 187, 208, 176, 209, 130, 209, 132, 208, 190, 209, 128, 208, 188, 208, 176] @ ''.'',
        [([], of_nat (ms_refunded_steps m))]),
     (''vibe_plans_total'', ''counter'', bytes [208, 159, 208, 187, 208, 176, 208, 189, 209, 139, 32, 208, 191, 208, 190, 32, 209, 129, 209, 130, 208, 176, 209, 130, 209, 131, 209, 129, 208, 176, 208, 188] @ ''.'',
        by_status (ms_plans_by_status m) (map plan_status_value PLAN_STATUSES)),
     (''vibe_jobs_total'', ''counter'', bytes [208, 151, 208, 176, 208, 180, 208, 176, 208, 189, 208, 184, 209, 143, 32, 208, 191, 208, 190, 32, 209, 129, 209, 130, 208, 176, 209, 130, 209, 131, 209, 129, 208, 176, 208, 188] @ ''; aborted '' @ bytes [226, 128, 148, 32, 208, 190, 209, 129, 209, 130, 208, 176, 208, 189, 208, 190, 208, 178, 208, 187, 208, 181, 208, 189, 208, 189, 209, 139, 208, 181, 32, 208, 177, 209, 142, 208, 180, 208, 182, 208, 181, 209, 130, 208, 189, 209, 139, 208, 188, 32, 208, 179, 208, 176, 209, 128, 208, 180, 208, 190, 208, 188, 32, 208, 180, 208, 190, 32, 209, 129, 208, 191, 208, 184, 209, 129, 208, 176, 208, 189, 208, 184, 209, 143] @ ''.'',
        by_status (ms_jobs_by_status m) (map job_status_value JOB_STATUSES)),
     (''vibe_steps_total'', ''counter'', bytes [208, 168, 208, 176, 208, 179, 208, 184, 32, 208, 178, 32] @ ''ledger '' @ bytes [208, 191, 208, 190, 32, 209, 129, 209, 130, 208, 176, 209, 130, 209, 131, 209, 129, 208, 176, 208, 188] @ ''.'',
        by_status (ms_steps_by_status m) (map step_status_value STEP_STATUSES)),
     (''vibe_queue_depth'', ''gauge'', bytes [208, 151, 208, 176, 208, 180, 208, 176, 208, 189, 208, 184, 209, 143] @ '', '' @ bytes [208, 182, 208, 180, 209, 131, 209, 137, 208, 184, 208, 181, 32, 208, 178, 208, 190, 209, 128, 208, 186, 208, 181, 209, 128, 208, 176] @ ''.'',
        [([], of_nat depth)]),
     (''vibe_executor_workers'', ''gauge'', bytes [208, 160, 208, 176, 208, 183, 208, 188, 208, 181, 209, 128, 32, 208, 191, 209, 131, 208, 187, 208, 176, 32, 208, 178, 208, 190, 209, 128, 208, 186, 208, 181, 209, 128, 208, 190, 208, 178] @ ''.'',
        [([], of_nat workers)]),
     (''vibe_idempotency_keys_total'', ''gauge'', bytes [208, 161, 208, 190, 209, 133, 209, 128, 208, 176, 208, 189, 209, 145, 208, 189, 208, 189, 209, 139, 208, 181, 32, 208, 186, 208, 187, 209, 142, 209, 135, 208, 184, 32, 208, 191, 208, 190, 208, 178, 209, 130, 208, 190, 209, 128, 208, 176] @ ''; '' @ bytes [209, 135, 208, 184, 209, 129, 209, 130, 209, 143, 209, 130, 209, 129, 209, 143, 32, 208, 191, 208, 190, 32] @ ''IDEMPOTENCY_TTL_HOURS.'',
        [([], of_nat (ms_idempotency_keys m))]),
     (''vibe_media_uploads_total'', ''gauge'', bytes [208, 150, 208, 184, 208, 178, 209, 139, 208, 181, 32, 208, 183, 208, 176, 208, 179, 209, 128, 209, 131, 208, 182, 208, 181, 208, 189, 208, 189, 209, 139, 208, 181, 32, 209, 132, 208, 176, 208, 185, 208, 187, 209, 139] @ ''; '' @ bytes [208, 191, 209, 128, 208, 190, 209, 130, 209, 131, 209, 133, 209, 136, 208, 184, 208, 181, 32, 209, 129, 209, 129, 209, 139, 208, 187, 208, 186, 208, 184, 32, 209, 131, 208, 180, 208, 176, 208, 187, 209, 143, 209, 142, 209, 130, 209, 129, 209, 143] @ ''.'',
        [([], of_nat (ms_media_uploads m))]),
     (''vibe_webhook_events_total'', ''counter'', bytes [208, 159, 209, 128, 208, 184, 208, 189, 209, 143, 209, 130, 209, 139, 208, 181, 32, 208, 178, 208, 181, 208, 177, 209, 133, 209, 131, 208, 186, 208, 184, 32, 209, 129, 32, 208, 191, 208, 190, 208, 180, 209, 130, 208, 178, 208, 181, 209, 128, 208, 182, 208, 180, 209, 145, 208, 189, 208, 189, 208, 190, 208, 185, 32, 208, 191, 208, 190, 208, 180, 208, 191, 208, 184, 209, 129, 209, 140, 209, 142] @ ''.'',
        [([], of_nat (ms_webhook_events m))])]"

definition render_metrics :: "metrics_snapshot \<Rightarrow> string \<Rightarrow> string \<Rightarrow> nat \<Rightarrow> nat \<Rightarrow> string" where
  "render_metrics m mode tracing depth workers =
     py_join [NL] (concat (map family_lines (metric_families m mode tracing depth workers))) @ [NL]"

definition metrics_endpoint :: "settings \<Rightarrow> string option \<Rightarrow> queue option \<Rightarrow> ('x, string) serv" where
  "metrics_endpoint st provider q = bind (in_db metrics_snapshot_of) (\<lambda>m. ret
     (render_metrics m (app_mode_value (app_mode st)) (tracing_status provider)
        (case q of Some x \<Rightarrow> queue_depth x | None \<Rightarrow> 0) (case q of Some x \<Rightarrow> qu_concurrency x | None \<Rightarrow> 0)))"

section \<open>Health\<close>

record health_response =
  hr_status :: string
  hr_mode :: string
  hr_version :: string
  hr_database :: string
  hr_upstream :: string
  hr_live_spending_enabled :: bool
  hr_queue_depth :: nat
  hr_executor_workers :: nat
  hr_tracing :: string

text \<open>\<open>db_error\<close>: the name of the exception \<open>SELECT 1\<close> raised, if it raised\<close>

definition health :: "settings \<Rightarrow> string option \<Rightarrow> string option \<Rightarrow> queue option \<Rightarrow> health_response" where
  "health st db_error provider q =
     (let db_status = (case db_error of None \<Rightarrow> ''ok'' | Some e \<Rightarrow> ''error: '' @ e) in
      \<lparr>hr_status = (if db_status = ''ok'' then ''ok'' else ''degraded''), hr_mode = app_mode_value (app_mode st), hr_version = VERSION,
       hr_database = db_status,
       hr_upstream = (if app_mode st = MOCK then ''mock ('' @ bytes [209, 129, 208, 181, 209, 130, 209, 140, 32, 208, 189, 208, 181, 32, 208, 184, 209, 129, 208, 191, 208, 190, 208, 187, 209, 140, 208, 183, 209, 131, 208, 181, 209, 130, 209, 129, 209, 143] @ '')'' else vibe_base_url st),
       hr_live_spending_enabled = allows_spending (app_mode st),
       hr_queue_depth = (case q of Some x \<Rightarrow> queue_depth x | None \<Rightarrow> 0),
       hr_executor_workers = (case q of Some x \<Rightarrow> qu_concurrency x | None \<Rightarrow> 0), hr_tracing = tracing_status provider\<rparr>)"

section \<open>The numbers are those of the database\<close>

lemma map_of_group_count: "map_of (group_count xs) s = (if s \<in> set xs then Some (count_list xs s) else None)"
proof -
  have "map_of (map (\<lambda>s. (s, count_list xs s)) ys) s = (if s \<in> set ys then Some (count_list xs s) else None)" for ys
    by (induction ys) auto
  then show ?thesis by (simp add: group_count_def)
qed

lemma count_or_zero: "(case map_of (group_count xs) s of Some n \<Rightarrow> n | None \<Rightarrow> 0) = count_list xs s"
  by (simp add: map_of_group_count count_list_0_iff)

lemma count_list_inj: "inj f \<Longrightarrow> count_list (map (\<lambda>r. f (g r)) rs) (f x) = length (filter (\<lambda>r. g r = x) rs)"
  by (induction rs) (auto dest: injD)

lemma status_values_inj: "inj job_status_value" "inj step_status_value" "inj plan_status_value"
proof -
  have "job_status_value a = job_status_value b \<Longrightarrow> a = b" for a b by (cases a; cases b) simp_all
  then show "inj job_status_value" by (rule injI)
  have "step_status_value a = step_status_value b \<Longrightarrow> a = b" for a b by (cases a; cases b) simp_all
  then show "inj step_status_value" by (rule injI)
  have "plan_status_value a = plan_status_value b \<Longrightarrow> a = b" for a b by (cases a; cases b) simp_all
  then show "inj plan_status_value" by (rule injI)
qed

lemma by_status_counts:
  "inj f \<Longrightarrow> by_status (group_count (map (f \<circ> g) rs)) (map f statuses) =
     map (\<lambda>st. ([(''status'', f st)], of_nat (length (filter (\<lambda>r. g r = st) rs)))) statuses"
  by (simp add: by_status_def count_or_zero comp_def count_list_inj)

lemma all_statuses: "s \<in> set JOB_STATUSES" "t \<in> set STEP_STATUSES" "u \<in> set PLAN_STATUSES"
proof -
  show "s \<in> set JOB_STATUSES" by (cases s) (simp_all add: JOB_STATUSES_def)
  show "t \<in> set STEP_STATUSES" by (cases t) (simp_all add: STEP_STATUSES_def)
  show "u \<in> set PLAN_STATUSES" by (cases u) (simp_all add: PLAN_STATUSES_def)
qed

lemma family_line: "(name, kind, help, samples) \<in> set fs \<Longrightarrow> x \<in> set samples \<Longrightarrow> sample_line name x \<in> set (concat (map family_lines fs))"
proof -
  assume f: "(name, kind, help, samples) \<in> set fs" and x: "x \<in> set samples"
  have "sample_line name x \<in> set (family_lines (name, kind, help, samples))" using x by (simp add: family_lines_def)
  with f show ?thesis unfolding set_concat set_map by blast
qed


section \<open>Labels\<close>

text \<open>A reader of a quoted label value: it stops at the first quote that is not escaped.\<close>

fun read_label :: "string \<Rightarrow> string \<times> string" where
  "read_label [] = ([], [])"
| "read_label (c # cs) =
     (if c = CHR 0x22 then ([], cs)
      else if c = CHR 0x5C then (case cs of [] \<Rightarrow> ([], []) | d # ds \<Rightarrow> apfst (Cons d) (read_label ds))
      else apfst (Cons c) (read_label cs))"

lemma escape_label_Nil: "escape_label [] = []"
  by (simp add: escape_label_def)

lemma escape_label_Cons:
  "escape_label (c # cs) = (if c = CHR 0x5C then [CHR 0x5C, CHR 0x5C] else if c = CHR 0x22 then [CHR 0x5C, CHR 0x22]
     else if c = NL then '' '' else [c]) @ escape_label cs"
  by (simp add: escape_label_def NL_def)

text \<open>No label value can break out of its quotes: whatever the value, reading the rendered label gives the
  value back (a line break as a space) and stops exactly at the closing quote.\<close>

theorem label_roundtrip:
  "read_label (escape_label v @ CHR 0x22 # rest) = (map (\<lambda>c. if c = NL then CHR '' '' else c) v, rest)"
  by (induction v) (simp_all add: escape_label_Nil escape_label_Cons NL_def)

end
