(* ===== verification/Campaign.thy ===== *)
theory Campaign
  imports Running System
begin

text \<open>
  A campaign from the brief to the report: \<open>create_plan\<close>, \<open>execute_plan\<close> and \<open>run_job\<close> of
  \<open>app/services/plan_service.py\<close> in the order a client uses them. Between two of them the service may
  do anything that leaves this plan, its jobs and its ledger rows alone.
\<close>

section \<open>Planning leaves the rest alone\<close>

definition plans_only :: "db \<Rightarrow> db \<Rightarrow> bool" where
  "plans_only d d' \<longleftrightarrow> (db_ok d \<longrightarrow> db_ok d') \<and> t_jobs d' = t_jobs d \<and> t_steps d' = t_steps d"

interpretation plans_only: planning_relation "on_dbs plans_only" sv for sv :: "'x service"
proof -
  have saved: "db_ok d \<Longrightarrow> db_ok (snd (plans_save p d))" "t_jobs (snd (plans_save p d)) = t_jobs d"
    "t_steps (snd (plans_save p d)) = t_steps d" for p d
    using plans_save_ok [of p] by (auto simp: keeps_def ok_step_def plans_save_def)
  show "planning_relation (on_dbs plans_only) sv"
    by unfold_locales (auto simp: saved clock_def fresh_uuid_def on_dbs_def plans_only_def
      keeps_def in_ext_def in_db_def Let_def case_prod_beta)
qed

lemma create_plan_leaves:
  assumes "create_plan sv b w = (Inr p, w')" and "db_ok (w_db w)"
  shows "db_ok (w_db w')" "t_jobs (w_db w') = t_jobs (w_db w)" "t_steps (w_db w') = t_steps (w_db w)"
proof -
  have "on_dbs plans_only w w'" using plans_only.create_plan_keeps assms(1) by (rule keepsD)
  then show "db_ok (w_db w')" "t_jobs (w_db w') = t_jobs (w_db w)" "t_steps (w_db w') = t_steps (w_db w)"
    using assms(2) by (simp_all add: on_dbs_def plans_only_def)
qed

section \<open>The prices of a created plan\<close>

lemma created_plan_prices:
  assumes "create_plan sv b w = (Inr p, w')" and "distinct (b_formats b)" and "quoting_client (sv_client sv)" and "t \<in> set (p_steps p)"
  shows "0 \<le> ps_estimated_cost_rub t \<and> on_grid 4 (ps_estimated_cost_rub t)"
proof -
  obtain payload ov draft priced where src: "drawn_from sv b p payload ov draft priced"
    using assms(1) by (rule create_plan_source)
  let ?kept = "fst (drop_until_affordable (sv_policy sv) (p_spendable_rub p) priced)"
  have zero: "on_grid 4 (0 :: rat)" using on_grid_of_int [of 4 0] by simp
  have build: "build (sv_crypto sv) (parse_capabilities payload) (sv_policy sv) b (p_plan_id p) (p_spendable_rub p) ov = Inr draft"
    and kept: "priced_from sv (d_steps draft) ?kept"
    and steps: "p_steps p = fst (ensure_text (sv_crypto sv) b (p_plan_id p) ?kept)"
    using src by (auto simp: drawn_from_def intro: priced_from_subseq [OF _ drop_until_affordable_subseq])
  show ?thesis
  proof (cases "t \<in> set ?kept")
    case True
    with kept obtain s where s: "s \<in> set (d_steps draft)" "repriced sv s t" by (rule priced_from_in)
    show ?thesis
    proof (cases "ps_kind s = LOCAL")
      case True
      then have "s = local_step (sv_crypto sv) b TEXT (p_plan_id p)"
        using build_facts(5) [OF build assms(2) s(1)] by (auto simp: to_step_def Let_def)
      with s(2) True show ?thesis by (simp add: repriced_def local_step_def zero)
    next
      case False
      with s(2) assms(3) show ?thesis
        unfolding repriced_def estimated_def quoting_client_def gives_def by (metis (no_types, lifting))
    qed
  next
    case False
    then have "t = local_text_step (sv_crypto sv) b (p_plan_id p)"
      using assms(4) steps by (auto simp: ensure_text_def split: if_splits)
    then show ?thesis by (simp add: zero)
  qed
qed

section \<open>What the rest of the service may do\<close>

definition undisturbed :: "string \<Rightarrow> 'x world \<Rightarrow> 'x world \<Rightarrow> bool" where
  "undisturbed pid w w' \<longleftrightarrow>
     (db_ok (w_db w) \<longrightarrow> db_ok (w_db w')) \<and> plan_at (w_db w') pid = plan_at (w_db w) pid \<and>
     filter (\<lambda>r. jr_plan_id r = pid) (t_jobs (w_db w')) = filter (\<lambda>r. jr_plan_id r = pid) (t_jobs (w_db w)) \<and>
     (\<forall>sid. step_at (w_db w') pid sid = step_at (w_db w) pid sid)"

lemma job_of_plan:
  assumes "db_ok d" and "r \<in> set (filter (\<lambda>r. jr_plan_id r = pid) (t_jobs d))"
  shows "job_at d (jr_job_id r) = Some (jr_document r)"
proof -
  have "distinct (map jr_job_id (t_jobs d))" using assms(1) by (simp add: db_ok_def jobs_ok_def)
  moreover have "r \<in> set (t_jobs d)" using assms(2) by simp
  moreover have "find (\<lambda>x. jr_job_id x = jr_job_id r) rs = Some r" if "distinct (map jr_job_id rs)" "r \<in> set rs" for rs
    using that by (induction rs) (auto simp: rev_image_eqI)
  ultimately show ?thesis by (simp add: job_at_def)
qed

lemma undisturbed_unlaunched:
  "undisturbed (p_plan_id p) w w' \<Longrightarrow> unlaunched (w_db w') p ps = unlaunched (w_db w) p ps"
  by (simp add: undisturbed_def unlaunched_def)

section \<open>From the brief to the report\<close>

lemma admitted_job:
  assumes "execute_plan sv (p_plan_id p) True False w = (Inr j, w')" and "sv_has_queue sv" and "db_ok (w_db w)"
    and "plan_at (w_db w) (p_plan_id p) = Some p" and none: "filter (\<lambda>r. jr_plan_id r = p_plan_id p) (t_jobs (w_db w)) = []"
    and new: "\<And>jid u. fresh_uuid sv w = (Inr jid, u) \<Longrightarrow> job_at (w_db w) jid = None"
  obtains now where "j = (new_job (j_job_id j) now p)\<lparr>j_status := JOB_QUEUED\<rparr>"
    and "filter (\<lambda>r. jr_plan_id r = p_plan_id p) (t_jobs (w_db w')) = [job_row_of j]"
    and "plan_at (w_db w') (p_plan_id p) = Some (p\<lparr>p_job_id := Some (j_job_id j)\<rparr>)"
    and "t_steps (w_db w') = t_steps (w_db w)" and "db_ok (w_db w')"
proof -
  have "jobs_get_by_plan (p_plan_id p) (w_db w) = (Inr None, w_db w)" using none by (simp add: jobs_get_by_plan_def)
  then have "bind (admit sv p) (\<lambda>j. andthen (enqueue (j_job_id j)) (ret j)) w = (Inr j, w')"
    using assms(1,2,4) by (auto simp: execute_plan_def plans_get_def in_db_def [of "jobs_get_by_plan (p_plan_id p)"] Let_def split: if_splits)
  then obtain v where v: "admit sv p w = (Inr j, v)" and w': "w' = v\<lparr>w_queue := w_queue v @ [j_job_id j]\<rparr>"
    by (auto simp: bind_eq_Inr andthen_eq_Inr enqueue_def)
  from v obtain jid now u where a: "j = (new_job jid now p)\<lparr>j_status := JOB_QUEUED\<rparr>" "fresh_uuid sv w = (Inr jid, u)"
    "t_jobs (w_db v) = upsert jr_job_id (\<lambda>r. r\<lparr>jr_status := j_status j, jr_document := j\<rparr>) (job_row_of j) (t_jobs (w_db w))"
    "t_plans (w_db v) = t_plans (snd (plans_save (p\<lparr>p_job_id := Some jid\<rparr>) (w_db w)))"
    by (rule admit_result)
  have id: "j_job_id j = jid" "j_plan_id j = p_plan_id p" using a(1) by (simp_all add: new_job_def)
  have "jid \<notin> set (map jr_job_id (t_jobs (w_db w)))" using new [OF a(2)] by (auto simp: job_at_def find_None_iff)
  then have jobs: "t_jobs (w_db v) = t_jobs (w_db w) @ [job_row_of j]"
    using upsert_new [of jr_job_id "job_row_of j"] a(3) id by (simp add: job_row_of_def)
  show thesis
  proof (rule that)
    show "j = (new_job (j_job_id j) now p)\<lparr>j_status := JOB_QUEUED\<rparr>" using a(1) id(1) by simp
    show "filter (\<lambda>r. jr_plan_id r = p_plan_id p) (t_jobs (w_db w')) = [job_row_of j]"
      using none id by (simp add: w' jobs) (simp add: job_row_of_def)
    show "plan_at (w_db w') (p_plan_id p) = Some (p\<lparr>p_job_id := Some (j_job_id j)\<rparr>)"
      using id(1) by (simp add: w' plan_at_def a(4) plans_save_def find_upsert plan_row_of_def split: option.splits)
    show "t_steps (w_db w') = t_steps (w_db w)"
      using keepsD [OF same_steps.admit_keeps v] by (simp add: same_steps_def w')
    have "on_dbs ok_step w v" using service_ok.admit_keeps v by (rule keepsD)
    then show "db_ok (w_db w')" using assms(3) by (simp add: on_dbs_def ok_step_def w')
  qed
qed


section \<open>A witness\<close>

lemma shop_plan:
  obtains p w t where "create_plan shop shop_brief shop_world = (Inr p, w)" and "p_steps p = [t]" and "ps_kind t = GENERATION"
    and "ps_type t = Some ''image''" and "ps_estimated_cost_rub t = 10" and "p_status p = PLAN_READY" and "p_budget_rub p = 100"
    and "w = \<lparr>w_db = empty_db\<lparr>t_plans := [plan_row_of p]\<rparr>, w_ext = 2, w_queue = []\<rparr>"
proof -
  let ?w = "shop_world\<lparr>w_ext := Suc 0\<rparr>" and ?pid = "CHR ''i'' # CHR ''d'' # show_nat 0"
  let ?s = "to_step demo_crypto IMAGE (shop_candidate ''fine'' 60 0) shop_analysis ?pid"
  obtain acc where acc: "account_snapshot shop ?w = (Inr (acc, []), ?w)" using shop_account by blast
  obtain t acc' where t: "price_steps shop [?s] acc ?w = (Inr ([t], [], acc'), ?w)" and c: "ps_estimated_cost_rub t = 10" "same_request ?s t"
    using shop_price [of ?s acc ?w] by auto
  have total: "steps_estimated_cost [t] = 10" by (simp add: steps_estimated_cost_def c(1))
  have re: "replan_with_exact_prices shop shop_caps shop_brief [t] ?pid 95 acc' ?w = (Inr ([t], [], acc'), ?w)"
    by (simp add: replan_with_exact_prices_def total)
  have dr: "drop_until_affordable demo_policy 95 [t] = ([t], [])" by (simp add: drop_until_affordable_id total)
  have en: "ensure_text demo_crypto shop_brief ?pid [t] = ([t], [])" by (simp add: ensure_text_def)
  have m: "ps_kind t = GENERATION" "ps_type t = Some ''image''" using c(2) by (simp_all add: same_request_def to_step_def Let_def)
  have w0: "w_ext shop_world = 0" "t_plans (w_db shop_world) = []" by (simp_all add: shop_world_def empty_db_def)
  have "\<exists>p w. create_plan shop shop_brief shop_world = (Inr p, w) \<and> p_steps p = [t] \<and> p_status p = PLAN_READY \<and> p_budget_rub p = 100 \<and>
      w = shop_world\<lparr>w_ext := 2, w_db := (w_db shop_world)\<lparr>t_plans := [plan_row_of p]\<rparr>\<rparr>"
    by (simp add: create_plan_def Let_def apply_eval w0 default_settings_def shop_spendable acc shop_build [folded shop_caps_def] shop_caps_def [symmetric] media_warnings_def t re dr en total
        in_db_def plans_save_def plan_status_of_def is_billable_def m modify_def del: price_steps.simps)
  then show thesis using that m c(1) by (auto simp: shop_world_def)
qed


lemma shop_campaign:
  assumes "p_steps p = [t]" "ps_kind t = GENERATION" "ps_type t = Some ''image''" "ps_estimated_cost_rub t = 10" "p_status p = PLAN_READY"
    "p_budget_rub p = 100" "w = \<lparr>w_db = empty_db\<lparr>t_plans := [plan_row_of p]\<rparr>, w_ext = 2, w_queue = []\<rparr>"
  shows "\<exists>j w1 j' w2. execute_plan shop (p_plan_id p) True False w = (Inr j, w1) \<and> run_job shop (j_job_id j) w1 = (Inr j', w2) \<and> paid j' = 10"
  by (simp add: assms poll_done serv_eval exec_eval shop_def shop_client_def demo_client_def new_guard_def default_settings_def
     estimated_cost_of_def PRICE_TOLERANCE_RUB_def total_blockers_def merge_account_def rk_block_def paid_def new_job_step_def
     execute_plan_def admit_def enqueue_def fresh_uuid_def jobs_get_by_plan_def new_job_def)



end
