(* ===== verification/Ledger_History.thy ===== *)
theory Ledger_History
  imports System Running
begin

text \<open>
  The billable calls of a whole history of the service, whatever requests, runs, callbacks, sweeps,
  purges and restarts it is made of: every one is claimed in the ledger before, and the ledger never
  forgets. Calls are read off the client that logs the bodies sent to \<open>/generate\<close>.
\<close>

definition spending_log :: "crypto \<Rightarrow> string option \<Rightarrow> ('x \<times> obj list) world \<Rightarrow> ('x \<times> obj list) world \<Rightarrow> bool" where
  "spending_log h cb w w' \<longleftrightarrow> ledger_grows (w_db w) (w_db w') \<and>
     (\<exists>called. billed w' = billed w @ map (\<lambda>(p, ps). generate_body ps cb) called \<and>
        list_all (\<lambda>(p, ps). ps_kind ps = GENERATION \<and> unlaunched (w_db w) p ps \<and> claimed h cb (w_db w') p ps) called)"

lemma spending_log_quiet: "billed w' = billed w \<Longrightarrow> ledger_grows (w_db w) (w_db w') \<Longrightarrow> spending_log h cb w w'"
  unfolding spending_log_def by (intro conjI exI [of _ "[]"]) simp_all

lemma spending_log_refl: "spending_log h cb w w"
  by (simp add: spending_log_quiet ledger.R_refl)

lemma spending_log_trans:
  assumes "spending_log h cb u v" and "spending_log h cb v w"
  shows "spending_log h cb u w"
proof -
  obtain a where a: "billed v = billed u @ map (\<lambda>(p, ps). generate_body ps cb) a"
    "list_all (\<lambda>(p, ps). ps_kind ps = GENERATION \<and> unlaunched (w_db u) p ps \<and> claimed h cb (w_db v) p ps) a"
    and uv: "ledger_grows (w_db u) (w_db v)" using assms(1) by (auto simp: spending_log_def)
  obtain b where b: "billed w = billed v @ map (\<lambda>(p, ps). generate_body ps cb) b"
    "list_all (\<lambda>(p, ps). ps_kind ps = GENERATION \<and> unlaunched (w_db v) p ps \<and> claimed h cb (w_db w) p ps) b"
    and vw: "ledger_grows (w_db v) (w_db w)" using assms(2) by (auto simp: spending_log_def)
  have "list_all (\<lambda>(p, ps). ps_kind ps = GENERATION \<and> unlaunched (w_db u) p ps \<and> claimed h cb (w_db w) p ps) (a @ b)"
    using a(2) b(2) claimed_after [OF vw] unlaunched_before [OF uv] by (auto simp: list_all_iff)
  then show ?thesis unfolding spending_log_def
    using a(1) b(1) ledger.R_trans [OF uv vw] by (intro conjI exI [of _ "a @ b"]) simp_all
qed

lemma in_db_spending_log: "keeps ledger_grows m \<Longrightarrow> keeps (spending_log h cb) (in_db m)"
  by (auto simp: keeps_def in_db_def billed_def Let_def case_prod_beta intro!: spending_log_quiet)

lemma in_ext_spending_log: "keeps (spending_log h cb) (in_ext (with_log m))"
  by (auto simp: keeps_def billed_def in_ext_def with_log_def Let_def case_prod_beta ledger.R_refl intro!: spending_log_quiet)

lemma run_executor_spending_log:
  "keeps (spending_log (sv_crypto sv) (callback_url (sv_settings sv))) (run_executor (logged_sv sv) p j g)"
proof (rule keepsI)
  fix w :: "('a \<times> obj list) world"
  let ?s = "start_state w j g"
  let ?t = "snd (run (logged_env (exec_env_of sv)) p ?s)"
  have w': "w_db (snd (run_executor (logged_sv sv) p j g w)) = e_db ?t" "billed (snd (run_executor (logged_sv sv) p j g w)) = sent ?t"
    by (simp_all add: run_executor_def exec_env_logged Let_def case_prod_beta billed_def sent_def)
  obtain called where c: "ledger_grows (e_db ?s) (e_db ?t)"
    "sent ?t = sent ?s @ map (\<lambda>ps. generate_body ps (x_callback_url (exec_env_of sv))) called"
    "list_all (\<lambda>ps. ps_kind ps = GENERATION \<and> unlaunched (e_db ?s) p ps \<and>
       claimed (x_crypto (exec_env_of sv)) (x_callback_url (exec_env_of sv)) (e_db ?t) p ps) called"
    using run_calls [of "exec_env_of sv" p ?s] unfolding calls_of_def by auto
  show "spending_log (sv_crypto sv) (callback_url (sv_settings sv)) w (snd (run_executor (logged_sv sv) p j g w))"
    unfolding spending_log_def w' using c
    by (intro conjI exI [of _ "map (Pair p) called"])
      (simp_all add: exec_env_of_def sent_def billed_def start_state_def list_all_iff comp_def)
qed

interpretation history: service_relation "spending_log (sv_crypto sv) (callback_url (sv_settings sv))" "logged_sv sv" for sv :: "'x service"
proof -
  let ?R = "spending_log (sv_crypto sv) (callback_url (sv_settings sv)) :: ('x \<times> obj list) world \<Rightarrow> _"
  note S = store_keeps_ledger [unfolded store_keeps_def core_keeps_def]
  have plain: "keeps ?R (clock (logged_sv sv))" "keeps ?R (fresh_uuid (logged_sv sv))" "keeps ?R (enqueue jid)" for jid
    by (auto simp: keeps_def billed_def clock_def fresh_uuid_def enqueue_def in_ext_def now_is_def logged_sv_def logged_def modify_def
        Let_def case_prod_beta ledger.R_refl intro!: spending_log_quiet)
  show "service_relation ?R (logged_sv sv)"
  proof unfold_locales
    show "?R w w" for w by (rule spending_log_refl)
    show "?R u v \<Longrightarrow> ?R v w \<Longrightarrow> ?R u w" for u v w by (rule spending_log_trans)
    show "keeps ?R (in_ext (f g))" if "cl_voiceover_status (sv_client (logged_sv sv)) = Some f" for f g
      using that in_ext_spending_log by (auto simp: logged_sv_def logged_def)
  qed (simp_all add: plain in_db_spending_log S run_executor_spending_log,
    simp_all add: logged_sv_def logged_def in_ext_spending_log)
qed

section \<open>Rows and bodies\<close>

lemma body_key: "jget (generate_body ps cb) ''idempotency_key'' = JStr (ps_idempotency_key ps)"
  by (auto simp: generate_body_def jget_def Let_def AList.update_conv' split: option.splits list.splits)

lemma step_at_row: "db_ok d \<Longrightarrow> r \<in> set (t_steps d) \<Longrightarrow> step_at d (sx_plan_id r) (sx_step_id r) = Some r"
proof -
  assume "db_ok d" "r \<in> set (t_steps d)"
  moreover have "find (\<lambda>x. (sx_plan_id x, sx_step_id x) = (sx_plan_id r, sx_step_id r)) rs = Some r"
    if "distinct (map (\<lambda>r. (sx_plan_id r, sx_step_id r)) rs)" "r \<in> set rs" for rs
    using that by (induction rs) (auto simp: rev_image_eqI)
  ultimately show ?thesis by (simp add: step_at_def db_ok_def steps_ok_def)
qed

lemma row_of_step: "step_at d pid sid = Some r \<Longrightarrow> r \<in> set (t_steps d) \<and> sx_plan_id r = pid \<and> sx_step_id r = sid"
  by (auto simp: step_at_def dest: find_in)

lemma row_by_key:
  assumes "db_ok d" and "r \<in> set (t_steps d)" and "r' \<in> set (t_steps d)" and "sx_idempotency_key r = sx_idempotency_key r'"
  shows "r = r'"
  using assms by (auto simp: db_ok_def steps_ok_def distinct_map inj_on_def)

text \<open>The row a body of the history is claimed by.\<close>

definition claims :: "crypto \<Rightarrow> step_row \<Rightarrow> obj \<Rightarrow> bool" where
  "claims h r body \<longleftrightarrow> jget body ''idempotency_key'' = JStr (sx_idempotency_key r) \<and> sx_request_hash r = request_hash h body"

lemma spending_log_claims:
  assumes "spending_log h cb v w" and "b \<in> set (drop (length (billed v)) (billed w))" and "db_ok (w_db w)"
  obtains r where "r \<in> set (t_steps (w_db w))" and "claims h r b"
    and "\<And>r0. r0 \<in> set (t_steps (w_db v)) \<Longrightarrow> db_ok (w_db v) \<Longrightarrow> sx_idempotency_key r0 = sx_idempotency_key r \<Longrightarrow> sx_generation_id r0 = None"
proof -
  obtain called where c: "billed w = billed v @ map (\<lambda>(p, ps). generate_body ps cb) called"
    "list_all (\<lambda>(p, ps). ps_kind ps = GENERATION \<and> unlaunched (w_db v) p ps \<and> claimed h cb (w_db w) p ps) called"
    and grows: "ledger_grows (w_db v) (w_db w)"
    using assms(1) by (auto simp: spending_log_def)
  obtain p ps where b: "b = generate_body ps cb" "unlaunched (w_db v) p ps" "claimed h cb (w_db w) p ps"
    using assms(2) c by (auto simp: list_all_iff)
  obtain r where r: "step_at (w_db w) (p_plan_id p) (ps_step_id ps) = Some r" "sx_idempotency_key r = ps_idempotency_key ps"
    "sx_request_hash r = request_hash h b"
    using b(1,3) by (auto simp: claimed_def)
  note row = row_of_step [OF r(1)]
  show thesis
  proof (rule that)
    show "r \<in> set (t_steps (w_db w))" using row by blast
    show "claims h r b" using r b(1) by (simp add: claims_def body_key)
    show "sx_generation_id r0 = None" if "r0 \<in> set (t_steps (w_db v))" "db_ok (w_db v)" "sx_idempotency_key r0 = sx_idempotency_key r" for r0
    proof -
      have at: "step_at (w_db v) (sx_plan_id r0) (sx_step_id r0) = Some r0" using step_at_row that(1,2) by blast
      then obtain r1 where r1: "step_at (w_db w) (sx_plan_id r0) (sx_step_id r0) = Some r1" "same_claim r0 r1"
        using ledger_grows_step [OF grows] by blast
      have "r1 = r" using row_by_key [OF assms(3)] row_of_step [OF r1(1)] row r1(2) that(3) by (simp add: same_claim_def)
      then have "sx_plan_id r0 = p_plan_id p" "sx_step_id r0 = ps_step_id ps" using r1(2) row by (simp_all add: same_claim_def)
      then show ?thesis using b(2) at by (simp add: unlaunched_def)
    qed
  qed
qed

text \<open>C2: Over any history of the service nothing is paid for twice. Every billable request stands in the
  ledger under its idempotency key with the hash of its body; two requests with the same key are
  requests with the same hash, so the platform answers the second from the first; and once the
  generation id of a step is known, no later request is sent under its key.\<close>

theorem history_pays_each_step_once:
  assumes "(app_step (logged_sv sv) md loads)\<^sup>*\<^sup>* w v" and "(app_step (logged_sv sv) md loads)\<^sup>*\<^sup>* v w'"
    and "db_ok (w_db w)" and "billed w = []"
  shows "(\<forall>b \<in> set (billed w'). \<exists>r \<in> set (t_steps (w_db w')). claims (sv_crypto sv) r b) \<and>
    (\<forall>b \<in> set (billed w'). \<forall>c \<in> set (billed w'). jget b ''idempotency_key'' = jget c ''idempotency_key'' \<longrightarrow>
       request_hash (sv_crypto sv) b = request_hash (sv_crypto sv) c) \<and>
    (\<forall>r \<in> set (t_steps (w_db v)). sx_generation_id r \<noteq> None \<longrightarrow>
       (\<forall>b \<in> set (drop (length (billed v)) (billed w')). jget b ''idempotency_key'' \<noteq> JStr (sx_idempotency_key r)))"
proof -
  let ?h = "sv_crypto sv"
  have ok: "db_ok (w_db v)" "db_ok (w_db w')"
    using service_ok.app_steps_R [OF assms(1)] service_ok.app_steps_R [OF assms(2)] assms(3) by (simp_all add: on_dbs_def ok_step_def)
  have all: "spending_log ?h (callback_url (sv_settings sv)) w w'"
    using history.app_steps_R [OF assms(1)] history.app_steps_R [OF assms(2)] by (rule spending_log_trans)
  have 1: "\<exists>r \<in> set (t_steps (w_db w')). claims ?h r b" if "b \<in> set (billed w')" for b
    using spending_log_claims [OF all _ ok(2), of b] that assms(4) by auto
  have 2: "request_hash ?h b = request_hash ?h c"
    if "b \<in> set (billed w')" "c \<in> set (billed w')" "jget b ''idempotency_key'' = jget c ''idempotency_key''" for b c
  proof -
    from 1 that(1,2) obtain r r' where r: "r \<in> set (t_steps (w_db w'))" "claims ?h r b" "r' \<in> set (t_steps (w_db w'))" "claims ?h r' c" by blast
    then have "r = r'" using row_by_key [OF ok(2) r(1,3)] that(3) by (simp add: claims_def)
    then show ?thesis using r by (simp add: claims_def)
  qed
  have 3: "jget b ''idempotency_key'' \<noteq> JStr (sx_idempotency_key r0)"
    if "r0 \<in> set (t_steps (w_db v))" "sx_generation_id r0 \<noteq> None" "b \<in> set (drop (length (billed v)) (billed w'))" for r0 b
    by (rule spending_log_claims [OF history.app_steps_R [OF assms(2)] that(3) ok(2)]) (use that ok(1) in \<open>auto simp: claims_def\<close>)
  show ?thesis using 1 2 3 by blast
qed

section \<open>A witness\<close>

lemma demo_logged_run: "length (billed (snd (run_job (logged_sv (demo_service 10)) ''j1'' demo_world))) = 2"
  by (simp add: poll_done serv_eval exec_eval demo_defs demo_world_def estimated_cost_of_def PRICE_TOLERANCE_RUB_def
    total_blockers_def merge_account_def rk_block_def logged_sv_def logged_def with_log_def billed_def)

theorem history_pays_each_step_once_witness:
  "\<exists>v w'. (app_step (logged_sv (demo_service 10)) demo_dump (\<lambda>_. None))\<^sup>*\<^sup>* demo_world v \<and>
     (app_step (logged_sv (demo_service 10)) demo_dump (\<lambda>_. None))\<^sup>*\<^sup>* v w' \<and> length (billed v) = 2 \<and>
     (\<forall>b \<in> set (billed v). \<exists>r \<in> set (t_steps (w_db v)). claims demo_crypto r b) \<and>
     (\<forall>r \<in> set (t_steps (w_db v)). sx_generation_id r \<noteq> None \<longrightarrow>
       (\<forall>b \<in> set (drop (length (billed v)) (billed w')). jget b ''idempotency_key'' \<noteq> JStr (sx_idempotency_key r)))"
proof -
  let ?v = "snd (run_job (logged_sv (demo_service 10)) ''j1'' demo_world)"
  let ?w' = "snd (run_job (logged_sv (demo_service 10)) ''j1'' (snd (recover_unfinished_jobs ?v)))"
  let ?step = "app_step (logged_sv (demo_service 10)) demo_dump (\<lambda>_. None)"
  have ran: "?step u (snd (run_job (logged_sv (demo_service 10)) jid u))" for u jid
    by (rule app_step.served) (rule serving_step.job_worked)
  have restarted: "?step u (snd (recover_unfinished_jobs u))" for u
    by (rule app_step.served) (rule serving_step.restarted)
  have v: "?step\<^sup>*\<^sup>* demo_world ?v" using ran by (rule r_into_rtranclp)
  have w': "?step\<^sup>*\<^sup>* ?v ?w'" using restarted ran by (meson converse_rtranclp_into_rtranclp r_into_rtranclp)
  have start: "db_ok (w_db demo_world)" "billed demo_world = []" by (simp_all add: demo_world_def demo_db_ok billed_def)
  have h: "sv_crypto (demo_service 10) = demo_crypto" by (simp add: demo_service_def)
  show ?thesis
    using history_pays_each_step_once [OF v w' start] history_pays_each_step_once [OF v rtranclp.rtrancl_refl start] v w' demo_logged_run
    unfolding h by blast
qed

end
