(* ===== verification/Redaction.thy ===== *)
theory Redaction
  imports Config "HOL-Library.Sublist"
begin

text \<open>
  The scrubbing of log text (\<open>app/core/security.py\<close>, \<open>app/core/logging.py\<close>): registered secrets are
  replaced wherever they occur, then whatever looks like a credential. The two regular expressions
  are matchers on code points. Which code points beyond ASCII are letters or digits is a table of
  Python's \<open>unicodedata\<close>, the parameter \<open>uw\<close>. The registry is a set; the list is the order in which
  a run happens to enumerate it, and no property depends on it.
\<close>

section \<open>Regular expressions on code points\<close>

type_synonym points = "string list"

text \<open>Under \<open>(?i)\<close> a letter of the pattern matches its two cases and, for \<open>i\<close>, \<open>k\<close> and \<open>s\<close>, the dotted
  capital and dotless small i, the Kelvin sign and the long s.\<close>

definition fold_point :: "string \<Rightarrow> string" where
  "fold_point g =
     (if g = bytes [196, 176] \<or> g = bytes [196, 177] then ''i''
      else if g = bytes [226, 132, 170] then ''k''
      else if g = bytes [197, 191] then ''s''
      else py_lower g)"

text \<open>A literal of the pattern at the start: what is left behind it.\<close>

fun lit :: "string \<Rightarrow> points \<Rightarrow> points option" where
  "lit [] gs = Some gs"
| "lit (c # cs) [] = None"
| "lit (c # cs) (g # gs) = (if fold_point g = [c] then lit cs gs else None)"

text \<open>\<open>x?\<close> for a class of code points, and \<open>\s*\<close>\<close>

definition opt_point :: "string list \<Rightarrow> points \<Rightarrow> points" where
  "opt_point xs gs = (case gs of [] \<Rightarrow> [] | g # rest \<Rightarrow> if g \<in> set xs then rest else gs)"

definition spaces :: "points \<Rightarrow> points" where
  "spaces gs = dropWhile is_space gs"

text \<open>\<open>\w\<close>\<close>

definition ascii_word :: "char \<Rightarrow> bool" where
  "ascii_word c \<longleftrightarrow> is_digit c \<or> (CHR ''a'' \<le> c \<and> c \<le> CHR ''z'') \<or> (CHR ''A'' \<le> c \<and> c \<le> CHR ''Z'') \<or> c = CHR ''_''"

definition ascii_char :: "char \<Rightarrow> bool" where
  "ascii_char c \<longleftrightarrow> (of_char c :: nat) < 128"

definition word_point :: "(string \<Rightarrow> bool) \<Rightarrow> string \<Rightarrow> bool" where
  "word_point uw g = (case g of [c] \<Rightarrow> if ascii_char c then ascii_word c else uw g | _ \<Rightarrow> uw g)"

text \<open>\<open>re.sub\<close> for a pattern that starts with \<open>\b\<close>: the matcher gives the replacement and the number of
  code points matched, at least one.\<close>

type_synonym matcher = "points \<Rightarrow> (string \<times> nat) option"

definition at_boundary :: "(string \<Rightarrow> bool) \<Rightarrow> string option \<Rightarrow> string \<Rightarrow> bool" where
  "at_boundary uw prev g \<longleftrightarrow> (case prev of None \<Rightarrow> False | Some p \<Rightarrow> word_point uw p) \<noteq> word_point uw g"

function re_sub :: "(string \<Rightarrow> bool) \<Rightarrow> matcher \<Rightarrow> string option \<Rightarrow> points \<Rightarrow> string" where
  "re_sub uw m prev [] = []"
| "re_sub uw m prev (g # gs) =
     (case (if at_boundary uw prev g then m (g # gs) else None) of
        None \<Rightarrow> g @ re_sub uw m (Some g) gs
      | Some (out, n) \<Rightarrow> out @ re_sub uw m (Some ((g # gs) ! (n - 1))) (drop (n - 1) gs))"
  by pat_completeness auto
termination
  by (relation "measure (\<lambda>(uw, m, prev, gs). length gs)") auto

section \<open>Credentials\<close>

text \<open>\<open>authorization|x-vibe-signature|api[_-]?token|webhook[_-]?secret\<close>; the alternatives differ in their
  first letter, or in the second for those that start with \<open>a\<close>.\<close>

definition key_word :: "points \<Rightarrow> points option" where
  "key_word gs =
     (case lit ''authorization'' gs of Some r \<Rightarrow> Some r | None \<Rightarrow>
     (case lit ''x-vibe-signature'' gs of Some r \<Rightarrow> Some r | None \<Rightarrow>
     (case Option.bind (lit ''api'' gs) (\<lambda>r. lit ''token'' (opt_point [''_'', ''-''] r)) of Some r \<Rightarrow> Some r | None \<Rightarrow>
        Option.bind (lit ''webhook'' gs) (\<lambda>r. lit ''secret'' (opt_point [''_'', ''-''] r)))))"

text \<open>\<open>"?\s*[:=]\s*"?\<close>\<close>

definition separator :: "points \<Rightarrow> points option" where
  "separator gs = (case spaces (opt_point [[CHR 0x22]] gs) of
       [] \<Rightarrow> None
     | g # rest \<Rightarrow> if g = '':'' \<or> g = ''='' then Some (opt_point [[CHR 0x22]] (spaces rest)) else None)"

text \<open>\<open>(bearer\s+)?\<close>\<close>

definition bearer_prefix :: "points \<Rightarrow> points" where
  "bearer_prefix gs = (case lit ''bearer'' gs of Some (g # rest) \<Rightarrow> if is_space g then spaces rest else gs | _ \<Rightarrow> gs)"

definition value_point :: "string \<Rightarrow> bool" where
  "value_point g \<longleftrightarrow> \<not> is_space g \<and> g \<notin> {'','', '';'', [CHR 0x22], [CHR 0x27], ''}'', '']''}"

text \<open>The optional scheme and the value; where nothing follows the scheme, the scheme is the value.\<close>

definition credential :: "points \<Rightarrow> points option" where
  "credential gs =
     (case bearer_prefix gs of
        g # rest \<Rightarrow> if value_point g then Some (dropWhile value_point rest)
          else if gs \<noteq> [] \<and> value_point (hd gs) then Some (dropWhile value_point gs) else None
      | [] \<Rightarrow> if gs \<noteq> [] \<and> value_point (hd gs) then Some (dropWhile value_point gs) else None)"

definition auth_match :: "matcher" where
  "auth_match gs =
     (case Option.bind (key_word gs) separator of None \<Rightarrow> None
      | Some r \<Rightarrow> (case credential r of None \<Rightarrow> None
         | Some rest \<Rightarrow> Some (concat (take (length gs - length r) gs) @ PLACEHOLDER, length gs - length rest)))"

text \<open>\<open>[A-Za-z0-9._\-]\<close>\<close>

definition token_point :: "string \<Rightarrow> bool" where
  "token_point g = (case fold_point g of [c] \<Rightarrow> is_digit c \<or> (CHR ''a'' \<le> c \<and> c \<le> CHR ''z'') \<or> c \<in> set ''._-'' | _ \<Rightarrow> False)"

definition bearer_match :: "matcher" where
  "bearer_match gs =
     (case lit ''bearer'' gs of
        Some (g # rest) \<Rightarrow>
          if is_space g \<and> 6 \<le> length (takeWhile token_point (spaces rest))
          then Some (''Bearer '' @ PLACEHOLDER, length gs - length (dropWhile token_point (spaces rest)))
          else None
      | _ \<Rightarrow> None)"

section \<open>Redaction\<close>

fun scrub_registered :: "string list \<Rightarrow> string \<Rightarrow> string" where
  "scrub_registered [] t = t"
| "scrub_registered (s # secrets) t =
     scrub_registered secrets (if py_contains s t then py_replace s PLACEHOLDER t else t)"

definition redact :: "(string \<Rightarrow> bool) \<Rightarrow> string list \<Rightarrow> string \<Rightarrow> string" where
  "redact uw secrets t =
     (if t = [] then t
      else re_sub uw bearer_match None (py_chars (re_sub uw auth_match None (py_chars (scrub_registered secrets t)))))"

definition clear_secrets :: "string list" where
  "clear_secrets = []"

end
