(* ===== verification/Logging.thy ===== *)
theory Logging
  imports Redaction
begin

text \<open>
  The log pipeline (\<open>app/core/logging.py\<close>): correlation ids, the filter that scrubs the fields of a
  record, the two formatters, and the setup at startup. A record is what the logging library hands to
  the handler; its extra fields are those whose names are not reserved. The library's printf-style
  formatting (which may fail, and then nothing is printed) and the rendering of time stamps are
  parameters.
\<close>

section \<open>Correlation ids\<close>

text \<open>\<open>value or new_correlation_id()\<close>; the new id is the first sixteen hex digits of a random uuid.\<close>

definition new_correlation_id :: "string \<Rightarrow> string" where
  "new_correlation_id uuid_hex = py_take 16 uuid_hex"

definition set_correlation_id :: "string \<Rightarrow> string option \<Rightarrow> string" where
  "set_correlation_id uuid_hex v = (if unset v then new_correlation_id uuid_hex else the v)"

section \<open>Records\<close>

datatype log_args = PosArgs "json list" | NamedArgs obj

record log_record =
  lr_name :: string
  lr_levelname :: string
  lr_msg :: json
  lr_args :: log_args
  lr_extras :: obj
  lr_exc :: "string option"

record log_env =
  le_alnum :: "string \<Rightarrow> bool"
  le_percent :: "string \<Rightarrow> log_args \<Rightarrow> string option"
  le_time :: "string \<Rightarrow> string"

section \<open>The filter\<close>

fun redact_value :: "(string \<Rightarrow> string) \<Rightarrow> json \<Rightarrow> json" where
  "redact_value scrub (JStr s) = JStr (scrub s)"
| "redact_value scrub (JObj kvs) = JObj (map (\<lambda>(k, v). (k, redact_value scrub v)) kvs)"
| "redact_value scrub (JArr xs) = JArr (map (redact_value scrub) xs)"
| "redact_value scrub v = v"

definition redact_fields :: "(string \<Rightarrow> string) \<Rightarrow> obj \<Rightarrow> obj" where
  "redact_fields scrub = map (\<lambda>(k, v). (k, redact_value scrub v))"

definition redaction_filter :: "(string \<Rightarrow> string) \<Rightarrow> log_record \<Rightarrow> log_record" where
  "redaction_filter scrub r =
     r\<lparr>lr_msg := (case lr_msg r of JStr s \<Rightarrow> JStr (scrub s) | v \<Rightarrow> v),
       lr_args := (case lr_args r of NamedArgs d \<Rightarrow> NamedArgs (redact_fields scrub d)
                   | PosArgs xs \<Rightarrow> PosArgs (map (redact_value scrub) xs)),
       lr_extras := redact_fields scrub (lr_extras r)\<rparr>"

section \<open>The formatters\<close>

text \<open>\<open>record.getMessage()\<close>\<close>

definition has_args :: "log_args \<Rightarrow> bool" where
  "has_args a = (case a of PosArgs xs \<Rightarrow> xs \<noteq> [] | NamedArgs d \<Rightarrow> d \<noteq> [])"

definition get_message :: "log_env \<Rightarrow> log_record \<Rightarrow> string option" where
  "get_message env r = (if has_args (lr_args r) then le_percent env (py_str (lr_msg r)) (lr_args r) else Some (py_str (lr_msg r)))"

definition visible_extras :: "log_record \<Rightarrow> obj" where
  "visible_extras r = filter (\<lambda>(k, v). \<not> py_startswith k ''_'') (lr_extras r)"

definition json_payload :: "log_env \<Rightarrow> string option \<Rightarrow> log_record \<Rightarrow> string \<Rightarrow> obj" where
  "json_payload env cid r message =
     dict_merge
       ([(''ts'', JStr (le_time env ''%Y-%m-%dT%H:%M:%S%z'')), (''level'', JStr (lr_levelname r)),
         (''logger'', JStr (lr_name r)), (''msg'', JStr message)]
        @ (if unset cid then [] else [(''correlation_id'', JStr (the cid))]))
       (visible_extras r @ (case lr_exc r of Some e \<Rightarrow> [(''exc'', JStr e)] | None \<Rightarrow> []))"

definition json_format :: "log_env \<Rightarrow> (string \<Rightarrow> string) \<Rightarrow> string option \<Rightarrow> log_record \<Rightarrow> string option" where
  "json_format env scrub cid r =
     map_option (\<lambda>message. scrub (json_dumps False (JObj (json_payload env cid r message)))) (get_message env r)"

text \<open>\<open>{:<7}\<close>\<close>

definition pad_right :: "nat \<Rightarrow> string \<Rightarrow> string" where
  "pad_right n s = s @ replicate (n - py_len s) CHR '' ''"

definition console_line :: "log_env \<Rightarrow> string option \<Rightarrow> log_record \<Rightarrow> string \<Rightarrow> string" where
  "console_line env cid r message =
     le_time env ''%H:%M:%S'' @ '' '' @ pad_right 7 (lr_levelname r) @ '' ''
     @ (if unset cid then [] else ''['' @ the cid @ ''] '')
     @ lr_name r @ '': '' @ message
     @ (if visible_extras r = [] then [] else '' '' @ json_dumps False (JObj (visible_extras r)))
     @ (case lr_exc r of Some e \<Rightarrow> CHR 0x0A # e | None \<Rightarrow> [])"

definition console_format :: "log_env \<Rightarrow> (string \<Rightarrow> string) \<Rightarrow> string option \<Rightarrow> log_record \<Rightarrow> string option" where
  "console_format env scrub cid r = map_option (\<lambda>message. scrub (console_line env cid r message)) (get_message env r)"

section \<open>Setup\<close>

definition upper_char :: "char \<Rightarrow> char" where
  "upper_char c = (if CHR ''a'' \<le> c \<and> c \<le> CHR ''z'' then char_of ((of_char c :: nat) - 32) else c)"

definition LOG_LEVELS :: "string list" where
  "LOG_LEVELS = [''CRITICAL'', ''FATAL'', ''ERROR'', ''WARN'', ''WARNING'', ''INFO'', ''DEBUG'', ''NOTSET'']"

text \<open>What the setup leaves: the registry, the one handler of the root logger, the levels of the loggers it
  sets, and the loggers whose own handlers are gone.\<close>

record logging_setup =
  lg_secrets :: "string list"
  lg_json :: bool
  lg_levels :: "(string \<times> string) list"
  lg_funnelled :: "string list"

definition configure_logging :: "string \<Rightarrow> string \<Rightarrow> string list \<Rightarrow> string list \<Rightarrow> exn + logging_setup" where
  "configure_logging level fmt secrets registry =
     (let upper = map upper_char level in
      if upper \<notin> set LOG_LEVELS then Inl (ValueError (Msg ''unknown_level'' [JStr upper]))
      else Inr \<lparr>lg_secrets = fold (\<lambda>s. register_secret (Some s)) secrets registry, lg_json = (fmt = ''json''),
          lg_levels = [(''root'', upper), (''httpx'', ''WARNING''), (''httpcore'', ''WARNING'')],
          lg_funnelled = [''uvicorn'', ''uvicorn.error'', ''uvicorn.access'', ''httpx'', ''httpcore'']\<rparr>)"

text \<open>What the handler prints for a record, the filter before the formatter.\<close>

definition log_line :: "log_env \<Rightarrow> logging_setup \<Rightarrow> string option \<Rightarrow> log_record \<Rightarrow> string option" where
  "log_line env lg cid r =
     (let scrub = redact (le_alnum env) (lg_secrets lg);
          clean = redaction_filter scrub r
      in if lg_json lg then json_format env scrub cid clean else console_format env scrub cid clean)"

end
