(* ===== verification/Secrecy.thy ===== *)
theory Secrecy
  imports Logging
begin

text \<open>
  No registered secret reaches a log line. A secret is followed through every replacement by the
  text around the placeholder: it has no star, so an occurrence lies on one side of it.
\<close>

section \<open>Occurrences\<close>

lemma py_startswith_prefix: "py_startswith t s \<longleftrightarrow> prefix s t"
  by (auto simp: py_startswith_def prefix_def) (metis append_take_drop_id)

lemma py_contains_sublist: "py_contains s t \<longleftrightarrow> sublist s t"
  by (induction s t rule: py_contains.induct) (auto simp: py_startswith_prefix sublist_Cons_right)

lemma prefix_before: "c \<notin> set s \<Longrightarrow> prefix s (a @ c # b) \<longleftrightarrow> prefix s a"
  by (auto simp: prefix_append prefix_Cons)

lemma sublist_around:
  assumes "c \<notin> set s" shows "sublist s (a @ c # b) \<longleftrightarrow> sublist s a \<or> sublist s b"
proof -
  have "sublist s (c # b) \<longleftrightarrow> sublist s b"
    using assms by (cases s) (auto simp: sublist_Cons_right)
  moreover have "sublist s a" if "s = u @ v" "suffix u a" "prefix v (c # b)" for u v
    using assms that by (auto simp: prefix_Cons suffix_imp_sublist)
  ultimately show ?thesis unfolding sublist_append by blast
qed

lemma PLACEHOLDER_stars: "PLACEHOLDER = CHR ''*'' # CHR ''*'' # CHR ''*'' # ''REDACTED'' @ CHR ''*'' # ''**''"
  by (simp add: PLACEHOLDER_def)

lemma sublist_star_Cons: "CHR ''*'' \<notin> set s \<Longrightarrow> sublist s (CHR ''*'' # b) \<longleftrightarrow> s = [] \<or> sublist s b"
  using sublist_around [of "CHR ''*''" s "[]" b] by auto

lemma sublist_around_placeholder:
  assumes "CHR ''*'' \<notin> set s"
  shows "sublist s (a @ PLACEHOLDER @ b) \<longleftrightarrow> sublist s a \<or> sublist s ''REDACTED'' \<or> sublist s b"
proof -
  have "sublist s (a @ PLACEHOLDER @ b) \<longleftrightarrow> sublist s a \<or> sublist s (''**REDACTED***'' @ b)"
    using sublist_around [OF assms, of a "''**REDACTED***'' @ b"] by (simp add: PLACEHOLDER_def)
  moreover have "sublist s (''**REDACTED***'' @ b) \<longleftrightarrow> sublist s (''REDACTED'' @ CHR ''*'' # ''**'' @ b)"
    using sublist_star_Cons [OF assms] by auto
  moreover have "sublist s (''REDACTED'' @ CHR ''*'' # ''**'' @ b) \<longleftrightarrow> sublist s ''REDACTED'' \<or> sublist s (''**'' @ b)"
    by (rule sublist_around [OF assms])
  moreover have "sublist s (''**'' @ b) \<longleftrightarrow> sublist s b"
    using sublist_star_Cons [OF assms] by auto
  ultimately show ?thesis by blast
qed

lemma prefix_before_placeholder: "CHR ''*'' \<notin> set s \<Longrightarrow> prefix s (a @ PLACEHOLDER @ b) \<Longrightarrow> prefix s a"
  by (simp add: PLACEHOLDER_def prefix_before)

section \<open>Registered secrets\<close>

text \<open>A secret the scrubbing can be held to: ASCII, without stars, no part of the words the scrubbing itself
  writes, and not ending, after a character that is no letter, in the start of such a word.\<close>

definition scrubbable :: "string \<Rightarrow> bool" where
  "scrubbable s \<longleftrightarrow> s \<noteq> [] \<and> list_all ascii_char s \<and> CHR ''*'' \<notin> set s \<and>
     \<not> py_contains s ''REDACTED'' \<and> \<not> py_contains s ''Bearer '' \<and>
     list_all (\<lambda>k. ascii_word (s ! (k - 1)) \<or> \<not> py_startswith ''Bearer '' (drop k s)) [1..<length s]"

lemma scrubbable_facts:
  assumes "scrubbable s"
  shows "s \<noteq> []" "CHR ''*'' \<notin> set s" "\<not> sublist s ''REDACTED''" "\<not> sublist s ''Bearer ''"
    "\<And>c. c \<in> set s \<Longrightarrow> ascii_char c"
    "\<And>u v. s = u @ v \<Longrightarrow> u \<noteq> [] \<Longrightarrow> v \<noteq> [] \<Longrightarrow> prefix v ''Bearer '' \<Longrightarrow> ascii_word (last u)"
proof -
  note d = assms [unfolded scrubbable_def py_contains_sublist py_startswith_prefix]
  show "s \<noteq> []" "CHR ''*'' \<notin> set s" "\<not> sublist s ''REDACTED''" "\<not> sublist s ''Bearer ''" using d by blast+
  show "\<And>c. c \<in> set s \<Longrightarrow> ascii_char c" using d by (simp add: list_all_iff)
  show "ascii_word (last u)" if s: "s = u @ v" and ne: "u \<noteq> []" "v \<noteq> []" and p: "prefix v ''Bearer ''" for u v
  proof -
    have all: "\<forall>k \<in> set [1..<length s]. ascii_word (s ! (k - 1)) \<or> \<not> prefix (drop k s) ''Bearer ''"
      using d by (simp add: list_all_iff)
    have "length u \<in> set [1..<length s]" using s ne by (simp add: Suc_le_eq)
    with all have "ascii_word (s ! (length u - 1)) \<or> \<not> prefix (drop (length u) s) ''Bearer ''" by blast
    then show ?thesis using s p ne by (simp add: nth_append last_conv_nth)
  qed
qed

lemma prefix_replace:
  "CHR ''*'' \<notin> set s \<Longrightarrow> prefix s (a @ py_replace t PLACEHOLDER x) \<Longrightarrow> prefix s (a @ x)"
proof (induction t PLACEHOLDER x arbitrary: a rule: py_replace.induct)
  case (2 t x xs)
  show ?case
  proof (cases "t \<noteq> [] \<and> py_startswith (x # xs) t")
    case True
    then have "prefix s (a @ PLACEHOLDER @ py_replace t PLACEHOLDER (drop (length t) (x # xs)))" using 2 by simp
    then show ?thesis using prefix_before_placeholder [OF "2.prems"(1)] by (blast intro: prefix_prefix)
  next
    case False
    then have "prefix s ((a @ [x]) @ py_replace t PLACEHOLDER xs)" using "2.prems" by auto
    from "2.hyps"(2) [OF False "2.prems"(1) this] show ?thesis by simp
  qed
qed simp

lemma sublist_replace:
  assumes "scrubbable s"
  shows "sublist s (a @ py_replace t PLACEHOLDER x) \<Longrightarrow> sublist s (a @ x)"
proof (induction t PLACEHOLDER x arbitrary: a rule: py_replace.induct)
  case (2 t x xs)
  show ?case
  proof (cases "t \<noteq> [] \<and> py_startswith (x # xs) t")
    case True
    let ?rest = "drop (length t) (x # xs)"
    have "sublist s (a @ PLACEHOLDER @ py_replace t PLACEHOLDER ?rest)" using 2 True by simp
    then have "sublist s a \<or> sublist s ([] @ py_replace t PLACEHOLDER ?rest)"
      using sublist_around_placeholder scrubbable_facts [OF assms] by auto
    then have "sublist s a \<or> sublist s ?rest" using "2.hyps"(1) [OF True, of "[]"] by auto
    moreover have "x # xs = take (length t) (x # xs) @ ?rest" by simp
    ultimately show ?thesis by (metis sublist_append)
  next
    case False
    then have "sublist s ((a @ [x]) @ py_replace t PLACEHOLDER xs)" using "2.prems" by auto
    from "2.hyps"(2) [OF False this] show ?thesis by simp
  qed
qed simp

lemma replace_removes:
  assumes "scrubbable s"
  shows "\<not> sublist s (py_replace s PLACEHOLDER x)"
  using assms
proof (induction s PLACEHOLDER x rule: py_replace.induct)
  case (1 s)
  then show ?case by (simp add: scrubbable_def)
next
  case (2 s x xs)
  note secret = scrubbable_facts [OF "2.prems"]
  show ?case
  proof (cases "s \<noteq> [] \<and> py_startswith (x # xs) s")
    case True
    then show ?thesis
      using "2.hyps"(1) [OF True "2.prems"] sublist_around_placeholder [OF secret(2), of "[]"] secret by simp
  next
    case False
    have "\<not> prefix s (x # py_replace s PLACEHOLDER xs)"
      using False secret prefix_replace [of s "[x]" s xs] by (auto simp: py_startswith_prefix)
    then show ?thesis using False "2.hyps"(2) [OF False "2.prems"] by (auto simp: sublist_Cons_right)
  qed
qed

lemma scrub_registered_removes:
  assumes "scrubbable s"
  shows "s \<in> set secrets \<or> \<not> sublist s t \<Longrightarrow> \<not> sublist s (scrub_registered secrets t)"
proof (induction secrets arbitrary: t)
  case (Cons r secrets)
  let ?t = "if py_contains r t then py_replace r PLACEHOLDER t else t"
  have "\<not> sublist s ?t" if "s = r \<or> \<not> sublist s t"
    using that replace_removes [OF assms, of t] sublist_replace [OF assms, of "[]" r t]
    by (auto simp: py_contains_sublist)
  then show ?case using Cons.IH [of ?t] Cons.prems by auto
qed simp

section \<open>Credentials\<close>

text \<open>What a scan has left behind it: nothing that matters, or text that ends in the previous code point.\<close>

definition point_ok :: "string \<Rightarrow> bool" where
  "point_ok g \<longleftrightarrow> g \<noteq> [] \<and> list_all utf8_cont (tl g)"

definition behind :: "string option \<Rightarrow> string \<Rightarrow> bool" where
  "behind prev a \<longleftrightarrow> a = [] \<or> (\<exists>p b. prev = Some p \<and> point_ok p \<and> a = b @ p)"

locale hiding_matcher =
  fixes uw :: "string \<Rightarrow> bool" and m :: matcher
  assumes hides: "m gs = Some (out, n) \<Longrightarrow> gs = g # rest \<Longrightarrow> at_boundary uw prev g \<Longrightarrow> behind prev a \<Longrightarrow> scrubbable s \<Longrightarrow>
    sublist s (a @ out @ r) \<Longrightarrow> sublist s (a @ concat gs) \<or> sublist s r"
begin

lemma re_sub_hides:
  assumes "scrubbable s"
  shows "list_all point_ok gs \<Longrightarrow> behind prev a \<Longrightarrow> sublist s (a @ re_sub uw m prev gs) \<Longrightarrow> sublist s (a @ concat gs)"
proof (induction "length gs" arbitrary: gs prev a rule: less_induct)
  case less
  show ?case
  proof (cases gs)
    case (Cons g rest)
    show ?thesis
    proof (cases "if at_boundary uw prev g then m gs else None")
      case None
      then have "sublist s ((a @ g) @ re_sub uw m (Some g) rest)" using less.prems(3) None unfolding Cons by simp
      moreover have "behind (Some g) (a @ g)" using less.prems(1) Cons by (auto simp: behind_def)
      ultimately show ?thesis using less.hyps [of rest "Some g" "a @ g"] less.prems(1) Cons by simp
    next
      case (Some on)
      obtain out n where on: "on = (out, n)" by (cases on)
      let ?rest = "drop (n - 1) rest"
      have m: "m gs = Some (out, n)" and b: "at_boundary uw prev g" using Some on by (auto split: if_splits)
      have "sublist s (a @ out @ re_sub uw m (Some (gs ! (n - 1))) ?rest)"
        using less.prems(3) Cons m b by simp
      then have "sublist s (a @ concat gs) \<or> sublist s ([] @ re_sub uw m (Some (gs ! (n - 1))) ?rest)"
        using hides [OF m Cons b less.prems(2) assms] by simp
      moreover have "list_all point_ok ?rest" using less.prems(1) Cons by (auto simp: list_all_iff dest: in_set_dropD)
      ultimately have "sublist s (a @ concat gs) \<or> sublist s (concat ?rest)"
        using less.hyps [of ?rest "Some (gs ! (n - 1))" "[]"] Cons by (auto simp: behind_def le_imp_less_Suc)
      moreover have "concat gs = (g @ concat (take (n - 1) rest)) @ concat ?rest"
        using Cons by (simp flip: concat_append)
      ultimately show ?thesis by (metis append.assoc sublist_append)
    qed
  qed (use less.prems in simp)
qed

end

lemma auth_match_hides:
  assumes "auth_match gs = Some (out, n)" and "scrubbable s" and "sublist s (a @ out @ r)"
  shows "sublist s (a @ concat gs) \<or> sublist s r"
proof -
  obtain k where out: "out = concat (take k gs) @ PLACEHOLDER"
    using assms(1) by (auto simp: auth_match_def split: option.splits)
  then have "sublist s ((a @ concat (take k gs)) @ PLACEHOLDER @ r)" using assms(3) by simp
  then have "sublist s (a @ concat (take k gs)) \<or> sublist s r"
    using sublist_around_placeholder scrubbable_facts(2,3) [OF assms(2)] by blast
  moreover have "a @ concat gs = (a @ concat (take k gs)) @ concat (drop k gs)" by (simp flip: concat_append)
  ultimately show ?thesis by (metis sublist_append)
qed

lemma lit_first: "lit (c # cs) (g # gs) = Some rest \<Longrightarrow> fold_point g = [c]"
  by (simp split: if_splits)

lemma lower_char_b: "lower_char c = CHR ''b'' \<Longrightarrow> ascii_char c \<and> ascii_word c"
proof -
  assume "lower_char c = CHR ''b''"
  then have "(of_char (lower_char c) :: nat) = 98" by simp
  then have "(of_char c :: nat) = 98 \<or> (of_char c :: nat) = 66"
    by (auto simp: lower_char_def less_eq_char_def mod_less split: if_splits)
  then show ?thesis by (auto simp: ascii_char_def ascii_word_def less_eq_char_def)
qed

lemma fold_point_b: "fold_point g = ''b'' \<Longrightarrow> word_point uw g"
  using lower_char_b by (auto simp: fold_point_def py_lower_def word_point_def split: if_splits)

lemma last_of_point: "point_ok p \<Longrightarrow> ascii_char (last p) \<Longrightarrow> p = [last p]"
  by (cases p; cases "tl p" rule: rev_cases) (auto simp: point_ok_def list_all_iff utf8_cont_def ascii_char_def)

text \<open>Before a \<open>bearer\<close> at a word boundary there is no letter, so a secret does not run into it.\<close>

lemma bearer_runs_in:
  assumes "scrubbable s" and "sublist s (a @ ''Bearer '')" and "behind prev a" and "at_boundary uw prev g" and "word_point uw g"
  shows "sublist s a"
proof (rule ccontr)
  assume out: "\<not> sublist s a"
  note secret = scrubbable_facts [OF assms(1)]
  obtain u v where s: "s = u @ v" and u: "suffix u a" and v: "prefix v ''Bearer ''"
    using assms(2) out secret(4) unfolding sublist_append by blast
  have "u \<noteq> []" using s v secret(4) by (auto dest: prefix_imp_sublist)
  moreover have "v \<noteq> []" using s u out by (auto dest: suffix_imp_sublist)
  ultimately have w: "ascii_word (last u)" using secret(6) [OF s] v by blast
  have "a \<noteq> []" using u \<open>u \<noteq> []\<close> by auto
  then obtain p b where p: "prev = Some p" "point_ok p" "a = b @ p" using assms(3) by (auto simp: behind_def)
  then have "p \<noteq> []" by (simp add: point_ok_def)
  then have "last p = last u" using u \<open>u \<noteq> []\<close> p(3) by (auto simp: suffix_def) (metis last_append)
  moreover have "ascii_char (last u)" using secret(5) s \<open>u \<noteq> []\<close> by simp
  ultimately have "p = [last u]" using last_of_point [OF p(2)] by simp
  then have "word_point uw p" using w \<open>ascii_char (last u)\<close> by (simp add: word_point_def)
  then show False using assms(4,5) p(1) by (simp add: at_boundary_def)
qed

lemma bearer_match_hides:
  assumes m: "bearer_match gs = Some (out, n)" and gs: "gs = g # rest" and b: "at_boundary uw prev g" and a: "behind prev a"
    and s: "scrubbable s" and "sublist s (a @ out @ r)"
  shows "sublist s (a @ concat gs) \<or> sublist s r"
proof -
  obtain r1 where l: "lit ''bearer'' gs = Some r1" and out: "out = ''Bearer '' @ PLACEHOLDER"
    using m by (auto simp: bearer_match_def split: option.splits list.splits if_splits)
  have "word_point uw g" using lit_first l gs fold_point_b by blast
  have "sublist s ((a @ ''Bearer '') @ PLACEHOLDER @ r)" using assms(6) out by simp
  then have "sublist s (a @ ''Bearer '') \<or> sublist s r"
    using sublist_around_placeholder scrubbable_facts [OF s] by blast
  then show ?thesis using bearer_runs_in [OF s _ a b \<open>word_point uw g\<close>] by (auto simp: sublist_append)
qed

interpretation auth: hiding_matcher uw auth_match for uw
  by unfold_locales (rule auth_match_hides)

interpretation bearer: hiding_matcher uw bearer_match for uw
  by unfold_locales (rule bearer_match_hides)

lemma point_ok_py_chars: "list_all point_ok (py_chars s)"
  by (induction s rule: py_chars.induct) (auto simp: point_ok_def list_all_iff dest: set_takeWhileD)

lemma redact_hides:
  assumes "scrubbable s" and "s \<in> set secrets"
  shows "\<not> sublist s (redact uw secrets t)"
proof -
  let ?t1 = "scrub_registered secrets t"
  let ?t2 = "re_sub uw auth_match None (py_chars ?t1)"
  have "\<not> sublist s ?t1" using scrub_registered_removes assms by blast
  then have "\<not> sublist s ?t2"
    using auth.re_sub_hides [OF assms(1) point_ok_py_chars, of None "[]" uw ?t1] by (auto simp: behind_def)
  then have "\<not> sublist s (re_sub uw bearer_match None (py_chars ?t2))"
    using bearer.re_sub_hides [OF assms(1) point_ok_py_chars, of None "[]" uw ?t2] by (auto simp: behind_def)
  then show ?thesis using scrubbable_facts(1) [OF assms(1)] by (simp add: redact_def)
qed

section \<open>Log lines\<close>

lemma registered: "t \<in> set (register_secret (Some s) registry) \<longleftrightarrow> t \<in> set registry \<or> t = s \<and> 4 \<le> py_len s"
  by (auto simp: register_secret_def)

lemma all_registered:
  "t \<in> set (fold (\<lambda>s. register_secret (Some s)) secrets registry) \<longleftrightarrow> t \<in> set registry \<or> t \<in> set secrets \<and> 4 \<le> py_len t"
  by (induction secrets arbitrary: registry) (auto simp: registered)

lemma log_line_is_redacted:
  "log_line env lg cid r = Some line \<Longrightarrow> \<exists>t. line = redact (le_alnum env) (lg_secrets lg) t"
  by (auto simp: log_line_def Let_def json_format_def console_format_def split: if_splits)

lemma secret_values_iff: "t \<in> set (secret_values st) \<longleftrightarrow> t \<noteq> [] \<and> (vibe_api_token st = Some t \<or> vibe_webhook_secret st = Some t)"
  by (auto simp: secret_values_def token_value_def webhook_secret_value_def unset_def List.map_filter_def)


definition demo_record :: log_record where
  "demo_record = \<lparr>lr_name = ''app'', lr_levelname = ''INFO'', lr_msg = JStr ''sending oc_token_1'', lr_args = PosArgs [],
     lr_extras = [(''headers'', JObj [(''a'', JStr ''oc_token_1'')])], lr_exc = Some ''oc_token_1 was refused''\<rparr>"

definition demo_log_env :: log_env where
  "demo_log_env = \<lparr>le_alnum = (\<lambda>g. True), le_percent = (\<lambda>m a. Some m), le_time = (\<lambda>f. ''now'')\<rparr>"

definition demo_logging :: logging_setup where
  "demo_logging = \<lparr>lg_secrets = [''oc_token_1''], lg_json = False, lg_levels = [(''root'', ''INFO''), (''httpx'', ''WARNING''), (''httpcore'', ''WARNING'')],
     lg_funnelled = [''uvicorn'', ''uvicorn.error'', ''uvicorn.access'', ''httpx'', ''httpcore'']\<rparr>"


text \<open>What is not registered is recognised by its shape only, and of an \<open>Authorization\<close> header in a scheme other
  than bearer the pattern takes the scheme for the credential: the match ends before what follows it.\<close>

lemma space_point: "is_space [c] \<longleftrightarrow> (of_char c :: nat) \<in> {9, 10, 11, 12, 13, 28, 29, 30, 31, 32}"
proof -
  have "c = char_of (n :: nat) \<longleftrightarrow> of_char c = n" if "n < 256" for n
    using that by (metis of_char_of char_of_char mod_less)
  then show ?thesis by (simp add: is_space_def space_chars_def bytes_def upt_rec)
qed

lemma char_of_98: "char_of (98 :: nat) = CHR ''b''"
  by code_simp

lemmas point_simps = char_of_98 space_point value_point_def spaces_def opt_point_def fold_point_def bytes_def py_lower_def lower_char_def less_eq_char_def

lemma other_scheme_survives:
  "separator (map (\<lambda>c. [c]) '': Basic dXNlcjpw'') = Some (map (\<lambda>c. [c]) ''Basic dXNlcjpw'')"
  "credential (map (\<lambda>c. [c]) ''Basic dXNlcjpw'') = Some (map (\<lambda>c. [c]) '' dXNlcjpw'')"
  "credential (map (\<lambda>c. [c]) ''Bearer dXNlcjpw'') = Some []"
  by (simp_all add: separator_def credential_def bearer_prefix_def point_simps)

end
