(* ===== verification/Catalog_Diff.thy ===== *)
theory Catalog_Diff
  imports Policy Capabilities "HOL-Library.Product_Lexorder"
begin

text \<open>
  Refreshing the catalog snapshot the mock mode runs on (\<open>scripts/refresh_capabilities.py\<close>): what
  changed between two payloads of \<open>GET /capabilities\<close>, and when the snapshot is replaced. A line of
  the report is a constructor with the values it prints. The request and the file are the caller's.
\<close>

section \<open>The comparison\<close>

type_synonym model_id = "string \<times> string"

definition models_of_entries :: "string \<Rightarrow> json \<Rightarrow> (model_id \<times> obj) list" where
  "models_of_entries ty entries =
     (case entries of
        JObj es \<Rightarrow> List.map_filter (\<lambda>(key, spec). case spec of JObj o1 \<Rightarrow> Some ((ty, key), o1) | _ \<Rightarrow> None) es
      | _ \<Rightarrow> [])"

definition models_of :: "obj \<Rightarrow> exn + (model_id \<times> obj) list" where
  "models_of payload =
     (case dict_items (j_or (jget payload ''models'') (JObj [])) of
        Inl e \<Rightarrow> Inl e
      | Inr items \<Rightarrow> Inr (concat (map (\<lambda>(ty, entries). models_of_entries ty entries) items)))"

definition RUBLE :: string where
  "RUBLE = bytes [226, 130, 189]"

definition spec_price_label :: "obj \<Rightarrow> string" where
  "spec_price_label spec =
     (if as_num (jget spec ''price'') \<noteq> None then py_str (jget spec ''price'') @ RUBLE
      else if truthy (jget spec ''per_second'') then py_str (jget spec ''per_second'') @ RUBLE @ ''/'' @ bytes [209, 129]
      else bytes [208, 191, 208, 190, 32, 209, 130, 208, 190, 208, 186, 208, 181, 208, 189, 208, 176, 208, 188, 47, 208, 190,
        209, 134, 208, 181, 208, 189, 208, 186, 208, 181])"

datatype change =
    Added model_id string
  | Removed model_id
  | Repriced model_id string string
  | Field_changed model_id string json json
  | Types_changed "json list" "json list"

definition spec_changes :: "model_id \<Rightarrow> obj \<Rightarrow> obj \<Rightarrow> change list" where
  "spec_changes key before after =
     (if \<not> py_eq (jget before ''price'') (jget after ''price'')
      then [Repriced key (spec_price_label before) (spec_price_label after)] else [])
     @ concat (map (\<lambda>field. if \<not> py_eq (jget before field) (jget after field)
         then [Field_changed key field (jget before field) (jget after field)] else []) [''required'', ''optional''])"

text \<open>\<open>set(v or [])\<close>: lists and dictionaries cannot be members.\<close>

definition json_hashable :: "json \<Rightarrow> bool" where
  "json_hashable v = (case v of JArr xs \<Rightarrow> False | JObj o1 \<Rightarrow> False | _ \<Rightarrow> True)"

fun dedup :: "json list \<Rightarrow> json list" where
  "dedup [] = []"
| "dedup (x # xs) = x # filter (\<lambda>y. \<not> py_eq x y) (dedup xs)"

definition json_set :: "json \<Rightarrow> exn + json list" where
  "json_set v =
     (case iter_json (j_or v (JArr [])) of
        Inl e \<Rightarrow> Inl e
      | Inr xs \<Rightarrow> if list_all json_hashable xs then Inr (dedup xs) else Inl (TypeError (Text ''unhashable type'')))"

definition same_set :: "json list \<Rightarrow> json list \<Rightarrow> bool" where
  "same_set xs ys \<longleftrightarrow> list_all (\<lambda>x. py_in x ys) xs \<and> list_all (\<lambda>y. py_in y xs) ys"

text \<open>\<open>sorted\<close>: members that cannot be compared are a \<open>TypeError\<close>.\<close>

definition sort_json :: "json list \<Rightarrow> exn + json list" where
  "sort_json xs =
     (if length xs \<le> 1 then Inr xs
      else if list_all (\<lambda>x. as_str x \<noteq> None) xs then Inr (sort_key (\<lambda>x. the (as_str x)) xs)
      else if list_all (\<lambda>x. as_num x \<noteq> None) xs then Inr (sort_key (\<lambda>x. the (as_num x)) xs)
      else Inl (TypeError (Text ''not supported between instances'')))"

definition type_changes :: "obj \<Rightarrow> obj \<Rightarrow> exn + change list" where
  "type_changes old new =
     (case json_set (jget old ''types'') of Inl e \<Rightarrow> Inl e | Inr old_types \<Rightarrow>
     (case json_set (jget new ''types'') of Inl e \<Rightarrow> Inl e | Inr new_types \<Rightarrow>
        if same_set old_types new_types then Inr []
        else (case sort_json old_types of Inl e \<Rightarrow> Inl e | Inr os \<Rightarrow>
             (case sort_json new_types of Inl e \<Rightarrow> Inl e | Inr ns \<Rightarrow> Inr [Types_changed os ns]))))"

definition model_changes :: "(model_id \<times> obj) list \<Rightarrow> (model_id \<times> obj) list \<Rightarrow> change list" where
  "model_changes old_models new_models =
     (let olds = map fst old_models; news = map fst new_models in
      map (\<lambda>k. Added k (spec_price_label (the (map_of new_models k)))) (sort (filter (\<lambda>k. k \<notin> set olds) (remdups news)))
      @ map Removed (sort (filter (\<lambda>k. k \<notin> set news) (remdups olds)))
      @ concat (map (\<lambda>k. spec_changes k (the (map_of old_models k)) (the (map_of new_models k)))
          (sort (filter (\<lambda>k. k \<in> set news) (remdups olds)))))"

definition catalog_diff :: "obj \<Rightarrow> obj \<Rightarrow> exn + change list" where
  "catalog_diff old new =
     (case models_of old of Inl e \<Rightarrow> Inl e | Inr old_models \<Rightarrow>
     (case models_of new of Inl e \<Rightarrow> Inl e | Inr new_models \<Rightarrow>
     (case type_changes old new of Inl e \<Rightarrow> Inl e | Inr types \<Rightarrow> Inr (model_changes old_models new_models @ types))))"

section \<open>The script\<close>

text \<open>\<open>main\<close>: the exit code and the snapshot the file holds afterwards.\<close>

definition refresh :: "bool \<Rightarrow> obj \<Rightarrow> obj \<Rightarrow> exn + int \<times> obj" where
  "refresh write current live =
     (case catalog_diff current live of
        Inl e \<Rightarrow> Inl e
      | Inr changes \<Rightarrow> Inr (if changes = [] then (0, current) else if \<not> write then (1, current) else (0, live)))"

section \<open>What an empty report means\<close>

text \<open>Two catalogs agree when they list the same models, each with the same price and the same required and
  optional parameters, and the same types.\<close>

definition same_spec :: "obj \<Rightarrow> obj \<Rightarrow> bool" where
  "same_spec a b \<longleftrightarrow> list_all (\<lambda>f. py_eq (jget a f) (jget b f)) [''price'', ''required'', ''optional'']"

definition same_catalog :: "obj \<Rightarrow> obj \<Rightarrow> bool" where
  "same_catalog a b \<longleftrightarrow>
     (\<exists>ma mb. models_of a = Inr ma \<and> models_of b = Inr mb \<and> (\<forall>k. rel_option same_spec (map_of ma k) (map_of mb k))) \<and>
     (\<exists>ta tb. json_set (jget a ''types'') = Inr ta \<and> json_set (jget b ''types'') = Inr tb \<and> same_set ta tb)"

lemma spec_changes_Nil: "spec_changes k a b = [] \<longleftrightarrow> same_spec a b"
  by (simp add: spec_changes_def same_spec_def)

lemma type_changes_Nil:
  "type_changes a b = Inr [] \<longleftrightarrow>
     (\<exists>ta tb. json_set (jget a ''types'') = Inr ta \<and> json_set (jget b ''types'') = Inr tb \<and> same_set ta tb)"
  by (auto simp: type_changes_def split: sum.splits if_splits)

lemma sorted_Nil: "sort xs = [] \<longleftrightarrow> xs = []"
  by (metis length_0_conv length_sort)

lemma map_of_in_keys: "k \<in> set (map fst ms) \<longleftrightarrow> map_of ms k \<noteq> None"
  by (simp add: map_of_eq_None_iff)

lemma extra_keys_Nil: "sort (filter (\<lambda>k. k \<notin> set xs) (remdups ys)) = [] \<longleftrightarrow> set ys \<subseteq> set xs"
  by (auto simp: sorted_Nil filter_empty_conv)

lemma common_keys_Nil:
  "concat (map f (sort (filter (\<lambda>k. k \<in> set ys) (remdups xs)))) = [] \<longleftrightarrow> (\<forall>k \<in> set xs \<inter> set ys. f k = [])"
  by auto

lemma model_changes_Nil:
  "model_changes ma mb = [] \<longleftrightarrow> (\<forall>k. rel_option same_spec (map_of ma k) (map_of mb k))"
proof -
  have "model_changes ma mb = [] \<longleftrightarrow> set (map fst ma) = set (map fst mb) \<and>
     (\<forall>k \<in> set (map fst ma) \<inter> set (map fst mb). same_spec (the (map_of ma k)) (the (map_of mb k)))"
    unfolding model_changes_def Let_def append_is_Nil_conv map_is_Nil_conv extra_keys_Nil common_keys_Nil spec_changes_Nil by blast
  also have "\<dots> \<longleftrightarrow> (\<forall>k. rel_option same_spec (map_of ma k) (map_of mb k))"
  proof -
    have rel: "rel_option same_spec a b \<longleftrightarrow> (a \<noteq> None \<longleftrightarrow> b \<noteq> None) \<and> (a \<noteq> None \<and> b \<noteq> None \<longrightarrow> same_spec (the a) (the b))" for a b
      by (cases a; cases b) simp_all
    show ?thesis by (simp only: rel all_conj_distrib set_eq_iff Ball_def Int_iff map_of_in_keys)
  qed
  finally show ?thesis .
qed

lemma catalog_diff_Nil: "catalog_diff a b = Inr [] \<longleftrightarrow> same_catalog a b"
  unfolding same_catalog_def type_changes_Nil [symmetric]
  by (auto simp: catalog_diff_def model_changes_Nil split: sum.splits)


definition demo_payload :: "int \<Rightarrow> obj" where
  "demo_payload price = [(''types'', JArr [JStr ''image'']), (''models'', JObj [(''image'', JObj [(''z-image'', JObj [(''price'', JInt price)])])])]"


text \<open>The rate of a model priced by the second is not compared: a catalog that raises it is reported as
  unchanged, and not even \<open>--write\<close> brings the new rate into the snapshot.\<close>

lemma rate_change_goes_unnoticed:
  "\<exists>old new. cap_get (parse_capabilities old) ''video'' ''veo3'' \<noteq> cap_get (parse_capabilities new) ''video'' ''veo3'' \<and>
     refresh True old new = Inr (0, old)"
proof -
  let ?c = "\<lambda>rate. [(''models'', JObj [(''video'', JObj [(''veo3'', JObj [(''per_second'', JInt rate)])])])]"
  have "cap_get (parse_capabilities (?c 9)) ''video'' ''veo3'' \<noteq> cap_get (parse_capabilities (?c 12)) ''video'' ''veo3''" by code_simp
  moreover have "refresh True (?c 9) (?c 12) = Inr (0, ?c 9)" by code_simp
  ultimately show ?thesis by blast
qed

end
