(* ===== verification/Tasks.thy ===== *)
theory Tasks
  imports Json
begin

text \<open>
  Background tasks. The event loop is the list of its live tasks; a task that is cancelled and awaited
  is gone, because every task of the application lets \<open>CancelledError\<close> through. On it: the periodic
  task (\<open>app/services/scheduling.py\<close>), the two housekeepers that own one (\<open>start\<close> and \<open>stop\<close> of
  \<open>Reconciler\<close> and \<open>RetentionService\<close>), and the workers of the job queue. The locale
  \<open>background_service\<close> is what startup and shutdown need of each of them.
\<close>

section \<open>The event loop\<close>

record event_loop =
  el_next :: nat
  el_tasks :: "(nat \<times> string) list"

definition create_task :: "string \<Rightarrow> event_loop \<Rightarrow> nat \<times> event_loop" where
  "create_task name l = (el_next l, l\<lparr>el_next := Suc (el_next l), el_tasks := el_tasks l @ [(el_next l, name)]\<rparr>)"

text \<open>\<open>task.cancel()\<close> and waiting for the task\<close>

definition cancel_task :: "nat \<Rightarrow> event_loop \<Rightarrow> event_loop" where
  "cancel_task h l = l\<lparr>el_tasks := filter (\<lambda>t. fst t \<noteq> h) (el_tasks l)\<rparr>"

definition loop_ok :: "event_loop \<Rightarrow> bool" where
  "loop_ok l \<longleftrightarrow> list_all (\<lambda>t. fst t < el_next l) (el_tasks l)"

section \<open>The contract\<close>

text \<open>A service owns the tasks it started. Starting adds fresh tasks and owns exactly them; stopping ends
  what it owns and nothing else.\<close>

locale background_service =
  fixes begins :: "'s \<Rightarrow> event_loop \<Rightarrow> 's \<times> event_loop"
    and stops :: "'s \<Rightarrow> event_loop \<Rightarrow> 's \<times> event_loop"
    and owned :: "'s \<Rightarrow> nat list"
  assumes begins_fresh: "owned s = [] \<Longrightarrow> begins s l = (s', l') \<Longrightarrow>
      \<exists>ts. el_tasks l' = el_tasks l @ ts \<and> owned s' = map fst ts \<and> list_all (\<lambda>t. el_next l \<le> fst t \<and> fst t < el_next l') ts \<and> el_next l \<le> el_next l'"
    and stops_owned: "stops s l = (s', l') \<Longrightarrow>
      el_tasks l' = filter (\<lambda>t. fst t \<notin> set (owned s)) (el_tasks l) \<and> owned s' = [] \<and> el_next l' = el_next l"
begin

lemma begins_ok: "loop_ok l \<Longrightarrow> owned s = [] \<Longrightarrow> begins s l = (s', l') \<Longrightarrow> loop_ok l'"
  using begins_fresh [of s l s' l'] by (fastforce simp: loop_ok_def list_all_iff)

lemma stops_ok: "loop_ok l \<Longrightarrow> stops s l = (s', l') \<Longrightarrow> loop_ok l'"
  using stops_owned [of s l s' l'] by (auto simp: loop_ok_def list_all_iff)

text \<open>What was running before a start is what runs after the stop.\<close>

lemma stops_undoes_begins:
  assumes "loop_ok l" and "owned s = []" and "begins s l = (s', l')" and "stops s' l' = (s'', l'')"
  shows "el_tasks l'' = el_tasks l"
proof -
  obtain ts where ts: "el_tasks l' = el_tasks l @ ts" "owned s' = map fst ts" "list_all (\<lambda>t. el_next l \<le> fst t \<and> fst t < el_next l') ts"
    using begins_fresh [OF assms(2,3)] by auto
  have "filter (\<lambda>t. fst t \<notin> set (map fst ts)) (el_tasks l) = el_tasks l"
    using assms(1) ts(3) by (fastforce simp: loop_ok_def list_all_iff filter_id_conv)
  moreover have "filter (\<lambda>t. fst t \<notin> set (map fst ts)) ts = []"
    by (auto simp: filter_empty_conv)
  ultimately show ?thesis using stops_owned [OF assms(4)] ts(1,2) by simp
qed

end

section \<open>Periodic tasks\<close>

record periodic_task =
  pt_name :: string
  pt_interval_seconds :: rat
  pt_task :: "nat option"

definition new_periodic :: "string \<Rightarrow> rat \<Rightarrow> periodic_task" where
  "new_periodic name interval = \<lparr>pt_name = name, pt_interval_seconds = interval, pt_task = None\<rparr>"

definition periodic_running :: "periodic_task \<Rightarrow> bool" where
  "periodic_running t \<longleftrightarrow> pt_task t \<noteq> None"

definition periodic_start :: "periodic_task \<Rightarrow> event_loop \<Rightarrow> periodic_task \<times> event_loop" where
  "periodic_start t l =
     (if pt_interval_seconds t \<le> 0 then (t, l)
      else case pt_task t of
        None \<Rightarrow> (case create_task (pt_name t) l of (h, l') \<Rightarrow> (t\<lparr>pt_task := Some h\<rparr>, l'))
      | Some _ \<Rightarrow> (t, l))"

definition periodic_stop :: "periodic_task \<Rightarrow> event_loop \<Rightarrow> periodic_task \<times> event_loop" where
  "periodic_stop t l =
     (t\<lparr>pt_task := None\<rparr>, case pt_task t of Some h \<Rightarrow> cancel_task h l | None \<Rightarrow> l)"

definition periodic_owned :: "periodic_task \<Rightarrow> nat list" where
  "periodic_owned t = (case pt_task t of Some h \<Rightarrow> [h] | None \<Rightarrow> [])"

interpretation periodic: background_service periodic_start periodic_stop periodic_owned
  by unfold_locales
    (auto simp: periodic_start_def periodic_stop_def periodic_owned_def create_task_def cancel_task_def
      split: if_splits option.splits)

section \<open>Housekeepers\<close>

text \<open>\<open>_loop_task\<close>: no task before the first start. \<open>start\<close> makes a new task, whatever was there.\<close>

type_synonym housekeeper = "periodic_task option"

definition housekeeper_running :: "housekeeper \<Rightarrow> bool" where
  "housekeeper_running hk = (case hk of Some t \<Rightarrow> periodic_running t | None \<Rightarrow> False)"

definition reconciler_start :: "rat \<Rightarrow> housekeeper \<Rightarrow> event_loop \<Rightarrow> housekeeper \<times> event_loop" where
  "reconciler_start interval hk l =
     (case periodic_start (new_periodic ''reconciler'' interval) l of (t, l') \<Rightarrow> (Some t, l'))"

definition reconciler_stop :: "housekeeper \<Rightarrow> event_loop \<Rightarrow> housekeeper \<times> event_loop" where
  "reconciler_stop hk l = (None, case hk of Some t \<Rightarrow> snd (periodic_stop t l) | None \<Rightarrow> l)"

definition retention_start :: "rat \<Rightarrow> housekeeper \<Rightarrow> event_loop \<Rightarrow> housekeeper \<times> event_loop" where
  "retention_start interval hk l =
     (case periodic_start (new_periodic ''retention'' interval) l of (t, l') \<Rightarrow> (Some t, l'))"

definition retention_stop :: "housekeeper \<Rightarrow> event_loop \<Rightarrow> housekeeper \<times> event_loop" where
  "retention_stop hk l = (None, case hk of Some t \<Rightarrow> snd (periodic_stop t l) | None \<Rightarrow> l)"

definition housekeeper_owned :: "housekeeper \<Rightarrow> nat list" where
  "housekeeper_owned hk = (case hk of Some t \<Rightarrow> periodic_owned t | None \<Rightarrow> [])"

lemma housekeeper_owned_None [simp]: "housekeeper_owned None = []"
  by (simp add: housekeeper_owned_def)

lemma new_periodic_owned [simp]: "periodic_owned (new_periodic name interval) = []"
  by (simp add: periodic_owned_def new_periodic_def)

lemma housekeeper_service:
  assumes "\<And>hk l. begins hk l = (case periodic_start (new_periodic name interval) l of (t, l') \<Rightarrow> (Some t, l'))"
    and "\<And>hk l. stops hk l = (None, case hk of Some t \<Rightarrow> snd (periodic_stop t l) | None \<Rightarrow> l)"
  shows "background_service begins stops housekeeper_owned"
proof
  fix s l s' l' assume b: "begins s l = (s', l')"
  then obtain t where t: "periodic_start (new_periodic name interval) l = (t, l')" "s' = Some t"
    by (auto simp: assms(1) split: prod.splits)
  show "\<exists>ts. el_tasks l' = el_tasks l @ ts \<and> housekeeper_owned s' = map fst ts \<and>
      list_all (\<lambda>t. el_next l \<le> fst t \<and> fst t < el_next l') ts \<and> el_next l \<le> el_next l'"
    using periodic.begins_fresh [OF new_periodic_owned t(1)] t(2) by (simp add: housekeeper_owned_def)
next
  fix s l s' l' assume st: "stops s l = (s', l')"
  show "el_tasks l' = filter (\<lambda>t. fst t \<notin> set (housekeeper_owned s)) (el_tasks l) \<and> housekeeper_owned s' = [] \<and> el_next l' = el_next l"
  proof (cases s)
    case None
    then show ?thesis using st by (auto simp: assms(2) housekeeper_owned_def)
  next
    case (Some t)
    obtain t' where "periodic_stop t l = (t', l')" using st Some by (cases "periodic_stop t l") (auto simp: assms(2))
    then show ?thesis using periodic.stops_owned [of t l t' l'] st Some by (auto simp: assms(2) housekeeper_owned_def)
  qed
qed

interpretation reconciler: background_service "reconciler_start interval" reconciler_stop housekeeper_owned
  by (rule housekeeper_service) (simp_all add: reconciler_start_def reconciler_stop_def)

interpretation retention: background_service "retention_start interval" retention_stop housekeeper_owned
  by (rule housekeeper_service) (simp_all add: retention_start_def retention_stop_def)

text \<open>Starting a housekeeper that runs leaves its first task without an owner: stopping it once does not
  end that task.\<close>

lemma second_start_loses_a_task:
  assumes "0 < interval"
  shows "\<exists>hk l hk2 l2 hk3 l3. reconciler_start interval None \<lparr>el_next = 0, el_tasks = []\<rparr> = (hk, l) \<and> reconciler_start interval hk l = (hk2, l2) \<and>
    reconciler_stop hk2 l2 = (hk3, l3) \<and> el_tasks l3 = [(0, ''reconciler'')] \<and> \<not> housekeeper_running hk3"
  using assms
  by (simp add: reconciler_start_def reconciler_stop_def periodic_start_def periodic_stop_def new_periodic_def create_task_def
      cancel_task_def housekeeper_running_def)

section \<open>The workers of the job queue\<close>

record worker_pool =
  wp_concurrency :: nat
  wp_workers :: "nat list"

definition new_pool :: "int \<Rightarrow> worker_pool" where
  "new_pool concurrency = \<lparr>wp_concurrency = nat (max 1 concurrency), wp_workers = []\<rparr>"

lemma new_pool_workers [simp]: "wp_workers (new_pool n) = []" "0 < wp_concurrency (new_pool n)"
  by (simp_all add: new_pool_def)

text \<open>Workers are numbered from \<open>i\<close>.\<close>

fun create_workers :: "nat \<Rightarrow> nat \<Rightarrow> event_loop \<Rightarrow> nat list \<times> event_loop" where
  "create_workers i 0 l = ([], l)"
| "create_workers i (Suc n) l =
     (case create_task (''job-worker-'' @ show_nat i) l of
        (h, l') \<Rightarrow> (case create_workers (Suc i) n l' of (hs, l'') \<Rightarrow> (h # hs, l'')))"

definition pool_start :: "worker_pool \<Rightarrow> event_loop \<Rightarrow> worker_pool \<times> event_loop" where
  "pool_start p l =
     (if wp_workers p \<noteq> [] then (p, l)
      else case create_workers 0 (wp_concurrency p) l of (hs, l') \<Rightarrow> (p\<lparr>wp_workers := hs\<rparr>, l'))"

definition pool_stop :: "worker_pool \<Rightarrow> event_loop \<Rightarrow> worker_pool \<times> event_loop" where
  "pool_stop p l = (p\<lparr>wp_workers := []\<rparr>, fold cancel_task (wp_workers p) l)"

lemma create_workers_result:
  "create_workers i n l = (hs, l') \<Longrightarrow>
     hs = [el_next l..<el_next l + n] \<and> el_next l' = el_next l + n \<and>
     (\<exists>ts. el_tasks l' = el_tasks l @ ts \<and> map fst ts = hs)"
proof (induction n arbitrary: i l hs l')
  case (Suc n)
  let ?l = "snd (create_task (''job-worker-'' @ show_nat i) l)"
  obtain hs' where hs: "create_workers (Suc i) n ?l = (hs', l')" "hs = el_next l # hs'"
    using Suc.prems by (auto simp: create_task_def split: prod.splits)
  obtain ts where ts: "hs' = [el_next ?l..<el_next ?l + n]" "el_next l' = el_next ?l + n" "el_tasks l' = el_tasks ?l @ ts" "map fst ts = hs'"
    using Suc.IH [OF hs(1)] by auto
  then have "el_tasks l' = el_tasks l @ (el_next l, ''job-worker-'' @ show_nat i) # ts" by (simp add: create_task_def)
  moreover have "hs = [el_next l..<el_next l + Suc n]"
    using upt_conv_Cons [of "el_next l" "el_next l + Suc n"] hs(2) ts(1) by (simp only: create_task_def) simp
  moreover have "map fst ((el_next l, ''job-worker-'' @ show_nat i) # ts) = hs" using hs(2) ts(4) by simp
  ultimately show ?case using ts(2) by (auto simp: create_task_def)
qed simp

lemma fold_cancel: "el_tasks (fold cancel_task hs l) = filter (\<lambda>t. fst t \<notin> set hs) (el_tasks l) \<and> el_next (fold cancel_task hs l) = el_next l"
  by (induction hs arbitrary: l) (auto simp: cancel_task_def intro: filter_cong)

interpretation pool: background_service pool_start pool_stop wp_workers
proof
  fix s l s' l' assume "wp_workers s = []" and "pool_start s l = (s', l')"
  then obtain hs where hs: "create_workers 0 (wp_concurrency s) l = (hs, l')" "s' = s\<lparr>wp_workers := hs\<rparr>"
    by (auto simp: pool_start_def split: prod.splits)
  have r: "hs = [el_next l..<el_next l + wp_concurrency s]" "el_next l' = el_next l + wp_concurrency s"
    using create_workers_result [OF hs(1)] by blast+
  obtain ts where ts: "el_tasks l' = el_tasks l @ ts" "map fst ts = hs" using create_workers_result [OF hs(1)] by blast
  have "list_all (\<lambda>h. el_next l \<le> h \<and> h < el_next l') (map fst ts)"
    unfolding ts(2) r by (simp add: list_all_iff)
  then have "list_all (\<lambda>t. el_next l \<le> fst t \<and> fst t < el_next l') ts" by (simp add: list_all_iff)
  moreover have "wp_workers s' = map fst ts" by (simp add: hs(2) ts(2))
  moreover have "el_next l \<le> el_next l'" by (simp add: r(2))
  ultimately show "\<exists>ts. el_tasks l' = el_tasks l @ ts \<and> wp_workers s' = map fst ts \<and> list_all (\<lambda>t. el_next l \<le> fst t \<and> fst t < el_next l') ts \<and> el_next l \<le> el_next l'"
    using ts(1) by blast
next
  fix s l s' l' assume "pool_stop s l = (s', l')"
  then show "el_tasks l' = filter (\<lambda>t. fst t \<notin> set (wp_workers s)) (el_tasks l) \<and> wp_workers s' = [] \<and> el_next l' = el_next l"
    using fold_cancel [of "wp_workers s" l] by (auto simp: pool_stop_def)
qed

end
