(* ===== verification/Lifecycle.thy ===== *)
theory Lifecycle
  imports Tasks Wiring Retention Reconciler
begin

text \<open>
  The life of one process (\<open>lifespan\<close> in \<open>app/main.py\<close>): the database is opened, the policy and the
  client are made, workers, recovery, reconciler and retention start; shutdown stops them in the
  opposite order, then closes the client and the database. A phase is an effect on \<open>app\<close>; what
  the outside decides about a start is the record \<open>boot\<close>.
\<close>

section \<open>The application\<close>

record 'x app =
  ap_settings :: settings
  ap_world :: "'x world"
  ap_connected :: bool
  ap_policy :: "policy option"
  ap_client_open :: bool
  ap_queue :: worker_pool
  ap_reconciler :: housekeeper
  ap_retention :: housekeeper
  ap_loop :: event_loop

record boot =
  bt_open :: "exn option"
  bt_schema :: "exn option"
  bt_read :: "string \<Rightarrow> json option"

type_synonym ('x, 'a) phase = "('x app, exn, 'a) eff"

section \<open>The connection\<close>

text \<open>Opening may fail before the connection exists, preparing it afterwards.\<close>

definition database_connect :: "boot \<Rightarrow> ('x, unit) phase" where
  "database_connect b =
     bind (gets ap_connected) (\<lambda>open.
       if open then ret ()
       else case bt_open b of
         Some e \<Rightarrow> raise e
       | None \<Rightarrow> andthen (modify (ap_connected_update (\<lambda>_. True)))
           (case bt_schema b of Some e \<Rightarrow> raise e | None \<Rightarrow> ret ()))"

definition database_close :: "('x, unit) phase" where
  "database_close = modify (ap_connected_update (\<lambda>_. False))"

text \<open>\<open>conn\<close>: every query goes through it.\<close>

definition on_connection :: "('x, 'a) serv \<Rightarrow> ('x, 'a) phase" where
  "on_connection m a =
     (if ap_connected a then (case m (ap_world a) of (r, w) \<Rightarrow> (r, a\<lparr>ap_world := w\<rparr>))
      else (Inl (RuntimeError (Text ''Database.connect() must be awaited before use'')), a))"

section \<open>Startup and shutdown\<close>

definition load_policy :: "boot \<Rightarrow> ('x, unit) phase" where
  "load_policy b =
     bind (gets (policy_file \<circ> ap_settings)) (\<lambda>file. case policy_load (bt_read b) file of
       Inl e \<Rightarrow> raise e
     | Inr p \<Rightarrow> modify (ap_policy_update (\<lambda>_. Some p)))"

definition make_client :: "('x, unit) phase" where
  "make_client = modify (ap_client_open_update (\<lambda>_. True))"

definition make_queue :: "('x, unit) phase" where
  "make_queue = modify (\<lambda>a. a\<lparr>ap_queue := new_pool (executor_concurrency (ap_settings a))\<rparr>)"

definition start_queue :: "('x, unit) phase" where
  "start_queue = modify (\<lambda>a. case pool_start (ap_queue a) (ap_loop a) of (q, l) \<Rightarrow> a\<lparr>ap_queue := q, ap_loop := l\<rparr>)"

definition start_reconciler :: "('x, unit) phase" where
  "start_reconciler = modify (\<lambda>a.
     case reconciler_start (reconcile_interval_seconds (ap_settings a)) None (ap_loop a) of
       (hk, l) \<Rightarrow> a\<lparr>ap_reconciler := hk, ap_loop := l\<rparr>)"

definition start_retention :: "('x, unit) phase" where
  "start_retention = modify (\<lambda>a.
     case retention_start (retention_interval_seconds (ap_settings a)) None (ap_loop a) of
       (hk, l) \<Rightarrow> a\<lparr>ap_retention := hk, ap_loop := l\<rparr>)"

definition stop_retention :: "('x, unit) phase" where
  "stop_retention = modify (\<lambda>a. case retention_stop (ap_retention a) (ap_loop a) of (hk, l) \<Rightarrow> a\<lparr>ap_retention := hk, ap_loop := l\<rparr>)"

definition stop_reconciler :: "('x, unit) phase" where
  "stop_reconciler = modify (\<lambda>a. case reconciler_stop (ap_reconciler a) (ap_loop a) of (hk, l) \<Rightarrow> a\<lparr>ap_reconciler := hk, ap_loop := l\<rparr>)"

definition stop_queue :: "('x, unit) phase" where
  "stop_queue = modify (\<lambda>a. case pool_stop (ap_queue a) (ap_loop a) of (q, l) \<Rightarrow> a\<lparr>ap_queue := q, ap_loop := l\<rparr>)"

definition close_client :: "('x, unit) phase" where
  "close_client = modify (ap_client_open_update (\<lambda>_. False))"

definition startup :: "boot \<Rightarrow> ('x, unit) phase list" where
  "startup b =
     [database_connect b, load_policy b, make_client, make_queue, start_queue,
      andthen (on_connection recover_unfinished_jobs) (ret ()), start_reconciler, start_retention]"

definition shutdown :: "('x, unit) phase list" where
  "shutdown = [stop_retention, stop_reconciler, stop_queue, close_client, database_close]"

text \<open>Running phases one after the other, up to the first that raises: how it ended, and the states seen.\<close>

fun run_phases :: "('x, unit) phase list \<Rightarrow> 'x app \<Rightarrow> exn option \<times> 'x app list" where
  "run_phases [] a = (None, [a])"
| "run_phases (m # ms) a =
     (case m a of
        (Inl e, a') \<Rightarrow> (Some e, [a, a'])
      | (Inr _, a') \<Rightarrow> (case run_phases ms a' of (r, seen) \<Rightarrow> (r, a # seen)))"

text \<open>What a worker does with an id it took: the service is put together anew from the state.\<close>

definition app_service :: "crypto \<Rightarrow> 'x client \<Rightarrow> 'x app \<Rightarrow> policy \<Rightarrow> 'x service" where
  "app_service h c a p = build_plan_service (ap_settings a) p h True c"

definition job_runner :: "crypto \<Rightarrow> 'x client \<Rightarrow> policy \<Rightarrow> string \<Rightarrow> ('x, job) phase" where
  "job_runner h c p jid a = on_connection (run_job (app_service h c a p) jid) a"

text \<open>The passes of the two housekeepers.\<close>

definition sweep_and_log :: "'x service \<Rightarrow> ('x, unit) serv" where
  "sweep_and_log sv = andthen (sweep sv) (ret ())"

definition purge_and_log :: "'x service \<Rightarrow> ('x, unit) serv" where
  "purge_and_log sv = andthen (purge sv None) (ret ())"

section \<open>Order\<close>

text \<open>A process that has not started anything.\<close>

definition fresh_app :: "'x app \<Rightarrow> bool" where
  "fresh_app a \<longleftrightarrow> \<not> ap_connected a \<and> ap_policy a = None \<and> \<not> ap_client_open a \<and> wp_workers (ap_queue a) = [] \<and>
     ap_reconciler a = None \<and> ap_retention a = None \<and> el_tasks (ap_loop a) = []"

text \<open>Background tasks run only while there is a database and a client to run on.\<close>

definition resources_open :: "'x app \<Rightarrow> bool" where
  "resources_open a \<longleftrightarrow> (el_tasks (ap_loop a) \<noteq> [] \<longrightarrow> ap_connected a \<and> ap_client_open a \<and> ap_policy a \<noteq> None)"

text \<open>Nothing runs without an owner.\<close>

definition tasks_owned :: "'x app \<Rightarrow> bool" where
  "tasks_owned a \<longleftrightarrow> fst ` set (el_tasks (ap_loop a)) \<subseteq>
     set (wp_workers (ap_queue a)) \<union> set (housekeeper_owned (ap_reconciler a)) \<union> set (housekeeper_owned (ap_retention a))"

lemmas phase_defs = database_connect_def load_policy_def make_client_def make_queue_def start_queue_def start_reconciler_def
  start_retention_def stop_retention_def stop_reconciler_def stop_queue_def close_client_def database_close_def

lemma started_owner:
  assumes "background_service begins stops owned" and "owned s = []" and "begins s l = (s', l')"
  shows "fst ` set (el_tasks l') = fst ` set (el_tasks l) \<union> set (owned s')"
proof -
  obtain ts where "el_tasks l' = el_tasks l @ ts" "owned s' = map fst ts"
    using background_service.begins_fresh [OF assms] by blast
  then show ?thesis by (simp add: image_Un)
qed

lemma recover_returns: "\<exists>ids w'. recover_unfinished_jobs w = (Inr ids, w')"
  by (simp add: recover_apply Let_def)

lemma run_phases_Cons:
  "run_phases (m # ms) a = (r, ss) \<Longrightarrow>
     (\<exists>e a'. m a = (Inl e, a') \<and> r = Some e \<and> ss = [a, a']) \<or>
     (\<exists>a' ss'. m a = (Inr (), a') \<and> run_phases ms a' = (r, ss') \<and> ss = a # ss')"
  by (auto split: prod.splits sum.splits)

lemma run_phases_step: "m a = (Inr (), a') \<Longrightarrow> run_phases ms a' = (r, ss) \<Longrightarrow> run_phases (m # ms) a = (r, a # ss)"
  by simp

lemma run_phases_last: "run_phases ms a = (r, ss) \<Longrightarrow> ss \<noteq> [] \<and> hd ss = a"
  by (cases ms) (auto split: prod.splits sum.splits)

text \<open>The phases after the policy is loaded cannot fail.\<close>

definition services_started :: "'x app \<Rightarrow> 'x app \<Rightarrow> bool" where
  "services_started a c \<longleftrightarrow>
     (\<exists>ids. recover_unfinished_jobs (ap_world a) = (Inr ids, ap_world c)) \<and> ap_settings c = ap_settings a \<and>
     ap_connected c \<and> ap_client_open c \<and> ap_policy c \<noteq> None \<and> wp_workers (ap_queue c) \<noteq> []"

lemma start_services:
  assumes "ap_connected a" and "ap_policy a \<noteq> None" and "el_tasks (ap_loop a) = []" and "ap_reconciler a = None" and "ap_retention a = None"
  shows "\<exists>ss. run_phases [make_client, make_queue, start_queue, andthen (on_connection recover_unfinished_jobs) (ret ()),
      start_reconciler, start_retention] a = (None, ss) \<and>
    (\<forall>s \<in> set ss. resources_open s \<and> tasks_owned s) \<and> services_started a (last ss)"
proof -
  let ?st = "ap_settings a" and ?n = "new_pool (executor_concurrency (ap_settings a))"
  obtain q l1 where q: "pool_start ?n (ap_loop a) = (q, l1)" by fastforce
  obtain ids w where w: "recover_unfinished_jobs (ap_world a) = (Inr ids, w)" using recover_returns by blast
  obtain rc l2 where rc: "reconciler_start (reconcile_interval_seconds ?st) None l1 = (rc, l2)" by fastforce
  obtain rt l3 where rt: "retention_start (retention_interval_seconds ?st) None l2 = (rt, l3)" by fastforce
  have o1: "fst ` set (el_tasks l1) = set (wp_workers q)"
    using started_owner [OF pool.background_service_axioms _ q] assms(3) by simp
  have o2: "fst ` set (el_tasks l2) = set (wp_workers q) \<union> set (housekeeper_owned rc)"
    using started_owner [OF reconciler.background_service_axioms _ rc] o1 by simp
  have o3: "fst ` set (el_tasks l3) = set (wp_workers q) \<union> set (housekeeper_owned rc) \<union> set (housekeeper_owned rt)"
    using started_owner [OF retention.background_service_axioms _ rt] o2 by simp
  have ne: "wp_workers q \<noteq> []"
  proof -
    obtain hs where hs: "create_workers 0 (wp_concurrency ?n) (ap_loop a) = (hs, l1)" "q = ?n\<lparr>wp_workers := hs\<rparr>"
      using q by (auto simp: pool_start_def split: prod.splits)
    have "hs = [el_next (ap_loop a)..<el_next (ap_loop a) + wp_concurrency ?n]" using create_workers_result [OF hs(1)] by blast
    then have "hs \<noteq> []" by simp
    then show ?thesis by (simp add: hs(2))
  qed
  show ?thesis
    using assms o1 o2 o3 ne
    by (simp add: make_client_def make_queue_def start_queue_def start_reconciler_def start_retention_def q w rc rt
        andthen_def bind_apply on_connection_def resources_open_def tasks_owned_def services_started_def)
qed

text \<open>A startup: what every state it visits satisfies, and how it ends.\<close>

lemma startup_succeeds:
  assumes "fresh_app a" and "bt_open b = None" and "bt_schema b = None"
    and "policy_load (bt_read b) (policy_file (ap_settings a)) = Inr p"
  shows "\<exists>ss. run_phases (startup b) a = (None, ss) \<and> (\<forall>s \<in> set ss. resources_open s \<and> tasks_owned s) \<and> services_started a (last ss)"
proof -
  have fresh: "\<not> ap_connected a" "el_tasks (ap_loop a) = []" "ap_reconciler a = None" "ap_retention a = None"
    using assms(1) by (simp_all add: fresh_app_def)
  let ?rest = "[make_client, make_queue, start_queue, andthen (on_connection recover_unfinished_jobs) (ret ()), start_reconciler, start_retention]"
  let ?a = "a\<lparr>ap_connected := True, ap_policy := Some p\<rparr>"
  obtain ss where ss: "run_phases ?rest ?a = (None, ss)" "\<forall>s \<in> set ss. resources_open s \<and> tasks_owned s" "services_started ?a (last ss)"
    using start_services [of ?a] fresh by auto
  have "database_connect b a = (Inr (), a\<lparr>ap_connected := True\<rparr>)"
    using assms(2,3) fresh by (simp add: database_connect_def bind_apply andthen_def)
  moreover have "load_policy b (a\<lparr>ap_connected := True\<rparr>) = (Inr (), ?a)" using assms(4) by (simp add: load_policy_def bind_apply)
  ultimately have "run_phases (startup b) a = (None, a # a\<lparr>ap_connected := True\<rparr> # ss)"
    unfolding startup_def using run_phases_step [OF _ run_phases_step [OF _ ss(1)]] by blast
  moreover have "ss \<noteq> []" using run_phases_last [OF ss(1)] by simp
  ultimately show ?thesis using ss(2,3) fresh by (simp add: resources_open_def tasks_owned_def services_started_def)
qed

lemma startup_result:
  assumes "fresh_app a" and "run_phases (startup b) a = (r, ss)"
  shows "(\<forall>s \<in> set ss. resources_open s \<and> tasks_owned s) \<and>
    (r = None \<longrightarrow> services_started a (last ss)) \<and>
    (r \<noteq> None \<longrightarrow> el_tasks (ap_loop (last ss)) = [] \<and> ap_world (last ss) = ap_world a)"
proof -
  have fresh: "\<not> ap_connected a" "el_tasks (ap_loop a) = []" using assms(1) by (simp_all add: fresh_app_def)
  consider e where "bt_open b = Some e" | e where "bt_open b = None" "bt_schema b = Some e"
    | e where "bt_open b = None" "bt_schema b = None" "policy_load (bt_read b) (policy_file (ap_settings a)) = Inl e"
    | p where "bt_open b = None" "bt_schema b = None" "policy_load (bt_read b) (policy_file (ap_settings a)) = Inr p"
    by (metis not_Some_eq sum.exhaust)
  then show ?thesis
  proof cases
    case (4 p)
    with startup_succeeds [OF assms(1) 4] assms(2) show ?thesis by auto
  qed (use assms(2) fresh in \<open>auto simp: startup_def database_connect_def load_policy_def bind_apply andthen_def resources_open_def tasks_owned_def\<close>)
qed

text \<open>A shutdown ends whatever is owned, in an order that keeps the resources open until no task is left.\<close>

lemma stopped_owner:
  assumes "background_service begins stops owned" and "stops s l = (s', l')"
  shows "fst ` set (el_tasks l') = fst ` set (el_tasks l) - set (owned s) \<and> owned s' = []"
  using background_service.stops_owned [OF assms] by auto

lemma shutdown_result:
  assumes "resources_open a" and "tasks_owned a"
  shows "\<exists>ss. run_phases shutdown a = (None, ss) \<and> (\<forall>s \<in> set ss. resources_open s \<and> tasks_owned s \<and> ap_world s = ap_world a) \<and>
    el_tasks (ap_loop (last ss)) = [] \<and> \<not> ap_connected (last ss) \<and> \<not> ap_client_open (last ss)"
proof -
  obtain rt l1 where rt: "retention_stop (ap_retention a) (ap_loop a) = (rt, l1)" by fastforce
  obtain rc l2 where rc: "reconciler_stop (ap_reconciler a) l1 = (rc, l2)" by fastforce
  obtain q l3 where q: "pool_stop (ap_queue a) l2 = (q, l3)" by fastforce
  note o1 = stopped_owner [OF retention.background_service_axioms rt]
  note o2 = stopped_owner [OF reconciler.background_service_axioms rc]
  note o3 = stopped_owner [OF pool.background_service_axioms q]
  have sub: "fst ` set (el_tasks l1) \<subseteq> set (wp_workers (ap_queue a)) \<union> set (housekeeper_owned (ap_reconciler a))"
    "fst ` set (el_tasks l2) \<subseteq> set (wp_workers (ap_queue a))" "fst ` set (el_tasks l3) = {}"
    using o1 o2 o3 assms(2) by (auto simp: tasks_owned_def)
  have some: "el_tasks l1 \<noteq> [] \<Longrightarrow> el_tasks (ap_loop a) \<noteq> []" "el_tasks l2 \<noteq> [] \<Longrightarrow> el_tasks (ap_loop a) \<noteq> []"
    using o1 o2 by auto
  have none: "el_tasks l3 = []" using sub(3) by simp
  have owns: "housekeeper_owned rt = []" "housekeeper_owned rc = []" "wp_workers q = []" using o1 o2 o3 by simp_all
  show ?thesis
    using assms sub(1,2) some
    by (simp add: shutdown_def stop_retention_def stop_reconciler_def stop_queue_def close_client_def database_close_def rt rc q
        resources_open_def tasks_owned_def owns none)
qed

text \<open>The \<open>try\<close> of the source begins after the startup: where the policy does not load, the connection stays
  open.\<close>

lemma failed_startup_keeps_connection:
  assumes "\<not> ap_connected a" and "bt_open b = None" and "bt_schema b = None"
    and "policy_load (bt_read b) (policy_file (ap_settings a)) = Inl e"
  shows "\<exists>ss. run_phases (startup b) a = (Some e, ss) \<and> ap_connected (last ss)"
  using assms by (simp add: startup_def database_connect_def load_policy_def bind_apply andthen_def)

section \<open>The life of a process\<close>

text \<open>C30: From a fresh start to the end of a shutdown, whatever the service did to the database in between, a
  background task exists only while the database, the client and the policy are there. A shutdown always
  completes; after it no task is left, client and database are closed, and it wrote nothing. A startup
  that fails has started no task and written nothing.\<close>

theorem tasks_end_before_resources:
  assumes "fresh_app a" and "run_phases (startup b) a = (r, ss)"
  shows "(\<forall>s \<in> set ss. resources_open s) \<and>
    (r = None \<longrightarrow> (\<forall>w. \<exists>us. run_phases shutdown ((last ss)\<lparr>ap_world := w\<rparr>) = (None, us) \<and>
       (\<forall>s \<in> set us. resources_open s \<and> ap_world s = w) \<and>
       el_tasks (ap_loop (last us)) = [] \<and> \<not> ap_connected (last us) \<and> \<not> ap_client_open (last us))) \<and>
    (r \<noteq> None \<longrightarrow> el_tasks (ap_loop (last ss)) = [] \<and> ap_world (last ss) = ap_world a)"
proof -
  note start = startup_result [OF assms]
  have "ss \<noteq> []" using run_phases_last [OF assms(2)] by simp
  then have "resources_open (last ss)" "tasks_owned (last ss)" using start by simp_all
  then have serving: "resources_open ((last ss)\<lparr>ap_world := w\<rparr>)" "tasks_owned ((last ss)\<lparr>ap_world := w\<rparr>)" for w
    by (simp_all add: resources_open_def tasks_owned_def)
  have "\<exists>us. run_phases shutdown ((last ss)\<lparr>ap_world := w\<rparr>) = (None, us) \<and> (\<forall>s \<in> set us. resources_open s \<and> ap_world s = w) \<and>
       el_tasks (ap_loop (last us)) = [] \<and> \<not> ap_connected (last us) \<and> \<not> ap_client_open (last us)" for w
    using shutdown_result [OF serving [of w]] by auto
  with start show ?thesis by blast
qed


section \<open>Witnesses\<close>

definition demo_boot :: boot where
  "demo_boot = \<lparr>bt_open = None, bt_schema = None, bt_read = (\<lambda>p. None)\<rparr>"

definition demo_app :: "nat world \<Rightarrow> nat app" where
  "demo_app w = \<lparr>ap_settings = default_settings, ap_world = w, ap_connected = False, ap_policy = None, ap_client_open = False,
     ap_queue = new_pool 1, ap_reconciler = None, ap_retention = None, ap_loop = \<lparr>el_next = 0, el_tasks = []\<rparr>\<rparr>"

lemma demo_app_fresh: "fresh_app (demo_app w)"
  by (simp add: fresh_app_def demo_app_def)

lemma builtin_policy_loads: "\<exists>p. policy_load read None = Inr p"
proof -
  have "\<not> isl (policy_from_dict [] ''builtin'')"
    by (simp add: policy_from_dict_def DEFAULT_POLICY_def dict_merge_def update_new get_tuple_def str_tuple_def parse_tiers_def dict_items_def
      iter_json_def jget_def j_or_def Let_def)
  then show ?thesis by (cases "policy_from_dict [] ''builtin''") (simp_all add: policy_load_def)
qed

lemma demo_starts: "\<exists>ss. run_phases (startup demo_boot) (demo_app w) = (None, ss)"
proof -
  have "policy_file (ap_settings (demo_app w)) = None" by (simp add: demo_app_def default_settings_def)
  then obtain p where "policy_load (bt_read demo_boot) (policy_file (ap_settings (demo_app w))) = Inr p"
    using builtin_policy_loads by metis
  then show ?thesis using startup_succeeds [OF demo_app_fresh, of demo_boot w p] by (auto simp: demo_boot_def)
qed

text \<open>A process that dies while it starts, and one that starts, serves and stops.\<close>

theorem tasks_end_before_resources_witness:
  "\<exists>ss us. run_phases (startup demo_boot) (demo_app crashed_world) = (None, ss) \<and>
     run_phases shutdown ((last ss)\<lparr>ap_world := crashed_world\<rparr>) = (None, us) \<and> \<not> ap_connected (last us) \<and> el_tasks (ap_loop (last us)) = []"
proof -
  obtain ss where ss: "run_phases (startup demo_boot) (demo_app crashed_world) = (None, ss)" using demo_starts by blast
  from tasks_end_before_resources [OF demo_app_fresh ss]
  obtain us where "run_phases shutdown ((last ss)\<lparr>ap_world := crashed_world\<rparr>) = (None, us)"
    "el_tasks (ap_loop (last us)) = []" "\<not> ap_connected (last us)" by blast
  with ss show ?thesis by blast
qed


end
