(* ===== verification/Webhook_Check.thy ===== *)
theory Webhook_Check
  imports Late Responses Redaction
begin

text \<open>
  The diagnostic of the webhook signature (\<open>scripts/webhook_check.py\<close>). The local mode signs a sample
  event in several ways, posts each to the service's own endpoint and compares the status codes; the
  public mode asks the platform for a real event and watches the table it should arrive in. Printed
  text is left out. The endpoint is the model's \<open>vibe_webhook\<close> on a service with an empty database.
\<close>

section \<open>The sample\<close>

definition SAMPLE_EVENT :: obj where
  "SAMPLE_EVENT =
     [(''event'', JStr ''generation.complete''), (''generation_id'', JInt 999001), (''task_id'', JStr ''task_webhook_check''),
      (''type'', JStr ''image''), (''model'', JStr ''nano-banana-pro-2k''), (''status'', JStr ''complete''),
      (''cost'', JFloat (33 / 2)), (''refunded'', JBool False), (''attempt'', JInt 1)]"

text \<open>\<open>json.dumps(SAMPLE_EVENT)\<close>; a quotation mark is written as its code.\<close>

definition Q :: string where
  "Q = [CHR 0x22]"

definition pair_text :: "string \<Rightarrow> string \<Rightarrow> string" where
  "pair_text k v = Q @ k @ Q @ '': '' @ v"

definition quoted :: "string \<Rightarrow> string" where
  "quoted s = Q @ s @ Q"

definition COST_TEXT :: string where
  "COST_TEXT = pair_text ''cost'' ''16.5''"

definition raw_event :: string where
  "raw_event = ''{'' @ pair_text ''event'' (quoted ''generation.complete'') @ '', '' @ pair_text ''generation_id'' ''999001'' @ '', '' @
     pair_text ''task_id'' (quoted ''task_webhook_check'') @ '', '' @ pair_text ''type'' (quoted ''image'') @ '', '' @
     pair_text ''model'' (quoted ''nano-banana-pro-2k'') @ '', '' @ pair_text ''status'' (quoted ''complete'') @ '', '' @
     COST_TEXT @ '', '' @ pair_text ''refunded'' ''false'' @ '', '' @ pair_text ''attempt'' ''1'' @ ''}''"

definition tampered_event :: string where
  "tampered_event = py_replace COST_TEXT (pair_text ''cost'' ''0.0'') raw_event"

definition FOREIGN_SECRET :: string where
  "FOREIGN_SECRET = bytes [208, 189, 208, 181, 45, 209, 130, 208, 190, 209, 130, 45, 209, 129, 208, 181, 208, 186, 209, 128, 208, 181, 209, 130]"

section \<open>The local check\<close>

record check_case =
  cc_name :: string
  cc_body :: string
  cc_signature :: "string option"
  cc_expected :: int

definition check_cases :: "crypto \<Rightarrow> settings \<Rightarrow> string \<Rightarrow> check_case list" where
  "check_cases h st secret =
     [\<lparr>cc_name = ''signed with VIBE_WEBHOOK_SECRET'', cc_body = raw_event,
       cc_signature = Some (compute_signature h raw_event secret), cc_expected = 200\<rparr>,
      \<lparr>cc_name = ''signed with a foreign secret'', cc_body = raw_event,
       cc_signature = Some (compute_signature h raw_event FOREIGN_SECRET), cc_expected = 401\<rparr>,
      \<lparr>cc_name = ''changed after signing'', cc_body = tampered_event,
       cc_signature = Some (compute_signature h raw_event secret), cc_expected = 401\<rparr>,
      \<lparr>cc_name = ''unsigned'', cc_body = raw_event, cc_signature = None, cc_expected = 401\<rparr>] @
     (case token_value st of
        Some token \<Rightarrow> [\<lparr>cc_name = ''legacy scheme'', cc_body = raw_event,
          cc_signature = Some (compute_signature h raw_event (legacy_secret h token)), cc_expected = 401\<rparr>]
      | None \<Rightarrow> [])"

text \<open>\<open>client.post\<close>: the status of the answer. An exception without a handler reaches the script.\<close>

definition post_webhook :: "'x service \<Rightarrow> (string \<Rightarrow> json option) \<Rightarrow> string \<Rightarrow> string option \<Rightarrow> ('x, int) serv" where
  "post_webhook sv loads body signature =
     catch (bind (vibe_webhook sv loads body signature None) (\<lambda>_. ret 200))
       (\<lambda>e. case error_answer None e of Some r \<Rightarrow> ret (er_status_code r) | None \<Rightarrow> raise e)"

fun run_cases :: "'x service \<Rightarrow> (string \<Rightarrow> json option) \<Rightarrow> check_case list \<Rightarrow> ('x, nat) serv" where
  "run_cases sv loads [] = ret 0"
| "run_cases sv loads (c # cs) =
     bind (post_webhook sv loads (cc_body c) (case cc_signature c of Some (x # xs) \<Rightarrow> Some (x # xs) | _ \<Rightarrow> None)) (\<lambda>status.
     bind (run_cases sv loads cs) (\<lambda>failures. ret (failures + (if status = cc_expected c then 0 else 1))))"

definition local_settings :: "string \<Rightarrow> settings \<Rightarrow> settings" where
  "local_settings path st = st\<lparr>app_mode := MOCK, db_path := path, log_level := ''ERROR''\<rparr>"

text \<open>The exit code. The service is the one the application builds, with the settings of the check.\<close>

definition check_local :: "'x service \<Rightarrow> string \<Rightarrow> (string \<Rightarrow> json option) \<Rightarrow> ('x, int) serv" where
  "check_local sv path loads =
     (let st = sv_settings sv in
      case webhook_secret_value st of
        None \<Rightarrow> ret 1
      | Some secret \<Rightarrow>
          bind (run_cases (sv\<lparr>sv_settings := local_settings path st\<rparr>) loads (check_cases (sv_crypto sv) st secret))
            (\<lambda>failures. ret (if failures = 0 then 0 else 1)))"

section \<open>The public check\<close>

text \<open>What the script sees in one round: the clock, the newest event, and, asked afterwards, the count.\<close>

record observation =
  ob_time :: rat
  ob_newest :: "webhook_row option"
  ob_count :: nat

datatype watch_result = Arrived webhook_row | TimedOut

text \<open>\<open>None\<close>: the observations end while the script still waits.\<close>

fun watch_events :: "rat \<Rightarrow> nat \<Rightarrow> observation list \<Rightarrow> watch_result option" where
  "watch_events deadline seen_before [] = None"
| "watch_events deadline seen_before (ob # obs) =
     (if ob_time ob < deadline then
        (case ob_newest ob of
           Some row \<Rightarrow> if seen_before < ob_count ob then Some (Arrived row) else watch_events deadline seen_before obs
         | None \<Rightarrow> watch_events deadline seen_before obs)
      else Some TimedOut)"

definition WEBHOOK_PATH :: string where
  "WEBHOOK_PATH = ''/api/v1/webhooks/vibe''"

definition webhook_test_body :: "string \<Rightarrow> obj" where
  "webhook_test_body base_url = [(''callback_url'', JStr (rstrip_char CHR ''/'' base_url @ WEBHOOK_PATH))]"

definition request_raw :: "http_config \<Rightarrow> 'x transport \<Rightarrow> string \<Rightarrow> string \<Rightarrow> obj option \<Rightarrow> ('x, exn, obj) eff" where
  "request_raw cfg tr meth path body = http_request cfg tr meth path body"

definition check_public :: "http_config \<Rightarrow> 'x transport \<Rightarrow> string \<Rightarrow> rat \<Rightarrow> nat \<Rightarrow> rat \<Rightarrow> observation list \<Rightarrow> ('x, exn, int option) eff" where
  "check_public cfg tr base_url wait_seconds seen_before started obs =
     bind (catch (bind (request_raw cfg tr ''POST'' ''/webhook-test'' (Some (webhook_test_body base_url))) (\<lambda>_. ret True))
        (\<lambda>e. case e of Vibe (VibeAPIError _) \<Rightarrow> ret False | _ \<Rightarrow> raise e))
       (\<lambda>asked. if \<not> asked then ret (Some 1)
          else ret (map_option (\<lambda>r. case r of Arrived _ \<Rightarrow> 0 | TimedOut \<Rightarrow> 1)
                      (watch_events (started + wait_seconds) seen_before obs)))"

section \<open>What the endpoint answers\<close>

text \<open>\<open>hexdigest\<close>: lower-case hexadecimal digits.\<close>

definition hex_text :: "string \<Rightarrow> bool" where
  "hex_text s \<longleftrightarrow> s \<noteq> [] \<and> list_all (\<lambda>c. c \<in> set ''0123456789abcdef'') s"

definition hex_digests :: "crypto \<Rightarrow> bool" where
  "hex_digests h \<longleftrightarrow> (\<forall>k m. hex_text (hmac_sha256_hex h k m)) \<and> (\<forall>m. hex_text (sha256_hex h m))"

text \<open>A signature the settings accept for a body.\<close>

definition sig_accepted :: "crypto \<Rightarrow> settings \<Rightarrow> string \<Rightarrow> string \<Rightarrow> bool" where
  "sig_accepted h st body sig \<longleftrightarrow>
     (\<exists>s \<in> set (candidate_secrets h (webhook_secret_value st) (token_value st) (vibe_webhook_legacy_fallback st)).
        s \<noteq> [] \<and> compute_signature h body s = sig)"

lemma hex_char: "c \<in> set ''0123456789abcdef'' \<Longrightarrow> 32 < (of_char c :: nat) \<and> (of_char c :: nat) < 128 \<and> lower_char c = c"
  by (auto simp: lower_char_def)

lemma hex_text_plain:
  assumes "hex_text s"
  shows "py_lower (py_strip s) = s" "is_ascii s" "s \<noteq> []"
proof -
  have c: "32 < (of_char c :: nat) \<and> (of_char c :: nat) < 128 \<and> lower_char c = c" if "c \<in> set s" for c
    using assms that hex_char by (auto simp: hex_text_def list_all_iff)
  then have "py_strip s = s" by (intro py_strip_plain) (simp add: list_all_iff)
  moreover have "map lower_char s = s" using c by (simp add: map_idI)
  ultimately show "py_lower (py_strip s) = s" by (simp add: py_lower_def)
  show "is_ascii s" using c by (simp add: is_ascii_def list_all_iff)
  show "s \<noteq> []" using assms by (simp add: hex_text_def)
qed

lemma any_matches_hex:
  assumes "hex_digests h" and "hex_text sig"
  shows "any_matches h body sig secrets = Inr (\<exists>s \<in> set secrets. s \<noteq> [] \<and> compute_signature h body s = sig)"
proof (induction secrets)
  case (Cons s secrets)
  have "is_ascii (compute_signature h body s)"
    using assms(1) hex_text_plain(2) by (simp add: hex_digests_def compute_signature_def)
  then show ?case
    using hex_text_plain [OF assms(2)] Cons
    by (auto simp: signature_matches_def compare_digest_def split: sum.splits bool.splits)
qed simp

lemma verify_webhook_hex:
  assumes "hex_digests h" and "hex_text sig" and "webhook_secret_value st = Some secret"
  shows "verify_webhook h body (Some sig) (webhook_secret_value st) (token_value st) (vibe_webhook_legacy_fallback st) =
     (if sig_accepted h st body sig then Inr () else Inl (app_raise WebhookVerificationError (Msg ''signature_mismatch'' [])))"
proof -
  have "secret \<noteq> []" using assms(3) by (auto simp: webhook_secret_value_def unset_def split: if_splits)
  then have "candidate_secrets h (webhook_secret_value st) t l \<noteq> []" for t l
    using assms(3) by (cases secret) (simp_all add: candidate_secrets_def)
  moreover obtain c cs where "sig = c # cs" using hex_text_plain(3) [OF assms(2)] by (cases sig) auto
  moreover have "any_matches h body sig (candidate_secrets h (webhook_secret_value st) (token_value st) (vibe_webhook_legacy_fallback st)) =
      Inr (sig_accepted h st body sig)"
    unfolding sig_accepted_def by (rule any_matches_hex [OF assms(1,2)])
  ultimately show ?thesis by (simp add: verify_webhook_def Let_def split: bool.split)
qed

text \<open>On a ledger without rows a callback is recorded and matches nothing.\<close>

lemma accepted_on_empty_ledger:
  assumes "t_steps (w_db w) = []"
  shows "\<exists>v w'. accept_callback sv payload hdr w = (Inr v, w') \<and> t_steps (w_db w') = []"
  using assms
  by (auto simp: accept_callback_def settle_callback_def clock_apply in_db_def record_webhook_def find_by_generation_def bind_apply
      andthen_def Let_def split: option.splits prod.splits)

lemma post_unsigned:
  "post_webhook sv loads body None w = (Inr 401, w)"
  by (simp add: post_webhook_def vibe_webhook_def verify_webhook_def Let_def bind_apply catch_def error_answer_def app_raise_def
      app_error_handler_def new_app_error_def)

text \<open>A rejected signature is a 401 and changes nothing; an accepted one is anything but a 401.\<close>

lemma post_rejected:
  assumes "hex_digests (sv_crypto sv)" and "hex_text sig" and "webhook_secret_value (sv_settings sv) = Some secret"
    and "\<not> sig_accepted (sv_crypto sv) (sv_settings sv) body sig"
  shows "post_webhook sv loads body (Some sig) w = (Inr 401, w)"
  using verify_webhook_hex [OF assms(1-3), of body] assms(4)
  by (simp add: post_webhook_def vibe_webhook_def Let_def bind_apply catch_def error_answer_def app_raise_def
      app_error_handler_def new_app_error_def)

lemma post_accepted:
  assumes "hex_digests (sv_crypto sv)" and "hex_text sig" and "webhook_secret_value (sv_settings sv) = Some secret"
    and "sig_accepted (sv_crypto sv) (sv_settings sv) body sig" and "t_steps (w_db w) = []"
  shows "\<exists>status w'. post_webhook sv loads body (Some sig) w = (Inr status, w') \<and> t_steps (w_db w') = [] \<and>
    (status = 200 \<longleftrightarrow> (\<exists>payload. loads body = Some (JObj payload))) \<and> status \<noteq> 401"
proof -
  have v: "verify_webhook (sv_crypto sv) body (Some sig) (webhook_secret_value (sv_settings sv)) (token_value (sv_settings sv))
      (vibe_webhook_legacy_fallback (sv_settings sv)) = Inr ()"
    using verify_webhook_hex [OF assms(1-3), of body] assms(4) by simp
  show ?thesis
  proof (cases "\<exists>payload. loads body = Some (JObj payload)")
    case True
    then obtain payload where p: "loads body = Some (JObj payload)" ..
    obtain x w' where "accept_callback sv payload None w = (Inr x, w')" "t_steps (w_db w') = []"
      using accepted_on_empty_ledger [OF assms(5)] by metis
    then have "post_webhook sv loads body (Some sig) w = (Inr 200, w')"
      by (simp add: post_webhook_def vibe_webhook_def Let_def bind_apply catch_def v p)
    then show ?thesis using p \<open>t_steps (w_db w') = []\<close> by auto
  next
    case False
    then have "\<exists>m. vibe_webhook sv loads body (Some sig) None w = (Inl (app_raise ValidationError m), w)"
      by (auto simp: vibe_webhook_def Let_def v split: option.split json.split)
    then have "post_webhook sv loads body (Some sig) w = (Inr 422, w)"
      by (auto simp: post_webhook_def bind_apply catch_def error_answer_def app_raise_def app_error_handler_def new_app_error_def)
    then show ?thesis using False assms(5) by auto
  qed
qed

section \<open>What the local check finds\<close>

definition let_through :: "crypto \<Rightarrow> settings \<Rightarrow> check_case \<Rightarrow> bool" where
  "let_through h st c \<longleftrightarrow> (case cc_signature c of Some sig \<Rightarrow> sig_accepted h st (cc_body c) sig | None \<Rightarrow> False)"

lemma let_through_simps:
  "cc_signature c = None \<Longrightarrow> \<not> let_through h st c"
  "cc_signature c = Some sig \<Longrightarrow> let_through h st c \<longleftrightarrow> sig_accepted h st (cc_body c) sig"
  by (simp_all add: let_through_def)

lemma run_rejecting:
  assumes "hex_digests (sv_crypto sv)" and "webhook_secret_value (sv_settings sv) = Some secret"
    and "list_all (\<lambda>c. cc_expected c = 401 \<and> (case cc_signature c of Some sig \<Rightarrow> hex_text sig | None \<Rightarrow> True)) cs"
    and "t_steps (w_db w) = []"
  shows "\<exists>w'. run_cases sv loads cs w = (Inr (length (filter (let_through (sv_crypto sv) (sv_settings sv)) cs)), w')"
  using assms(3,4)
proof (induction cs arbitrary: w)
  case (Cons c cs)
  show ?case
  proof (cases "cc_signature c")
    case None
    obtain w' where "run_cases sv loads cs w = (Inr (length (filter (let_through (sv_crypto sv) (sv_settings sv)) cs)), w')"
      using Cons by auto
    then show ?thesis using Cons.prems None by (simp add: bind_apply post_unsigned let_through_simps)
  next
    case (Some sig)
    then have hex: "hex_text sig" using Cons.prems by simp
    obtain x xs where sig: "sig = x # xs" using hex_text_plain(3) [OF hex] by (cases sig) auto
    have "\<exists>status u. post_webhook sv loads (cc_body c) (Some sig) w = (Inr status, u) \<and> t_steps (w_db u) = [] \<and>
        (status = 401 \<longleftrightarrow> \<not> sig_accepted (sv_crypto sv) (sv_settings sv) (cc_body c) sig)"
      using post_rejected [OF assms(1) hex assms(2), of "cc_body c" loads w] post_accepted [OF assms(1) hex assms(2), of "cc_body c" w loads]
        Cons.prems(2) by (cases "sig_accepted (sv_crypto sv) (sv_settings sv) (cc_body c) sig") auto
    then obtain status u where u: "post_webhook sv loads (cc_body c) (Some sig) w = (Inr status, u)" "t_steps (w_db u) = []"
      "status = 401 \<longleftrightarrow> \<not> sig_accepted (sv_crypto sv) (sv_settings sv) (cc_body c) sig" by blast
    obtain w' where w': "run_cases sv loads cs u = (Inr (length (filter (let_through (sv_crypto sv) (sv_settings sv)) cs)), w')"
      using Cons.IH [OF _ u(2)] Cons.prems(1) by auto
    show ?thesis using Cons.prems(1) Some sig u w' by (auto simp: bind_apply let_through_simps)
  qed
qed simp

lemma local_settings_simps [simp]:
  "webhook_secret_value (local_settings path st) = webhook_secret_value st" "token_value (local_settings path st) = token_value st"
  "vibe_webhook_legacy_fallback (local_settings path st) = vibe_webhook_legacy_fallback st"
  "sig_accepted h (local_settings path st) body sig = sig_accepted h st body sig"
  by (simp_all add: local_settings_def webhook_secret_value_def token_value_def sig_accepted_def)

text \<open>C39: The local check tells whether the endpoint separates signatures: it passes exactly when, under the
  configured settings, the service refuses the sample signed with a foreign secret, the sample changed after
  signing, and the sample signed by the legacy scheme. In particular it fails wherever the legacy scheme is
  switched on and a token is configured, although the service then does what the settings ask for.\<close>

theorem check_local_verdict:
  assumes "hex_digests (sv_crypto sv)" and "webhook_secret_value (sv_settings sv) = Some secret"
    and "loads raw_event = Some (JObj SAMPLE_EVENT)" and "t_steps (w_db w) = []"
  shows "fst (check_local sv path loads w) =
      Inr (if sig_accepted (sv_crypto sv) (sv_settings sv) raw_event (compute_signature (sv_crypto sv) raw_event FOREIGN_SECRET) \<or>
              sig_accepted (sv_crypto sv) (sv_settings sv) tampered_event (compute_signature (sv_crypto sv) raw_event secret) \<or>
              (\<exists>token. token_value (sv_settings sv) = Some token \<and>
                 sig_accepted (sv_crypto sv) (sv_settings sv) raw_event (compute_signature (sv_crypto sv) raw_event (legacy_secret (sv_crypto sv) token)))
           then 1 else 0) \<and>
    (vibe_webhook_legacy_fallback (sv_settings sv) \<and> token_value (sv_settings sv) \<noteq> None \<longrightarrow> fst (check_local sv path loads w) = Inr 1)"
proof -
  let ?h = "sv_crypto sv" and ?st = "sv_settings sv" and ?sv = "sv\<lparr>sv_settings := local_settings path (sv_settings sv)\<rparr>"
  have hexes: "hex_text (compute_signature ?h body k)" for body k using assms(1) by (simp add: hex_digests_def compute_signature_def)
  obtain x xs where x: "compute_signature ?h raw_event secret = x # xs" using hex_text_plain(3) [OF hexes] by (meson list.exhaust)
  have "secret \<noteq> []" using assms(2) by (auto simp: webhook_secret_value_def unset_def split: if_splits)
  then have own: "sig_accepted ?h ?st raw_event (compute_signature ?h raw_event secret)"
    by (cases secret) (simp_all add: sig_accepted_def candidate_secrets_def assms(2))
  let ?cs = "check_cases ?h ?st secret"
  obtain u where u: "post_webhook ?sv loads raw_event (Some (x # xs)) w = (Inr 200, u)" "t_steps (w_db u) = []"
    using post_accepted [of ?sv "x # xs" secret raw_event w loads] assms own hexes [of raw_event secret] x by auto
  define rest where "rest = tl ?cs"
  have cs: "?cs = \<lparr>cc_name = ''signed with VIBE_WEBHOOK_SECRET'', cc_body = raw_event, cc_signature = Some (x # xs), cc_expected = 200\<rparr> # rest"
    by (simp add: check_cases_def x rest_def)
  have "list_all (\<lambda>c. cc_expected c = 401 \<and> (case cc_signature c of Some sig \<Rightarrow> hex_text sig | None \<Rightarrow> True)) rest"
    by (simp add: rest_def check_cases_def hexes split: option.split)
  then obtain w' where w': "run_cases ?sv loads rest u = (Inr (length (filter (let_through ?h (local_settings path ?st)) rest)), w')"
    using run_rejecting [of ?sv secret rest u loads] assms(1,2) u(2) by auto
  have "fst (check_local sv path loads w) = Inr (if filter (let_through ?h (local_settings path ?st)) rest = [] then 0 else 1)"
    by (simp add: check_local_def assms(2) Let_def cs bind_apply u(1) w')
  moreover have "filter (let_through ?h (local_settings path ?st)) rest = [] \<longleftrightarrow>
      \<not> (sig_accepted ?h ?st raw_event (compute_signature ?h raw_event FOREIGN_SECRET) \<or>
        sig_accepted ?h ?st tampered_event (compute_signature ?h raw_event secret) \<or>
        (\<exists>token. token_value ?st = Some token \<and> sig_accepted ?h ?st raw_event (compute_signature ?h raw_event (legacy_secret ?h token))))"
    by (auto simp: rest_def check_cases_def let_through_def split: option.split)
  moreover have "sig_accepted ?h ?st raw_event (compute_signature ?h raw_event (legacy_secret ?h token))"
    if "vibe_webhook_legacy_fallback ?st" "token_value ?st = Some token" for token
  proof -
    have "token \<noteq> []" using that(2) by (auto simp: token_value_def unset_def split: if_splits)
    then obtain c cs' where "token = c # cs'" by (cases token) auto
    moreover have "legacy_secret ?h token \<noteq> []" using assms(1) by (simp add: legacy_secret_def hex_digests_def hex_text_def)
    ultimately show ?thesis using that by (auto simp: sig_accepted_def candidate_secrets_def)
  qed
  ultimately show ?thesis by auto
qed

text \<open>A digest that is a digest only in form: it separates nothing but the empty secret and the foreign one.\<close>

definition hex_crypto :: crypto where
  "hex_crypto = \<lparr>sha256_hex = (\<lambda>m. ''a''), hmac_sha256_hex = (\<lambda>k m. if k = ''s'' \<and> m = raw_event then ''b'' else if k = ''s'' then ''c'' else ''d''),
     uuid5_str = (\<lambda>s. s)\<rparr>"

definition checked_service :: "bool \<Rightarrow> nat service" where
  "checked_service legacy = (demo_service 10)\<lparr>sv_crypto := hex_crypto,
     sv_settings := default_settings\<lparr>vibe_webhook_secret := Some ''s'', vibe_api_token := Some ''t'', vibe_webhook_legacy_fallback := legacy\<rparr>\<rparr>"

lemma checked_settings:
  "webhook_secret_value (sv_settings (checked_service legacy)) = Some ''s''" "token_value (sv_settings (checked_service legacy)) = Some ''t''"
  "vibe_webhook_legacy_fallback (sv_settings (checked_service legacy)) = legacy" "sv_crypto (checked_service legacy) = hex_crypto"
  by (simp_all add: checked_service_def webhook_secret_value_def token_value_def default_settings_def unset_def)

lemma tampered_differs: "tampered_event \<noteq> raw_event"
  by code_simp

definition empty_world :: "nat world" where
  "empty_world = \<lparr>w_db = empty_db, w_ext = 0, w_queue = []\<rparr>"

theorem check_local_verdict_witness:
  "fst (check_local (checked_service False) ''/tmp/check.db'' (\<lambda>_. Some (JObj SAMPLE_EVENT)) empty_world) = Inr 0 \<and>
   fst (check_local (checked_service True) ''/tmp/check.db'' (\<lambda>_. Some (JObj SAMPLE_EVENT)) empty_world) = Inr 1"
proof -
  have hex: "hex_digests (sv_crypto (checked_service legacy))" for legacy
    by (simp add: checked_settings hex_digests_def hex_crypto_def hex_text_def)
  have world: "t_steps (w_db empty_world) = []" by (simp add: empty_world_def empty_db_def)
  have foreign: "FOREIGN_SECRET \<noteq> ''s''" by (simp add: FOREIGN_SECRET_def bytes_def)
  note verdict = check_local_verdict [OF hex checked_settings(1) _ world, of "\<lambda>_. Some (JObj SAMPLE_EVENT)"]
  have strict: "\<not> sig_accepted hex_crypto (sv_settings (checked_service False)) raw_event (compute_signature hex_crypto raw_event FOREIGN_SECRET)"
    "\<not> sig_accepted hex_crypto (sv_settings (checked_service False)) tampered_event (compute_signature hex_crypto raw_event ''s'')"
    "\<not> sig_accepted hex_crypto (sv_settings (checked_service False)) raw_event (compute_signature hex_crypto raw_event (legacy_secret hex_crypto ''t''))"
    using foreign tampered_differs
    by (simp_all add: sig_accepted_def candidate_secrets_def checked_settings compute_signature_def hex_crypto_def legacy_secret_def)
  show ?thesis
    using verdict [of False, THEN conjunct1] verdict [of True, THEN conjunct2] strict
    by (simp add: checked_settings)
qed

section \<open>What the public check finds\<close>

text \<open>It ends once the deadline has been seen, and it reports an event only when the table has grown.\<close>

lemma watch_ends:
  "\<exists>ob \<in> set obs. deadline \<le> ob_time ob \<Longrightarrow> watch_events deadline seen_before obs \<noteq> None"
  by (induction obs) (auto split: option.split)

lemma watch_arrived:
  "watch_events deadline seen_before obs = Some (Arrived row) \<Longrightarrow>
     \<exists>ob \<in> set obs. ob_time ob < deadline \<and> ob_newest ob = Some row \<and> seen_before < ob_count ob"
  by (induction obs) (auto split: if_splits option.splits)

text \<open>The newest row is read before the rows are counted: an event that is stored in between is reported with
  the data of the one before it.\<close>

lemma earlier_event_reported:
  assumes "ob_time ob < deadline" and "ob_newest ob = Some old" and "ob_count ob = Suc seen_before"
  shows "watch_events deadline seen_before (ob # obs) = Some (Arrived old)"
  using assms by simp

end
