(* ===== verification/Edge.thy ===== *)
theory Edge
  imports Logging Responses
begin

text \<open>
  The edge of the HTTP application (\<open>app/main.py\<close>): the middleware that gives every request its
  correlation id, around the handlers that turn exceptions into answers. Routing is the framework's:
  what the matched endpoint does, given the id, is the argument \<open>endpoint\<close>.
\<close>

section \<open>Answers\<close>

datatype 'a http_body = Content 'a | Failure error_response

record 'a http_answer =
  ha_status :: int
  ha_headers :: "(string \<times> string) list"
  ha_body :: "'a http_body"

text \<open>What an endpoint comes to: a status and a body, an exception, or a request that does not validate.\<close>

datatype 'a outcome = Answered int 'a | Raised exn | Invalid json

definition validation_handler :: "string option \<Rightarrow> json \<Rightarrow> error_response" where
  "validation_handler cid errors =
     \<lparr>er_status_code = 422, er_error = ''validation_failed'', er_message = Msg ''request_invalid'' [], er_details = errors,
      er_correlation_id = cid\<rparr>"

definition failure_answer :: "error_response \<Rightarrow> 'a http_answer" where
  "failure_answer r = \<lparr>ha_status = er_status_code r, ha_headers = [], ha_body = Failure r\<rparr>"

text \<open>The registered exception handlers; any other exception passes through.\<close>

definition with_handlers :: "string \<Rightarrow> 'a outcome \<Rightarrow> exn + 'a http_answer" where
  "with_handlers cid out =
     (case out of
        Answered status a \<Rightarrow> Inr \<lparr>ha_status = status, ha_headers = [], ha_body = Content a\<rparr>
      | Invalid errors \<Rightarrow> Inr (failure_answer (validation_handler (Some cid) errors))
      | Raised e \<Rightarrow> (case error_answer (Some cid) e of Some r \<Rightarrow> Inr (failure_answer r) | None \<Rightarrow> Inl e))"

section \<open>The middleware\<close>

definition CORRELATION_HEADER :: string where
  "CORRELATION_HEADER = ''X-Correlation-Id''"

text \<open>Header names are compared without regard to case.\<close>

definition header_of :: "string \<Rightarrow> (string \<times> string) list \<Rightarrow> string option" where
  "header_of name hs = map_option snd (find (\<lambda>(k, v). py_lower k = py_lower name) hs)"

definition set_header :: "string \<Rightarrow> string \<Rightarrow> (string \<times> string) list \<Rightarrow> (string \<times> string) list" where
  "set_header name v hs = filter (\<lambda>(k, v). py_lower k \<noteq> py_lower name) hs @ [(name, v)]"

record http_request_line =
  rq_method :: string
  rq_path :: string
  rq_headers :: "(string \<times> string) list"

definition request_fields :: "http_request_line \<Rightarrow> obj" where
  "request_fields rq = [(''http_method'', JStr (rq_method rq)), (''path'', JStr (rq_path rq))]"

text \<open>The answer, and what is logged with the id.\<close>

definition correlation_middleware ::
  "string \<Rightarrow> http_request_line \<Rightarrow> (string \<Rightarrow> exn + 'a http_answer) \<Rightarrow> (string \<times> obj) list \<times> (exn + 'a http_answer)" where
  "correlation_middleware uuid_hex rq call_next =
     (let cid = set_correlation_id uuid_hex (header_of CORRELATION_HEADER (rq_headers rq));
          started = (''request_started'', request_fields rq)
      in case call_next cid of
        Inl e \<Rightarrow> ([started], Inl e)
      | Inr a \<Rightarrow>
          ([started, (''request_finished'', request_fields rq @ [(''status_code'', JInt (ha_status a))])],
           Inr (a\<lparr>ha_headers := set_header CORRELATION_HEADER cid (ha_headers a)\<rparr>)))"

definition serve :: "string \<Rightarrow> http_request_line \<Rightarrow> (string \<Rightarrow> 'a outcome) \<Rightarrow> (string \<times> obj) list \<times> (exn + 'a http_answer)" where
  "serve uuid_hex rq endpoint = correlation_middleware uuid_hex rq (\<lambda>cid. with_handlers cid (endpoint cid))"

section \<open>Every answer can be traced\<close>

lemma header_of_set: "header_of name (set_header name v hs) = Some v"
proof -
  have "find (\<lambda>(k, v). py_lower k = py_lower name) (filter (\<lambda>(k, v). py_lower k \<noteq> py_lower name) hs @ [(name, v)]) = Some (name, v)"
    by (induction hs) auto
  then show ?thesis by (simp add: header_of_def set_header_def)
qed

lemma handlers_name_the_request:
  assumes "with_handlers cid out = Inr a"
  shows "case ha_body a of Failure r \<Rightarrow> er_correlation_id r = Some cid \<and> ha_status a = er_status_code r \<and> 400 \<le> ha_status a | Content _ \<Rightarrow> True"
proof (cases out)
  case (Raised e)
  then obtain r where r: "error_answer (Some cid) e = Some r" "a = failure_answer r"
    using assms by (auto simp: with_handlers_def split: option.splits)
  moreover have "er_correlation_id r = Some cid"
    using r(1) by (auto simp: error_answer_def app_error_handler_def vibe_error_handler_def split: exn.splits)
  ultimately show ?thesis using error_answer_status [OF r(1)] by (simp add: failure_answer_def)
qed (use assms in \<open>auto simp: with_handlers_def failure_answer_def validation_handler_def\<close>)

text \<open>Whatever the endpoint does, the answer carries the id in its header, an error carries the same id in its
  body, and the id is the client's own where it sent one. A log line is written before the endpoint runs,
  and a second one exactly when there is an answer.\<close>

lemma answers_are_traceable:
  assumes "serve uuid_hex rq endpoint = (logs, result)"
    and "cid = set_correlation_id uuid_hex (header_of CORRELATION_HEADER (rq_headers rq))"
  shows "(case result of
       Inr a \<Rightarrow> header_of CORRELATION_HEADER (ha_headers a) = Some cid \<and> length logs = 2 \<and>
         (case ha_body a of Failure r \<Rightarrow> er_correlation_id r = Some cid \<and> 400 \<le> ha_status a | Content _ \<Rightarrow> True)
     | Inl e \<Rightarrow> endpoint cid = Raised e \<and> error_answer (Some cid) e = None \<and> length logs = 1)"
proof (cases "with_handlers cid (endpoint cid)")
  case (Inl e)
  then have "endpoint cid = Raised e \<and> error_answer (Some cid) e = None"
    by (auto simp: with_handlers_def split: outcome.splits option.splits)
  moreover have "result = Inl e \<and> length logs = 1"
    using assms(1) Inl by (auto simp: serve_def correlation_middleware_def Let_def simp flip: assms(2))
  ultimately show ?thesis by simp
next
  case (Inr a)
  then have "result = Inr (a\<lparr>ha_headers := set_header CORRELATION_HEADER cid (ha_headers a)\<rparr>) \<and> length logs = 2"
    using assms(1) by (auto simp: serve_def correlation_middleware_def Let_def simp flip: assms(2))
  then show ?thesis using handlers_name_the_request [OF Inr] by (auto simp: header_of_set split: http_body.splits)
qed

end
