(* ===== verification/Tracing.thy ===== *)
theory Tracing
  imports Domain
begin

text \<open>
  The spans of \<open>app/core/tracing.py\<close> as far as this code decides them: which attributes a span gets. A
  span is the dict of its attributes; the tracer itself is the library's. \<open>None\<close> stands for a process
  without the tracing packages, where there is no span at all.
\<close>

section \<open>Attributes\<close>

definition setdefault :: "string \<Rightarrow> json \<Rightarrow> obj \<Rightarrow> obj" where
  "setdefault k v attrs = (if map_of attrs k = None then attrs @ [(k, v)] else attrs)"

text \<open>\<open>_annotate\<close>: the correlation id unless it is empty, and no attribute without a value.\<close>

definition annotate :: "bool \<Rightarrow> string option \<Rightarrow> obj \<Rightarrow> obj \<Rightarrow> obj" where
  "annotate recording cid attrs tags =
     (if \<not> recording then tags
      else fold (\<lambda>(k, v) t. if v = JNull then t else AList.update k v t)
        (case cid of Some (c # cs) \<Rightarrow> setdefault ''correlation_id'' (JStr (c # cs)) attrs | _ \<Rightarrow> attrs) tags)"

text \<open>\<open>span\<close>: what it yields, \<open>None\<close> without the packages. \<open>_SpanHandle.set\<close> annotates again.\<close>

definition span_open :: "bool \<Rightarrow> bool \<Rightarrow> string option \<Rightarrow> obj \<Rightarrow> obj option" where
  "span_open installed recording cid attrs = (if installed then Some (annotate recording cid attrs []) else None)"

definition span_set :: "bool \<Rightarrow> string option \<Rightarrow> obj \<Rightarrow> obj option \<Rightarrow> obj option" where
  "span_set recording cid attrs handle = map_option (annotate recording cid attrs) handle"

section \<open>The spans of the service\<close>

definition json_opt_str :: "string option \<Rightarrow> json" where
  "json_opt_str v = (case v of Some s \<Rightarrow> JStr s | None \<Rightarrow> JNull)"

fun step_kind_text :: "step_kind \<Rightarrow> string" where
  "step_kind_text GENERATION = ''generation''"
| "step_kind_text LOCAL = ''local''"

text \<open>\<open>step.generate\<close>, before and after the step\<close>

definition step_opened :: "plan_step \<Rightarrow> obj" where
  "step_opened ps =
     [(''step_id'', JStr (ps_step_id ps)), (''model'', json_opt_str (ps_model ps)),
      (''step_kind'', JStr (step_kind_text (ps_kind ps))), (''estimated_cost_rub'', JFloat (ps_estimated_cost_rub ps))]"

definition step_closed :: "job_step \<Rightarrow> obj" where
  "step_closed s =
     [(''step_status'', JStr (step_status_value (js_status s))), (''actual_cost_rub'', JFloat (js_actual_cost_rub s)),
      (''generation_id'', case js_generation_id s of Some g \<Rightarrow> JInt g | None \<Rightarrow> JNull), (''refunded'', JBool (js_refunded s))]"

text \<open>\<open>plan.create\<close> and \<open>job.run\<close>\<close>

fun strategy_text :: "selection_strategy \<Rightarrow> string" where
  "strategy_text QUALITY = ''quality''"
| "strategy_text BALANCED = ''balanced''"
| "strategy_text CHEAPEST = ''cheapest''"

definition plan_opened :: "brief \<Rightarrow> obj" where
  "plan_opened b =
     [(''budget_rub'', JFloat (b_budget_rub b)), (''formats'', JStr (py_join '','' (map format_value (b_formats b)))),
      (''strategy'', JStr (strategy_text (b_strategy b)))]"

definition plan_closed :: "plan \<Rightarrow> obj" where
  "plan_closed p =
     [(''plan_id'', JStr (p_plan_id p)), (''plan_status'', JStr (plan_status_value (p_status p))),
      (''total_estimated_rub'', JFloat (p_total_estimated_rub p)), (''steps'', JInt (int (length (p_steps p))))]"

definition job_opened :: "string \<Rightarrow> obj" where
  "job_opened jid = [(''job_id'', JStr jid)]"

definition job_closed :: "job \<Rightarrow> obj" where
  "job_closed j =
     [(''plan_id'', JStr (j_plan_id j)), (''job_status'', JStr (job_status_value (j_status j))),
      (''estimated_cost_rub'', JFloat (j_estimated_cost_rub j)), (''actual_cost_rub'', JFloat (j_actual_cost_rub j))]"

definition closed_span :: "bool \<Rightarrow> bool \<Rightarrow> string option \<Rightarrow> obj \<Rightarrow> obj \<Rightarrow> obj option" where
  "closed_span installed recording cid before after = span_set recording cid after (span_open installed recording cid before)"

definition step_span :: "bool \<Rightarrow> bool \<Rightarrow> string option \<Rightarrow> plan_step \<Rightarrow> job_step \<Rightarrow> obj option" where
  "step_span installed recording cid ps s = closed_span installed recording cid (step_opened ps) (step_closed s)"

definition plan_span :: "bool \<Rightarrow> bool \<Rightarrow> string option \<Rightarrow> brief \<Rightarrow> plan \<Rightarrow> obj option" where
  "plan_span installed recording cid b p = closed_span installed recording cid (plan_opened b) (plan_closed p)"

definition job_span :: "bool \<Rightarrow> bool \<Rightarrow> string option \<Rightarrow> job \<Rightarrow> obj option" where
  "job_span installed recording cid j = closed_span installed recording cid (job_opened (j_job_id j)) (job_closed j)"

section \<open>What a span tells\<close>

lemma annotated:
  assumes "distinct (map fst attrs)"
  shows "map_of (fold (\<lambda>(k, v) t. if v = JNull then t else AList.update k v t) attrs tags) k =
    (case map_of attrs k of Some v \<Rightarrow> if v = JNull then map_of tags k else Some v | None \<Rightarrow> map_of tags k)"
  using assms
proof (induction attrs arbitrary: tags)
  case (Cons kv attrs)
  obtain k' v where kv: "kv = (k', v)" by (cases kv)
  then have new: "map_of attrs k' = None" and d: "distinct (map fst attrs)" using Cons.prems by (simp_all add: map_of_eq_None_iff)
  show ?case
  proof (cases "k = k'")
    case True
    have "map_of (fold (\<lambda>(k, v) t. if v = JNull then t else AList.update k v t) attrs t) k' = map_of t k'" for t
      using Cons.IH [OF d, of t] new True by simp
    then show ?thesis by (simp add: kv True update_conv')
  next
    case False
    then show ?thesis by (simp add: kv Cons.IH [OF d] update_conv' split: option.split)
  qed
qed simp

lemma annotate_get:
  assumes "distinct (map fst attrs)" and "k \<noteq> ''correlation_id''"
  shows "map_of (annotate True cid attrs tags) k =
    (case map_of attrs k of Some v \<Rightarrow> if v = JNull then map_of tags k else Some v | None \<Rightarrow> map_of tags k)"
proof -
  let ?full = "case cid of Some (c # cs) \<Rightarrow> setdefault ''correlation_id'' (JStr (c # cs)) attrs | _ \<Rightarrow> attrs"
  have "distinct (map fst ?full)"
    using assms(1) by (auto simp: setdefault_def map_of_eq_None_iff split: option.split list.split)
  moreover have "map_of ?full k = map_of attrs k"
    using assms(2) by (auto simp: setdefault_def map_add_def split: option.split list.split)
  ultimately show ?thesis using annotated [of ?full tags k] by (simp add: annotate_def)
qed

text \<open>A recorded step span carries the estimated and the actual price, zero included, and the id of the
  generation exactly when there is one.\<close>

lemma step_span_prices:
  assumes "step_span True True cid ps s = Some tags"
  shows "map_of tags ''estimated_cost_rub'' = Some (JFloat (ps_estimated_cost_rub ps))"
    and "map_of tags ''actual_cost_rub'' = Some (JFloat (js_actual_cost_rub s))"
    and "map_of tags ''generation_id'' = map_option JInt (js_generation_id s)"
proof -
  have tags: "tags = annotate True cid (step_closed s) (annotate True cid (step_opened ps) [])"
    using assms by (simp add: step_span_def closed_span_def span_set_def span_open_def)
  have d: "distinct (map fst (step_opened ps))" "distinct (map fst (step_closed s))"
    by (simp_all add: step_opened_def step_closed_def)
  note get = annotate_get [OF d(1), of _ cid "[]"] annotate_get [OF d(2), of _ cid "annotate True cid (step_opened ps) []"]
  show "map_of tags ''estimated_cost_rub'' = Some (JFloat (ps_estimated_cost_rub ps))"
    unfolding tags by (simp add: get) (simp add: get step_closed_def, simp add: step_opened_def)
  show "map_of tags ''actual_cost_rub'' = Some (JFloat (js_actual_cost_rub s))"
    unfolding tags by (simp add: get) (simp add: step_closed_def)
  show "map_of tags ''generation_id'' = map_option JInt (js_generation_id s)"
    unfolding tags by (simp add: get) (cases "js_generation_id s"; simp add: get step_closed_def; simp add: step_opened_def)
qed

lemma no_packages_no_span: "step_span False recording cid ps s = None"
  by (simp add: step_span_def closed_span_def span_set_def span_open_def)

end
