(* ===== verification/Interleaving.thy ===== *)
theory Interleaving
  imports Running
begin

text \<open>
  Two requests to execute one plan whose handlers interleave. \<open>execute_plan\<close> of
  \<open>app/services/plan_service.py\<close> awaits the database between the look for an existing job and the
  new one; here it is cut there, for a service with a queue and a request that does not wait, and two run in lockstep.
\<close>

section \<open>The two halves\<close>

text \<open>The gates, up to the look for a job: a job to answer with, or the plan to admit.\<close>

definition gate :: "'x service \<Rightarrow> string \<Rightarrow> bool \<Rightarrow> ('x, job + plan) serv" where
  "gate sv pid confirmed =
     bind (in_db (plans_get pid)) (\<lambda>found. case found of
       None \<Rightarrow> raise (app_raise NotFoundError (Msg ''plan_not_found'' [JStr pid]))
     | Some p \<Rightarrow>
         if \<not> confirmed then raise (app_raise ConfirmationRequiredError (Msg ''confirmation_required'' []))
         else if app_mode (sv_settings sv) = ESTIMATE then raise (app_raise ModeNotAllowedError (Msg ''estimate_only'' []))
         else if p_status p = PLAN_INFEASIBLE then raise (app_raise ConflictError (Msg ''plan_infeasible'' []))
         else
           bind (in_db (jobs_get_by_plan pid)) (\<lambda>existing. ret (case existing of
               Some j \<Rightarrow> if is_terminal (j_status j) \<or> is_active (j_status j) then Inl j else Inr p
             | None \<Rightarrow> Inr p)))"

definition answer_gate :: "'x service \<Rightarrow> job + plan \<Rightarrow> ('x, job) serv" where
  "answer_gate sv r = (case r of
     Inl j \<Rightarrow> ret j
   | Inr p \<Rightarrow> bind (admit sv p) (\<lambda>j. andthen (enqueue (j_job_id j)) (ret j)))"

lemma bind_ret: "bind (ret a) f = f a"
  by (rule ext) (simp add: bind_apply)

lemma bind_assoc: "bind (bind m f) g = bind m (\<lambda>a. bind (f a) g)"
  by (rule ext) (simp add: bind_def split: prod.splits sum.splits)

lemma bind_raise: "bind (raise e) f = raise e"
  by (rule ext) (simp add: bind_apply)

text \<open>One after the other, the halves are the handler.\<close>

lemma execute_plan_halves:
  assumes "sv_has_queue sv"
  shows "execute_plan sv pid confirmed False = bind (gate sv pid confirmed) (answer_gate sv)"
  unfolding execute_plan_def gate_def bind_assoc
  by (rule arg_cong [where f = "bind (in_db (plans_get pid))"], rule ext)
    (auto simp: bind_raise bind_assoc bind_ret answer_gate_def assms Let_def
      intro!: arg_cong [where f = "bind (in_db (jobs_get_by_plan pid))"] split: option.split)

definition at_once :: "'x service \<Rightarrow> string \<Rightarrow> ('x, job \<times> job) serv" where
  "at_once sv pid =
     bind (gate sv pid True) (\<lambda>a. bind (gate sv pid True) (\<lambda>b.
     bind (answer_gate sv a) (\<lambda>j1. bind (answer_gate sv b) (\<lambda>j2. ret (j1, j2)))))"

section \<open>What comes of it\<close>

lemma gate_reads: "gate sv pid confirmed w = (r, w') \<Longrightarrow> w' = w"
  by (auto simp: gate_def bind_apply in_db_def plans_get_def jobs_get_by_plan_def split: option.splits if_splits)

lemma admitted_by_gate:
  assumes "answer_gate sv (Inr p) w = (Inr j, w')"
  shows "j_plan_id j = p_plan_id p \<and> j_status j = JOB_QUEUED \<and> j_steps j = map new_job_step (p_steps p)"
proof -
  obtain v where "admit sv p w = (Inr j, v)" using assms by (auto simp: answer_gate_def bind_eq_Inr andthen_eq_Inr)
  then obtain jid now u where "j = (new_job jid now p)\<lparr>j_status := JOB_QUEUED\<rparr>" by (rule admit_result)
  then show ?thesis by (simp add: new_job_def)
qed

text \<open>Where no job exists yet, both requests are admitted. Their jobs are for the same plan and have the same
  steps under the same idempotency keys, so the ledger, which has one row per key, and the platform, which
  replays a key, still see one request per step; only the reports are two.\<close>

lemma racing_admissions_share_keys:
  assumes "at_once sv pid w = (Inr (j1, j2), w')" and "jobs_get_by_plan pid (w_db w) = (Inr None, w_db w)"
  shows "j_plan_id j1 = j_plan_id j2 \<and> j_status j1 = JOB_QUEUED \<and> j_status j2 = JOB_QUEUED \<and> j_steps j1 = j_steps j2"
proof -
  obtain a w1 where a: "gate sv pid True w = (Inr a, w1)" using assms(1) by (auto simp: at_once_def bind_eq_Inr)
  then have w1: "w1 = w" by (rule gate_reads)
  then have g: "gate sv pid True w = (Inr a, w)" using a by simp
  obtain p where p: "a = Inr p"
    using g assms(2) by (auto simp: gate_def bind_apply in_db_def plans_get_def split: option.splits if_splits)
  from assms(1) obtain u v where "answer_gate sv a w = (Inr j1, u)" "answer_gate sv a u = (Inr j2, v)"
    by (auto simp: at_once_def bind_eq_Inr g)
  then show ?thesis using admitted_by_gate [of sv p w j1 u] admitted_by_gate [of sv p u j2 v] by (simp add: p)
qed

text \<open>And two jobs there are: nothing in the schema makes the plan of a job unique.\<close>

lemma racing_admissions_make_two_jobs:
  "\<exists>j1 j2 w'. at_once (demo_service 10) ''p1'' demo_planned = (Inr (j1, j2), w') \<and> j_job_id j1 \<noteq> j_job_id j2 \<and>
     w_queue w' = [j_job_id j1, j_job_id j2] \<and> job_at (w_db w') (j_job_id j1) = Some j1 \<and> job_at (w_db w') (j_job_id j2) = Some j2"
proof -
  have ids: "show_nat 0 \<noteq> show_nat (Suc (Suc 0))" by code_simp
  show ?thesis
    by (simp add: at_once_def gate_def answer_gate_def serv_eval admit_def enqueue_def fresh_uuid_def jobs_get_by_plan_def jobs_save_def
      now_is_def demo_planned_def demo_service_def demo_client_def default_settings_def empty_db_def demo_plan_def new_job_def job_at_def
      job_row_of_def ids ids [symmetric])
qed

end
