(* ===== verification/Triples.thy ===== *)
theory Triples
  imports Client
begin

text \<open>
  Pre- and postconditions for the effectful operations, with one postcondition for the value that is
  returned and one for the state an exception leaves. \<open>keeps\<close> relates the state before with the state
  after; a triple says what is known of the value, under a condition on the state before. One rule
  per control construct, collected in \<open>triple_rules\<close>.
\<close>

definition triple :: "('s \<Rightarrow> bool) \<Rightarrow> ('s, 'e, 'a) eff \<Rightarrow> ('a \<Rightarrow> 's \<Rightarrow> bool) \<Rightarrow> ('s \<Rightarrow> bool) \<Rightarrow> bool" where
  "triple P m Q E \<longleftrightarrow> (\<forall>s. P s \<longrightarrow> (case m s of (Inr a, t) \<Rightarrow> Q a t | (Inl e, t) \<Rightarrow> E t))"

lemma tripleI:
  "(\<And>s a t. P s \<Longrightarrow> m s = (Inr a, t) \<Longrightarrow> Q a t) \<Longrightarrow> (\<And>s e t. P s \<Longrightarrow> m s = (Inl e, t) \<Longrightarrow> E t) \<Longrightarrow> triple P m Q E"
  unfolding triple_def by (auto split: prod.splits sum.splits)

lemma triple_Inr: "triple P m Q E \<Longrightarrow> P s \<Longrightarrow> m s = (Inr a, t) \<Longrightarrow> Q a t"
  unfolding triple_def by fastforce

lemma triple_Inl: "triple P m Q E \<Longrightarrow> P s \<Longrightarrow> m s = (Inl e, t) \<Longrightarrow> E t"
  unfolding triple_def by fastforce

lemma triple_conseq:
  "triple P m Q E \<Longrightarrow> (\<And>s. P' s \<Longrightarrow> P s) \<Longrightarrow> (\<And>a t. Q a t \<Longrightarrow> Q' a t) \<Longrightarrow> (\<And>t. E t \<Longrightarrow> E' t) \<Longrightarrow> triple P' m Q' E'"
  by (rule tripleI) (blast dest: triple_Inr triple_Inl)+

lemma triple_pre: "triple P m Q E \<Longrightarrow> (\<And>s. P' s \<Longrightarrow> P s) \<Longrightarrow> triple P' m Q E"
  by (rule triple_conseq)

lemma triple_post: "triple P m Q E \<Longrightarrow> (\<And>a t. Q a t \<Longrightarrow> Q' a t) \<Longrightarrow> triple P m Q' E"
  by (rule triple_conseq)

lemma triple_False: "triple (\<lambda>s. False) m Q E"
  by (simp add: triple_def)

lemma triple_fact: "(F \<Longrightarrow> triple P m Q E) \<Longrightarrow> triple (\<lambda>s. F \<and> P s) m Q E"
  by (auto simp: triple_def)

section \<open>One rule per construct\<close>

lemma triple_ret: "(\<And>s. P s \<Longrightarrow> Q a s) \<Longrightarrow> triple P (ret a) Q E"
  by (simp add: triple_def)

lemma triple_raise: "(\<And>s. P s \<Longrightarrow> E s) \<Longrightarrow> triple P (raise e) Q E"
  by (simp add: triple_def)

lemma triple_gets: "(\<And>s. P s \<Longrightarrow> Q (f s) s) \<Longrightarrow> triple P (gets f) Q E"
  by (simp add: triple_def)

lemma triple_modify: "(\<And>s. P s \<Longrightarrow> Q () (f s)) \<Longrightarrow> triple P (modify f) Q E"
  by (simp add: triple_def)

lemma triple_bind:
  assumes "triple P m R E" and "\<And>a. triple (R a) (f a) Q E"
  shows "triple P (bind m f) Q E"
  unfolding triple_def
proof (intro allI impI)
  fix s
  assume P: "P s"
  show "case bind m f s of (Inr a, t) \<Rightarrow> Q a t | (Inl e, t) \<Rightarrow> E t"
  proof (cases "m s")
    case (Pair r t)
    show ?thesis
    proof (cases r)
      case (Inl e)
      with Pair triple_Inl [OF assms(1) P] show ?thesis by simp
    next
      case (Inr a)
      with Pair P have "R a t" using triple_Inr [OF assms(1)] by simp
      with assms(2) have "case f a t of (Inr a, t) \<Rightarrow> Q a t | (Inl e, t) \<Rightarrow> E t" by (simp add: triple_def)
      with Pair Inr show ?thesis by simp
    qed
  qed
qed

lemma triple_andthen: "triple P m (\<lambda>_. R) E \<Longrightarrow> triple R n Q E \<Longrightarrow> triple P (andthen m n) Q E"
  unfolding andthen_def by (rule triple_bind)

lemma triple_catch:
  assumes "triple P m Q R" and "\<And>e. triple R (h e) Q E"
  shows "triple P (catch m h) Q E"
  unfolding triple_def
proof (intro allI impI)
  fix s
  assume P: "P s"
  show "case catch m h s of (Inr a, t) \<Rightarrow> Q a t | (Inl e, t) \<Rightarrow> E t"
  proof (cases "m s")
    case (Pair r t)
    show ?thesis
    proof (cases r)
      case (Inl e)
      with Pair P have "R t" using triple_Inl [OF assms(1)] by simp
      with assms(2) have "case h e t of (Inr a, t) \<Rightarrow> Q a t | (Inl e, t) \<Rightarrow> E t" by (simp add: triple_def)
      with Pair Inl show ?thesis by simp
    next
      case (Inr a)
      with Pair triple_Inr [OF assms(1) P] show ?thesis by simp
    qed
  qed
qed

text \<open>\<open>finally\<close> with an invariant: what is known of the value does not survive, the invariant does.\<close>

lemma triple_inv: "triple I m (\<lambda>_. I) I \<Longrightarrow> I s \<Longrightarrow> I (snd (m s))"
  unfolding triple_def by (cases "m s") (auto split: sum.splits)

lemma triple_invI: "(\<And>s. I s \<Longrightarrow> I (snd (m s))) \<Longrightarrow> triple I m (\<lambda>_. I) I"
  by (intro tripleI) (metis snd_conv)+

lemma triple_finally:
  assumes "triple I m (\<lambda>_. I) I" and "triple I f (\<lambda>_. I) I"
  shows "triple I (finally_do m f) (\<lambda>_. I) I"
proof (rule triple_invI)
  fix s
  assume "I s"
  then have "I (snd (f (snd (m s))))" by (intro triple_inv [OF assms(2)] triple_inv [OF assms(1)])
  then show "I (snd (finally_do m f s))"
    by (auto simp: finally_do_def split: prod.splits sum.splits)
qed

lemma triple_if: "(c \<Longrightarrow> triple P m Q E) \<Longrightarrow> (\<not> c \<Longrightarrow> triple P n Q E) \<Longrightarrow> triple P (if c then m else n) Q E"
  by simp

lemma triple_option:
  "(x = None \<Longrightarrow> triple P m Q E) \<Longrightarrow> (\<And>a. x = Some a \<Longrightarrow> triple P (f a) Q E) \<Longrightarrow>
   triple P (case x of None \<Rightarrow> m | Some a \<Rightarrow> f a) Q E"
  by (cases x) simp_all

lemmas triple_rules = triple_if triple_option triple_ret triple_raise triple_gets triple_modify triple_bind triple_andthen triple_catch

text \<open>The polling loop: every payload it hands over was answered under the invariant.\<close>

lemma triple_poll:
  assumes "triple I ask (\<lambda>a s. I s \<and> V a) I" and "\<And>d. triple I (sl d) (\<lambda>_. I) I"
  shows "triple I (poll n ask sl i dl w) (\<lambda>r s. I s \<and> (\<forall>payload. r = Inr payload \<longrightarrow> V payload)) I"
proof (induction n arbitrary: w)
  case 0
  show ?case unfolding poll.simps by (rule triple_raise)
next
  case (Suc n)
  show ?case unfolding poll.simps
  proof (rule triple_bind [OF assms(1)])
    fix payload
    show "triple (\<lambda>s. I s \<and> V payload)
       (if status_of payload \<in> set TERMINAL_STATUSES then ret (Inr payload) else if dl \<le> w then ret (Inl w)
        else andthen (sl i) (poll n ask sl i dl (w + i)))
       (\<lambda>r s. I s \<and> (\<forall>payload. r = Inr payload \<longrightarrow> V payload)) I"
      by (auto intro!: triple_ret triple_andthen [OF triple_pre [OF assms(2)] Suc.IH])
  qed
qed

end
