(* ===== verification/Mock_Charges.thy ===== *)
theory Mock_Charges
  imports Platform Executor_Facts Triples
begin

text \<open>
  What the in-memory platform (\<open>app/clients/mock.py\<close>) charges the steps of one plan: never more than
  a price \<open>q\<close> fixed per step, in the reply to the launch, in every later status, and again when a
  key is repeated. Prices depend on the catalog and the multiplier alone, which no request changes.
\<close>

section \<open>Records that cost at most the price\<close>

definition cheap :: "(string \<Rightarrow> money) \<Rightarrow> mock \<Rightarrow> string \<Rightarrow> int \<Rightarrow> bool" where
  "cheap q m sid g \<longleftrightarrow> g < mk_next_id m \<and> (\<forall>r. map_of (mk_generations m) g = Some r \<longrightarrow> gn_cost r \<le> q sid) \<and>
     (\<forall>v. map_of (mk_voiceovers m) g = Some v \<longrightarrow> vo_cost v \<le> q sid)"

definition charge_ok :: "(string \<Rightarrow> money) \<Rightarrow> string \<Rightarrow> obj \<Rightarrow> bool" where
  "charge_ok q sid payload \<longleftrightarrow> (case as_num (jget payload ''cost'') of Some c \<Rightarrow> c \<le> q sid | None \<Rightarrow> True)"

definition reply_ok :: "(string \<Rightarrow> money) \<Rightarrow> mock \<Rightarrow> string \<Rightarrow> obj \<Rightarrow> bool" where
  "reply_ok q m sid reply \<longleftrightarrow> charge_ok q sid reply \<and> as_num (jget reply ''cost'') \<noteq> None \<and>
     (\<forall>g. generation_id_of reply = Some g \<longrightarrow> cheap q m sid g)"

definition ids_below :: "mock \<Rightarrow> bool" where
  "ids_below m \<longleftrightarrow> (\<forall>i \<in> set (map fst (mk_generations m)) \<union> set (map fst (mk_voiceovers m)). i < mk_next_id m)"

text \<open>\<open>m0\<close> is the platform when the plan was priced.\<close>

definition priced_within :: "(string \<Rightarrow> money) \<Rightarrow> plan_step list \<Rightarrow> mock \<Rightarrow> mock \<Rightarrow> bool" where
  "priced_within q steps m0 m \<longleftrightarrow> mk_caps m = mk_caps m0 \<and> mk_price_multiplier m = mk_price_multiplier m0 \<and> ids_below m \<and>
     (\<forall>ps \<in> set steps. \<forall>reply. (JStr (ps_idempotency_key ps), reply) \<in> set (mk_by_idempotency m) \<longrightarrow>
        reply_ok q m (ps_step_id ps) reply)"

text \<open>The price of every request of the plan, and one key per step.\<close>

definition priced_steps :: "(string \<Rightarrow> money) \<Rightarrow> mock_env \<Rightarrow> mock \<Rightarrow> string option \<Rightarrow> plan_step list \<Rightarrow> bool" where
  "priced_steps q env m0 cb steps \<longleftrightarrow> (\<forall>sid. 0 \<le> q sid) \<and>
     (\<forall>ps \<in> set steps. ps_kind ps \<noteq> LOCAL \<longrightarrow> (\<forall>spec rej c r.
        quote_request env m0 (generate_body ps cb) = Inr (spec, rej, c, r) \<longrightarrow> 0 \<le> c \<and> c \<le> q (ps_step_id ps))) \<and>
     (\<forall>ps \<in> set steps. \<forall>ps' \<in> set steps. ps_idempotency_key ps = ps_idempotency_key ps' \<longrightarrow> ps_step_id ps = ps_step_id ps')"

lemma priced_stepsD:
  assumes "priced_steps q env m0 cb steps"
  shows "0 \<le> q sid"
    and "ps \<in> set steps \<Longrightarrow> ps_kind ps \<noteq> LOCAL \<Longrightarrow> quote_request env m0 (generate_body ps cb) = Inr (spec, rej, c, r) \<Longrightarrow> 0 \<le> c"
    and "ps \<in> set steps \<Longrightarrow> ps_kind ps \<noteq> LOCAL \<Longrightarrow> quote_request env m0 (generate_body ps cb) = Inr (spec, rej, c, r) \<Longrightarrow> c \<le> q (ps_step_id ps)"
    and "ps \<in> set steps \<Longrightarrow> ps' \<in> set steps \<Longrightarrow> ps_idempotency_key ps = ps_idempotency_key ps' \<Longrightarrow> ps_step_id ps = ps_step_id ps'"
  using assms unfolding priced_steps_def by blast+

section \<open>What requests leave alone\<close>

definition costs_kept :: "mock \<Rightarrow> mock \<Rightarrow> bool" where
  "costs_kept m m' \<longleftrightarrow> mk_caps m' = mk_caps m \<and> mk_price_multiplier m' = mk_price_multiplier m \<and> mk_next_id m \<le> mk_next_id m' \<and>
     (ids_below m \<longrightarrow> ids_below m') \<and>
     (\<forall>g < mk_next_id m. map_option gn_cost (map_of (mk_generations m') g) = map_option gn_cost (map_of (mk_generations m) g) \<and>
        map_option vo_cost (map_of (mk_voiceovers m') g) = map_option vo_cost (map_of (mk_voiceovers m) g))"

lemma costs_kept_same:
  "mk_caps m' = mk_caps m \<Longrightarrow> mk_price_multiplier m' = mk_price_multiplier m \<Longrightarrow> mk_next_id m' = mk_next_id m \<Longrightarrow>
   mk_generations m' = mk_generations m \<Longrightarrow> mk_voiceovers m' = mk_voiceovers m \<Longrightarrow> costs_kept m m'"
  by (simp add: costs_kept_def ids_below_def)

lemma costs_kept_trans: "costs_kept l m \<Longrightarrow> costs_kept m n \<Longrightarrow> costs_kept l n"
  by (auto simp: costs_kept_def)

lemma cheap_kept:
  assumes "costs_kept m m'" and "cheap q m sid g"
  shows "cheap q m' sid g"
proof -
  have g: "g < mk_next_id m" "mk_next_id m \<le> mk_next_id m'"
    and gens: "map_option gn_cost (map_of (mk_generations m') g) = map_option gn_cost (map_of (mk_generations m) g)"
    and vos: "map_option vo_cost (map_of (mk_voiceovers m') g) = map_option vo_cost (map_of (mk_voiceovers m) g)"
    using assms by (auto simp: costs_kept_def cheap_def)
  have "gn_cost r \<le> q sid" if "map_of (mk_generations m') g = Some r" for r
    using gens that assms(2) by (cases "map_of (mk_generations m) g") (auto simp: cheap_def)
  moreover have "vo_cost v \<le> q sid" if "map_of (mk_voiceovers m') g = Some v" for v
    using vos that assms(2) by (cases "map_of (mk_voiceovers m) g") (auto simp: cheap_def)
  ultimately show ?thesis using g by (auto simp: cheap_def)
qed

lemma reply_ok_kept: "costs_kept m m' \<Longrightarrow> reply_ok q m sid r \<Longrightarrow> reply_ok q m' sid r"
  by (auto simp: reply_ok_def cheap_kept)

lemma priced_within_kept:
  assumes "costs_kept m m'" and "priced_within q steps m0 m" and "mk_by_idempotency m' = mk_by_idempotency m"
  shows "priced_within q steps m0 m'"
  using assms unfolding priced_within_def by (auto simp: costs_kept_def intro: reply_ok_kept [OF assms(1)])

lemma map_of_below: "ids_below m \<Longrightarrow> map_of (mk_generations m) g = Some r \<Longrightarrow> g < mk_next_id m"
  "ids_below m \<Longrightarrow> map_of (mk_voiceovers m) g = Some v \<Longrightarrow> g < mk_next_id m"
  by (force simp: ids_below_def dest: map_of_SomeD)+

lemma fst_update: "fst ` set (AList.update k v al) = insert k (fst ` set al)"
  using dom_map_of_conv_image_fst [of "AList.update k v al"] dom_map_of_conv_image_fst [of al] by (simp add: update_conv')

lemma costs_kept_generation:
  assumes "map_of (mk_generations m) g = Some r" and "gn_cost r' = gn_cost r"
  shows "costs_kept m (m\<lparr>mk_generations := AList.update g r' (mk_generations m)\<rparr>)"
proof -
  have "g \<in> fst ` set (mk_generations m)" using assms(1) by (force dest: map_of_SomeD)
  then show ?thesis using assms by (auto simp: costs_kept_def ids_below_def fst_update update_conv')
qed

lemma costs_kept_voiceover:
  assumes "map_of (mk_voiceovers m) g = Some v" and "vo_cost v' = vo_cost v"
  shows "costs_kept m (m\<lparr>mk_voiceovers := AList.update g v' (mk_voiceovers m)\<rparr>)"
proof -
  have "g \<in> fst ` set (mk_voiceovers m)" using assms(1) by (force dest: map_of_SomeD)
  then show ?thesis using assms by (auto simp: costs_kept_def ids_below_def fst_update update_conv')
qed

lemma pay_back_kept: "costs_kept m (pay_back c m)"
  by (rule costs_kept_same) (simp_all add: pay_back_def)

lemma refund_kept:
  "map_of (mk_generations m) i = Some g \<Longrightarrow> costs_kept m (refund_generation i g m)"
  "map_of (mk_voiceovers m) i = Some v \<Longrightarrow> costs_kept m (refund_voiceover i v m)"
  "mk_by_idempotency (refund_generation i g m) = mk_by_idempotency m"
  "mk_by_idempotency (refund_voiceover i v m) = mk_by_idempotency m"
  using costs_kept_trans [OF costs_kept_generation [of m i g "g\<lparr>gn_refunded := True\<rparr>"] pay_back_kept [of _ "gn_cost g"]]
    costs_kept_trans [OF costs_kept_voiceover [of m i v "v\<lparr>vo_refunded := True\<rparr>"] pay_back_kept [of _ "vo_cost v"]]
    costs_kept_same [of m m]
  by (simp_all add: refund_generation_def refund_voiceover_def) (simp_all add: pay_back_def)

lemma counted_kept: "costs_kept m (m\<lparr>mk_calls := c\<rparr>)" "costs_kept m (count_poll i m)" "costs_kept m (m\<lparr>mk_now := t\<rparr>)"
  by (rule costs_kept_same; simp add: count_poll_def)+

lemma counted_fields: "mk_generations (count_poll i m) = mk_generations m" "mk_voiceovers (count_poll i m) = mk_voiceovers m"
  "mk_by_idempotency (count_poll i m) = mk_by_idempotency m"
  by (simp_all add: count_poll_def)

lemma status_kept:
  "costs_kept m (snd (mock_generation_status env i m))"
  "mk_by_idempotency (snd (mock_generation_status env i m)) = mk_by_idempotency m"
  unfolding status_state Let_def
  by (auto simp: refund_kept(3) counted_fields counted_kept(1)
      intro!: costs_kept_trans [OF counted_kept(1) counted_kept(2)]
        costs_kept_trans [OF counted_kept(1) costs_kept_trans [OF counted_kept(2) refund_kept(1)]] split: option.splits)

lemma voiceover_kept:
  "costs_kept m (snd (mock_voiceover_status i m))"
  "mk_by_idempotency (snd (mock_voiceover_status i m)) = mk_by_idempotency m"
  by (auto simp: mock_voiceover_status_def recorded Let_def refund_kept(4) counted_fields counted_kept(1)
      intro!: costs_kept_trans [OF counted_kept(1) counted_kept(2)]
        costs_kept_trans [OF counted_kept(1) costs_kept_trans [OF counted_kept(2) refund_kept(2)]] split: option.splits)

text \<open>A status never reports a higher cost than the record.\<close>

lemma status_charge:
  assumes "mock_generation_status env (Some g) m = (Inr r, m')" and "cheap q m sid g" and "0 \<le> q sid"
  shows "charge_ok q sid r"
proof -
  have base: "jget (status_base env g x @ rest) ''cost'' = jget rest ''cost''" for x rest
    by (simp add: status_base_def)
  obtain x where x: "map_of (mk_generations m) g = Some x"
    using assms(1) by (cases "map_of (mk_generations m) g") (simp_all add: mock_generation_status_def recorded)
  then have "gn_cost x \<le> q sid" using assms(2) by (simp add: cheap_def)
  then show ?thesis using assms(1,3) x
    by (auto simp: mock_generation_status_def recorded Let_def base charge_ok_def split: if_splits option.splits list.splits)
qed

lemma voiceover_charge:
  assumes "mock_voiceover_status (Some g) m = (Inr r, m')" and "cheap q m sid g" and "0 \<le> q sid"
  shows "charge_ok q sid r"
proof -
  obtain x where x: "map_of (mk_voiceovers m) g = Some x"
    using assms(1) by (cases "map_of (mk_voiceovers m) g") (simp_all add: mock_voiceover_status_def recorded)
  then have "vo_cost x \<le> q sid" using assms(2) by (simp add: cheap_def)
  then show ?thesis using assms(1,3) x
    by (auto simp: mock_voiceover_status_def recorded Let_def charge_ok_def split: if_splits)
qed

section \<open>Launches\<close>

text \<open>What a launch that was not a repeat adds: one record above all ids, at the price that was charged.\<close>

lemma generation_replies:
  "as_num (jget (fst (start_voiceover m spec body key c n)) ''cost'') = Some c"
  "generation_id_of (fst (start_voiceover m spec body key c n)) = Some (mk_next_id m)"
  "as_num (jget (fst (start_generation m spec body key c i)) ''cost'') = Some c"
  "generation_id_of (fst (start_generation m spec body key c i)) = Some i"
  by (simp_all add: start_voiceover_def start_generation_def generation_id_of_def Let_def split: option.split)

lemma started_keys:
  "mk_by_idempotency (snd (start_voiceover m spec body key c n)) =
     mk_by_idempotency m @ [(key, fst (start_voiceover m spec body key c n))]"
  "mk_by_idempotency (snd (start_generation m spec body key c i)) =
     mk_by_idempotency m @ [(key, fst (start_generation m spec body key c i))]"
  by (simp_all add: start_voiceover_def start_generation_def Let_def)

lemma charged_kept: "costs_kept m ((charge c m)\<lparr>mk_next_id := mk_next_id m + 1\<rparr>)"
  by (auto simp: costs_kept_def charge_def ids_below_def) (force intro: less_imp_le)+

lemma started_voiceover:
  assumes "ids_below m" and "c \<le> q sid"
  shows "costs_kept m (snd (start_voiceover m spec body key c n))"
    and "reply_ok q (snd (start_voiceover m spec body key c n)) sid (fst (start_voiceover m spec body key c n))"
proof -
  have fresh: "mk_next_id m \<notin> fst ` set (mk_generations m)" using assms(1) by (auto simp: ids_below_def)
  then have "map_of (mk_generations m) (mk_next_id m) = None" by (simp add: map_of_eq_None_iff)
  then show "reply_ok q (snd (start_voiceover m spec body key c n)) sid (fst (start_voiceover m spec body key c n))"
    using assms(2) by (simp add: reply_ok_def charge_ok_def generation_replies cheap_def start_voiceover_fields update_conv')
  show "costs_kept m (snd (start_voiceover m spec body key c n))"
    using assms(1) by (auto simp: costs_kept_def start_voiceover_fields ids_below_def fst_update update_conv') (force intro: less_imp_le)+
qed

lemma started_generation:
  assumes "ids_below m" and "c \<le> q sid" and "i < mk_next_id m" and "i \<notin> fst ` set (mk_voiceovers m)" and "m = (charge c' m1)\<lparr>mk_next_id := i + 1\<rparr>"
    and "mk_next_id m1 = i" and "ids_below m1"
  shows "costs_kept m1 (snd (start_generation m spec body key c i))"
    and "reply_ok q (snd (start_generation m spec body key c i)) sid (fst (start_generation m spec body key c i))"
proof -
  obtain g where g: "mk_generations (snd (start_generation m spec body key c i)) = AList.update i g (mk_generations m)"
    "gn_cost g = c" using start_generation_fields(8) by blast
  have "map_of (mk_voiceovers m) i = None" using assms(4) by (simp add: map_of_eq_None_iff)
  then show "reply_ok q (snd (start_generation m spec body key c i)) sid (fst (start_generation m spec body key c i))"
    using assms(2,3) g by (simp add: reply_ok_def charge_ok_def generation_replies cheap_def start_generation_fields update_conv')
  have "mk_generations m = mk_generations m1" "mk_voiceovers m = mk_voiceovers m1" "mk_caps m = mk_caps m1"
    "mk_price_multiplier m = mk_price_multiplier m1" "mk_next_id m = i + 1"
    by (simp_all add: assms(5) charge_def)
  then show "costs_kept m1 (snd (start_generation m spec body key c i))"
    using assms(6,7) g by (auto simp: costs_kept_def start_generation_fields ids_below_def fst_update update_conv')
      (force intro: less_imp_le)+
qed

lemma admitted:
  assumes "admit_generation m spec body key reserve r = (Inr reply, m')" and "ids_below m" and "0 \<le> reserve" and "on_grid 2 reserve"
    and "reserve \<le> q sid"
  shows "costs_kept m m'" and "reply_ok q m' sid reply" and "mk_by_idempotency m' = mk_by_idempotency m @ [(key, reply)]"
proof -
  let ?c = "actual_cost reserve r" and ?n = "py_len (str_or_empty (jget body ''prompt''))"
  let ?m = "(charge ?c m)\<lparr>mk_next_id := mk_next_id m + 1\<rparr>"
  have c: "?c \<le> q sid" using actual_cost_bounds [OF assms(3,4), of r] assms(5) by linarith
  have kept: "costs_kept m ?m" by (rule charged_kept)
  have below: "ids_below ?m" using kept assms(2) by (simp add: costs_kept_def)
  have new: "mk_next_id m \<notin> fst ` set (mk_voiceovers ?m)" using assms(2) by (auto simp: ids_below_def charge_def)
  have keys: "mk_by_idempotency ?m = mk_by_idempotency m" by (simp add: charge_def)
  consider (long) "(reply, m') = start_voiceover ?m spec body key ?c ?n" | (short) "(reply, m') = start_generation ?m spec body key ?c (mk_next_id m)"
    using assms(1) by (auto simp: admit_generation_def Let_def case_prod_beta prod_eq_iff split: if_splits)
  then have "costs_kept m m' \<and> reply_ok q m' sid reply \<and> mk_by_idempotency m' = mk_by_idempotency m @ [(key, reply)]"
  proof cases
    case long
    then have "reply = fst (start_voiceover ?m spec body key ?c ?n)" "m' = snd (start_voiceover ?m spec body key ?c ?n)"
      by (metis fst_conv, metis snd_conv)
    then show ?thesis using started_voiceover [OF below, of ?c q sid spec body key ?n] c keys costs_kept_trans [OF kept]
      by (simp add: started_keys)
  next
    case short
    then have "reply = fst (start_generation ?m spec body key ?c (mk_next_id m))" "m' = snd (start_generation ?m spec body key ?c (mk_next_id m))"
      by (metis fst_conv, metis snd_conv)
    then show ?thesis using started_generation [OF below, of ?c q sid "mk_next_id m" ?c m spec body key] c keys new assms(2)
      by (simp add: started_keys)
  qed
  then show "costs_kept m m'" "reply_ok q m' sid reply" "mk_by_idempotency m' = mk_by_idempotency m @ [(key, reply)]" by blast+
qed

lemma admit_error: "admit_generation m spec body key reserve r = (Inl e, m') \<Longrightarrow> m' = m"
  by (auto simp: admit_generation_def Let_def case_prod_beta split: if_splits)

lemma quote_grid: "quote_request env m body = Inr (spec, rej, c, r) \<Longrightarrow> on_grid 2 c"
  by (auto simp: quote_request_def mock_price_def Let_def on_grid_round split: sum.splits if_splits)

lemma quote_same:
  assumes "mk_caps m = mk_caps m0" and "mk_price_multiplier m = mk_price_multiplier m0"
  shows "quote_request env m body = quote_request env m0 body"
proof -
  have "mock_price m = mock_price m0" "spec_or_error env m = spec_or_error env m0"
    by (rule ext | simp add: mock_price_def spec_or_error_def Let_def assms)+
  then show ?thesis by (simp only: quote_request_def)
qed

text \<open>A launch: a repeat is answered as before, a new one is charged the price of its request.\<close>

lemma generate_within:
  assumes steps: "priced_steps q env m0 cb steps" "ps \<in> set steps" "ps_kind ps \<noteq> LOCAL" and m: "priced_within q steps m0 m"
    and call: "mock_generate env (generate_body ps cb) m = (r, m')"
  shows "costs_kept m m'" and "priced_within q steps m0 m'" and "r = Inr reply \<Longrightarrow> reply_ok q m' (ps_step_id ps) reply"
proof -
  let ?b = "generate_body ps cb" and ?k = "JStr (ps_idempotency_key ps)"
  let ?m = "m\<lparr>mk_calls := mk_calls m @ [(''generate'', ?b)]\<rparr>"
  have key: "jget ?b ''idempotency_key'' = ?k" by (simp add: jget_def generate_body_key)
  have fields: "mk_by_idempotency ?m = mk_by_idempotency m" "ids_below ?m = ids_below m" by (simp_all add: ids_below_def)
  have below: "ids_below ?m" using m fields(2) by (simp add: priced_within_def)
  have same: "costs_kept m ?m" by (rule counted_kept)
  have win: "priced_within q steps m0 ?m" using same m fields(1) by (rule priced_within_kept)
  have eq: "(r, m') = (if \<not> truthy ?k then (Inl (mock_error 422 ''validation_failed'' ''idempotency_key required'' JNull JNull None), ?m)
     else case replay_of ?m ?k of Some response \<Rightarrow> (Inr response, ?m)
     | None \<Rightarrow> (case quote_request env ?m ?b of Inl e \<Rightarrow> (Inl e, ?m)
         | Inr (spec, rejected, reserve, is_reserve) \<Rightarrow> admit_generation ?m spec ?b ?k reserve is_reserve))"
    unfolding call [symmetric] by (simp add: mock_generate_def recorded key hashable_def Let_def)
  consider (error) e where "r = Inl e" "m' = ?m" | (repeat) x where "r = Inr x" "m' = ?m" "replay_of ?m ?k = Some x"
    | (new) spec rej c z where "quote_request env ?m ?b = Inr (spec, rej, c, z)" "admit_generation ?m spec ?b ?k c z = (r, m')"
    using eq by (auto split: if_splits option.splits sum.splits prod.splits)
  then have "costs_kept m m' \<and> priced_within q steps m0 m' \<and> (\<forall>reply. r = Inr reply \<longrightarrow> reply_ok q m' (ps_step_id ps) reply)"
  proof cases
    case error
    then show ?thesis using same win by simp
  next
    case repeat
    then obtain kx where "find (\<lambda>(k, r). py_eq k ?k) (mk_by_idempotency ?m) = Some kx" "snd kx = x"
      unfolding replay_of_def map_option_eq_Some by blast
    then obtain k where kx: "find (\<lambda>(k, r). py_eq k ?k) (mk_by_idempotency ?m) = Some (k, x)" by (metis prod.collapse)
    have "py_eq k ?k" "(k, x) \<in> set (mk_by_idempotency ?m)" using find_in [OF kx] by simp_all
    moreover from this(1) have "k = ?k" by (cases k) (auto split: if_splits)
    ultimately have "reply_ok q ?m (ps_step_id ps) x" using win steps(2) by (simp add: priced_within_def)
    with repeat same win show ?thesis by simp
  next
    case new
    have quote: "quote_request env m0 ?b = Inr (spec, rej, c, z)"
      using quote_same [of ?m m0 env ?b] win new(1) by (simp add: priced_within_def)
    note c = priced_stepsD(2,3) [OF steps quote] quote_grid [OF quote]
    show ?thesis
    proof (cases r)
      case (Inl e)
      then have "m' = ?m" using new(2) admit_error by blast
      with Inl same win show ?thesis by simp
    next
      case (Inr x)
      note a = admitted [OF new(2) [unfolded Inr] below c(1,3), of q, OF c(2)]
      have "priced_within q steps m0 m'"
        unfolding priced_within_def
      proof (intro conjI ballI allI impI)
        show "mk_caps m' = mk_caps m0" "mk_price_multiplier m' = mk_price_multiplier m0" "ids_below m'"
          using a(1) win by (simp_all add: costs_kept_def priced_within_def)
        fix ps' reply
        assume s: "ps' \<in> set steps" "(JStr (ps_idempotency_key ps'), reply) \<in> set (mk_by_idempotency m')"
        then consider "(JStr (ps_idempotency_key ps'), reply) \<in> set (mk_by_idempotency ?m)" | "ps_idempotency_key ps' = ps_idempotency_key ps" "reply = x"
          using a(3) by auto
        then show "reply_ok q m' (ps_step_id ps') reply"
        proof cases
          case 1
          then have "reply_ok q ?m (ps_step_id ps') reply" using win s(1) by (simp add: priced_within_def)
          then show ?thesis by (rule reply_ok_kept [OF a(1)])
        next
          case 2
          then have "ps_step_id ps' = ps_step_id ps" using steps(1,2) s(1) by (metis priced_stepsD(4))
          with 2 a(2) show ?thesis by simp
        qed
      qed
      then show ?thesis using Inr a(2) costs_kept_trans [OF same a(1)] by simp
    qed
  qed
  then show "costs_kept m m'" "priced_within q steps m0 m'" "r = Inr reply \<Longrightarrow> reply_ok q m' (ps_step_id ps) reply" by blast+
qed

end
