(* ===== verification/Mock_Run.thy ===== *)
theory Mock_Run
  imports Mock_Charges
begin

text \<open>
  The executor (\<open>app/services/executor.py\<close>) against the in-memory platform (\<open>app/clients/mock.py\<close>): no
  step of a run ever costs more than the price that was fixed for it. The invariant relates the job,
  the step ledger and the platform's records; each function of the executor keeps it, on every path.
\<close>

section \<open>The invariant\<close>

text \<open>What was agreed on: the price per step, the plan, the platform at that time, the steps of the job, its
  id and the most it may cost.\<close>

record bill =
  bi_price :: "string \<Rightarrow> money"
  bi_plan :: plan
  bi_start :: mock
  bi_ids :: "string list"
  bi_job :: string
  bi_total :: money

definition step_within :: "bill \<Rightarrow> mock \<Rightarrow> job_step \<Rightarrow> bool" where
  "step_within B m t \<longleftrightarrow> js_actual_cost_rub t \<le> bi_price B (js_step_id t) \<and>
     (\<forall>g. js_generation_id t = Some g \<longrightarrow> cheap (bi_price B) m (js_step_id t) g)"

definition row_within :: "bill \<Rightarrow> mock \<Rightarrow> step_row \<Rightarrow> bool" where
  "row_within B m r \<longleftrightarrow> (sx_plan_id r = p_plan_id (bi_plan B) \<longrightarrow>
     (\<forall>g. sx_generation_id r = Some g \<longrightarrow> cheap (bi_price B) m (sx_step_id r) g))"

definition charges_ok :: "bill \<Rightarrow> mock est \<Rightarrow> bool" where
  "charges_ok B s \<longleftrightarrow> priced_within (bi_price B) (p_steps (bi_plan B)) (bi_start B) (e_ext s) \<and>
     map js_step_id (j_steps (e_job s)) = bi_ids B \<and> j_actual_cost_rub (e_job s) \<le> bi_total B \<and>
     (\<forall>r \<in> set (t_jobs (e_db s)). jr_job_id r = bi_job B \<longrightarrow> j_actual_cost_rub (jr_document r) \<le> bi_total B) \<and>
     (\<forall>t \<in> set (j_steps (e_job s)). step_within B (e_ext s) t) \<and> (\<forall>r \<in> set (t_steps (e_db s)). row_within B (e_ext s) r)"

text \<open>Facts about the platform that later requests do not change.\<close>

definition stable :: "(mock \<Rightarrow> bool) \<Rightarrow> bool" where
  "stable P \<longleftrightarrow> (\<forall>m m'. costs_kept m m' \<longrightarrow> P m \<longrightarrow> P m')"

definition charges_and :: "bill \<Rightarrow> (mock \<Rightarrow> bool) \<Rightarrow> mock est \<Rightarrow> bool" where
  "charges_and B P s \<longleftrightarrow> charges_ok B s \<and> P (e_ext s)"

lemma step_within_kept: "costs_kept m m' \<Longrightarrow> step_within B m t \<Longrightarrow> step_within B m' t"
  by (auto simp: step_within_def intro: cheap_kept)

lemma row_within_kept: "costs_kept m m' \<Longrightarrow> row_within B m r \<Longrightarrow> row_within B m' r"
  by (auto simp: row_within_def intro: cheap_kept)

lemma stable_facts [intro!]:
  "stable (\<lambda>m. c)" "stable (\<lambda>m. step_within B m t)" "stable (\<lambda>m. \<forall>g. gid = Some g \<longrightarrow> cheap q m sid g)"
  "stable (\<lambda>m. reply_ok q m sid r)" "stable P \<Longrightarrow> stable Q \<Longrightarrow> stable (\<lambda>m. P m \<and> Q m)"
  by (auto simp: stable_def step_within_def intro: cheap_kept reply_ok_kept)

lemma charges_and_True: "charges_and B (\<lambda>m. True) = charges_ok B"
  by (simp add: charges_and_def fun_eq_iff)

lemma charges_kept:
  assumes "charges_and B P s" and "stable P" and "costs_kept (e_ext s) m" and "priced_within (bi_price B) (p_steps (bi_plan B)) (bi_start B) m"
  shows "charges_and B P (s\<lparr>e_ext := m\<rparr>)"
proof -
  have "\<forall>t \<in> set (j_steps (e_job s)). step_within B m t" "\<forall>r \<in> set (t_steps (e_db s)). row_within B m r"
    using assms(1) step_within_kept [OF assms(3)] row_within_kept [OF assms(3)] by (auto simp: charges_and_def charges_ok_def)
  then show ?thesis using assms by (auto simp: charges_and_def charges_ok_def stable_def)
qed

section \<open>The parts\<close>

lemma triple_ext:
  assumes "stable P" and "\<And>m r m'. op m = (r, m') \<Longrightarrow> P m \<Longrightarrow> priced_within (bi_price B) (p_steps (bi_plan B)) (bi_start B) m \<Longrightarrow>
      costs_kept m m' \<and> priced_within (bi_price B) (p_steps (bi_plan B)) (bi_start B) m' \<and> (\<forall>a. r = Inr a \<longrightarrow> V a m')"
  shows "triple (charges_and B P) (on_ext op) (\<lambda>a. charges_and B (\<lambda>m. P m \<and> V a m)) (charges_and B P)"
proof -
  have "charges_and B P (s\<lparr>e_ext := m'\<rparr>) \<and> (\<forall>a. r = Inr a \<longrightarrow> V a m')" if "charges_and B P s" "op (e_ext s) = (r, m')" for s r m'
    using assms(2) [OF that(2)] that(1) charges_kept [OF that(1) assms(1), of m'] by (auto simp: charges_and_def charges_ok_def)
  then show ?thesis
    by (intro tripleI) (auto simp: on_ext_def Let_def case_prod_beta prod_eq_iff charges_and_def)
qed

text \<open>The clock and the sleeper.\<close>

lemma triple_clock:
  assumes "stable P" and "x_client env = mock_client me"
  shows "triple (charges_and B P) (utcnow env) (\<lambda>_. charges_and B P) (charges_and B P)"
    and "triple (charges_and B P) (sleep_for env d) (\<lambda>_. charges_and B P) (charges_and B P)"
proof -
  show "triple (charges_and B P) (utcnow env) (\<lambda>_. charges_and B P) (charges_and B P)"
    unfolding utcnow_def
    by (rule triple_post [OF triple_ext [OF assms(1), where V = "\<lambda>_ _. True"]])
      (auto simp: now_is_def assms(2) mock_client_def costs_kept_same)
  show "triple (charges_and B P) (sleep_for env d) (\<lambda>_. charges_and B P) (charges_and B P)"
    unfolding sleep_for_def
    by (rule triple_post [OF triple_ext [OF assms(1), where V = "\<lambda>_ _. True"]])
      (auto simp: assms(2) mock_client_def costs_kept_same intro!: counted_kept(3) priced_within_kept [OF counted_kept(3)])
qed

lemma step_within_cost:
  "step_within B m t \<Longrightarrow> c \<le> bi_price B (js_step_id t) \<Longrightarrow> step_within B m (t\<lparr>js_actual_cost_rub := c\<rparr>)"
  by (simp add: step_within_def)

lemma upd_first_in: "t \<in> set (upd_first P f ts) \<Longrightarrow> t \<in> set ts \<or> (\<exists>u \<in> set ts. P u \<and> t = f u)"
  by (induction ts) (auto split: if_splits)

lemma triple_step:
  assumes "\<And>t m. js_step_id t = sid \<Longrightarrow> P m \<Longrightarrow> step_within B m t \<Longrightarrow> js_step_id (f t) = js_step_id t \<and> step_within B m (f t)"
  shows "triple (charges_and B P) (modify_step sid f) (\<lambda>_. charges_and B P) (charges_and B P)"
proof (rule triple_invI)
  fix s
  assume s: "charges_and B P s"
  have "map js_step_id (upd_first (\<lambda>t. js_step_id t = sid) f ts) = map js_step_id ts"
    if "\<forall>t \<in> set ts. step_within B (e_ext s) t" for ts
    using that assms s by (induction ts) (auto simp: charges_and_def)
  moreover have "step_within B (e_ext s) t" if "t \<in> set (upd_first (\<lambda>t. js_step_id t = sid) f (j_steps (e_job s)))" for t
    using upd_first_in [OF that] assms s by (auto simp: charges_and_def charges_ok_def)
  ultimately show "charges_and B P (snd (modify_step sid f s))"
    using s by (simp add: charges_and_def charges_ok_def modify_step_def modify_job_def)
qed

text \<open>What touches neither the steps nor the platform.\<close>

lemma triple_quiet:
  assumes "\<And>s. e_ext (snd (m s)) = e_ext s \<and> j_steps (e_job (snd (m s))) = j_steps (e_job s) \<and>
    j_actual_cost_rub (e_job (snd (m s))) = j_actual_cost_rub (e_job s) \<and> e_db (snd (m s)) = e_db s"
  shows "triple (charges_and B P) m (\<lambda>_. charges_and B P) (charges_and B P)"
  using assms by (intro triple_invI) (simp add: charges_and_def charges_ok_def)

lemma upsert_in: "r \<in> set (upsert key upd row rs) \<Longrightarrow> r \<in> set rs \<or> r = row \<or> (\<exists>x \<in> set rs. r = upd x)"
  by (induction rs) (auto split: if_splits)

lemma triple_save: "triple (charges_and B P) save_job (\<lambda>_. charges_and B P) (charges_and B P)"
proof (rule triple_invI)
  fix s
  assume s: "charges_and B P s"
  have "j_actual_cost_rub (jr_document r) \<le> bi_total B"
    if "r \<in> set (t_jobs (snd (jobs_save (e_job s) (e_db s))))" "jr_job_id r = bi_job B" for r
    using that s by (auto simp: jobs_save_def charges_and_def charges_ok_def job_row_of_def split: if_splits dest!: upsert_in)
  moreover have "t_steps (snd (jobs_save (e_job s) (e_db s))) = t_steps (e_db s)" by (simp add: jobs_save_def)
  ultimately show "charges_and B P (snd (save_job s))"
    using s by (simp add: save_job_def on_db_def charges_and_def charges_ok_def Let_def case_prod_beta)
qed

lemma triple_job:
  "(\<And>j. j_steps (f j) = j_steps j \<and> j_actual_cost_rub (f j) = j_actual_cost_rub j) \<Longrightarrow>
   triple (charges_and B P) (modify_job f) (\<lambda>_. charges_and B P) (charges_and B P)"
  by (rule triple_quiet) (simp add: modify_job_def)

lemma triple_notes:
  "triple (charges_and B P) (add_error e) (\<lambda>_. charges_and B P) (charges_and B P)"
  "triple (charges_and B P) (add_warning e) (\<lambda>_. charges_and B P) (charges_and B P)"
  "triple (charges_and B P) (modify_guard f) (\<lambda>_. charges_and B P) (charges_and B P)"
  unfolding add_error_def add_warning_def by (simp_all add: triple_job) (rule triple_quiet, simp add: modify_guard_def)

text \<open>The sum of the steps, where the job reports it.\<close>

definition bill_adds_up :: "bill \<Rightarrow> bool" where
  "bill_adds_up B \<longleftrightarrow> round4 (sum_list (map (bi_price B) (bi_ids B))) \<le> bi_total B"

lemma charges_sum:
  assumes "charges_ok B s"
  shows "sum_list (map js_actual_cost_rub (j_steps (e_job s))) \<le> sum_list (map (bi_price B) (bi_ids B))"
proof -
  have "map js_step_id (j_steps (e_job s)) = bi_ids B" "\<forall>t \<in> set (j_steps (e_job s)). js_actual_cost_rub t \<le> bi_price B (js_step_id t)"
    using assms by (simp_all add: charges_ok_def step_within_def)
  then show ?thesis using sum_list_mono [of "j_steps (e_job s)" js_actual_cost_rub "bi_price B \<circ> js_step_id"]
    by (metis comp_apply map_map)
qed

lemma triple_total:
  assumes "bill_adds_up B" and "\<And>j. j_steps (f j) = j_steps j \<and> j_actual_cost_rub (f j) = steps_actual_cost (j_steps j)"
  shows "triple (charges_and B P) (modify_job f) (\<lambda>_. charges_and B P) (charges_and B P)"
proof (rule triple_invI)
  fix s
  assume s: "charges_and B P s"
  then have "steps_actual_cost (j_steps (e_job s)) \<le> round4 (sum_list (map (bi_price B) (bi_ids B)))"
    unfolding steps_actual_cost_def by (intro py_round_mono charges_sum) (simp add: charges_and_def)
  then have "steps_actual_cost (j_steps (e_job s)) \<le> bi_total B" using assms(1) by (simp add: bill_adds_up_def)
  then show "charges_and B P (snd (modify_job f s))"
    using s by (simp add: charges_and_def charges_ok_def modify_job_def assms(2))
qed

lemma triple_refresh: "bill_adds_up B \<Longrightarrow> triple (charges_and B P) refresh_cost (\<lambda>_. charges_and B P) (charges_and B P)"
  unfolding refresh_cost_def by (rule triple_total) simp_all

text \<open>The ledger.\<close>

lemma triple_update_step:
  assumes "pid = p_plan_id (bi_plan B)" and "\<And>m g. P m \<Longrightarrow> gid = Some g \<Longrightarrow> cheap (bi_price B) m sid g"
  shows "triple (charges_and B P) (on_db (update_step pid sid st gid cost now)) (\<lambda>_. charges_and B P) (charges_and B P)"
proof (rule triple_invI)
  fix s
  assume s: "charges_and B P s"
  have "row_within B (e_ext s) r" if "r \<in> set (t_steps (snd (update_step pid sid st gid cost now (e_db s))))" for r
    using that s assms(2) [of "e_ext s"]
    by (auto simp: update_step_def sql_update_def charges_and_def charges_ok_def row_within_def coalesce_def split: if_splits option.splits)
  moreover have "t_jobs (snd (update_step pid sid st gid cost now (e_db s))) = t_jobs (e_db s)" by (simp add: update_step_def)
  ultimately show "charges_and B P (snd (on_db (update_step pid sid st gid cost now) s))"
    using s by (simp add: charges_and_def charges_ok_def on_db_def case_prod_beta)
qed

lemma claim_step_rows:
  assumes "claim_step h pid sid jid key body now d = (r, d')"
  shows "t_jobs d' = t_jobs d" and "\<And>x. x \<in> set (t_steps d') \<Longrightarrow> x \<in> set (t_steps d) \<or> sx_generation_id x = None"
    and "r = Inr x \<Longrightarrow> x \<in> set (t_steps d') \<and> sx_plan_id x = pid \<and> sx_step_id x = sid"
  using assms
  by (auto simp: claim_step_def get_step_def insert_step_def step_at_def Let_def bind_apply andthen_def
      split: option.splits if_splits dest!: find_in)
    (metis step_row.select_convs(6) option.distinct(1))

lemma triple_claim_step:
  assumes "pid = p_plan_id (bi_plan B)"
  shows "triple (charges_and B P) (on_db (claim_step h pid sid jid key body now))
    (\<lambda>r. charges_and B (\<lambda>m. P m \<and> (\<forall>g. sx_generation_id r = Some g \<longrightarrow> cheap (bi_price B) m sid g))) (charges_and B P)"
proof -
  have "charges_and B P (s\<lparr>e_db := d\<rparr>) \<and> (\<forall>x g. r = Inr x \<longrightarrow> sx_generation_id x = Some g \<longrightarrow> cheap (bi_price B) (e_ext s) sid g)"
    if s: "charges_and B P s" and c: "claim_step h pid sid jid key body now (e_db s) = (r, d)" for s r d
  proof -
    have rows: "row_within B (e_ext s) x" if "x \<in> set (t_steps d)" for x
      using claim_step_rows(2) [OF c that] s by (auto simp: charges_and_def charges_ok_def row_within_def)
    moreover have "cheap (bi_price B) (e_ext s) sid g" if "r = Inr x" "sx_generation_id x = Some g" for x g
      using claim_step_rows(3) [OF c that(1)] rows [of x] that(2) assms by (auto simp: row_within_def)
    ultimately show ?thesis using s claim_step_rows(1) [OF c] by (auto simp: charges_and_def charges_ok_def)
  qed
  then show ?thesis
    by (intro tripleI) (auto simp: on_db_def Let_def case_prod_beta prod_eq_iff charges_and_def)
qed

lemma triple_the_step:
  "triple (charges_and B P) (the_step sid) (\<lambda>js. charges_and B (\<lambda>m. P m \<and> step_within B m js \<and> js_step_id js = sid)) (charges_and B P)"
  by (rule tripleI) (auto simp: the_step_def find_step_def charges_and_def charges_ok_def split: option.splits dest!: find_in)

text \<open>The parts, with the invariant alone after an exception.\<close>

abbreviation charged :: "bill \<Rightarrow> mock est \<Rightarrow> bool" where
  "charged B \<equiv> charges_and B (\<lambda>m. True)"

lemma charged_weak: "charges_and B P s \<Longrightarrow> charged B s"
  by (simp add: charges_and_def)

lemma triple_E: "triple R m Q (charges_and B P) \<Longrightarrow> triple R m Q (charged B)"
  by (erule triple_conseq) (simp_all add: charges_and_def)

lemma triple_weak: "triple R m (\<lambda>a. charges_and B (V a)) E \<Longrightarrow> triple R m (\<lambda>_. charged B) E"
  by (erule triple_post) (simp add: charges_and_def)

lemma triple_skip: "triple P (ret a) (\<lambda>_. P) E"
  by (rule triple_ret)

lemma triple_stop: "triple (charges_and B P) (raise e) Q (charged B)"
  by (rule triple_raise) (rule charged_weak)

lemmas run_rules = triple_if triple_option triple_skip triple_stop triple_andthen triple_bind

lemmas run_parts = triple_clock [THEN triple_E] triple_step [THEN triple_E] triple_save [THEN triple_E] triple_job [THEN triple_E]
  triple_notes [THEN triple_E] triple_refresh [THEN triple_E] triple_update_step [THEN triple_E] triple_claim_step [THEN triple_E]
  triple_the_step [THEN triple_E]

section \<open>Waiting and settling\<close>

text \<open>A run of the plan of the bill against the platform.\<close>

definition billed_run :: "bill \<Rightarrow> mock_env \<Rightarrow> mock exec_env \<Rightarrow> plan \<Rightarrow> bool" where
  "billed_run B me env p \<longleftrightarrow> x_client env = mock_client me \<and> p_plan_id p = p_plan_id (bi_plan B) \<and> p_steps p = p_steps (bi_plan B) \<and> bill_adds_up B \<and>
     priced_steps (bi_price B) me (bi_start B) (x_callback_url env) (p_steps p)"

lemma billed_runD:
  assumes "billed_run B me env p"
  shows "x_client env = mock_client me" "p_plan_id p = p_plan_id (bi_plan B)" "0 \<le> bi_price B sid" "bill_adds_up B"
  using assms priced_stepsD(1) by (auto simp: billed_run_def)

lemma outcome_within:
  assumes "step_within B m js" and "apply_outcome now js payload = (js1, final)" and "charge_ok (bi_price B) (js_step_id js) payload"
    and "0 \<le> bi_price B (js_step_id js)"
  shows "step_within B m js1" and "final \<le> bi_price B (js_step_id js)" and "js_step_id js1 = js_step_id js" and "js_generation_id js1 = js_generation_id js"
proof -
  have "as_float (jget payload ''cost'') (js_actual_cost_rub js) \<le> bi_price B (js_step_id js)"
    using assms(1,3) by (simp add: as_float_def charge_ok_def step_within_def split: option.splits)
  then have "js1 = fst (apply_outcome now js payload)" "final \<le> bi_price B (js_step_id js)"
    using assms(2,4) by (auto simp: apply_outcome_def Let_def split: if_splits)
  then show "step_within B m js1" "final \<le> bi_price B (js_step_id js)" "js_step_id js1 = js_step_id js" "js_generation_id js1 = js_generation_id js"
    using assms(1) by (simp_all add: step_within_def)
qed

lemma triple_settle:
  assumes run: "billed_run B me env p" and pay: "charge_ok (bi_price B) sid payload"
  shows "triple (charged B) (settle env p sid payload) (\<lambda>_. charged B) (charged B)"
  unfolding settle_def
proof (rule triple_bind [OF run_parts(12)], rule triple_bind [OF run_parts(1) [OF _ billed_runD(1) [OF run]]])
  fix js now
  show "stable (\<lambda>m. True \<and> step_within B m js \<and> js_step_id js = sid)" by auto
  obtain js1 final where o: "apply_outcome now js payload = (js1, final)" by fastforce
  have out: "js_step_id js1 = sid \<and> step_within B m js1 \<and> final \<le> bi_price B sid \<and> js_generation_id js1 = js_generation_id js"
    if "step_within B m js" "js_step_id js = sid" for m
    using outcome_within [OF that(1) o] that pay billed_runD(3) [OF run] by simp
  have row: "cheap (bi_price B) m sid g" if "True \<and> step_within B m js \<and> js_step_id js = sid" "js_generation_id js1 = Some g" for m g
    using out [of m] that by (auto simp: step_within_def)
  note plan = billed_runD(2) [OF run]
  show "triple (charges_and B (\<lambda>m. True \<and> step_within B m js \<and> js_step_id js = sid))
     (let previous_cost = js_actual_cost_rub js; (js1, final_cost) = apply_outcome now js payload
      in andthen (modify_step sid (\<lambda>_. js1)) (andthen (case js_error js1 of
            Some e \<Rightarrow> if js_status js1 = STEP_FAILED then add_error (Pref sid e) else ret () | None \<Rightarrow> ret ())
        (andthen (if final_cost \<noteq> previous_cost then
              modify_guard (\<lambda>g. let g1 = release g previous_cost (JStr sid) in
                 g1\<lparr>g_committed_rub := round4 (g_committed_rub g1 + final_cost)\<rparr>) else ret ())
        (andthen (modify_step sid (\<lambda>s. s\<lparr>js_actual_cost_rub := final_cost\<rparr>))
        (bind (utcnow env) (\<lambda>t2. on_db (update_step (p_plan_id p) sid (js_status js1) (js_generation_id js1) (Some final_cost) t2)))))))
     (\<lambda>_. charged B) (charged B)"
    unfolding o Let_def prod.case
    by (rule triple_weak) (rule run_rules run_parts plan billed_runD(1) [OF run] | erule row | force intro: step_within_cost dest: out)+
qed

lemma step_within_simps [simp]:
  "step_within B m (t\<lparr>js_status := st\<rparr>) = step_within B m t" "step_within B m (t\<lparr>js_error := e\<rparr>) = step_within B m t"
  "step_within B m (t\<lparr>js_finished_at := x\<rparr>) = step_within B m t" "step_within B m (t\<lparr>js_started_at := x\<rparr>) = step_within B m t"
  "step_within B m (t\<lparr>js_attempts := n\<rparr>) = step_within B m t" "step_within B m (t\<lparr>js_local_output := l\<rparr>) = step_within B m t"
  by (simp_all add: step_within_def)

lemma triple_fail_step:
  assumes "billed_run B me env p"
  shows "triple (charged B) (fail_step env sid msg) (\<lambda>_. charged B) (charged B)"
  unfolding fail_step_def
  by (rule run_rules run_parts billed_runD(1) [OF assms] | simp add: stable_facts(1))+

text \<open>The link of a step to its record on the platform.\<close>

definition linked :: "bill \<Rightarrow> string \<Rightarrow> int option \<Rightarrow> mock \<Rightarrow> bool" where
  "linked B sid gid m \<longleftrightarrow> (\<forall>g. gid = Some g \<longrightarrow> cheap (bi_price B) m sid g)"

lemma stable_linked [intro!]: "stable (linked B sid gid)"
  unfolding linked_def by (rule stable_facts)

lemma step_linked: "step_within B m js \<Longrightarrow> js_step_id js = sid \<Longrightarrow> linked B sid (js_generation_id js) m"
  by (simp add: step_within_def linked_def)

lemma triple_asked:
  assumes "billed_run B me env p"
  shows "triple (charges_and B (linked B sid gid)) (on_ext (mock_generation_status me gid))
      (\<lambda>a s. charges_and B (linked B sid gid) s \<and> charge_ok (bi_price B) sid a) (charges_and B (linked B sid gid))"
    and "triple (charges_and B (linked B sid gid)) (on_ext (mock_voiceover_status gid))
      (\<lambda>a s. charges_and B (linked B sid gid) s \<and> charge_ok (bi_price B) sid a) (charges_and B (linked B sid gid))"
proof -
  note pos = billed_runD(3) [OF assms, of sid]
  have asked: "costs_kept m m' \<and> priced_within q steps m0 m'"
    if "mock_generation_status me gid m = (r, m')" "priced_within q steps m0 m" for q steps m0 m r m'
    using that status_kept [where m = m and env = me and i = gid] priced_within_kept [of m m' q steps m0] by simp
  have heard: "costs_kept m m' \<and> priced_within q steps m0 m'"
    if "mock_voiceover_status gid m = (r, m')" "priced_within q steps m0 m" for q steps m0 m r m'
    using that voiceover_kept [where m = m and i = gid] priced_within_kept [of m m' q steps m0] by simp
  have status: "charge_ok (bi_price B) sid a" if "mock_generation_status me gid m = (Inr a, m')" "linked B sid gid m" for m a m'
  proof (cases gid)
    case None
    with that show ?thesis by (simp add: mock_generation_status_def recorded)
  next
    case (Some g)
    with that pos show ?thesis by (auto simp: linked_def intro: status_charge)
  qed
  have voice: "charge_ok (bi_price B) sid a" if "mock_voiceover_status gid m = (Inr a, m')" "linked B sid gid m" for m a m'
  proof (cases gid)
    case None
    with that show ?thesis by (simp add: mock_voiceover_status_def recorded)
  next
    case (Some g)
    with that pos show ?thesis by (auto simp: linked_def intro: voiceover_charge)
  qed
  show "triple (charges_and B (linked B sid gid)) (on_ext (mock_generation_status me gid))
      (\<lambda>a s. charges_and B (linked B sid gid) s \<and> charge_ok (bi_price B) sid a) (charges_and B (linked B sid gid))"
    by (rule triple_post [OF triple_ext [OF stable_linked, where V = "\<lambda>a m. charge_ok (bi_price B) sid a"]])
      (use asked status in blast, simp add: charges_and_def)
  show "triple (charges_and B (linked B sid gid)) (on_ext (mock_voiceover_status gid))
      (\<lambda>a s. charges_and B (linked B sid gid) s \<and> charge_ok (bi_price B) sid a) (charges_and B (linked B sid gid))"
    by (rule triple_post [OF triple_ext [OF stable_linked, where V = "\<lambda>a m. charge_ok (bi_price B) sid a"]])
      (use heard voice in blast, simp add: charges_and_def)
qed

lemma triple_polled:
  assumes "billed_run B me env p" and "ask = on_ext (mock_generation_status me gid) \<or> ask = on_ext (mock_voiceover_status gid)"
  shows "triple (charges_and B (linked B sid gid)) (poll_from_zero ask (sleep_for env) i d)
      (\<lambda>r s. charged B s \<and> (\<forall>payload. r = Inr payload \<longrightarrow> charge_ok (bi_price B) sid payload)) (charged B)"
  unfolding poll_from_zero_def
proof (rule triple_conseq [OF triple_poll [where I = "charges_and B (linked B sid gid)" and V = "charge_ok (bi_price B) sid"]])
  show "triple (charges_and B (linked B sid gid)) ask (\<lambda>a s. charges_and B (linked B sid gid) s \<and> charge_ok (bi_price B) sid a)
      (charges_and B (linked B sid gid))"
    using assms(2) triple_asked [OF assms(1)] by metis
  show "triple (charges_and B (linked B sid gid)) (sleep_for env x) (\<lambda>_. charges_and B (linked B sid gid)) (charges_and B (linked B sid gid))" for x
    by (rule triple_clock(2) [OF stable_linked billed_runD(1) [OF assms(1)]])
qed (auto simp: charges_and_def)

lemma triple_await_long:
  assumes run: "billed_run B me env p"
  shows "triple (charged B) (await_long_voiceover env p sid) (\<lambda>_. charged B) (charged B)"
proof -
  have fn: "cl_voiceover_status (x_client env) = Some mock_voiceover_status" by (simp add: billed_runD(1) [OF run] mock_client_def)
  show ?thesis
    unfolding await_long_voiceover_def fn option.case
  proof (rule triple_bind [OF run_parts(12)])
    fix js
    show "triple (charges_and B (\<lambda>m. True \<and> step_within B m js \<and> js_step_id js = sid))
       (bind (poll_from_zero (on_ext (mock_voiceover_status (js_generation_id js))) (sleep_for env) (x_poll_interval env) (x_poll_timeout env))
          (\<lambda>res. case res of Inl waited \<Rightarrow> fail_step env sid (Msg ''voiceover_timeout'' [JFloat waited, JStr (show_id (js_generation_id js))])
             | Inr payload \<Rightarrow> settle env p sid payload)) (\<lambda>_. charged B) (charged B)"
    proof (rule triple_bind [OF triple_pre [OF triple_polled [OF run, where sid = sid and gid = "js_generation_id js"]]])
      fix res
      show "triple (\<lambda>s. charged B s \<and> (\<forall>payload. res = Inr payload \<longrightarrow> charge_ok (bi_price B) sid payload))
         (case res of Inl waited \<Rightarrow> fail_step env sid (Msg ''voiceover_timeout'' [JFloat waited, JStr (show_id (js_generation_id js))])
            | Inr payload \<Rightarrow> settle env p sid payload) (\<lambda>_. charged B) (charged B)"
      proof (cases res)
        case (Inl w)
        then show ?thesis by (auto intro: triple_pre [OF triple_fail_step [OF run]])
      next
        case (Inr payload)
        have "triple (\<lambda>s. charge_ok (bi_price B) sid payload \<and> charged B s) (settle env p sid payload) (\<lambda>_. charged B) (charged B)"
          by (rule triple_fact) (rule triple_settle [OF run])
        then show ?thesis unfolding Inr sum.case by (rule triple_pre) simp
      qed
    qed (auto simp: charges_and_def intro: step_linked)
  qed
qed

lemma triple_wait_for:
  assumes run: "billed_run B me env p"
  shows "triple (charges_and B (linked B sid gid)) (wait_for env gid)
    (\<lambda>payload s. charge_ok (bi_price B) sid payload \<and> charged B s) (charged B)"
proof -
  have fn: "cl_wait_for_generation (x_client env) = None" "cl_generation_status (x_client env) = mock_generation_status me"
    by (simp_all add: billed_runD(1) [OF run] mock_client_def)
  show ?thesis
    unfolding wait_for_def fn option.case
  proof (rule triple_bind [OF triple_polled [OF run]])
    fix res
    show "triple (\<lambda>s. charged B s \<and> (\<forall>payload. res = Inr payload \<longrightarrow> charge_ok (bi_price B) sid payload))
       (case res of Inl waited \<Rightarrow> raise (Vibe (VibePollTimeoutError
            (case gid of None \<Rightarrow> ''?'' | Some n \<Rightarrow> if n = 0 then ''?'' else show_int n) waited))
          | Inr payload \<Rightarrow> ret payload) (\<lambda>payload s. charge_ok (bi_price B) sid payload \<and> charged B s) (charged B)"
      by (cases res) (auto intro!: triple_ret triple_raise)
  qed simp
qed

lemma triple_await_result:
  assumes run: "billed_run B me env p"
  shows "triple (charged B) (await_result env p sid) (\<lambda>_. charged B) (charged B)"
  unfolding await_result_def
proof (rule triple_bind [OF run_parts(12)])
  fix js :: job_step
  let ?H = "\<lambda>e. case e of Vibe (VibePollTimeoutError g waited) \<Rightarrow>
             andthen (fail_step env sid (Msg ''result_timeout'' [JFloat waited, JStr (show_id (js_generation_id js))])) (ret None)
         | _ \<Rightarrow> raise e"
  let ?V = "\<lambda>res s. (\<forall>payload. res = Some payload \<longrightarrow> charge_ok (bi_price B) sid payload) \<and> charged B s"
  have handled: "triple (charged B) (?H e) ?V (charged B)" for e
    by (auto split: exn.split vibe_error.split intro!: triple_raise triple_andthen [OF triple_fail_step [OF run]] triple_ret)
  have waited: "triple (charges_and B (linked B sid (js_generation_id js)))
      (bind (wait_for env (js_generation_id js)) (\<lambda>payload. ret (Some payload))) ?V (charged B)"
    by (rule triple_bind [OF triple_wait_for [OF run]]) (rule triple_ret, simp)
  show "triple (charges_and B (\<lambda>m. True \<and> step_within B m js \<and> js_step_id js = sid))
     (bind (catch (bind (wait_for env (js_generation_id js)) (\<lambda>payload. ret (Some payload))) ?H)
        (\<lambda>res. case res of None \<Rightarrow> ret () | Some payload \<Rightarrow> settle env p sid payload)) (\<lambda>_. charged B) (charged B)"
  proof (rule triple_bind [OF triple_pre [OF triple_catch [OF waited handled]]])
    fix res
    show "triple (?V res) (case res of None \<Rightarrow> ret () | Some payload \<Rightarrow> settle env p sid payload) (\<lambda>_. charged B) (charged B)"
    proof (cases res)
      case None
      then show ?thesis by (auto intro: triple_ret)
    next
      case (Some payload)
      have "triple (\<lambda>s. charge_ok (bi_price B) sid payload \<and> charged B s) (settle env p sid payload) (\<lambda>_. charged B) (charged B)"
        by (rule triple_fact) (rule triple_settle [OF run])
      then show ?thesis unfolding Some option.case by (rule triple_pre) simp
    qed
  qed (auto simp: charges_and_def intro: step_linked)
qed

lemma triple_await_step:
  assumes run: "billed_run B me env p" and reply: "\<And>r. response = Some r \<Longrightarrow> charge_ok (bi_price B) sid r"
  shows "triple (charged B) (await_step env p sid response) (\<lambda>_. charged B) (charged B)"
  unfolding await_step_def
  by (rule triple_bind [OF run_parts(12)])
    (auto split: option.split intro!: triple_stop triple_pre [OF triple_await_long [OF run]] triple_pre [OF triple_await_result [OF run]]
      triple_pre [OF triple_settle [OF run reply]] triple_pre [OF triple_fail_step [OF run]] simp: charges_and_def)

section \<open>Launching\<close>

lemma triple_launched:
  assumes run: "billed_run B me env p" and ps: "ps \<in> set (p_steps p)" "ps_kind ps \<noteq> LOCAL"
  shows "triple (charged B) (on_ext (cl_generate (x_client env) (generate_body ps (x_callback_url env))))
     (\<lambda>r. charges_and B (\<lambda>m. True \<and> reply_ok (bi_price B) m (ps_step_id ps) r)) (charged B)"
proof (rule triple_ext)
  fix m r m'
  assume "cl_generate (x_client env) (generate_body ps (x_callback_url env)) m = (r, m')"
    and m: "priced_within (bi_price B) (p_steps (bi_plan B)) (bi_start B) m"
  then have call: "mock_generate me (generate_body ps (x_callback_url env)) m = (r, m')"
    by (simp add: billed_runD(1) [OF run] mock_client_def)
  have "priced_steps (bi_price B) me (bi_start B) (x_callback_url env) (p_steps p)" "p_steps p = p_steps (bi_plan B)"
    using run by (auto simp: billed_run_def)
  with generate_within [OF this(1) ps _ call] m
  show "costs_kept m m' \<and> priced_within (bi_price B) (p_steps (bi_plan B)) (bi_start B) m' \<and>
      (\<forall>a. r = Inr a \<longrightarrow> reply_ok (bi_price B) m' (ps_step_id ps) a)" by simp
qed auto

lemma reply_within:
  assumes "reply_ok (bi_price B) m (js_step_id t) r"
  shows "step_within B m (t\<lparr>js_generation_id := generation_id_of r, js_task_id := x, js_is_long_voiceover := l,
     js_text_output := o1, js_actual_cost_rub := as_float (jget r ''cost'') d\<rparr>)"
  using assms by (auto simp: reply_ok_def charge_ok_def as_float_def step_within_def)

lemma triple_look: "triple P (gets f) (\<lambda>_. P) E"
  by (rule triple_gets)

lemma triple_record_charge:
  assumes run: "billed_run B me env p" and sid: "sid = ps_step_id ps"
  shows "triple (charges_and B (\<lambda>m. True \<and> reply_ok (bi_price B) m sid r)) (record_charge env p ps r) (\<lambda>_. charged B) (charged B)"
proof -
  let ?K = "\<lambda>m. True \<and> reply_ok (bi_price B) m sid r"
  have row: "cheap (bi_price B) m (ps_step_id ps) g" if "?K m" "generation_id_of r = Some g" for m g
    using that by (simp add: reply_ok_def sid)
  have guard: "triple (charges_and B ?K) (case commit g charged1 (JStr s1) of Inr (x, g') \<Rightarrow> modify_guard (\<lambda>_. g')
          | Inl e \<Rightarrow> if is_budget_exceeded e then andthen (modify_guard f) (andthen (add_warning w) (raise e)) else raise e)
       (\<lambda>_. charged B) (charged B)" for g charged1 s1 f w
    by (auto split: sum.split intro!: triple_stop triple_andthen [OF run_parts(8)] triple_andthen [OF run_parts(7)] triple_weak [OF run_parts(8)])
  show ?thesis unfolding record_charge_def Let_def
    by (rule triple_andthen [OF run_parts(3)] triple_andthen triple_bind [OF run_parts(1)] run_parts billed_runD [OF run]
        triple_bind [OF triple_look] guard | erule row | force simp: sid intro: reply_within)+
qed

lemma triple_launch:
  assumes run: "billed_run B me env p" and ps: "ps \<in> set (p_steps p)" "ps_kind ps \<noteq> LOCAL"
  shows "triple (charged B) (launch env p ps (generate_body ps (x_callback_url env)))
    (\<lambda>r s. charge_ok (bi_price B) (ps_step_id ps) r \<and> charged B s) (charged B)"
proof -
  let ?K = "\<lambda>r m. True \<and> reply_ok (bi_price B) m (ps_step_id ps) r"
  have book: "triple (charges_and B (?K r)) (andthen (record_charge env p ps r) (ret r))
      (\<lambda>r s. charge_ok (bi_price B) (ps_step_id ps) r \<and> charged B s) (charged B)" for r
  proof (cases "charge_ok (bi_price B) (ps_step_id ps) r")
    case True
    then show ?thesis by (intro triple_andthen [OF triple_record_charge [OF run refl]] triple_ret) simp
  next
    case False
    then show ?thesis by (intro triple_pre [OF triple_False]) (simp add: charges_and_def reply_ok_def)
  qed
  show ?thesis unfolding launch_def
    by (rule triple_bind [OF triple_look])
      (auto split: sum.split intro!: triple_stop triple_bind [OF triple_launched [OF run ps] book])
qed

lemma triple_launch_or_resume:
  assumes run: "billed_run B me env p" and ps: "ps \<in> set (p_steps p)" "ps_kind ps \<noteq> LOCAL"
  shows "triple (charged B) (launch_or_resume env p ps)
    (\<lambda>res s. (\<forall>r. res = Some r \<longrightarrow> charge_ok (bi_price B) (ps_step_id ps) r) \<and> charged B s) (charged B)"
proof -
  let ?K = "\<lambda>row m. True \<and> (\<forall>g. sx_generation_id row = Some g \<longrightarrow> cheap (bi_price B) m (ps_step_id ps) g)"
  let ?Q = "\<lambda>res s. (\<forall>r. res = Some r \<longrightarrow> charge_ok (bi_price B) (ps_step_id ps) r) \<and> charged B s"
  have go: "triple (charges_and B (?K row)) (case sx_generation_id row of
         None \<Rightarrow> bind (launch env p ps (generate_body ps (x_callback_url env))) (\<lambda>r. ret (Some r))
       | Some g \<Rightarrow> andthen (modify_step (ps_step_id ps) (\<lambda>s. s\<lparr>js_generation_id := Some g\<rparr>))
            (andthen (add_warning (Pref (ps_step_id ps) (Msg ''already_launched'' [JInt g]))) (ret None))) ?Q (charged B)" for row
  proof (cases "sx_generation_id row")
    case None
    have "triple (charged B) (bind (launch env p ps (generate_body ps (x_callback_url env))) (\<lambda>r. ret (Some r))) ?Q (charged B)"
      by (rule triple_bind [OF triple_launch [OF run ps]]) (rule triple_ret, simp)
    then show ?thesis unfolding None option.case by (rule triple_pre) (rule charged_weak)
  next
    case (Some g)
    show ?thesis unfolding Some option.case
      by (rule triple_andthen [OF run_parts(3)] triple_andthen [OF run_parts(7)] triple_ret | force simp: Some step_within_def charges_and_def)+
  qed
  show ?thesis unfolding launch_or_resume_def Let_def
    by (rule triple_bind [OF triple_look], rule triple_bind [OF run_parts(1)], rule stable_facts, rule billed_runD(1) [OF run],
        rule triple_bind [OF run_parts(11) go], rule billed_runD(2) [OF run])
qed

section \<open>The run\<close>

lemma triple_run_step:
  assumes run: "billed_run B me env p" and ps: "ps \<in> set (p_steps p)"
  shows "triple (charged B) (run_step env p ps) (\<lambda>_. charged B) (charged B)"
proof -
  note clock = run_parts(1) [OF stable_facts(1) billed_runD(1) [OF run]]
  have go: "triple (charged B) (bind (launch_or_resume env p ps) (await_step env p (ps_step_id ps))) (\<lambda>_. charged B) (charged B)"
    if "ps_kind ps \<noteq> LOCAL"
  proof (rule triple_bind [OF triple_launch_or_resume [OF run ps that]])
    fix res
    have "triple (\<lambda>s. (\<forall>r. res = Some r \<longrightarrow> charge_ok (bi_price B) (ps_step_id ps) r) \<and> charged B s)
        (await_step env p (ps_step_id ps) res) (\<lambda>_. charged B) (charged B)"
      by (rule triple_fact) (rule triple_await_step [OF run], blast)
    then show "triple (\<lambda>s. (\<forall>r. res = Some r \<longrightarrow> charge_ok (bi_price B) (ps_step_id ps) r) \<and> charged B s)
        (await_step env p (ps_step_id ps) res) (\<lambda>_. charged B) (charged B)" .
  qed
  have free: "triple (charged B) (bind (utcnow env) (\<lambda>t1. andthen (modify_step (ps_step_id ps) (\<lambda>s. s\<lparr>js_local_output := ps_local_output ps,
        js_status := STEP_SUCCEEDED, js_actual_cost_rub := 0, js_finished_at := Some t1\<rparr>))
      (bind (utcnow env) (\<lambda>t2. on_db (update_step (p_plan_id p) (ps_step_id ps) STEP_SUCCEEDED None (Some 0) t2)))))
      (\<lambda>_. charged B) (charged B)"
    by (rule triple_bind [OF clock] triple_andthen [OF run_parts(3)] run_parts billed_runD(2) [OF run] |
        force intro: step_within_cost simp: billed_runD(3) [OF run])+
  show ?thesis unfolding run_step_def Let_def
    by (rule triple_bind [OF clock] triple_andthen [OF run_parts(3)] triple_if free go | assumption | force)+
qed

lemma triple_step_failed:
  assumes run: "billed_run B me env p"
  shows "triple (charged B) (step_failed env p ps e) (\<lambda>_. charged B) (charged B)"
proof -
  note clock = run_parts(1) [OF stable_facts(1) billed_runD(1) [OF run]]
  have vibe: "triple (charged B) (case v of VibeAPIError a \<Rightarrow>
          if is_budget_related a then andthen (add_warning w) (ret True) else ret False | _ \<Rightarrow> ret False) (\<lambda>_. charged B) (charged B)" for v w
    by (auto split: vibe_error.split intro!: triple_skip triple_andthen [OF run_parts(7)])
  have other: "triple (charged B) (case e of Vibe v \<Rightarrow> h v | _ \<Rightarrow> raise e) (\<lambda>_. charged B) (charged B)"
    if "\<And>v. triple (charged B) (h v) (\<lambda>_. charged B) (charged B)" for h
    using that by (auto split: exn.split intro!: triple_stop)
  show ?thesis unfolding step_failed_def Let_def
    by (rule triple_if other triple_bind [OF clock] triple_andthen [OF run_parts(3)] triple_andthen [OF run_parts(6)]
        triple_andthen [OF run_parts(7)] triple_andthen [OF run_parts(10)] triple_skip vibe billed_runD(2) [OF run] | force)+
qed

lemma triple_attempt_step:
  assumes run: "billed_run B me env p" and ps: "ps \<in> set (p_steps p)"
  shows "triple (charged B) (attempt_step env p ps) (\<lambda>_. charged B) (charged B)"
  unfolding attempt_step_def
  by (rule triple_finally triple_catch triple_andthen [OF triple_run_step [OF run ps]] triple_skip triple_step_failed [OF run]
      triple_andthen [OF run_parts(9)] run_parts(4) billed_runD(4) [OF run])+

lemma triple_run_steps:
  assumes run: "billed_run B me env p" and "set pss \<subseteq> set (p_steps p)"
  shows "triple (charged B) (run_steps env p pss aborted) (\<lambda>_. charged B) (charged B)"
  using assms(2)
proof (induction pss arbitrary: aborted)
  case (Cons ps pss)
  then have ps: "ps \<in> set (p_steps p)" and IH: "triple (charged B) (run_steps env p pss a) (\<lambda>_. charged B) (charged B)" for a
    by simp_all
  show ?case unfolding run_steps.simps
    by (rule triple_bind [OF triple_look] triple_option IH triple_if triple_andthen [OF run_parts(3)]
        triple_bind [OF triple_attempt_step [OF run ps]] | force)+
qed (simp add: triple_skip)

lemma triple_run:
  assumes run: "billed_run B me env p"
  shows "triple (charged B) (run env p) (\<lambda>_. charged B) (charged B)"
proof -
  note clock = run_parts(1) [OF stable_facts(1) billed_runD(1) [OF run]]
  have finish: "triple (charged B) (finish_run env aborted) (\<lambda>_. charged B) (charged B)" for aborted
    unfolding finish_run_def
    by (rule triple_bind [OF clock] triple_andthen [OF triple_total [THEN triple_E]] run_parts(4) billed_runD(4) [OF run] | simp)+
  show ?thesis unfolding run_def
    by (rule triple_bind [OF clock] triple_andthen [OF run_parts(5)] triple_andthen [OF run_parts(4)]
        triple_bind [OF triple_run_steps [OF run subset_refl]] triple_andthen [OF finish] triple_look | simp)+
qed

end
