(* ===== verification/Mock_Job.thy ===== *)
theory Mock_Job
  imports Mock_Run Campaign
begin

text \<open>
  A whole job (\<open>run_job\<close> of \<open>app/services/plan_service.py\<close>) against the in-memory platform: the prices
  the recheck confirms right before the run are the prices the platform charges, so what the job
  pays is within the budget without exception.
\<close>

section \<open>One price per request\<close>

text \<open>The launch asks for what was estimated; the key and the callback address have no price.\<close>

lemma jget_generate: "k \<notin> {''idempotency_key'', ''callback_url''} \<Longrightarrow> jget (generate_body s cb) k = jget (estimate_body s) k"
  using estimate_generate_body [of k s cb] by (simp add: jget_def)

lemma quoteD:
  assumes "quote_request env m body = Inr (spec, rej, c, r)"
  shows "spec_or_error env m body = Inr spec" and "mock_price m body spec = Inr (c, r)"
  using assms by (auto simp: quote_request_def split: sum.splits)

lemma generate_quote:
  assumes "quote_request env m (generate_body s cb) = Inr (spec', rej', c', r')" and "quote_request env m (estimate_body s) = Inr (spec, rej, c, r)"
  shows "c' = c"
proof -
  let ?g = "generate_body s cb" and ?e = "estimate_body s"
  have same: "jget ?g ''type'' = jget ?e ''type''" "jget ?g ''model'' = jget ?e ''model''" "jget ?g ''max_tokens'' = jget ?e ''max_tokens''"
    "jget ?g ''duration'' = jget ?e ''duration''" "jget ?g ''video_duration'' = jget ?e ''video_duration''" "jget ?g ''prompt'' = jget ?e ''prompt''"
    by (rule jget_generate; simp)+
  have "spec_or_error env m ?g = spec_or_error env m ?e" by (simp add: spec_or_error_def same)
  then have spec: "spec' = spec" using quoteD(1) [OF assms(1)] quoteD(1) [OF assms(2)] by simp
  have "mock_price m ?g spec = mock_price m ?e spec"
    by (simp only: mock_price_def price_bounds_of_def per_second_bounds_def same)
  then show ?thesis using quoteD(2) [OF assms(1)] quoteD(2) [OF assms(2)] by (simp add: spec)
qed

text \<open>The price of a step on the platform \<open>m\<close>.\<close>

definition mock_cost :: "mock_env \<Rightarrow> mock \<Rightarrow> plan_step \<Rightarrow> money" where
  "mock_cost env m s = (if ps_kind s = LOCAL then 0 else
     case quote_request env m (estimate_body s) of Inr (spec, rej, c, r) \<Rightarrow> c | Inl e \<Rightarrow> 0)"

definition mock_prices :: "mock_env \<Rightarrow> mock \<Rightarrow> plan_step list \<Rightarrow> string \<Rightarrow> money" where
  "mock_prices env m steps sid = (case find (\<lambda>s. ps_step_id s = sid) steps of Some s \<Rightarrow> mock_cost env m s | None \<Rightarrow> 0)"

lemma mock_cost_nonneg: "fair_catalog m \<Longrightarrow> fair_request (estimate_body s) \<Longrightarrow> 0 \<le> mock_cost env m s"
  using quote_nonneg [of m "estimate_body s" env] by (auto simp: mock_cost_def split: sum.split)

section \<open>The recheck\<close>

text \<open>What a request that is not a launch does to the platform.\<close>

definition read_only :: "mock \<Rightarrow> mock \<Rightarrow> bool" where
  "read_only m m' \<longleftrightarrow> (\<exists>c t. m' = m\<lparr>mk_calls := c, mk_now := t\<rparr>)"

lemma read_only_intros [intro]:
  "read_only m m" "read_only m (m\<lparr>mk_calls := c\<rparr>)" "read_only m (m\<lparr>mk_now := t\<rparr>)" "read_only l m \<Longrightarrow> read_only m n \<Longrightarrow> read_only l n"
proof -
  show "read_only m m" unfolding read_only_def by (intro exI [of _ "mk_calls m"] exI [of _ "mk_now m"]) simp
  show "read_only m (m\<lparr>mk_calls := c\<rparr>)" unfolding read_only_def by (intro exI [of _ c] exI [of _ "mk_now m"]) simp
  show "read_only m (m\<lparr>mk_now := t\<rparr>)" unfolding read_only_def by (intro exI [of _ "mk_calls m"] exI [of _ t]) simp
  show "read_only l n" if "read_only l m" "read_only m n"
  proof -
    from that obtain c t where "n = l\<lparr>mk_calls := c, mk_now := t\<rparr>" by (auto simp: read_only_def)
    then show ?thesis unfolding read_only_def by blast
  qed
qed

lemma read_only_books: "read_only m m' \<Longrightarrow> books_ok w b m' = books_ok w b m"
  by (auto simp: read_only_def intro: books_ok_cong)

lemma read_only_quote: "read_only m m' \<Longrightarrow> quote_request env m' body = quote_request env m body"
  by (rule quote_same) (auto simp: read_only_def)

definition on_mock :: "mock_env \<Rightarrow> mock service \<Rightarrow> mock service" where
  "on_mock env sv = sv\<lparr>sv_client := mock_client env\<rparr>"

definition reading :: "mock world \<Rightarrow> mock world \<Rightarrow> bool" where
  "reading w w' \<longleftrightarrow> read_only (w_ext w) (w_ext w')"

interpretation reading: admission_relation reading "on_mock env sv" for env sv
proof
  have ext: "keeps reading (in_ext m)" if "\<And>x. read_only x (snd (m x))" for m :: "(mock, exn, 'a) eff"
    using that by (simp add: keeps_def reading_def in_ext_def Let_def case_prod_beta)
  show "reading w w" "reading w u \<Longrightarrow> reading u v \<Longrightarrow> reading w v" for w u v by (auto simp: reading_def)
  show "keeps reading (clock (on_mock env sv))" "keeps reading (fresh_uuid (on_mock env sv))"
    "keeps reading (in_ext (cl_capabilities (sv_client (on_mock env sv))))" "keeps reading (in_ext (cl_me (sv_client (on_mock env sv))))"
    "keeps reading (in_ext (cl_balance (sv_client (on_mock env sv))))"
    unfolding clock_def fresh_uuid_def
    by (rule ext; auto simp: on_mock_def mock_client_def now_is_def reading_defs Let_def)+
  show "keeps reading (in_ext (cl_estimate (sv_client (on_mock env sv)) body))" for body
    by (rule ext) (auto simp: on_mock_def mock_client_def estimate_state)
qed (auto simp: keeps_def reading_def in_db_def enqueue_def Let_def case_prod_beta)

lemma mock_estimated:
  assumes "books_ok w b m" and "fair_request body" and "mock_estimate env body m = (Inr payload, m')"
  shows "\<exists>spec rej c r kind. quote_request env m body = Inr (spec, rej, c, r) \<and> estimated_cost_of payload = Some (c, kind)"
  using estimate_reads [OF assms(3,1,2)] by blast

text \<open>A step that is not blocked has a price on the platform, and that price is what is added up.\<close>

lemma recheck_reply_total:
  assumes "recheck_reply s payload k = (s1, k1)" and "rk_blockers k1 = []"
  shows "rk_blockers k = [] \<and> (\<exists>c kind. estimated_cost_of payload = Some (c, kind) \<and> rk_total k1 = rk_total k + c)"
  using assms by (auto simp: recheck_reply_def rk_block_def Let_def split: if_splits option.splits prod.splits)

lemma recheck_step_mock:
  assumes "books_ok wh b m0" and "fair_request (estimate_body s)" and "ps_kind s \<noteq> LOCAL" and "read_only m0 (w_ext w)"
    and step: "recheck_step (on_mock env sv) s k w = (Inr (s1, k1), w')" and none: "rk_blockers k1 = []"
  shows "rk_blockers k = [] \<and> (\<exists>q. quote_request env m0 (estimate_body s) = Inr q) \<and> rk_total k1 = rk_total k + mock_cost env m0 s"
proof -
  have call: "in_ext (cl_estimate (sv_client (on_mock env sv)) (estimate_body s)) w =
      (let (r, x) = mock_estimate env (estimate_body s) (w_ext w) in (r, w\<lparr>w_ext := x\<rparr>))"
    by (simp add: in_ext_def on_mock_def mock_client_def)
  obtain r x where e: "mock_estimate env (estimate_body s) (w_ext w) = (r, x)" by fastforce
  have books: "books_ok wh b (w_ext w)" using assms(1,4) read_only_books by blast
  show ?thesis
  proof (cases r)
    case (Inl err)
    with e have "mock_estimate env (estimate_body s) (w_ext w) = (Inl err, x)" by simp
    then show ?thesis using step none unfolding recheck_step_def
      by (auto simp: try_vibe_apply call bind_apply rk_block_def split: exn.splits)
  next
    case (Inr payload)
    then have "recheck_reply s payload k = (s1, k1)"
      using step e by (simp add: recheck_step_def try_vibe_apply call bind_apply)
    from recheck_reply_total [OF this none] obtain c kind where t: "rk_blockers k = []" "estimated_cost_of payload = Some (c, kind)"
      "rk_total k1 = rk_total k + c" by blast
    obtain spec rej c' z where q: "quote_request env (w_ext w) (estimate_body s) = Inr (spec, rej, c', z)" "c' = c"
      using mock_estimated [OF books assms(2) e [unfolded Inr]] t(2) by auto
    then have "quote_request env m0 (estimate_body s) = Inr (spec, rej, c, z)" using read_only_quote [OF assms(4)] by simp
    with t assms(3) show ?thesis by (simp add: mock_cost_def)
  qed
qed

lemma recheck_steps_mock:
  assumes "books_ok wh b m0" and "\<forall>s \<in> set ss. fair_request (estimate_body s)" and "read_only m0 (w_ext w)"
    and "recheck_steps (on_mock env sv) ss k w = (Inr (ts, k1), w')" and "rk_blockers k1 = []"
  shows "rk_blockers k = [] \<and> (\<forall>s \<in> set ss. ps_kind s \<noteq> LOCAL \<longrightarrow> (\<exists>q. quote_request env m0 (estimate_body s) = Inr q)) \<and>
    rk_total k1 = rk_total k + sum_list (map (mock_cost env m0) ss)"
  using assms(2-)
proof (induction ss arbitrary: k w ts)
  case (Cons s ss)
  let ?sv = "on_mock env sv"
  obtain s1 k2 u rest where one: "(if ps_kind s = LOCAL then ret (s, k) else recheck_step ?sv s k) w = (Inr (s1, k2), u)"
    and more: "recheck_steps ?sv ss k2 u = (Inr (rest, k1), w')"
    using Cons.prems(3) by (auto simp: bind_eq_Inr)
  have "keeps reading (if ps_kind s = LOCAL then ret (s, k) else recheck_step ?sv s k)"
    unfolding recheck_step_def by (auto intro!: reading.parts)
  then have "reading w u" using one by (rule keepsD)
  then have u: "read_only m0 (w_ext u)" using Cons.prems(2) by (auto simp: reading_def)
  note IH = Cons.IH [OF _ u more Cons.prems(4)]
  show ?case
  proof (cases "ps_kind s = LOCAL")
    case True
    then have "k2 = k" using one by simp
    with IH Cons.prems(1) True show ?thesis by (simp add: mock_cost_def)
  next
    case False
    then have "recheck_step ?sv s k w = (Inr (s1, k2), u)" using one by simp
    from recheck_step_mock [OF assms(1) _ False Cons.prems(2) this] IH Cons.prems(1) show ?thesis by auto
  qed
qed simp

section \<open>The run after the recheck\<close>

text \<open>What the stored job says it cost.\<close>

definition reported :: "string \<Rightarrow> money \<Rightarrow> db \<Rightarrow> bool" where
  "reported jid most d \<longleftrightarrow> (\<forall>r \<in> set (t_jobs d). jr_job_id r = jid \<longrightarrow> j_actual_cost_rub (jr_document r) \<le> most)"

lemma reported_mono: "reported jid x d \<Longrightarrow> x \<le> y \<Longrightarrow> reported jid y d"
  by (fastforce simp: reported_def)

text \<open>A job of the plan that spent nothing, and no row of the ledger belongs to the plan.\<close>

definition untouched :: "db \<Rightarrow> plan \<Rightarrow> job \<Rightarrow> bool" where
  "untouched d p j \<longleftrightarrow> map js_step_id (j_steps j) = map ps_step_id (p_steps p) \<and>
     (\<forall>t \<in> set (j_steps j). js_actual_cost_rub t = 0 \<and> js_generation_id t = None) \<and>
     j_actual_cost_rub j = 0 \<and> reported (j_job_id j) 0 d \<and>
     (\<forall>r \<in> set (t_steps d). sx_plan_id r \<noteq> p_plan_id p)"

text \<open>What the platform must not have seen before: the keys of the plan.\<close>

definition new_keys :: "plan \<Rightarrow> mock \<Rightarrow> bool" where
  "new_keys p m \<longleftrightarrow> (\<forall>s \<in> set (p_steps p). JStr (ps_idempotency_key s) \<notin> set (map fst (mk_by_idempotency m)))"

definition fair_plan :: "plan \<Rightarrow> bool" where
  "fair_plan p \<longleftrightarrow> distinct (map ps_step_id (p_steps p)) \<and> distinct (map ps_idempotency_key (p_steps p)) \<and>
     (\<forall>s \<in> set (p_steps p). fair_request (estimate_body s))"

lemma same_request_bodies:
  assumes "same_request s t"
  shows "estimate_body t = estimate_body s" "mock_cost env m t = mock_cost env m s"
proof -
  show "estimate_body t = estimate_body s" using assms by (simp add: same_request_def estimate_body_def)
  then show "mock_cost env m t = mock_cost env m s" using assms by (simp add: mock_cost_def same_request_def)
qed

lemma same_requests:
  assumes "list_all2 same_request ss ts"
  shows "map ps_step_id ts = map ps_step_id ss" "map ps_idempotency_key ts = map ps_idempotency_key ss"
    "map (mock_cost env m) ts = map (mock_cost env m) ss" "map estimate_body ts = map estimate_body ss"
    "(\<forall>s \<in> set ss. ps_kind s \<noteq> LOCAL \<longrightarrow> P (estimate_body s)) \<Longrightarrow> (\<forall>t \<in> set ts. ps_kind t \<noteq> LOCAL \<longrightarrow> P (estimate_body t))"
  using assms
  by (induction rule: list_all2_induct) (simp_all add: same_request_bodies, simp_all add: same_request_def)

lemma mock_prices_in: "distinct (map ps_step_id steps) \<Longrightarrow> s \<in> set steps \<Longrightarrow> mock_prices env m steps (ps_step_id s) = mock_cost env m s"
  by (simp add: mock_prices_def find_distinct)

lemma mock_prices_total:
  assumes "distinct (map ps_step_id steps)"
  shows "sum_list (map (mock_prices env m steps) (map ps_step_id steps)) = sum_list (map (mock_cost env m) steps)"
  using mock_prices_in [OF assms] by (simp add: comp_def cong: map_cong)

lemma priced_plan:
  assumes fair: "fair_plan p" and m: "books_ok wh b m"
    and quoted: "\<forall>s \<in> set (p_steps p). ps_kind s \<noteq> LOCAL \<longrightarrow> (\<exists>q. quote_request env m (estimate_body s) = Inr q)"
  shows "priced_steps (mock_prices env m (p_steps p)) env m cb (p_steps p)"
  unfolding priced_steps_def
proof (intro conjI ballI allI impI)
  have cat: "fair_catalog m" using m by (rule books_okD)
  note F = fair [unfolded fair_plan_def]
  show "0 \<le> mock_prices env m (p_steps p) sid" for sid
    using F mock_cost_nonneg [OF cat] by (auto simp: mock_prices_def split: option.split dest: find_in)
  show "ps_step_id ps = ps_step_id ps'" if "ps \<in> set (p_steps p)" "ps' \<in> set (p_steps p)" "ps_idempotency_key ps = ps_idempotency_key ps'" for ps ps'
    using F that by (auto simp: distinct_map dest: inj_onD)
  fix ps spec rej c r
  assume ps: "ps \<in> set (p_steps p)" "ps_kind ps \<noteq> LOCAL" and q: "quote_request env m (generate_body ps cb) = Inr (spec, rej, c, r)"
  obtain spec' rej' c' r' where e: "quote_request env m (estimate_body ps) = Inr (spec', rej', c', r')"
    using quoted ps by (metis prod_cases4)
  have "c = c'" using generate_quote [OF q e] .
  moreover have "mock_prices env m (p_steps p) (ps_step_id ps) = c'" using mock_prices_in [of "p_steps p" ps] F ps e by (simp add: mock_cost_def)
  moreover have "0 \<le> c'" using quote_nonneg [OF cat _ e] F ps(1) by simp
  ultimately show "0 \<le> c" "c \<le> mock_prices env m (p_steps p) (ps_step_id ps)" by simp_all
qed

lemma books_ids: "books_ok wh b m \<Longrightarrow> ids_below m"
  by (fastforce simp: books_ok_def records_ok_def ids_below_def)

text \<open>The executor, started on such a job, pays at most the prices of the plan.\<close>

lemma hand_over_mock:
  assumes fair: "fair_plan p" and m: "books_ok wh b (w_ext w)" and keys: "new_keys p (w_ext w)" and job: "untouched (w_db w) p j"
    and quoted: "\<forall>s \<in> set (p_steps p). ps_kind s \<noteq> LOCAL \<longrightarrow> (\<exists>q. quote_request env (w_ext w) (estimate_body s) = Inr q)"
    and run: "hand_over (on_mock env sv) p j g w = (r, w')"
  defines "cost \<equiv> sum_list (map (mock_cost env (w_ext w)) (p_steps p))"
  shows "reported (j_job_id j) (round4 cost) (w_db w')" and "r = Inr j' \<Longrightarrow> paid j' \<le> cost"
proof -
  let ?p = "p\<lparr>p_job_id := Some (j_job_id j), p_status := PLAN_EXECUTED\<rparr>" and ?q = "mock_prices env (w_ext w) (p_steps p)"
  let ?B = "\<lparr>bi_price = ?q, bi_plan = ?p, bi_start = w_ext w, bi_ids = map js_step_id (j_steps j), bi_job = j_job_id j, bi_total = round4 cost\<rparr>"
  let ?u = "w\<lparr>w_db := snd (plans_save ?p (w_db w))\<rparr>" and ?env = "exec_env_of (on_mock env sv)"
  have save: "in_db (plans_save ?p) w = (Inr (), ?u)" by (simp add: in_db_def plans_save_def)
  obtain t where t: "run ?env ?p (start_state ?u j g) = (r, t)" and w': "w_db w' = e_db t"
    using run save by (auto simp: hand_over_def Let_def run_executor_def case_prod_beta prod_eq_iff)
  note priced = priced_plan [OF fair m quoted]
  have ids: "map js_step_id (j_steps j) = map ps_step_id (p_steps p)" using job by (simp add: untouched_def)
  have sum_cost: "sum_list (map ?q (map js_step_id (j_steps j))) = cost"
    unfolding ids cost_def using fair by (intro mock_prices_total) (simp add: fair_plan_def)
  have "bill_adds_up ?B" using sum_cost by (simp add: bill_adds_up_def)
  then have "billed_run ?B env ?env ?p"
    using priced by (simp add: billed_run_def exec_env_of_def on_mock_def)
  from triple_run [OF this] have run_ok: "charged ?B s \<Longrightarrow> charged ?B (snd (run ?env ?p s))" for s
    by (rule triple_inv)
  have pos: "0 \<le> cost" unfolding sum_cost [symmetric] using priced_stepsD(1) [OF priced] by (intro sum_list_nonneg) auto
  then have pos4: "0 \<le> round4 cost" by (simp add: py_round_nonneg)
  have "charged ?B (start_state ?u j g)"
    using keys job books_ids [OF m] priced_stepsD(1) [OF priced] pos4
    by (force simp: charges_and_def charges_ok_def priced_within_def start_state_def new_keys_def untouched_def step_within_def row_within_def
        reported_def plans_save_def)
  then have "charged ?B (snd (run ?env ?p (start_state ?u j g)))" by (rule run_ok)
  then have end_ok: "charges_ok ?B t" using t by (simp add: charges_and_def)
  then show "reported (j_job_id j) (round4 cost) (w_db w')" by (simp add: reported_def charges_ok_def w')
  show "paid j' \<le> cost" if "r = Inr j'"
    using charges_sum [OF end_ok] run_result [OF t [unfolded that]] sum_cost by (simp add: paid_def)
qed

section \<open>From the claim to the report\<close>

lemma on_mock_eq: "sv_client sv = mock_client env \<Longrightarrow> on_mock env sv = sv"
  by (simp add: on_mock_def)

lemma same_request_plan:
  assumes "list_all2 same_request (p_steps p) (p_steps p1)" and "p_plan_id p1 = p_plan_id p"
  shows "fair_plan p1 = fair_plan p" "new_keys p1 m = new_keys p m" "untouched d p1 j = untouched d p j"
proof -
  note S = same_requests [OF assms(1)]
  have "(\<forall>s \<in> set (p_steps p1). fair_request (estimate_body s)) = (\<forall>s \<in> set (p_steps p). fair_request (estimate_body s))"
    using arg_cong [OF S(4), of "list_all fair_request"] by (simp add: list_all_iff)
  then show "fair_plan p1 = fair_plan p" using S by (simp add: fair_plan_def)
  have "(\<forall>s \<in> set (p_steps p1). JStr (ps_idempotency_key s) \<notin> X) = (\<forall>s \<in> set (p_steps p). JStr (ps_idempotency_key s) \<notin> X)" for X
    using arg_cong [OF S(2), of "list_all (\<lambda>k. JStr k \<notin> X)"] by (simp add: list_all_iff)
  then show "new_keys p1 m = new_keys p m" by (simp add: new_keys_def)
  show "untouched d p1 j = untouched d p j" using S assms(2) by (simp add: untouched_def)
qed

lemma read_only_keys: "read_only m m' \<Longrightarrow> new_keys p m' = new_keys p m"
proof -
  assume "read_only m m'"
  then have "mk_by_idempotency m' = mk_by_idempotency m" by (auto simp: read_only_def)
  then show ?thesis by (simp only: new_keys_def)
qed

lemma read_only_cost: "read_only m m' \<Longrightarrow> mock_cost env m' s = mock_cost env m s"
  by (simp add: mock_cost_def read_only_quote)

lemma mock_cost_grid: "on_grid 4 (sum_list (map (mock_cost env m) ss))"
  using quote_grid [of env m] on_grid_2_4
  by (intro on_grid_sum_list) (auto simp: list_all_iff mock_cost_def split: sum.split)

lemma untouched_same: "t_steps d' = t_steps d \<Longrightarrow> t_jobs d' = t_jobs d \<Longrightarrow> untouched d' p j = untouched d p j"
  by (simp add: untouched_def reported_def)

lemma untouched_paid: "untouched d p j \<Longrightarrow> paid j = 0"
  by (simp add: untouched_def paid_def cong: map_cong)

lemma reported_same: "t_jobs d' = t_jobs d \<Longrightarrow> reported jid x d' = reported jid x d"
  by (simp add: reported_def)

lemma abort_job_reported:
  assumes "abort_job sv j bs w = (r, w')" and "j_actual_cost_rub j \<le> x" and "reported jid x (w_db w)"
  shows "reported jid x (w_db w')" and "r = Inr j' \<Longrightarrow> \<exists>now. j' = aborted_job now bs j"
proof -
  obtain now u where c: "clock sv w = (Inr now, u)" "w_db u = w_db w"
    by (simp add: clock_def in_ext_def now_is_def case_prod_beta)
  let ?j = "aborted_job now bs j"
  have out: "abort_job sv j bs w = andthen (in_db (jobs_save ?j)) (ret ?j) u" using c by (simp add: abort_job_def)
  have keep: "reported jid x (snd (jobs_save ?j (w_db w)))"
    using assms(2,3) unfolding reported_def
    by (auto simp: jobs_save_def job_row_of_def aborted_job_def split: if_splits dest!: upsert_in)
  show "reported jid x (w_db w')"
    using assms(1) keep c(2) unfolding out by (auto simp: in_db_def andthen_def bind_apply case_prod_beta split: sum.splits prod.splits)
  show "\<exists>now. j' = aborted_job now bs j" if "r = Inr j'"
    using assms(1) that unfolding out by (auto simp: andthen_eq_Inr)
qed

lemma start_run_mock:
  assumes fair: "fair_plan p" and m: "books_ok wh b (w_ext w)" and keys: "new_keys p (w_ext w)" and job: "untouched (w_db w) p j"
    and sp: "0 \<le> spendable_rub (new_guard (p_budget_rub p) (budget_safety_margin (sv_settings sv)) None)"
    and run: "start_run (on_mock env sv) j p x w = (r, w')"
  defines "sp \<equiv> spendable_rub (new_guard (p_budget_rub p) (budget_safety_margin (sv_settings sv)) None)"
  shows "reported (j_job_id j) sp (w_db w') \<and> (\<forall>j'. r = Inr j' \<longrightarrow> paid j' \<le> sp)"
proof -
  let ?sv = "on_mock env sv"
  obtain acc ws where x: "x = (acc, ws)" by (cases x)
  let ?g = "new_guard (p_budget_rub p) (budget_safety_margin (sv_settings sv)) (Some acc)" and ?j1 = "j\<lparr>j_warnings := j_warnings j @ ws\<rparr>"
  have sg: "spendable_rub ?g = sp" by (simp add: spendable_new_guard sp_def)
  have sp0: "0 \<le> sp" using sp by (simp add: sp_def)
  have j1: "untouched (w_db w) p (?j1\<lparr>j_warnings := ws'\<rparr>)" for ws' using job by (simp add: untouched_def)
  have rep: "reported (j_job_id j) sp (w_db w)" using job sp0 by (auto simp: untouched_def intro: reported_mono)
  have "launched_steps ?j1 = []" using job by (simp add: untouched_def launched_steps_def filter_empty_conv)
  then have go: "bind (recheck_prices ?sv p ?g) (after_recheck ?sv ?j1) w = (r, w')"
    using run by (simp add: x start_run_def Let_def on_mock_def)
  obtain z u where z: "recheck_prices ?sv p ?g w = (z, u)" by fastforce
  have tabs: "t_steps (w_db u) = t_steps (w_db w)" "t_jobs (w_db u) = t_jobs (w_db w)"
    using keepsD [OF plans_only.recheck_prices_keeps z] by (simp_all add: on_dbs_def plans_only_def)
  have ro: "read_only (w_ext w) (w_ext u)" using keepsD [OF reading.recheck_prices_keeps z] by (simp add: reading_def)
  have repu: "reported (j_job_id j) sp (w_db u)" using rep reported_same [OF tabs(2)] by simp
  show ?thesis
  proof (cases z)
    case (Inl e)
    then show ?thesis using go z repu by auto
  next
    case (Inr y)
    with z have rp: "recheck_prices ?sv p ?g w = (Inr y, u)" by simp
    then have a: "after_recheck ?sv ?j1 y u = (r, w')" using go by simp
    obtain p1 g1 ws1 bs where y: "y = (p1, g1, ws1, bs)" by (cases y)
    note R = recheck_prices_result [OF rp [unfolded y]]
    have same: "list_all2 same_request (p_steps p) (p_steps p1)" using R(1) by (rule list_all2_mono) (simp add: rechecked_def)
    have id1: "p_plan_id p1 = p_plan_id p" by (subst R(2)) simp
    let ?j2 = "?j1\<lparr>j_warnings := j_warnings ?j1 @ ws1\<rparr>"
    show ?thesis
    proof (cases "bs = []")
      case False
      have j2: "j_actual_cost_rub ?j2 \<le> sp" "paid ?j2 = 0" using job sp0 untouched_paid [OF j1] by (auto simp: untouched_def)
      have "abort_job ?sv ?j2 bs u = (r, w')" using a y False by (simp add: after_recheck_def Let_def)
      from abort_job_reported [OF this j2(1) repu] show ?thesis using sp0 j2(2) by (auto simp: aborted_job_paid)
    next
      case True
      let ?k = "\<lparr>rk_account = g_account ?g, rk_warnings = [], rk_blockers = [], rk_total = 0\<rparr>"
      obtain ts k where rs: "recheck_steps ?sv (p_steps p) ?k w = (Inr (ts, k), u)"
        and bs: "rk_blockers k = []" "total_blockers ?g (rk_account k) (round4 (rk_total k)) = []"
        using rp y True by (auto simp: recheck_prices_def bind_eq_Inr)
      have fr: "\<forall>s \<in> set (p_steps p). fair_request (estimate_body s)" using fair by (simp add: fair_plan_def)
      have quoted: "\<forall>s \<in> set (p_steps p). ps_kind s \<noteq> LOCAL \<longrightarrow> (\<exists>q. quote_request env (w_ext w) (estimate_body s) = Inr q)"
        and total: "rk_total k = sum_list (map (mock_cost env (w_ext w)) (p_steps p))"
        using recheck_steps_mock [OF m fr read_only_intros(1) rs bs(1)] by simp_all
      have "\<forall>s \<in> set (p_steps p). ps_kind s \<noteq> LOCAL \<longrightarrow> (\<exists>q. quote_request env (w_ext u) (estimate_body s) = Inr q)"
        using quoted by (simp add: read_only_quote [OF ro])
      then have quoted1: "\<forall>s \<in> set (p_steps p1). ps_kind s \<noteq> LOCAL \<longrightarrow> (\<exists>q. quote_request env (w_ext u) (estimate_body s) = Inr q)"
        by (rule same_requests(5) [OF same])
      have h: "hand_over ?sv p1 ?j2 g1 u = (r, w')" using a y True by (simp add: after_recheck_def Let_def)
      let ?c = "sum_list (map (mock_cost env (w_ext u)) (p_steps p1))"
      have "?c = rk_total k" using same_requests(3) [OF same] total read_only_cost [OF ro] by (simp cong: map_cong)
      then have c: "round4 ?c \<le> sp" using bs(2) sg by (simp add: total_blockers_Nil)
      have c4: "round4 ?c = ?c" by (rule py_round_grid [OF mock_cost_grid])
      have "fair_plan p1" "new_keys p1 (w_ext u)" "untouched (w_db u) p1 ?j2" "books_ok wh b (w_ext u)"
        using fair keys j1 m same_request_plan [OF same id1] read_only_keys [OF ro] read_only_books [OF ro]
          untouched_same [OF tabs] by simp_all
      note H = hand_over_mock [OF this(1,4,2,3) quoted1 h]
      have "reported (j_job_id j) sp (w_db w')" using reported_mono [OF H(1) c] by simp
      then show ?thesis using H(2) c c4 by fastforce
    qed
  qed
qed

lemma claim_reported:
  assumes "claim_for_execution k now d = (r, d')" and "reported jid x d"
  shows "reported jid x d'"
  using assms by (auto simp: claim_for_execution_def sql_update_def reported_def Let_def)

lemma job_mock:
  assumes "sv_client sv = mock_client env" and "fields_in_range (sv_settings sv)" and db: "db_ok (w_db w)"
    and job: "job_at (w_db w) jid = Some j" "j_job_id j = jid" "j_status j = JOB_QUEUED"
    and plan: "plan_at (w_db w) (j_plan_id j) = Some p" "0 \<le> p_budget_rub p"
    and fair: "fair_plan p" and fresh: "untouched (w_db w) p j" and m: "books_ok wh b (w_ext w)" and keys: "new_keys p (w_ext w)"
    and run: "run_job sv jid w = (r, w')"
  defines "sp \<equiv> spendable_rub (new_guard (p_budget_rub p) (budget_safety_margin (sv_settings sv)) None)"
  shows "reported jid sp (w_db w') \<and> (\<forall>j'. r = Inr j' \<longrightarrow> paid j' \<le> sp)"
proof -
  note sv = on_mock_eq [OF assms(1)]
  have margin: "0 \<le> budget_safety_margin (sv_settings sv)" "budget_safety_margin (sv_settings sv) < 1 / 2"
    using assms(2) by (simp_all add: fields_in_range_def)
  have sp: "0 \<le> sp" using margin_leaves(1) [OF plan(2) margin] by (simp add: spendable_new_guard sp_def)
  have rep: "reported jid 0 (w_db w)" using fresh job(2) by (simp add: untouched_def)
  from db show ?thesis
  proof (cases rule: run_job_cases [of w jid sv])
    case (clock e w1 j0)
    then show ?thesis by (simp add: clock_def in_ext_def now_is_def case_prod_beta)
  next
    case (claimed j0 now w1 w2)
    let ?j = "j\<lparr>j_status := JOB_RUNNING, j_started_at := Some now\<rparr>"
    have pl: "plan_at (w_db w2) (j_plan_id j) = Some p" using plan(1) by (simp add: plan_at_def claimed(6))
    have go: "bind (account_snapshot sv) (start_run sv ?j p) w2 = (r, w')"
      using run claimed(2,8) job(1) pl by (simp add: run_claimed_def plans_get_def)
    obtain z u where a: "account_snapshot sv w2 = (z, u)" by fastforce
    have "keeps reading (clock sv)" "keeps reading (account_snapshot sv)" "keeps reading (in_db (claim_for_execution jid now) :: (mock, bool) serv)"
      using reading.clock_keeps [of env sv] reading.account_snapshot_keeps [of env sv] reading.claim_keeps [of jid now] by (simp_all add: sv)
    then have "reading w w1" "reading w1 w2" "reading w2 u" using claimed(1,4) a by (blast intro: keepsD)+
    then have ro: "read_only (w_ext w) (w_ext u)" unfolding reading_def by blast
    have tabs: "t_steps (w_db u) = t_steps (w_db w2)" "t_jobs (w_db u) = t_jobs (w_db w2)"
      using keepsD [OF plans_only.account_snapshot_keeps a] by (simp_all add: on_dbs_def plans_only_def)
    have "reported jid 0 (w_db w2)" using claimed(4,5) claim_reported [OF _ rep] by (auto simp: in_db_def case_prod_beta prod_eq_iff)
    then have repu: "reported jid 0 (w_db u)" using reported_same [OF tabs(2)] by simp
    show ?thesis
    proof (cases z)
      case (Inl e)
      then show ?thesis using go a reported_mono [OF repu sp] by auto
    next
      case (Inr x)
      then have run: "start_run (on_mock env sv) ?j p x u = (r, w')" using go a by (simp add: sv)
      have "untouched (w_db u) p ?j" using fresh repu tabs(1) claimed(7) job(2) by (simp add: untouched_def)
      then show ?thesis
        using start_run_mock [OF fair _ _ _ _ run] m keys read_only_books [OF ro] read_only_keys [OF ro] sp job(2) by (simp add: sp_def)
    qed
  qed (use run job rep reported_mono [OF rep sp] in auto)
qed

end
