(* ===== verification/Mock_Plan.thy ===== *)
theory Mock_Plan
  imports Mock_Job
begin

text \<open>
  What a created plan (\<open>create_plan\<close> of \<open>app/services/plan_service.py\<close>) asks of the in-memory platform:
  one key per step, and never a negative number of tokens. The idempotency keys are told apart by
  the step ids in them; the number of tokens comes from the brief, the policy or an enumeration of
  the catalog.
\<close>

section \<open>Idempotency keys\<close>

lemma bar_prefix:
  assumes "s @ CHR ''|'' # x = t @ CHR ''|'' # y" and "CHR ''|'' \<notin> set s" and "CHR ''|'' \<notin> set t"
  shows "s = t"
  using assms
proof (induction s arbitrary: t)
  case Nil
  then show ?case by (cases t) auto
next
  case (Cons c s)
  then show ?case by (cases t) auto
qed

lemma no_bar: "CHR ''|'' \<notin> set (step_id_of f)"
  by (cases f) (simp_all add: step_id_of_def)

lemma keys_apart:
  assumes "inj (uuid5_str h)" and "make_idempotency_key h pid (step_id_of f) m ps = make_idempotency_key h pid (step_id_of g) n qs"
  shows "step_id_of f = step_id_of g"
proof -
  have "step_id_of f @ ''|'' @ m @ ''|'' @ take 16 (sha256_hex h (params_repr ps)) = step_id_of g @ ''|'' @ n @ ''|'' @ take 16 (sha256_hex h (params_repr qs))"
    using injD [OF assms(1)] assms(2) by (auto simp: make_idempotency_key_def Let_def)
  then show ?thesis using bar_prefix [OF _ no_bar no_bar] by simp
qed

section \<open>Numbers of tokens\<close>

definition not_negative :: "json \<Rightarrow> bool" where
  "not_negative v \<longleftrightarrow> (case as_num v of Some t \<Rightarrow> 0 \<le> t | None \<Rightarrow> True)"

lemma fair_request_iff: "fair_request body \<longleftrightarrow> not_negative (jget body ''max_tokens'')"
  by (simp add: fair_request_def not_negative_def)

lemma not_negative_simps [simp]:
  "not_negative JNull" "not_negative (JStr s)" "not_negative (JArr xs)" "not_negative (JInt n) \<longleftrightarrow> 0 \<le> n"
  by (simp_all add: not_negative_def)

text \<open>The catalog offers no negative number of tokens to choose from.\<close>

definition token_enums_ok :: "capabilities \<Rightarrow> bool" where
  "token_enums_ok caps \<longleftrightarrow> (\<forall>f. \<forall>s \<in> set (models_for caps (format_value f)).
     \<forall>vs \<in> set_option (allowed_values s ''max_tokens''). \<forall>v \<in> set vs. not_negative v)"

definition asks_ok :: "policy \<Rightarrow> brief \<Rightarrow> bool" where
  "asks_ok p b \<longleftrightarrow> not_negative (jget (po_defaults p) ''text_max_tokens'') \<and> (\<forall>n \<in> set_option (b_text_max_tokens b). 0 \<le> n)"

lemma desired_tokens: "asks_ok p b \<Longrightarrow> not_negative (jget (desired_params p b f) ''max_tokens'')"
  by (cases f) (auto simp: desired_params_def common_params_def asks_ok_def int_or_def split: option.splits list.splits)

lemma coerce_tokens:
  assumes "not_negative v" and "\<forall>vs \<in> set_option (allowed_values m ''max_tokens''). \<forall>v \<in> set vs. not_negative v"
  shows "not_negative (fst (coerce_plain m ''max_tokens'' v))"
proof (cases "\<exists>xs. v = JArr xs")
  case True
  then show ?thesis by (auto simp: coerce_plain_def split: option.splits)
next
  case False
  show ?thesis
  proof (cases "allowed_values m ''max_tokens''")
    case None
    with False assms(1) show ?thesis by (cases v) (auto simp: coerce_plain_def split: option.splits)
  next
    case (Some vs)
    then have "vs \<noteq> []" by (auto simp: allowed_values_def split: json.splits list.splits)
    then have "not_negative (hd vs)" using assms(2) Some by simp
    with False Some assms(1) show ?thesis by (cases v) (simp_all add: coerce_plain_def)
  qed
qed

lemma jget_update: "jget (AList.update k v o1) k' = (if k' = k then v else jget o1 k')"
  by (simp add: jget_def AList.update_conv')

lemma fill_params_tokens:
  assumes "fill_params m desired names (ps, ws) = Inr (qs, ws')"
    and "not_negative (jget desired ''max_tokens'')" and "\<forall>vs \<in> set_option (allowed_values m ''max_tokens''). \<forall>v \<in> set vs. not_negative v"
    and "distinct (map fst ps) \<and> not_negative (jget ps ''max_tokens'')"
  shows "distinct (map fst qs) \<and> not_negative (jget qs ''max_tokens'')"
  using assms(1,4)
proof (induction names arbitrary: ps ws)
  case (Cons n names)
  show ?case
  proof (cases "n \<in> set reserved_params \<or> jget desired n = JNull")
    case True
    with Cons show ?thesis by simp
  next
    case False
    then obtain v nt where c: "coerce m n (jget desired n) = Inr (v, nt)" using Cons.prems(1) by (auto split: sum.splits)
    let ?ps = "if v = JNull then ps else AList.update n v ps"
    have "not_negative v" if "n = ''max_tokens''"
      using coerce_tokens [OF assms(2,3)] c that by (auto simp: coerce_def prod_eq_iff)
    then have "distinct (map fst ?ps) \<and> not_negative (jget ?ps ''max_tokens'')"
      using Cons.prems(2) by (auto simp: jget_update distinct_update)
    moreover obtain ws2 where "fill_params m desired names (?ps, ws2) = Inr (qs, ws')" using Cons.prems(1) False c by (auto simp: Let_def)
    ultimately show ?thesis by (rule Cons.IH [rotated])
  qed
qed simp

lemma build_params_tokens:
  assumes "build_params p b f m = Inr (ps, ws, None)" and "asks_ok p b"
    and "\<forall>vs \<in> set_option (allowed_values m ''max_tokens''). \<forall>v \<in> set vs. not_negative v"
  shows "distinct (map fst ps) \<and> not_negative (jget ps ''max_tokens'')"
proof -
  obtain qs ws0 ws1 prompt where fill: "fill_params m (desired_params p b f) (sort (known_params m)) ([], []) = Inr (qs, ws0)"
    and fin: "finish_params m qs ws1 prompt = (ps, ws)"
    using assms(1) by (rule build_params_cases)
  have "distinct (map fst qs) \<and> not_negative (jget qs ''max_tokens'')"
    by (rule fill_params_tokens [OF fill desired_tokens [OF assms(2)] assms(3)]) (simp add: jget_def)
  then show ?thesis using fin by (auto simp: finish_params_def Let_def jget_update distinct_update split: if_splits)
qed

section \<open>Created plans\<close>

lemma estimate_body_tokens:
  "distinct (map fst (ps_params s)) \<Longrightarrow> jget (estimate_body s) ''max_tokens'' = jget (ps_params s) ''max_tokens''"
  by (simp add: estimate_body_def jget_update) (simp add: jget_def map_of_dict_merge split: option.splits)

text \<open>The keys of a created plan tell its steps apart.\<close>

lemma created_plan_keys:
  assumes "create_plan sv b w = (Inr p, w')" and "distinct (b_formats b)"
  shows "t \<in> set (p_steps p) \<Longrightarrow>
      \<exists>f m ps. ps_step_id t = step_id_of f \<and> ps_idempotency_key t = make_idempotency_key (sv_crypto sv) (p_plan_id p) (step_id_of f) m ps"
    and "inj (uuid5_str (sv_crypto sv)) \<Longrightarrow> distinct (map ps_idempotency_key (p_steps p))"
proof -
  obtain payload ov draft priced where src: "drawn_from sv b p payload ov draft priced" using assms(1) by (rule create_plan_source)
  have step: "\<exists>f m ps. ps_step_id t = step_id_of f \<and> ps_idempotency_key t = make_idempotency_key (sv_crypto sv) (p_plan_id p) (step_id_of f) m ps"
    if "t \<in> set (p_steps p)" for t
    using drawn_from_steps(4) [OF src assms(2) that]
  proof
    assume "t = local_text_step (sv_crypto sv) b (p_plan_id p)"
    then show ?thesis by (auto simp: local_text_step_def local_step_def)
  next
    assume "catalog_step (sv_crypto sv) (parse_capabilities payload) (sv_policy sv) b ov (p_plan_id p) t"
    then obtain f c a where "same_request (to_step (sv_crypto sv) f c a (p_plan_id p)) t" by (auto simp: catalog_step_def)
    then have "ps_step_id t = step_id_of f \<and> ps_idempotency_key t = make_idempotency_key (sv_crypto sv) (p_plan_id p) (step_id_of f) (c_key c) (c_params c)"
      by (simp add: same_request_def to_step_def Let_def)
    then show ?thesis by blast
  qed
  then show "t \<in> set (p_steps p) \<Longrightarrow>
      \<exists>f m ps. ps_step_id t = step_id_of f \<and> ps_idempotency_key t = make_idempotency_key (sv_crypto sv) (p_plan_id p) (step_id_of f) m ps" .
  assume inj: "inj (uuid5_str (sv_crypto sv))"
  have ids: "distinct (map ps_step_id (p_steps p))" using created_plan_shape(3) [OF assms] .
  have "ps_step_id s = ps_step_id t" if "s \<in> set (p_steps p)" "t \<in> set (p_steps p)" "ps_idempotency_key s = ps_idempotency_key t" for s t
    using step [OF that(1)] step [OF that(2)] that(3) keys_apart [OF inj] by metis
  moreover have "inj_on ps_step_id (set (p_steps p))" "distinct (p_steps p)" using ids by (simp_all add: distinct_map)
  ultimately have "inj_on ps_idempotency_key (set (p_steps p))" unfolding inj_on_def by blast
  with \<open>distinct (p_steps p)\<close> show "distinct (map ps_idempotency_key (p_steps p))" by (simp add: distinct_map)
qed

lemma created_plan_fair:
  assumes "create_plan sv b w = (Inr p, w')" and "distinct (b_formats b)" and "inj (uuid5_str (sv_crypto sv))"
    and "asks_ok (sv_policy sv) b"
    and caps: "\<And>u payload v. in_ext (cl_capabilities (sv_client sv)) u = (Inr payload, v) \<Longrightarrow>
      fresh_uuid sv w = (Inr (p_plan_id p), u) \<Longrightarrow> token_enums_ok (parse_capabilities payload)"
  shows "fair_plan p"
proof -
  obtain payload ov draft priced where src: "drawn_from sv b p payload ov draft priced"
    "\<exists>u v. fresh_uuid sv w = (Inr (p_plan_id p), u) \<and> in_ext (cl_capabilities (sv_client sv)) u = (Inr payload, v)"
    using assms(1) by (rule create_plan_source)
  have enums: "token_enums_ok (parse_capabilities payload)" using src(2) caps by blast
  have step: "fair_request (estimate_body t)"
    if "t \<in> set (p_steps p)" for t
    using drawn_from_steps(4) [OF src(1) assms(2) that]
  proof
    assume "t = local_text_step (sv_crypto sv) b (p_plan_id p)"
    then have "ps_params t = []" by (simp add: local_text_step_def local_step_def)
    then show ?thesis using estimate_body_tokens [of t] by (simp add: fair_request_iff jget_def)
  next
    assume "catalog_step (sv_crypto sv) (parse_capabilities payload) (sv_policy sv) b ov (p_plan_id p) t"
    then obtain f c a where c: "candidate_ok (parse_capabilities payload) (sv_policy sv) b ov f c"
      "same_request (to_step (sv_crypto sv) f c a (p_plan_id p)) t" by (auto simp: catalog_step_def)
    have "\<forall>vs \<in> set_option (allowed_values (c_spec c) ''max_tokens''). \<forall>v \<in> set vs. not_negative v"
      using c(1) enums by (auto simp: candidate_ok_def token_enums_ok_def)
    then have "distinct (map fst (c_params c)) \<and> not_negative (jget (c_params c) ''max_tokens'')"
      using c(1) assms(4) by (intro build_params_tokens) (auto simp: candidate_ok_def)
    moreover have "ps_params t = c_params c" using c(2) by (simp add: same_request_def to_step_def Let_def)
    ultimately show ?thesis using estimate_body_tokens [of t] by (simp add: fair_request_iff)
  qed
  with created_plan_keys(2) [OF assms(1-3)] created_plan_shape(3) [OF assms(1,2)] show ?thesis by (simp add: fair_plan_def)
qed

end
