(* ===== verification/Filed.thy ===== *)
theory Filed
  imports Campaign
begin

text \<open>
  A job stays on file: from its admission on, whatever its run does and however it ends, the job and
  its plan are found under the same ids, the job is never pending again and the plan never turns
  infeasible. So a repeated \<open>execute_plan\<close> (\<open>app/services/plan_service.py\<close>) finds the job.
\<close>

section \<open>Requests leave the database alone\<close>

definition same_db :: "'x world \<Rightarrow> 'x world \<Rightarrow> bool" where
  "same_db w w' \<longleftrightarrow> w_db w' = w_db w"

interpretation same_db: asking_relation same_db sv for sv :: "'x service"
  by unfold_locales (auto simp: same_db_def keeps_def clock_def fresh_uuid_def in_ext_def Let_def case_prod_beta)

section \<open>The only job of its plan\<close>

definition row_filed :: "string \<Rightarrow> string \<Rightarrow> job_row \<Rightarrow> bool" where
  "row_filed jid pid r \<longleftrightarrow> (jr_job_id r = jid \<longleftrightarrow> jr_plan_id r = pid) \<and>
     (jr_job_id r = jid \<longrightarrow> j_job_id (jr_document r) = jid \<and> j_plan_id (jr_document r) = pid \<and> j_status (jr_document r) \<noteq> JOB_PENDING)"

definition on_file :: "string \<Rightarrow> string \<Rightarrow> db \<Rightarrow> bool" where
  "on_file jid pid d \<longleftrightarrow> list_all (row_filed jid pid) (t_jobs d) \<and> jid \<in> set (map jr_job_id (t_jobs d)) \<and>
     (\<exists>q. plan_at d pid = Some q \<and> p_status q \<noteq> PLAN_INFEASIBLE)"

definition job_filed :: "string \<Rightarrow> string \<Rightarrow> job \<Rightarrow> bool" where
  "job_filed jid pid j \<longleftrightarrow> j_job_id j = jid \<and> j_plan_id j = pid \<and> j_status j \<noteq> JOB_PENDING"

lemma on_file_same: "t_jobs d' = t_jobs d \<Longrightarrow> t_plans d' = t_plans d \<Longrightarrow> on_file jid pid d' = on_file jid pid d"
  by (simp add: on_file_def plan_at_def)

lemma jobs_save_filed:
  assumes "on_file jid pid d" and "job_filed jid pid j"
  shows "on_file jid pid (snd (jobs_save j d))"
proof -
  have "list_all (row_filed jid pid) (upsert jr_job_id (\<lambda>r. r\<lparr>jr_status := j_status j, jr_document := j\<rparr>) (job_row_of j) (t_jobs d))"
    using assms by (intro list_all_upsert) (auto simp: on_file_def job_filed_def row_filed_def job_row_of_def)
  moreover have "jid \<in> set (map jr_job_id (upsert jr_job_id (\<lambda>r. r\<lparr>jr_status := j_status j, jr_document := j\<rparr>) (job_row_of j) (t_jobs d)))"
    using assms(1) by (subst keys_upsert) (auto simp: on_file_def)
  ultimately show ?thesis using assms(1) by (simp add: jobs_save_def on_file_def plan_at_def)
qed

lemma plans_save_filed:
  assumes "on_file jid pid d" and "p_status p \<noteq> PLAN_INFEASIBLE"
  shows "on_file jid pid (snd (plans_save p d))"
proof -
  have "t_jobs (snd (plans_save p d)) = t_jobs d" by (simp add: plans_save_def)
  moreover have "plan_at (snd (plans_save p d)) pid = (if pid = p_plan_id p then Some p else plan_at d pid)" by (auto simp: plan_at_save)
  ultimately show ?thesis using assms by (auto simp: on_file_def)
qed

lemma claim_filed:
  assumes "on_file jid pid d"
  shows "on_file jid pid (snd (claim_for_execution k now d))"
proof -
  let ?f = "\<lambda>r. r\<lparr>jr_status := JOB_RUNNING, jr_document := (jr_document r)\<lparr>j_status := JOB_RUNNING, j_started_at := Some now\<rparr>\<rparr>"
  let ?g = "\<lambda>r. if jr_job_id r = k \<and> jr_status r = JOB_QUEUED then ?f r else r"
  have jobs: "t_jobs (snd (claim_for_execution k now d)) = map ?g (t_jobs d)"
    and plans: "plan_at (snd (claim_for_execution k now d)) pid = plan_at d pid"
    by (simp_all add: claim_for_execution_def sql_update_def plan_at_def)
  have "row_filed jid pid r \<Longrightarrow> row_filed jid pid (?g r)" for r by (auto simp: row_filed_def)
  then have "list_all (row_filed jid pid) (map ?g (t_jobs d))" using assms unfolding on_file_def list_all_iff by fastforce
  moreover have "map jr_job_id (map ?g (t_jobs d)) = map jr_job_id (t_jobs d)" by simp
  ultimately show ?thesis using assms unfolding on_file_def jobs plans by (simp only: simp_thms)
qed

section \<open>The run\<close>

definition keeps_file :: "string \<Rightarrow> string \<Rightarrow> 'x est \<Rightarrow> 'x est \<Rightarrow> bool" where
  "keeps_file jid pid s t \<longleftrightarrow>
     (job_filed jid pid (e_job s) \<and> on_file jid pid (e_db s) \<longrightarrow> job_filed jid pid (e_job t) \<and> on_file jid pid (e_db t))"

lemma keeps_file_db:
  assumes "\<And>d. t_jobs (snd (m d)) = t_jobs d \<and> t_plans (snd (m d)) = t_plans d"
  shows "keeps (keeps_file jid pid) (on_db m)"
  using on_file_same [OF conjunct1 [OF assms] conjunct2 [OF assms]]
  by (simp add: keeps_def keeps_file_def on_db_def Let_def case_prod_beta)

interpretation filing: run_relation "keeps_file jid pid" env for jid pid env
proof
  show "keeps_file jid pid s (s\<lparr>e_job := j\<rparr>)" if "same_job (e_job s) j" for s :: "'x est" and j
    using that by (auto simp: keeps_file_def same_job_def job_filed_def)
  show "keeps (keeps_file jid pid) save_job"
    by (auto simp: keeps_def keeps_file_def save_job_def on_db_def Let_def case_prod_beta jobs_save_filed)
  show "keeps (keeps_file jid pid) (on_db (claim_step h pid' sid jid' key body now))" for h pid' sid jid' key body now
    by (rule keeps_file_db) (auto simp: claim_step_def get_step_def insert_step_def Let_def bind_apply andthen_def split: option.splits)
  show "keeps (keeps_file jid pid) (on_db (update_step pid' sid st gid cost now))" for pid' sid st gid cost now
    by (rule keeps_file_db) (simp add: update_step_def)
qed (auto simp: keeps_file_def keeps_def utcnow_def sleep_for_def on_ext_def Let_def case_prod_beta)

lemma run_executor_filed:
  assumes "job_filed jid pid j" and "on_file jid pid (w_db w)"
  shows "on_file jid pid (w_db (snd (run_executor sv p j g w)))"
  using filing.run_keeps [of jid pid "exec_env_of sv" p] assms
  by (auto simp: keeps_def keeps_file_def run_executor_def start_state_def Let_def case_prod_beta)

section \<open>The whole job\<close>

lemma abort_job_filed:
  assumes "job_filed jid pid j" and "on_file jid pid (w_db w)"
  shows "on_file jid pid (w_db (snd (abort_job sv j bs w)))"
proof -
  obtain r u where c: "clock sv w = (r, u)" by fastforce
  have db: "w_db u = w_db w" using keepsD [OF same_db.clock_keeps c] by (simp add: same_db_def)
  have "on_file jid pid (snd (jobs_save (aborted_job now bs j) (w_db w)))" for now
    using assms by (intro jobs_save_filed) (auto simp: job_filed_def aborted_job_def)
  then show ?thesis using c db assms(2)
    by (cases r) (auto simp: abort_job_def bind_apply andthen_def in_db_def Let_def case_prod_beta split: sum.split prod.split)
qed

lemma hand_over_filed:
  assumes "job_filed jid pid j" and "on_file jid pid (w_db w)"
  shows "on_file jid pid (w_db (snd (hand_over sv p j g w)))"
proof -
  let ?p = "p\<lparr>p_job_id := Some (j_job_id j), p_status := PLAN_EXECUTED\<rparr>"
  let ?u = "w\<lparr>w_db := snd (plans_save ?p (w_db w))\<rparr>"
  have "in_db (plans_save ?p) w = (Inr (), ?u)" by (simp add: in_db_def plans_save_def)
  then have "hand_over sv p j g w = run_executor sv ?p j g ?u" by (simp add: hand_over_def Let_def)
  moreover have "on_file jid pid (w_db ?u)" using plans_save_filed [OF assms(2), of ?p] by simp
  ultimately show ?thesis using run_executor_filed [OF assms(1), of ?u sv ?p g] by (simp only:)
qed

lemma start_run_filed:
  assumes "job_filed jid pid j" and "on_file jid pid (w_db w)"
  shows "on_file jid pid (w_db (snd (start_run sv j p x w)))"
proof -
  obtain acc ws where x: "x = (acc, ws)" by (cases x)
  have warned: "job_filed jid pid (k\<lparr>j_warnings := ws'\<rparr>)" if "job_filed jid pid k" for k ws'
    using that by (simp add: job_filed_def)
  let ?g = "new_guard (p_budget_rub p) (budget_safety_margin (sv_settings sv)) (Some acc)" and ?j = "j\<lparr>j_warnings := j_warnings j @ ws\<rparr>"
  show ?thesis
  proof (cases "launched_steps ?j = []")
    case True
    obtain r u where rp: "recheck_prices sv p ?g w = (r, u)" by fastforce
    have db: "w_db u = w_db w" using keepsD [OF same_db.recheck_prices_keeps rp] by (simp add: same_db_def)
    have "start_run sv j p x w = bind (recheck_prices sv p ?g) (after_recheck sv ?j) w"
      using True by (simp add: x start_run_def Let_def)
    then show ?thesis using rp db assms warned
      by (cases r) (auto simp: after_recheck_def Let_def intro!: abort_job_filed hand_over_filed)
  next
    case False
    then show ?thesis using assms warned by (auto simp: x start_run_def Let_def intro!: hand_over_filed)
  qed
qed

lemma filed_job:
  assumes "on_file jid pid d"
  obtains j where "job_at d jid = Some j" and "job_filed jid pid j"
proof -
  have "find (\<lambda>r. jr_job_id r = jid) (t_jobs d) \<noteq> None"
    using assms by (auto simp: on_file_def find_None_iff)
  then obtain r where r: "find (\<lambda>r. jr_job_id r = jid) (t_jobs d) = Some r" by blast
  then have "r \<in> set (t_jobs d)" "jr_job_id r = jid" by (auto dest: find_in)
  then have "job_filed jid pid (jr_document r)" using assms by (auto simp: on_file_def list_all_iff row_filed_def job_filed_def)
  then show thesis using that r by (simp add: job_at_def)
qed

lemma run_job_filed:
  assumes "db_ok (w_db w)" and "on_file jid pid (w_db w)"
  shows "on_file jid pid (w_db (snd (run_job sv jid w)))"
  using assms(1)
proof (cases rule: run_job_cases [of w jid sv])
  case (clock e w1 j)
  then show ?thesis using assms(2) keepsD [OF same_db.clock_keeps clock(1)] by (simp add: same_db_def)
next
  case (taken j now w1 w2 k)
  then show ?thesis
    using claim_filed [OF assms(2), of jid now] keepsD [OF same_db.clock_keeps taken(1)]
    by (auto simp: same_db_def in_db_def Let_def case_prod_beta prod_eq_iff)
next
  case (claimed j now w1 w2)
  let ?j = "j\<lparr>j_status := JOB_RUNNING, j_started_at := Some now\<rparr>"
  have w2: "on_file jid pid (w_db w2)"
    using claim_filed [OF assms(2), of jid now] claimed(4,5) by (auto simp: in_db_def Let_def case_prod_beta prod_eq_iff)
  have j: "job_filed jid pid ?j" using filed_job [OF assms(2)] claimed(2) by (auto simp: job_filed_def)
  have "on_file jid pid (w_db (snd (run_claimed sv ?j w2)))"
  proof (cases "plan_at (w_db w2) (j_plan_id ?j)")
    case None
    then show ?thesis using abort_job_filed [OF j w2] by (simp add: run_claimed_def plans_get_def)
  next
    case (Some p)
    obtain r u where a: "account_snapshot sv w2 = (r, u)" by fastforce
    have u: "on_file jid pid (w_db u)" using keepsD [OF same_db.account_snapshot_keeps a] w2 by (simp add: same_db_def)
    have "run_claimed sv ?j w2 = bind (account_snapshot sv) (start_run sv ?j p) w2" using Some by (simp add: run_claimed_def plans_get_def)
    then show ?thesis using a u start_run_filed [OF j u] by (cases r) simp_all
  qed
  then show ?thesis using claimed(8) by simp
qed (use assms(2) in simp)

section \<open>The repeated request\<close>

lemma filed_by_plan:
  assumes "on_file jid pid d" and "db_ok d"
  obtains j where "jobs_get_by_plan pid d = (Inr (Some j), d)" and "job_at d jid = Some j" and "job_filed jid pid j"
proof -
  let ?rs = "filter (\<lambda>r. jr_plan_id r = pid) (t_jobs d)"
  have rows: "list_all (row_filed jid pid) (t_jobs d)" and "jid \<in> set (map jr_job_id (t_jobs d))" using assms(1) by (simp_all add: on_file_def)
  then have "?rs \<noteq> []" by (auto simp: filter_empty_conv list_all_iff row_filed_def)
  then obtain r where r: "py_max_by jr_created_at ?rs = Some r" "r \<in> set ?rs"
    by (metis option.exhaust py_max_by_None py_max_by_in)
  then have m: "r \<in> set (t_jobs d)" "jr_job_id r = jid" "job_filed jid pid (jr_document r)"
    using rows by (auto simp: list_all_iff row_filed_def job_filed_def)
  have "distinct (map jr_job_id (t_jobs d))" using assms(2) by (simp add: db_ok_def jobs_ok_def)
  then have "job_at d jid = Some (jr_document r)" using find_distinct [of jr_job_id "t_jobs d" r] m by (simp add: job_at_def)
  with m r show thesis by (intro that) (simp_all add: jobs_get_by_plan_def)
qed

lemma filed_again:
  assumes "on_file jid pid (w_db w)" and "db_ok (w_db w)" and "app_mode (sv_settings sv) \<noteq> ESTIMATE"
  obtains j where "execute_plan sv pid True wait w = (Inr j, w)" and "job_at (w_db w) jid = Some j" and "job_filed jid pid j"
proof -
  obtain q where q: "plan_at (w_db w) pid = Some q" "p_status q \<noteq> PLAN_INFEASIBLE" using assms(1) by (auto simp: on_file_def)
  obtain j where j: "jobs_get_by_plan pid (w_db w) = (Inr (Some j), w_db w)" "job_at (w_db w) jid = Some j" "job_filed jid pid j"
    using filed_by_plan [OF assms(1,2)] .
  have "execute_plan sv pid True wait w = (Inr j, w)" by (rule execute_replay [OF q assms(3) j(1)]) (use j(3) in \<open>simp add: job_filed_def\<close>)
  with j that show thesis by blast
qed

section \<open>From the admission on\<close>

lemma admitted_rows:
  assumes "db_ok d" and "filter (\<lambda>r. jr_plan_id r = pid) (t_jobs d) = [job_row_of j]" and "j_plan_id j = pid" and "r \<in> set (t_jobs d)"
  shows "jr_job_id r = j_job_id j \<longleftrightarrow> jr_plan_id r = pid" and "jr_job_id r = j_job_id j \<Longrightarrow> r = job_row_of j"
proof -
  have "job_row_of j \<in> set (filter (\<lambda>r. jr_plan_id r = pid) (t_jobs d))" by (simp only: assms(2)) simp
  then have in_d: "job_row_of j \<in> set (t_jobs d)" by simp
  have inj: "inj_on jr_job_id (set (t_jobs d))" using assms(1) by (simp add: db_ok_def jobs_ok_def distinct_map)
  show eq: "jr_job_id r = j_job_id j \<Longrightarrow> r = job_row_of j"
    using inj_onD [OF inj _ assms(4) in_d] by (simp add: job_row_of_def)
  have "jr_plan_id r = pid \<Longrightarrow> r = job_row_of j"
  proof -
    assume "jr_plan_id r = pid"
    then have "r \<in> set (filter (\<lambda>r. jr_plan_id r = pid) (t_jobs d))" using assms(4) by simp
    then show "r = job_row_of j" by (simp only: assms(2)) simp
  qed
  then show "jr_job_id r = j_job_id j \<longleftrightarrow> jr_plan_id r = pid" using eq assms(3) by (auto simp: job_row_of_def)
qed

lemma admitted_on_file:
  assumes "db_ok d" and "filter (\<lambda>r. jr_plan_id r = pid) (t_jobs d) = [job_row_of j]" and "j_plan_id j = pid" and "j_status j = JOB_QUEUED"
    and "plan_at d pid = Some q" and "p_status q \<noteq> PLAN_INFEASIBLE"
  shows "on_file (j_job_id j) pid d"
proof -
  note rows = admitted_rows [OF assms(1-3)]
  have "job_row_of j \<in> set (filter (\<lambda>r. jr_plan_id r = pid) (t_jobs d))" by (simp only: assms(2)) simp
  then have in_d: "job_row_of j \<in> set (t_jobs d)" by simp
  have "row_filed (j_job_id j) pid r" if "r \<in> set (t_jobs d)" for r
    using rows(1) [OF that] rows(2) [OF that] assms(3,4) by (auto simp: row_filed_def job_row_of_def)
  moreover have "j_job_id j \<in> set (map jr_job_id (t_jobs d))" using in_d by (force simp: job_row_of_def)
  ultimately show ?thesis using assms(5,6) by (simp add: on_file_def list_all_iff)
qed



end
