(* ===== verification/Mock_Campaign.thy ===== *)
theory Mock_Campaign
  imports Mock_Plan Filed Platform
begin

text \<open>
  A campaign on the in-memory platform (\<open>app/clients/mock.py\<close>), from the brief to the report and to the
  repeated request: here the platform's prices are known, so the budget holds without exception, and
  it holds for the stored job also where the run ended with an error.
\<close>

section \<open>After the admission\<close>

definition started_with :: "mock \<Rightarrow> bool" where
  "started_with m \<longleftrightarrow> opened m \<and> mk_by_idempotency m = [] \<and> token_enums_ok (parse_capabilities (mk_payload m))"

text \<open>Ids the database has not seen.\<close>

definition new_ids :: "'x service \<Rightarrow> 'x world \<Rightarrow> bool" where
  "new_ids sv w \<longleftrightarrow> (\<forall>i u. fresh_uuid sv w = (Inr i, u) \<longrightarrow> job_at (w_db w) i = None \<and>
     (\<forall>r \<in> set (t_jobs (w_db w)). jr_plan_id r \<noteq> i) \<and> (\<forall>r \<in> set (t_steps (w_db w)). sx_plan_id r \<noteq> i))"

lemma admitted_files:
  assumes "db_ok d" and "filter (\<lambda>r. jr_plan_id r = p_plan_id p) (t_jobs d) = [job_row_of j]"
    and "j = (new_job (j_job_id j) now p)\<lparr>j_status := JOB_QUEUED\<rparr>" and "plan_at d (p_plan_id p) = Some q" and "p_status q \<noteq> PLAN_INFEASIBLE"
    and "\<forall>r \<in> set (t_steps d). sx_plan_id r \<noteq> p_plan_id p"
  shows "untouched d p j" and "on_file (j_job_id j) (p_plan_id p) d" and "job_at d (j_job_id j) = Some j"
proof -
  have f: "j_plan_id j = p_plan_id p" "j_status j = JOB_QUEUED" "j_steps j = map new_job_step (p_steps p)" "j_actual_cost_rub j = 0"
    by (subst assms(3), simp add: new_job_def)+
  note rows = admitted_rows [OF assms(1,2) f(1)]
  show "on_file (j_job_id j) (p_plan_id p) d" using assms(1,2) f(1,2) assms(4,5) by (rule admitted_on_file)
  show "job_at d (j_job_id j) = Some j" using job_of_plan [OF assms(1), of "job_row_of j" "p_plan_id p"] assms(2) by (simp add: job_row_of_def)
  have "reported (j_job_id j) 0 d" using rows(2) f(4) by (fastforce simp: reported_def job_row_of_def)
  then show "untouched d p j" using f assms(6) by (simp add: untouched_def new_job_step_def comp_def)
qed

section \<open>From the brief to the repeated request\<close>

definition mock_ready :: "mock_env \<Rightarrow> mock service \<Rightarrow> brief \<Rightarrow> bool" where
  "mock_ready env sv b \<longleftrightarrow> sv_client sv = mock_client env \<and> fields_in_range (sv_settings sv) \<and> sv_has_queue sv \<and>
     inj (uuid5_str (sv_crypto sv)) \<and> asks_ok (sv_policy sv) b \<and> 0 \<le> b_budget_rub b \<and> distinct (b_formats b)"

lemma mock_planned:
  assumes "mock_ready env sv b" and "started_with (w_ext w)" and "db_ok (w_db w)" and "new_ids sv w"
    and "create_plan sv b w = (Inr p, w1)"
  shows "read_only (w_ext w) (w_ext w1)" and "fair_plan p" and "db_ok (w_db w1)" and "t_jobs (w_db w1) = t_jobs (w_db w)"
    and "plan_at (w_db w1) (p_plan_id p) = Some p" and "p_budget_rub p = b_budget_rub b"
    and "p_spendable_rub p = round4 (b_budget_rub b - round4 (b_budget_rub b * budget_safety_margin (sv_settings sv)))"
    and "\<forall>r \<in> set (t_jobs (w_db w1)). jr_plan_id r \<noteq> p_plan_id p" and "\<forall>r \<in> set (t_steps (w_db w1)). sx_plan_id r \<noteq> p_plan_id p"
proof -
  note M = assms(1) [unfolded mock_ready_def]
  have sv: "on_mock env sv = sv" using M by (simp add: on_mock_eq)
  have "keeps reading (create_plan sv b)" using reading.create_plan_keeps [of env sv b] by (simp add: sv)
  from keepsD [OF this assms(5)] show ro: "read_only (w_ext w) (w_ext w1)" by (simp add: reading_def)
  obtain u where u: "fresh_uuid sv w = (Inr (p_plan_id p), u)"
    and src: "p_budget_rub p = b_budget_rub b" "plan_at (w_db w1) (p_plan_id p) = Some p"
      "p_spendable_rub p = round4 (b_budget_rub b - round4 (b_budget_rub b * budget_safety_margin (sv_settings sv)))"
    using assms(5) by (rule create_plan_source) blast
  then show "p_budget_rub p = b_budget_rub b" "plan_at (w_db w1) (p_plan_id p) = Some p"
    "p_spendable_rub p = round4 (b_budget_rub b - round4 (b_budget_rub b * budget_safety_margin (sv_settings sv)))" by simp_all
  note c = create_plan_leaves [OF assms(5,3)]
  then show "db_ok (w_db w1)" "t_jobs (w_db w1) = t_jobs (w_db w)" by simp_all
  show "\<forall>r \<in> set (t_jobs (w_db w1)). jr_plan_id r \<noteq> p_plan_id p" "\<forall>r \<in> set (t_steps (w_db w1)). sx_plan_id r \<noteq> p_plan_id p"
    using assms(4) u c by (simp_all add: new_ids_def)
  show "fair_plan p"
  proof (rule created_plan_fair [OF assms(5)])
    fix u' payload v
    assume "in_ext (cl_capabilities (sv_client sv)) u' = (Inr payload, v)" "fresh_uuid sv w = (Inr (p_plan_id p), u')"
    then have "payload = mk_payload (w_ext w)"
      using M by (auto simp: fresh_uuid_def in_ext_def mock_client_def mock_capabilities_def andthen_def bind_apply record_call_def modify_def)
    then show "token_enums_ok (parse_capabilities payload)" using assms(2) by (simp add: started_with_def)
  qed (use M in simp_all)
qed

lemma mock_admitted:
  assumes "mock_ready env sv b" and "started_with (w_ext w)" and "db_ok (w_db w)" and "new_ids sv w"
    and "create_plan sv b w = (Inr p, w1)" and "new_ids sv w1" and "execute_plan sv (p_plan_id p) True False w1 = (Inr j, w2)"
  shows "read_only (w_ext w) (w_ext w2)" and "db_ok (w_db w2)" and "untouched (w_db w2) p j" and "on_file (j_job_id j) (p_plan_id p) (w_db w2)"
    and "job_at (w_db w2) (j_job_id j) = Some j" and "plan_at (w_db w2) (p_plan_id p) = Some (p\<lparr>p_job_id := Some (j_job_id j)\<rparr>)"
    and "j_status j = JOB_QUEUED" and "j_plan_id j = p_plan_id p" and "app_mode (sv_settings sv) \<noteq> ESTIMATE"
proof -
  note M = assms(1) [unfolded mock_ready_def] and P = mock_planned [OF assms(1-5)]
  have sv: "on_mock env sv = sv" using M by (simp add: on_mock_eq)
  have "keeps reading (execute_plan sv (p_plan_id p) True False)"
    using reading.execute_later_keeps [of env sv False "p_plan_id p" True] M by (simp add: sv)
  from keepsD [OF this assms(7)] have "read_only (w_ext w1) (w_ext w2)" by (simp add: reading_def)
  with P(1) show "read_only (w_ext w) (w_ext w2)" by (rule read_only_intros)
  have st: "app_mode (sv_settings sv) \<noteq> ESTIMATE \<and> p_status p \<noteq> PLAN_INFEASIBLE"
    using assms(7) P(5) by (auto simp: execute_plan_def plans_get_def split: if_splits)
  then show "app_mode (sv_settings sv) \<noteq> ESTIMATE" by simp
  have none: "filter (\<lambda>r. jr_plan_id r = p_plan_id p) (t_jobs (w_db w1)) = []" using P(8) by (simp add: filter_empty_conv)
  obtain now where a: "j = (new_job (j_job_id j) now p)\<lparr>j_status := JOB_QUEUED\<rparr>"
    "filter (\<lambda>r. jr_plan_id r = p_plan_id p) (t_jobs (w_db w2)) = [job_row_of j]"
    "plan_at (w_db w2) (p_plan_id p) = Some (p\<lparr>p_job_id := Some (j_job_id j)\<rparr>)" "t_steps (w_db w2) = t_steps (w_db w1)" "db_ok (w_db w2)"
    using admitted_job [OF assms(7) _ P(3,5) none] M assms(6) by (auto simp: new_ids_def)
  show "db_ok (w_db w2)" "plan_at (w_db w2) (p_plan_id p) = Some (p\<lparr>p_job_id := Some (j_job_id j)\<rparr>)" by (rule a)+
  show "j_status j = JOB_QUEUED" "j_plan_id j = p_plan_id p" by (subst a(1), simp add: new_job_def)+
  have steps: "\<forall>r \<in> set (t_steps (w_db w2)). sx_plan_id r \<noteq> p_plan_id p" using P(9) a(4) by simp
  show "untouched (w_db w2) p j" "on_file (j_job_id j) (p_plan_id p) (w_db w2)" "job_at (w_db w2) (j_job_id j) = Some j"
    by (rule admitted_files [OF a(5,2,1,3) _ steps]; use st in simp)+
qed

lemma mock_ran:
  assumes "mock_ready env sv b" and "started_with (w_ext w)" and "db_ok (w_db w)" and "new_ids sv w"
    and "create_plan sv b w = (Inr p, w1)" and "new_ids sv w1" and "execute_plan sv (p_plan_id p) True False w1 = (Inr j, w2)"
    and "run_job sv (j_job_id j) (w2\<lparr>w_queue := qs\<rparr>) = (r, w3)"
  obtains j' where "job_at (w_db w3) (j_job_id j) = Some j'" and "j_job_id j' = j_job_id j" and "j_actual_cost_rub j' \<le> p_spendable_rub p"
    and "p_spendable_rub p \<le> round4 (b_budget_rub b)" and "\<And>wait. execute_plan sv (p_plan_id p) True wait w3 = (Inr j', w3)"
    and "\<And>k. r = Inr k \<Longrightarrow> paid k \<le> p_spendable_rub p"
proof -
  note M = assms(1) [unfolded mock_ready_def] and P = mock_planned [OF assms(1-5)] and A = mock_admitted [OF assms(1-7)]
  let ?p = "p\<lparr>p_job_id := Some (j_job_id j)\<rparr>" and ?w = "w2\<lparr>w_queue := qs\<rparr>" and ?st = "sv_settings sv"
  have books: "books_ok (mk_balance_rub (w_ext w) + mk_daily_spent_rub (w_ext w)) (mk_daily_spent_rub (w_ext w)) (w_ext ?w)"
    using opened_books [of "w_ext w"] assms(2) A(1) by (simp add: started_with_def read_only_books)
  have keys: "new_keys ?p (w_ext ?w)" using assms(2) read_only_keys [OF A(1), of p] by (simp add: started_with_def new_keys_def)
  have fair: "fair_plan ?p" using P(2) by (simp add: fair_plan_def)
  have job: "untouched (w_db ?w) ?p j" using A(3) by (simp add: untouched_def)
  have margin: "0 \<le> budget_safety_margin ?st" "budget_safety_margin ?st < 1 / 2" using M by (simp_all add: fields_in_range_def)
  have sp: "spendable_rub (new_guard (p_budget_rub p) (budget_safety_margin ?st) None) = p_spendable_rub p"
    by (simp add: spendable_new_guard P(6,7))
  have "reported (j_job_id j) (spendable_rub (new_guard (p_budget_rub ?p) (budget_safety_margin ?st) None)) (w_db w3) \<and>
      (\<forall>k. r = Inr k \<longrightarrow> paid k \<le> spendable_rub (new_guard (p_budget_rub ?p) (budget_safety_margin ?st) None))"
    by (rule job_mock [OF _ _ _ _ refl A(7) _ _ fair job books keys assms(8)]) (use M A P(6) in simp_all)
  then have rep: "reported (j_job_id j) (p_spendable_rub p) (w_db w3)" and paid: "\<And>k. r = Inr k \<Longrightarrow> paid k \<le> p_spendable_rub p"
    by (simp_all add: sp)
  have filed: "on_file (j_job_id j) (p_plan_id p) (w_db w3)"
    using run_job_filed [of ?w "j_job_id j" "p_plan_id p" sv] A(2,4) assms(8) by simp
  have "on_dbs ok_step ?w w3" using service_ok.run_job_keeps assms(8) by (rule keepsD)
  then have ok: "db_ok (w_db w3)" using A(2) by (simp add: on_dbs_def ok_step_def)
  obtain j' where j': "job_at (w_db w3) (j_job_id j) = Some j'" "job_filed (j_job_id j) (p_plan_id p) j'"
    and again: "execute_plan sv (p_plan_id p) True wait w3 = (Inr j', w3)" for wait
    using filed_by_plan [OF filed ok] filed_again [OF filed ok A(9)] by (metis option.inject)
  have "j_actual_cost_rub j' \<le> p_spendable_rub p"
    using rep j'(1) by (auto simp: reported_def job_at_def dest: find_in)
  with j' again paid margin_leaves(2) [OF _ margin, of "b_budget_rub b"] M show thesis
    by (intro that [of j']) (auto simp: job_filed_def P(7))
qed

end
