(* ===== verification/Ending.thy ===== *)
theory Ending
  imports Guarantees Wiring
begin

text \<open>
  Every run of a job ends: with a job or with an exception of the program (\<open>run_job\<close> of
  \<open>app/services/plan_service.py\<close> and all of \<open>app/services/executor.py\<close>). The only unbounded loop of the
  source is the wait for a generation; \<open>Diverges\<close> stands for one that goes on for ever, and the rules
  below follow its absence through every construct.
\<close>

definition ends :: "('s, exn, 'a) eff \<Rightarrow> bool" where
  "ends m \<longleftrightarrow> (\<forall>s. fst (m s) \<noteq> Inl Diverges)"

lemma endsI: "(\<And>s t. m s \<noteq> (Inl Diverges, t)) \<Longrightarrow> ends m"
  unfolding ends_def by (metis prod.collapse)

lemma endsD: "ends m \<Longrightarrow> m s \<noteq> (Inl Diverges, t)"
  unfolding ends_def by (metis fst_conv)

section \<open>One rule per construct\<close>

lemma ends_plain:
  "ends (ret a)" "ends (gets f)" "ends (modify g)" "e \<noteq> Diverges \<Longrightarrow> ends (raise e)"
  by (simp_all add: ends_def)

lemma ends_bind: "ends m \<Longrightarrow> (\<And>a. ends (f a)) \<Longrightarrow> ends (bind m f)"
  by (auto simp: ends_def bind_def split: prod.split sum.split) (metis fst_conv)

lemma ends_andthen: "ends m \<Longrightarrow> ends n \<Longrightarrow> ends (andthen m n)"
  unfolding andthen_def by (rule ends_bind)

lemma ends_catch: "ends m \<Longrightarrow> (\<And>e. e \<noteq> Diverges \<Longrightarrow> ends (h e)) \<Longrightarrow> ends (catch m h)"
  by (auto simp: ends_def catch_def split: prod.split sum.split) (metis fst_conv)

lemma ends_finally: "ends m \<Longrightarrow> ends f \<Longrightarrow> ends (finally_do m f)"
  by (auto simp: ends_def finally_do_def split: prod.split sum.split) (metis fst_conv)+

lemma ends_cases:
  "(c \<Longrightarrow> ends m) \<Longrightarrow> (\<not> c \<Longrightarrow> ends n) \<Longrightarrow> ends (if c then m else n)"
  "(x = None \<Longrightarrow> ends m) \<Longrightarrow> (\<And>a. x = Some a \<Longrightarrow> ends (f a)) \<Longrightarrow> ends (case x of None \<Rightarrow> m | Some a \<Rightarrow> f a)"
  "(\<And>e. y = Inl e \<Longrightarrow> ends (h e)) \<Longrightarrow> (\<And>a. y = Inr a \<Longrightarrow> ends (k a)) \<Longrightarrow> ends (case y of Inl e \<Rightarrow> h e | Inr a \<Rightarrow> k a)"
  by (auto split: option.split sum.split)

lemma ends_lift: "ends m \<Longrightarrow> ends (on_ext m)" "ends d \<Longrightarrow> ends (on_db d)" "ends m \<Longrightarrow> ends (in_ext m)" "ends d \<Longrightarrow> ends (in_db d)"
  by (simp_all add: ends_def on_ext_def on_db_def in_ext_def in_db_def Let_def case_prod_beta)

lemma ends_poll:
  "0 < i \<Longrightarrow> ends ask \<Longrightarrow> (\<And>d. ends (sl d)) \<Longrightarrow> ends (poll_from_zero ask sl i dl)"
  unfolding ends_def by (intro allI poll_from_zero_returns) simp_all

lemmas ends_rules = ends_cases ends_plain ends_bind ends_andthen ends_catch ends_finally ends_lift

section \<open>The database and the job\<close>

lemma ends_store:
  "ends (jobs_save j)" "ends (plans_save p)" "ends (update_step pid sid st gid cost now)" "ends (claim_for_execution jid now)"
  "ends (claim_step h pid sid jid key body now)" "ends (jobs_get jid)" "ends (plans_get pid)"
  by (auto simp: ends_def jobs_save_def plans_save_def update_step_def claim_for_execution_def claim_step_def get_step_def insert_step_def
      jobs_get_def plans_get_def Let_def case_prod_beta bind_apply andthen_def split: option.split)

lemma ends_parts:
  "ends (utcnow env)" "ends (sleep_for env d)" "ends (modify_job f)" "ends (modify_guard g)" "ends (modify_step sid h)"
  "ends (add_error e)" "ends (add_warning e)" "ends (the_step sid)" "ends (save_job :: ('x, unit) exec)" "ends refresh_cost"
proof -
  show clock: "ends (utcnow env)" "ends (sleep_for env d)"
    unfolding utcnow_def sleep_for_def by (intro ends_rules, simp add: ends_def now_is_def case_prod_beta)+ (intro ends_rules)
  show job: "ends (modify_job f)" for f unfolding modify_job_def by (rule ends_rules)
  show "ends (modify_guard g)" unfolding modify_guard_def by (rule ends_rules)
  show "ends (modify_step sid h)" "ends (add_error e)" "ends (add_warning e)" "ends refresh_cost"
    by (simp_all add: modify_step_def add_error_def add_warning_def refresh_cost_def job)
  show "ends (the_step sid)" by (simp add: ends_def the_step_def split: option.split)
  have "ends (on_db (jobs_save j) :: ('x, unit) exec)" for j by (intro ends_rules ends_store)
  then show "ends (save_job :: ('x, unit) exec)" by (simp add: ends_def save_job_def)
qed

section \<open>The client\<close>

text \<open>The client's own functions end; the two clients of the program are of this kind.\<close>

definition client_ends :: "'x client \<Rightarrow> bool" where
  "client_ends c \<longleftrightarrow> ends (cl_me c) \<and> ends (cl_balance c) \<and> (\<forall>b. ends (cl_estimate c b)) \<and> (\<forall>b. ends (cl_generate c b)) \<and>
     (\<forall>g. ends (cl_generation_status c g)) \<and> (\<forall>f g. cl_voiceover_status c = Some f \<longrightarrow> ends (f g)) \<and>
     (\<forall>w g i dl. cl_wait_for_generation c = Some w \<longrightarrow> 0 \<le> i \<longrightarrow> ends (w g i dl))"

lemma client_endsD:
  assumes "client_ends c"
  shows "ends (cl_me c)" "ends (cl_balance c)" "ends (cl_estimate c b)" "ends (cl_generate c b)" "ends (cl_generation_status c g)"
    "cl_voiceover_status c = Some f \<Longrightarrow> ends (f g)" "cl_wait_for_generation c = Some w \<Longrightarrow> 0 \<le> i \<Longrightarrow> ends (w g i dl)"
  using assms by (auto simp: client_ends_def)

lemma http_request_ends: "ends (http_request cfg tr meth path body)"
proof (rule endsI)
  fix x t
  have "http_result meth path out \<noteq> Inl Diverges" for out by (simp add: http_result_def split: http_outcome.split)
  then have "http_attempt tr meth path body y \<noteq> (Inl Diverges, t)" for y
    by (auto simp: http_attempt_def case_prod_beta Let_def)
  moreover obtain y where "http_attempt tr meth path body y = http_request cfg tr meth path body x"
    using retry_from_result [of "http_attempt tr meth path body" "hc_retry cfg" "tr_retry tr" 1 x]
    by (auto simp: http_request_def with_retry_def)
  ultimately show "http_request cfg tr meth path body x \<noteq> (Inl Diverges, t)" by metis
qed

lemma http_client_ends:
  assumes "0 < hc_poll_interval cfg"
  shows "client_ends (http_client cfg tr)"
proof -
  have "ends (http_wait_for_generation cfg tr g i dl)" if "0 \<le> i" for g i dl
    by (rule endsI) (use http_wait_result [OF assms that] in fastforce)
  then show ?thesis
    by (auto simp: client_ends_def http_client_def http_generate_def http_generation_status_def http_voiceover_status_def
        intro!: ends_rules http_request_ends)
qed

lemma mock_quote_ends: "quote_request env m body \<noteq> Inl Diverges"
proof -
  have "spec_or_error env m body \<noteq> Inl Diverges" "mock_validate body spec \<noteq> Inl Diverges" "mock_price m body spec \<noteq> Inl Diverges" for spec
    by (auto simp: spec_or_error_def mock_validate_def mock_price_def mock_error_def Let_def split: option.split if_splits)
  then show ?thesis by (auto simp: quote_request_def split: sum.split)
qed

lemma mock_client_ends: "client_ends (mock_client env)"
proof -
  have "ends (mock_estimate env b)" "ends (mock_generate env b)" for b
    using mock_quote_ends [of env]
    by (auto simp: ends_def mock_estimate_def mock_generate_def record_call_def andthen_def bind_apply admit_generation_def mock_error_def
        Let_def split: sum.split option.split prod.split)
  moreover have "ends (mock_generation_status env g)" "ends (mock_voiceover_status g)" for g
    by (auto simp: ends_def mock_generation_status_def mock_voiceover_status_def record_call_def andthen_def bind_apply mock_error_def
        Let_def split: option.split list.split)
  moreover have "ends mock_me" "ends mock_balance"
    unfolding mock_me_def mock_balance_def record_call_def by (intro ends_rules)+
  ultimately show ?thesis by (simp add: client_ends_def mock_client_def)
qed

section \<open>The executor\<close>

lemma guard_ends: "check_all g c l \<noteq> Inl Diverges" "commit g c l \<noteq> Inl Diverges"
  by (auto simp: check_all_def check_def check_account_def commit_def app_raise_def new_app_error_def Let_def split: sum.split option.split)

text \<open>An environment whose waits end.\<close>

definition env_ends :: "'x exec_env \<Rightarrow> bool" where
  "env_ends env \<longleftrightarrow> client_ends (x_client env) \<and> 0 < x_poll_interval env"

lemma settle_ends: "ends (settle env p sid payload)"
  unfolding settle_def Let_def case_prod_beta by (intro ends_rules ends_parts ends_store)

lemma fail_step_ends: "ends (fail_step env sid m)"
  unfolding fail_step_def by (intro ends_rules ends_parts)

lemma await_long_ends:
  assumes "env_ends env"
  shows "ends (await_long_voiceover env p sid)"
  unfolding await_long_voiceover_def
  using assms by (intro ends_rules ends_poll ends_parts settle_ends fail_step_ends) (auto simp: env_ends_def dest: client_endsD)

lemma wait_for_ends:
  assumes "env_ends env"
  shows "ends (wait_for env gid)"
  unfolding wait_for_def
  using assms by (intro ends_rules ends_poll ends_parts) (auto simp: env_ends_def client_ends_def)

lemma await_result_ends:
  assumes "env_ends env"
  shows "ends (await_result env p sid)"
  unfolding await_result_def
  by (intro ends_rules ends_parts settle_ends wait_for_ends assms)
    (auto split: exn.split vibe_error.split intro!: ends_rules fail_step_ends)

lemma record_charge_ends: "ends (record_charge env p ps r)"
  unfolding record_charge_def Let_def
  by (intro ends_rules ends_parts ends_store) (auto simp: guard_ends split: sum.split intro!: ends_rules ends_parts)

lemma launch_ends:
  assumes "env_ends env"
  shows "ends (launch_or_resume env p ps)"
  unfolding launch_or_resume_def launch_def Let_def
  using assms guard_ends by (intro ends_rules ends_parts ends_store record_charge_ends) (auto simp: env_ends_def dest: client_endsD)

lemma await_step_ends: "env_ends env \<Longrightarrow> ends (await_step env p sid r)"
  unfolding await_step_def
  by (intro ends_rules ends_parts await_long_ends await_result_ends settle_ends fail_step_ends) simp_all

lemma run_step_ends: "env_ends env \<Longrightarrow> ends (run_step env p ps)"
  unfolding run_step_def Let_def by (intro ends_rules ends_parts ends_store launch_ends await_step_ends)

lemma step_failed_ends: "e \<noteq> Diverges \<Longrightarrow> ends (step_failed env p ps e)"
  unfolding step_failed_def Let_def
  by (auto split: exn.split vibe_error.split intro!: ends_rules ends_parts ends_store)

lemma attempt_step_ends: "env_ends env \<Longrightarrow> ends (attempt_step env p ps)"
  unfolding attempt_step_def by (intro ends_rules ends_parts run_step_ends step_failed_ends)

lemma run_steps_ends: "env_ends env \<Longrightarrow> ends (run_steps env p pss ab)"
proof (induction pss arbitrary: ab)
  case (Cons ps pss)
  then show ?case unfolding run_steps.simps by (intro ends_rules ends_parts attempt_step_ends)
qed (simp add: ends_plain)

lemma run_ends: "env_ends env \<Longrightarrow> ends (run env p)"
  unfolding run_def finish_run_def by (intro ends_rules ends_parts run_steps_ends)

section \<open>The job\<close>

lemma try_vibe_ends: "ends m \<Longrightarrow> ends (try_vibe m)"
  unfolding try_vibe_def by (intro ends_rules) (auto split: exn.split intro!: ends_rules)

lemma clock_ends: "ends (clock sv)"
  by (simp add: ends_def clock_def in_ext_def now_is_def Let_def case_prod_beta)

lemma account_snapshot_ends: "client_ends (sv_client sv) \<Longrightarrow> ends (account_snapshot sv)"
  unfolding account_snapshot_def Let_def case_prod_beta by (intro ends_rules try_vibe_ends client_endsD)

lemma recheck_ends:
  assumes "client_ends (sv_client sv)"
  shows "ends (recheck_prices sv p g)"
proof -
  have step: "ends (if ps_kind s = LOCAL then ret (s, k) else recheck_step sv s k)" for s k
    unfolding recheck_step_def by (intro ends_rules try_vibe_ends client_endsD assms)
  have "ends (recheck_steps sv ss k)" for ss k
  proof (induction ss arbitrary: k)
    case (Cons s ss)
    show ?case unfolding recheck_steps.simps case_prod_beta by (intro ends_bind step Cons ends_plain)
  qed (simp add: ends_plain)
  then show ?thesis unfolding recheck_prices_def case_prod_beta by (intro ends_bind ends_plain)
qed

lemma abort_job_ends: "ends (abort_job sv j bs)"
  unfolding abort_job_def by (intro ends_rules ends_store clock_ends)

lemma hand_over_ends:
  assumes "env_ends (exec_env_of sv)"
  shows "ends (hand_over sv p j g)"
proof -
  have "ends (run_executor sv q j g)" for q
    using run_ends [OF assms] by (simp add: ends_def run_executor_def Let_def case_prod_beta)
  then show ?thesis unfolding hand_over_def Let_def by (intro ends_rules ends_store)
qed

lemma run_job_ends:
  assumes "client_ends (sv_client sv)" and "fields_in_range (sv_settings sv)"
  shows "ends (run_job sv jid)"
proof -
  have env: "env_ends (exec_env_of sv)" using assms by (simp add: env_ends_def exec_env_of_def fields_in_range_def)
  have after: "ends (after_recheck sv j x)" for j x
    unfolding after_recheck_def Let_def case_prod_beta by (intro ends_rules abort_job_ends hand_over_ends env)
  have start: "ends (start_run sv j p x)" for j p x
    unfolding start_run_def Let_def case_prod_beta by (intro ends_rules hand_over_ends env recheck_ends assms(1) after)
  have "ends (run_claimed sv j)" for j
    unfolding run_claimed_def by (intro ends_rules ends_store abort_job_ends account_snapshot_ends assms(1) start)
  then show ?thesis unfolding run_job_def by (intro ends_rules ends_store clock_ends) (simp_all add: app_raise_def)
qed

section \<open>The property\<close>

text \<open>C26: Every run of a job ends. With the HTTP client the settings build, whatever the platform answers or
  does not answer and however long it works on a generation, \<open>run_job\<close> comes back, with a job or with
  an exception of the program: no wait goes on for ever.\<close>

theorem every_job_ends:
  assumes "make_settings raw = Inr st" and "build_client fixture now st = BuiltHttp cfg"
  shows "fst (run_job (build_plan_service st p h q (http_client cfg tr)) jid w) \<noteq> Inl Diverges"
proof -
  have st: "fields_in_range st" using assms(1) by (rule make_settings_ok)
  then have "0 < hc_poll_interval cfg" using assms(2) by (auto simp: build_client_def fields_in_range_def split: if_splits)
  then have "client_ends (http_client cfg tr)" by (rule http_client_ends)
  then have "ends (run_job (build_plan_service st p h q (http_client cfg tr)) jid)"
    using st by (intro run_job_ends) (simp_all add: build_plan_service_def)
  then show ?thesis by (simp add: ends_def)
qed

definition live_settings :: settings where
  "live_settings = default_settings\<lparr>app_mode := LIVE, vibe_api_token := Some ''token''\<rparr>"

lemma live_settings_made: "make_settings live_settings = Inr live_settings"
proof -
  have "blank_means_unset (Some ''token'') = Some ''token''"
    by code_simp
  then show ?thesis
    by (simp add: live_settings_def default_settings_def make_settings_def fields_in_range_def check_mode_requirements_def unset_def blank_means_unset_def)
qed

theorem every_job_ends_witness:
  "\<exists>cfg. build_client [] 0 live_settings = BuiltHttp cfg \<and>
     fst (run_job (build_plan_service live_settings demo_policy demo_crypto True (http_client cfg silent)) ''j1''
       \<lparr>w_db = demo_db, w_ext = 0, w_queue = []\<rparr>) \<noteq> Inl Diverges"
proof -
  obtain cfg where cfg: "build_client [] 0 live_settings = BuiltHttp cfg" by (simp add: build_client_def live_settings_def)
  from every_job_ends [OF live_settings_made cfg] cfg show ?thesis by blast
qed

end
