(* ===== verification/Demo_Script.thy ===== *)
theory Demo_Script
  imports Mock_Campaign Ending Brief
begin

text \<open>
  The offline demonstration (\<open>scripts/demo_mock.py\<close>): the real planner, guard, queue, executor and
  storage over the in-memory platform, from a fixed brief to the report, with one execution refused
  and one repeated. The state is the service's world and what was printed; a printed line is its
  template's name and the values put into it. Logging, the temporary directory and the parsing of
  the command line are left out.
\<close>

section \<open>The brief\<close>

definition BRIEF_product_name :: string where
  "BRIEF_product_name = bytes
    [67, 82, 77, 32, 208, 180, 208, 187, 209, 143, 32, 208, 188, 208, 176, 209, 129, 209, 130,
     208, 181, 209, 128, 208, 190, 208, 178, 32, 208, 188, 208, 176, 208, 189, 208, 184, 208,
     186, 209, 142, 209, 128, 208, 176]"

definition BRIEF_product_description :: string where
  "BRIEF_product_description = bytes
    [208, 158, 208, 189, 208, 187, 208, 176, 208, 185, 208, 189, 45, 208, 183, 208, 176, 208,
     191, 208, 184, 209, 129, 209, 140, 32, 208, 186, 208, 187, 208, 184, 208, 181, 208, 189,
     209, 130, 208, 190, 208, 178, 44, 32, 208, 176, 208, 178, 209, 130, 208, 190, 208, 188,
     208, 176, 209, 130, 208, 184, 209, 135, 208, 181, 209, 129, 208, 186, 208, 184, 208, 181,
     32, 208, 189, 208, 176, 208, 191, 208, 190, 208, 188, 208, 184, 208, 189, 208, 176, 208,
     189, 208, 184, 209, 143, 32, 208, 178, 32, 208, 188, 208, 181, 209, 129, 209, 129, 208,
     181, 208, 189, 208, 180, 208, 182, 208, 181, 209, 128, 208, 176, 209, 133, 32, 208, 184,
     32, 209, 131, 209, 135, 209, 145, 209, 130, 32, 209, 128, 208, 176, 209, 129, 209, 133,
     208, 190, 208, 180, 208, 189, 208, 184, 208, 186, 208, 190, 208, 178, 32, 208, 178, 32,
     208, 190, 208, 180, 208, 189, 208, 190, 208, 188, 32, 208, 190, 208, 186, 208, 189, 208,
     181, 46, 32, 208, 160, 208, 176, 208, 177, 208, 190, 209, 130, 208, 176, 208, 181, 209,
     130, 32, 209, 129, 32, 209, 130, 208, 181, 208, 187, 208, 181, 209, 132, 208, 190, 208,
     189, 208, 176, 44, 32, 208, 189, 208, 176, 209, 129, 209, 130, 209, 128, 208, 190, 208,
     185, 208, 186, 208, 176, 32, 208, 183, 208, 176, 32, 49, 53, 32, 208, 188, 208, 184, 208,
     189, 209, 131, 209, 130, 46]"

definition BRIEF_target_audience :: string where
  "BRIEF_target_audience = bytes
    [208, 156, 208, 176, 209, 129, 209, 130, 208, 181, 209, 128, 208, 176, 32, 208, 188, 208,
     176, 208, 189, 208, 184, 208, 186, 209, 142, 209, 128, 208, 176, 32, 208, 184, 32, 208,
     189, 208, 181, 208, 177, 208, 190, 208, 187, 209, 140, 209, 136, 208, 184, 208, 181, 32,
     209, 129, 209, 130, 209, 131, 208, 180, 208, 184, 208, 184, 32, 208, 186, 209, 128, 208,
     176, 209, 129, 208, 190, 209, 130, 209, 139, 44, 32, 50, 50, 226, 128, 147, 52, 48, 32,
     208, 187, 208, 181, 209, 130, 44, 32, 208, 160, 208, 190, 209, 129, 209, 129, 208, 184,
     209, 143]"

definition BRIEF_offer :: string where
  "BRIEF_offer = bytes
    [208, 159, 208, 181, 209, 128, 208, 178, 209, 139, 208, 185, 32, 208, 188, 208, 181, 209,
     129, 209, 143, 209, 134, 32, 208, 177, 208, 181, 209, 129, 208, 191, 208, 187, 208, 176,
     209, 130, 208, 189, 208, 190, 32, 208, 184, 32, 208, 191, 208, 181, 209, 128, 208, 181,
     208, 189, 208, 190, 209, 129, 32, 208, 177, 208, 176, 208, 183, 209, 139, 32, 208, 186,
     208, 187, 208, 184, 208, 181, 208, 189, 209, 130, 208, 190, 208, 178, 32, 209, 129, 208,
     184, 208, 187, 208, 176, 208, 188, 208, 184, 32, 208, 191, 208, 190, 208, 180, 208, 180,
     208, 181, 209, 128, 208, 182, 208, 186, 208, 184]"

definition BRIEF_style :: string where
  "BRIEF_style = bytes
    [208, 180, 209, 128, 209, 131, 208, 182, 208, 181, 208, 187, 209, 142, 208, 177, 208, 189,
     209, 139, 208, 185, 44, 32, 208, 182, 208, 184, 208, 178, 208, 190, 208, 185, 44, 32, 208,
     177, 208, 181, 208, 183, 32, 208, 186, 208, 176, 208, 189, 209, 134, 208, 181, 208, 187,
     209, 143, 209, 128, 208, 184, 209, 130, 208, 176]"

definition LOCAL_STEP_LABEL :: string where
  "LOCAL_STEP_LABEL = bytes
    [208, 187, 208, 190, 208, 186, 208, 176, 208, 187, 209, 140, 208, 189, 209, 139, 208, 185,
     32, 209, 136, 208, 176, 208, 179]"

definition LOCAL_TEXT_LABEL :: string where
  "LOCAL_TEXT_LABEL = bytes
    [60, 208, 187, 208, 190, 208, 186, 208, 176, 208, 187, 209, 140, 208, 189, 209, 139, 208,
     185, 32, 209, 130, 208, 181, 208, 186, 209, 129, 209, 130, 62]"

definition NO_LINK :: string where
  "NO_LINK = bytes
    [226, 128, 148]"

definition demo_script_brief :: "money \<Rightarrow> brief" where
  "demo_script_brief budget =
     \<lparr>b_product_name = BRIEF_product_name, b_product_description = BRIEF_product_description,
      b_target_audience = BRIEF_target_audience, b_offer = BRIEF_offer, b_formats = [TEXT, IMAGE, VOICE, VIDEO],
      b_budget_rub = budget, b_style = BRIEF_style, b_language = ''ru'', b_strategy = BALANCED, b_aspect_ratio = Some ''9:16'',
      b_video_duration_seconds = None, b_voiceover_script = None, b_reference_image_urls = [], b_landing_url = None,
      b_text_max_tokens = None\<rparr>"

section \<open>What is printed\<close>

datatype printed =
    Heading string "json list"
  | Line string "json list"
  | Noted string msg
  | Alternative string msg
  | Refused exn

definition opt_money :: "money option \<Rightarrow> json" where
  "opt_money x = (case x of None \<Rightarrow> JNull | Some m \<Rightarrow> JFloat m)"

definition step_report :: "plan_step \<Rightarrow> printed list" where
  "step_report s =
     [Line ''step'' [JStr (ps_step_id s), str_or (ps_model s) (JStr LOCAL_STEP_LABEL), JFloat (ps_estimated_cost_rub s), JStr (ps_cost_source s)],
      Noted ''why'' (ps_reason s)]
     @ (if ps_rejected_alternatives s = [] then []
        else Line ''rejected'' [] # map (\<lambda>a. Alternative (rc_model a) (rc_reason a)) (take 3 (ps_rejected_alternatives s)))
     @ map (Noted ''step_warning'') (ps_warnings s)"

definition plan_report :: "plan \<Rightarrow> printed list" where
  "plan_report p =
     [Line ''plan_id'' [JStr (p_plan_id p)], Line ''status'' [JStr (plan_status_value (p_status p))],
      Line ''budget'' [JFloat (p_budget_rub p), JFloat (p_spendable_rub p), JFloat (p_safety_margin_rub p)],
      Line ''total'' [JFloat (p_total_estimated_rub p), JFloat (plan_budget_remaining_rub p)],
      Line ''account'' [opt_money (ac_balance_rub (p_account p)), opt_money (ac_daily_limit_rub (p_account p))]]
     @ concat (map step_report (p_steps p))
     @ (if p_warnings p = [] then [] else Line ''plan_warnings'' [] # map (Noted ''plan_warning'') (p_warnings p))"

definition accepted_report :: "job \<Rightarrow> printed list" where
  "accepted_report j = [Line ''accepted'' [JStr (j_job_id j), JStr (job_status_value (j_status j)), JFloat (j_actual_cost_rub j)]]"

definition job_step_report :: "job_step \<Rightarrow> printed list" where
  "job_step_report t =
     Line ''job_step'' [JStr (js_step_id t), JStr (step_status_value (js_status t)), JFloat (js_actual_cost_rub t),
       j_or (js_display_url t) (JStr (case js_local_output t of Some (c # cs) \<Rightarrow> LOCAL_TEXT_LABEL | _ \<Rightarrow> NO_LINK))]
     # (case js_error t of None \<Rightarrow> [] | Some e \<Rightarrow> if e = Text [] then [] else [Noted ''step_error'' e])"

definition job_report :: "job \<Rightarrow> printed list" where
  "job_report j =
     [Line ''job_id'' [JStr (j_job_id j)],
      Line ''job_status'' [JStr (job_status_value (j_status j)), opt_money (j_duration_seconds j)],
      Line ''money'' [JFloat (j_estimated_cost_rub j), JFloat (j_actual_cost_rub j), JFloat (j_budget_rub j), JFloat (job_budget_remaining_rub j)]]
     @ concat (map job_step_report (j_steps j))"

definition repeat_report :: "job \<Rightarrow> job \<Rightarrow> mock \<Rightarrow> printed list" where
  "repeat_report again j m =
     [Line ''same_job'' [JBool (j_job_id again = j_job_id j)], Line ''charged_again'' [JFloat (j_actual_cost_rub again - j_actual_cost_rub j)],
      Line ''generate_calls'' [JInt (int (length (calls_named m ''generate'')))], Line ''mock_balance'' [JFloat (mk_balance_rub m)]]"

section \<open>The script\<close>

type_synonym 'a script = "(mock world \<times> printed list, exn, 'a) eff"

definition serve :: "(mock, 'a) serv \<Rightarrow> 'a script" where
  "serve m = (\<lambda>(w, out). let (r, w') = m w in (r, (w', out)))"

definition show_lines :: "printed list \<Rightarrow> unit script" where
  "show_lines ls = modify (\<lambda>(w, out). (w, out @ ls))"

text \<open>\<open>except Exception\<close>: a loop without end is none.\<close>

definition except_any :: "('s, exn, 'a) eff \<Rightarrow> (exn \<Rightarrow> ('s, exn, 'a) eff) \<Rightarrow> ('s, exn, 'a) eff" where
  "except_any m h = catch m (\<lambda>e. if e = Diverges then raise e else h e)"

text \<open>\<open>JobQueue.drain\<close>, with the workers taking the queued ids in turn: a job that raises is logged and done.
  (The script queues one job, so no two jobs overlap.)\<close>

definition work_off :: "'x service \<Rightarrow> string \<Rightarrow> ('x, unit) serv" where
  "work_off sv jid = except_any (andthen (run_job sv jid) (ret ())) (\<lambda>e. ret ())"

definition drain_queue :: "'x service \<Rightarrow> ('x, unit) serv" where
  "drain_queue sv = bind (gets w_queue) (\<lambda>ids. andthen (modify (\<lambda>w. w\<lparr>w_queue := []\<rparr>)) (for_each ids (work_off sv)))"

text \<open>The second part: an execution that is not confirmed.\<close>

definition try_unconfirmed :: "mock service \<Rightarrow> plan \<Rightarrow> unit script" where
  "try_unconfirmed sv p =
     except_any (andthen (serve (execute_plan sv (p_plan_id p) False False)) (ret ())) (\<lambda>e. show_lines [Refused e])"

text \<open>The third part: the confirmed execution and the report of its job.\<close>

definition execute_confirmed :: "mock service \<Rightarrow> plan \<Rightarrow> job script" where
  "execute_confirmed sv p =
     bind (serve (execute_plan sv (p_plan_id p) True False)) (\<lambda>queued.
     andthen (show_lines (accepted_report queued))
     (andthen (serve (drain_queue sv))
     (bind (serve (service_get_job (j_job_id queued))) (\<lambda>j.
     andthen (show_lines (job_report j)) (ret j)))))"

text \<open>The fourth part: the repeated execution.\<close>

definition execute_again :: "mock service \<Rightarrow> plan \<Rightarrow> job \<Rightarrow> unit script" where
  "execute_again sv p j =
     bind (serve (execute_plan sv (p_plan_id p) True False)) (\<lambda>again.
     bind (gets (w_ext \<circ> fst)) (\<lambda>m. show_lines (repeat_report again j m)))"

definition demo_main :: "mock service \<Rightarrow> money \<Rightarrow> int script" where
  "demo_main sv budget =
     andthen (show_lines [Heading ''1'' [JFloat budget]])
     (case validate_brief (demo_script_brief budget) of
        None \<Rightarrow> raise (ValueError (Msg ''invalid_brief'' [JFloat budget]))
      | Some b \<Rightarrow>
          bind (serve (create_plan sv b)) (\<lambda>p.
          andthen (show_lines (plan_report p @ [Heading ''2'' []]))
          (andthen (try_unconfirmed sv p)
          (andthen (show_lines [Heading ''3'' []])
          (bind (execute_confirmed sv p) (\<lambda>j.
          andthen (show_lines [Heading ''4'' []])
          (andthen (execute_again sv p j)
          (if j_actual_cost_rub j \<le> p_budget_rub p then andthen (show_lines [Line ''within_budget'' []]) (ret 0)
           else raise AssertionFailed))))))))"

section \<open>Its parts\<close>

definition demo_settings :: "settings \<Rightarrow> exn + settings" where
  "demo_settings env = make_settings (env\<lparr>app_mode := MOCK\<rparr>)"

definition demo_platform :: "obj \<Rightarrow> time \<Rightarrow> settings \<Rightarrow> mock" where
  "demo_platform fixture now st = new_mock fixture (mock_balance_rub st) (mock_daily_limit_rub st) 0 1 0 [] now"

definition demo_plan_service :: "mock_env \<Rightarrow> crypto \<Rightarrow> settings \<Rightarrow> policy \<Rightarrow> mock service" where
  "demo_plan_service env h st p = \<lparr>sv_client = mock_client env, sv_settings = st, sv_policy = p, sv_crypto = h,
     sv_has_media = False, sv_has_queue = True\<rparr>"

text \<open>The whole script, given the environment, the catalog fixture and the time.\<close>

definition demo_script :: "mock_env \<Rightarrow> crypto \<Rightarrow> obj \<Rightarrow> time \<Rightarrow> settings \<Rightarrow> money \<Rightarrow> (exn + int) \<times> printed list" where
  "demo_script env h fixture now raw budget =
     (case demo_settings raw of
        Inl e \<Rightarrow> (Inl e, [])
      | Inr st \<Rightarrow>
         (case policy_load (\<lambda>_. None) None of
            Inl e \<Rightarrow> (Inl e, [])
          | Inr p \<Rightarrow>
              (case demo_main (demo_plan_service env h st p) budget
                  (\<lparr>w_db = empty_db, w_ext = demo_platform fixture now st, w_queue = []\<rparr>, []) of
                 (r, w, out) \<Rightarrow> (r, out))))"

section \<open>How it goes\<close>

lemma demo_brief_valid:
  assumes "validate_brief (demo_script_brief budget) = Some b"
  shows "b_formats b = [TEXT, IMAGE, VOICE, VIDEO]" and "b_budget_rub b = budget" and "0 < budget" and "b_text_max_tokens b = None"
  using assms by (auto simp: validate_brief_def brief_fields_ok_def demo_script_brief_def dedupe_formats_def split: if_splits)

text \<open>The confirmed execution is admitted.\<close>

lemma mock_admits:
  assumes "sv_client sv = mock_client env" and "sv_has_queue sv" and "app_mode (sv_settings sv) = MOCK"
    and "plan_at (w_db w) pid = Some p" and "p_plan_id p = pid" and "p_status p \<noteq> PLAN_INFEASIBLE" and "t_jobs (w_db w) = []"
  shows "\<exists>j w'. execute_plan sv pid True False w = (Inr j, w') \<and> w_queue w' = w_queue w @ [j_job_id j]"
proof -
  have plan: "find (\<lambda>r. pr_plan_id r = pid) (t_plans (w_db w)) \<noteq> None" using assms(4) by (auto simp: plan_at_def)
  have "jobs_get_by_plan pid (w_db w) = (Inr None, w_db w)" by (simp add: jobs_get_by_plan_def assms(7))
  then show ?thesis
    using assms plan
    by (simp add: execute_plan_def plans_get_def in_db_def [of "jobs_get_by_plan pid"] admit_def bind_apply andthen_def Let_def
        fresh_uuid_def in_ext_def clock_def now_is_def mock_client_def in_db_def jobs_save_def plans_save_def enqueue_def new_job_def)
qed

text \<open>Planning queues nothing.\<close>

definition same_queue :: "'x world \<Rightarrow> 'x world \<Rightarrow> bool" where
  "same_queue w w' \<longleftrightarrow> w_queue w' = w_queue w"

interpretation same_queue: planning_relation same_queue sv for sv :: "'x service"
  by unfold_locales (auto simp: same_queue_def keeps_def clock_def fresh_uuid_def in_ext_def in_db_def Let_def case_prod_beta)

lemma serve_apply: "m w = (r, w') \<Longrightarrow> serve m (w, out) = (r, (w', out))"
  by (simp add: serve_def)

lemma show_lines_apply [simp]: "show_lines ls (w, out) = (Inr (), (w, out @ ls))"
  by (simp add: show_lines_def)

lemma work_off_apply:
  assumes "run_job sv jid w = (r, w')" and "r \<noteq> Inl Diverges"
  shows "work_off sv jid w = (Inr (), w')"
  using assms by (cases r) (simp_all add: work_off_def except_any_def catch_def andthen_def bind_apply)

lemma drain_one:
  assumes "w_queue w = [jid]" and "run_job sv jid (w\<lparr>w_queue := []\<rparr>) = (r, w')" and "r \<noteq> Inl Diverges"
  shows "drain_queue sv w = (Inr (), w')"
  using assms(1) work_off_apply [OF assms(2,3)] by (simp add: drain_queue_def bind_apply andthen_def)

text \<open>Once the plan exists, the script runs to its end.\<close>

definition demo_output :: "money \<Rightarrow> plan \<Rightarrow> job \<Rightarrow> job \<Rightarrow> mock \<Rightarrow> printed list" where
  "demo_output budget p queued j m =
     [Heading ''1'' [JFloat budget]] @ plan_report p @
     [Heading ''2'' [], Refused (app_raise ConfirmationRequiredError (Msg ''confirmation_required'' [])), Heading ''3'' []] @
     accepted_report queued @ job_report j @ [Heading ''4'' []] @ repeat_report j j m @ [Line ''within_budget'' []]"

lemma demo_main_runs:
  assumes ready: "mock_ready env sv b" and start: "started_with (w_ext w)" "w_db w = empty_db" "w_queue w = []"
    and mode: "app_mode (sv_settings sv) = MOCK" and b: "validate_brief (demo_script_brief budget) = Some b" and budget: "on_grid 4 budget"
    and plan: "create_plan sv b w = (Inr p, w1)"
  shows "\<exists>q j w'. demo_main sv budget (w, []) = (Inr 0, (w', demo_output budget p q j (w_ext w'))) \<and> j_job_id q = j_job_id j \<and>
    j_actual_cost_rub j \<le> p_spendable_rub p \<and> p_spendable_rub p \<le> budget"
proof -
  note M = ready [unfolded mock_ready_def] and B = demo_brief_valid [OF b]
  have ids: "new_ids sv w" "db_ok (w_db w)" by (simp_all add: new_ids_def start(2) empty_db_ok) (simp_all add: empty_db_def job_at_def)
  note P = mock_planned [OF ready start(1) ids(2,1) plan] and leaves = create_plan_leaves [OF plan ids(2)]
  have jobs: "t_jobs (w_db w1) = []" "t_steps (w_db w1) = []" using leaves by (simp_all add: start(2) empty_db_def)
  then have ids1: "new_ids sv w1" by (simp add: new_ids_def job_at_def)
  have queue: "w_queue w1 = []" using keepsD [OF same_queue.create_plan_keeps plan] start(3) by (simp add: same_queue_def)
  have "TEXT \<in> set (map ps_format (p_steps p))" using created_plan_shape(4) [OF plan] B(1) by simp
  then have "p_steps p \<noteq> []" by auto
  moreover have "p_status p = PLAN_INFEASIBLE \<Longrightarrow> p_steps p = []" using plan by (rule create_plan_source)
  ultimately have feasible: "p_status p \<noteq> PLAN_INFEASIBLE" by blast
  have refused: "execute_plan sv (p_plan_id p) False False w1 = (Inl (app_raise ConfirmationRequiredError (Msg ''confirmation_required'' [])), w1)"
    using P(5) by (simp add: execute_plan_def plans_get_def)
  obtain q w2 where q: "execute_plan sv (p_plan_id p) True False w1 = (Inr q, w2)" and w2: "w_queue w2 = [j_job_id q]"
    using mock_admits [of sv env w1 "p_plan_id p" p] M mode P(5) feasible jobs queue by auto
  obtain r w3 where run: "run_job sv (j_job_id q) (w2\<lparr>w_queue := []\<rparr>) = (r, w3)" by fastforce
  have "ends (run_job sv (j_job_id q))" using run_job_ends [of sv] mock_client_ends [of env] M by simp
  then have "r \<noteq> Inl Diverges" using run by (metis ends_def fst_conv)
  then have drained: "drain_queue sv w2 = (Inr (), w3)" by (rule drain_one [OF w2 run])
  obtain j where j: "job_at (w_db w3) (j_job_id q) = Some j" "j_job_id j = j_job_id q" "j_actual_cost_rub j \<le> p_spendable_rub p"
    "p_spendable_rub p \<le> round4 (b_budget_rub b)" and again: "execute_plan sv (p_plan_id p) True False w3 = (Inr j, w3)"
    using mock_ran [OF ready start(1) ids(2,1) plan ids1 q run] by metis
  have sp: "p_spendable_rub p \<le> budget" using j(4) B(2) budget by (simp add: py_round_grid)
  have get: "service_get_job (j_job_id q) w3 = (Inr j, w3)" using j(1) by (simp add: service_get_job_def jobs_get_def)
  have "try_unconfirmed sv p (w1, out) = (Inr (), (w1, out @ [Refused (app_raise ConfirmationRequiredError (Msg ''confirmation_required'' []))]))" for out
    using serve_apply [of "execute_plan sv (p_plan_id p) False False", OF refused]
    by (simp add: try_unconfirmed_def except_any_def catch_def andthen_def bind_apply app_raise_def)
  moreover have "execute_confirmed sv p (w1, out) = (Inr j, (w3, out @ accepted_report q @ job_report j))" for out
    using serve_apply [of "execute_plan sv (p_plan_id p) True False", OF q] serve_apply [of "drain_queue sv", OF drained]
      serve_apply [of "service_get_job (j_job_id q)", OF get]
    by (simp add: execute_confirmed_def bind_apply andthen_def)
  moreover have "execute_again sv p j (w3, out) = (Inr (), (w3, out @ repeat_report j j (w_ext w3)))" for out
    using serve_apply [of "execute_plan sv (p_plan_id p) True False", OF again] by (simp add: execute_again_def bind_apply)
  ultimately have "demo_main sv budget (w, []) = (Inr 0, (w3, demo_output budget p q j (w_ext w3)))"
    using b serve_apply [of "create_plan sv b", OF plan] j(3) sp P(6) B(2)
    by (simp add: demo_main_def bind_apply andthen_def demo_output_def)
  with j sp show ?thesis by (intro exI [of _ q] exI [of _ j] exI [of _ w3]) simp
qed

section \<open>The property\<close>

lemma builtin_token_default:
  assumes "policy_load (\<lambda>_. None) None = Inr p"
  shows "jget (po_defaults p) ''text_max_tokens'' = JInt 900"
  using assms
  by (simp add: policy_load_def policy_from_dict_def DEFAULT_POLICY_def dict_merge_def dict_items_def get_tuple_def str_tuple_def parse_tiers_def
      iter_json_def jget_def j_or_def Let_def) (auto simp: jget_def)

text \<open>The prices of a recorded catalog, and of what the environment says the account holds.\<close>

definition fixture_ok :: "obj \<Rightarrow> bool" where
  "fixture_ok fixture \<longleftrightarrow> (\<forall>(ty, es) \<in> set (cap_models_by_type (parse_capabilities fixture)). \<forall>(k, s) \<in> set es. fair_spec s) \<and>
     token_enums_ok (parse_capabilities fixture)"

definition account_ok :: "settings \<Rightarrow> bool" where
  "account_ok st \<longleftrightarrow> 0 \<le> mock_balance_rub st \<and> on_grid 2 (mock_balance_rub st) \<and> 0 \<le> mock_daily_limit_rub st"

lemma demo_starts_opened:
  assumes "fixture_ok fixture" and "account_ok st"
  shows "started_with (demo_platform fixture now st)"
  using assms on_grid_of_int [of 2 0]
  by (simp add: started_with_def opened_def fair_catalog_def demo_platform_def new_mock_def fixture_ok_def account_ok_def)

definition demo_world :: "obj \<Rightarrow> time \<Rightarrow> settings \<Rightarrow> mock world" where
  "demo_world fixture now st = \<lparr>w_db = empty_db, w_ext = demo_platform fixture now st, w_queue = []\<rparr>"

text \<open>C3: The demonstration keeps its word. Once its plan is created, the script runs to its end with exit
  code 0 whatever the platform's catalog, and its output is determined: the unconfirmed execution is
  refused, the job reports at most the spendable amount, which is at most the budget (so the closing
  assertion holds), and the repeated execution names the same job and charges nothing.\<close>

theorem demo_keeps_budget:
  assumes "inj (uuid5_str h)" and "fixture_ok fixture" and "account_ok st" and "on_grid 4 budget"
    and "demo_settings raw = Inr st" and "policy_load (\<lambda>_. None) None = Inr pol" and "validate_brief (demo_script_brief budget) = Some b"
    and "create_plan (demo_plan_service env h st pol) b (demo_world fixture now st) = (Inr p, w1)"
  shows "\<exists>queued j m. demo_script env h fixture now raw budget = (Inr 0, demo_output budget p queued j m) \<and>
    j_job_id queued = j_job_id j \<and> j_actual_cost_rub j \<le> p_spendable_rub p \<and> p_spendable_rub p \<le> budget"
proof -
  let ?sv = "demo_plan_service env h st pol" and ?w = "demo_world fixture now st"
  note B = demo_brief_valid [OF assms(7)]
  have st: "fields_in_range st" "app_mode st = MOCK" using assms(5) make_settings_ok by (auto simp: demo_settings_def)
  have ready: "mock_ready env ?sv b"
    using assms(1) st(1) B builtin_token_default [OF assms(6)] by (simp add: mock_ready_def demo_plan_service_def asks_ok_def)
  have start: "started_with (w_ext ?w)" "w_db ?w = empty_db" "w_queue ?w = []" and mode: "app_mode (sv_settings ?sv) = MOCK"
    using demo_starts_opened [OF assms(2,3)] st(2) by (simp_all add: demo_world_def demo_plan_service_def)
  from demo_main_runs [OF ready start mode assms(7,4,8)]
  obtain q j w' where run: "demo_main ?sv budget (?w, []) = (Inr 0, (w', demo_output budget p q j (w_ext w')))"
    "j_job_id q = j_job_id j" "j_actual_cost_rub j \<le> p_spendable_rub p" "p_spendable_rub p \<le> budget" by blast
  have "demo_script env h fixture now raw budget = (Inr 0, demo_output budget p q j (w_ext w'))"
    using run(1) by (simp add: demo_script_def assms(5,6) demo_world_def)
  with run(2-4) show ?thesis by blast
qed

end
