(* ===== verification/Demo_Trial.thy ===== *)
theory Demo_Trial
  imports Demo_Script Lifecycle
begin

text \<open>
  The demonstration evaluated on a catalog of one image model at ten rubles, with the built-in policy
  and the default settings: the copy is made locally, the image is bought, voice and video have no
  model. Nothing here models code of the repository.
\<close>

section \<open>The built-in policy\<close>

definition built_in :: "policy \<Rightarrow> bool" where
  "built_in p \<longleftrightarrow> po_format_priority p = [''text'', ''image'', ''voice'', ''video'', ''music''] \<and>
     po_exclude p = [''grok-extend'', ''grok-upscale'', ''*-edit'', ''veed-avatar'', ''gemini-omni-character''] \<and>
     po_per_1000_chars_types p = [''voice''] \<and> ''prompt'' \<in> set (po_suppliable_params p)"

lemma built_in_loads:
  assumes "policy_load (\<lambda>_. None) None = Inr p"
  shows "built_in p"
  using assms
  by (simp add: built_in_def policy_load_def policy_from_dict_def DEFAULT_POLICY_def dict_merge_def dict_items_def get_tuple_def str_tuple_def
      parse_tiers_def iter_json_def jget_def j_or_def Let_def) auto

lemma quick_allowed: "built_in p \<Longrightarrow> is_excluded p ''quick'' = False"
  by (simp add: built_in_def is_excluded_def fnmatch_def utf8_cont_def)

lemma built_in_priority:
  "built_in p \<Longrightarrow> priority_of p TEXT = 0" "built_in p \<Longrightarrow> priority_of p IMAGE = 1" "built_in p \<Longrightarrow> priority_of p VOICE = 2"
  "built_in p \<Longrightarrow> priority_of p VIDEO = 3"
  by (simp_all add: built_in_def priority_of_def)

section \<open>The catalog\<close>

definition trial_fixture :: obj where
  "trial_fixture = [(''models'', JObj [(''image'', JObj [(''quick'', JObj (shop_entry 10))])])]"

definition trial_caps :: capabilities where
  "trial_caps = parse_capabilities trial_fixture"

lemma trial_by_type: "cap_models_by_type trial_caps = [(''image'', [(''quick'', shop_model ''quick'' 10)])]"
  by (simp add: trial_caps_def parse_capabilities_def trial_fixture_def Let_def parse_entries_def List.map_filter_def shop_model_def)

lemma trial_models:
  "models_for trial_caps ty = (if ty = ''image'' then [shop_model ''quick'' 10] else [])" "has_models_for trial_caps ty = (ty = ''image'')"
  by (simp_all add: models_for_def has_models_for_def entries_of_def trial_by_type)

lemma no_enums: "allowed_values (shop_model k n) param = None"
  by (simp add: allowed_values_def shop_model_def parse_defs)

lemma trial_fixture_ok: "fixture_ok trial_fixture"
  by (simp add: fixture_ok_def trial_caps_def [symmetric] trial_by_type shop_fair token_enums_ok_def trial_models no_enums)

section \<open>The draft\<close>

definition trial_candidate :: "policy \<Rightarrow> brief \<Rightarrow> candidate" where
  "trial_candidate p b = \<lparr>c_spec = shop_model ''quick'' 10, c_tier = tier_of p ''image'' ''quick'',
     c_bounds = \<lparr>pb_amounts = Some (10, 10), pb_basis = Msg ''flat_price'' [JFloat 10]\<rparr>,
     c_params = [(''prompt'', JStr (image_prompt b))], c_param_warnings = [], c_price_unknown = False\<rparr>"

lemma trial_candidate_simps [simp]: "c_key (trial_candidate p b) = ''quick''" "c_cost (trial_candidate p b) = 10"
  by (simp_all add: trial_candidate_def c_key_def c_cost_def pb_upper_def)

definition trial_analysis :: "policy \<Rightarrow> brief \<Rightarrow> format_analysis" where
  "trial_analysis p b = \<lparr>fa_fmt = IMAGE, fa_type = ''image'', fa_candidates = [trial_candidate p b], fa_rejected = []\<rparr>"

lemma trial_params: "build_params p b IMAGE (shop_model k n) = Inr ([(''prompt'', JStr (image_prompt b))], [], None)"
  by (simp add: shop_model_def parse_defs build_params_def reserved_params_def limit_defs Let_def)

lemma trial_analyse:
  assumes "built_in p"
  shows "analyse trial_caps p b IMAGE [] = Inr (trial_analysis p b)"
proof -
  have "missing_required (shop_model ''quick'' 10) (available_params p b) = []"
    using assms by (simp add: missing_required_def available_params_def built_in_def)
  moreover have "price_bounds_of (shop_model ''quick'' 10) ps (po_per_1000_chars_types p) =
      \<lparr>pb_amounts = Some (10, 10), pb_basis = Msg ''flat_price'' [JFloat 10]\<rparr>" for ps
    using shop_bounds [of "[''voice'']" "''quick''" 10 ps] assms by (simp add: built_in_def)
  ultimately show ?thesis
    by (simp add: analyse_def trial_models analyse_model.simps quick_allowed [OF assms] trial_params trial_candidate_def trial_analysis_def
        pb_known_def Let_def)
qed

lemma trial_upgrade: "upgrade_rounds MAX_UPGRADE_ROUNDS [(IMAGE, trial_analysis p b)] sp [IMAGE] [(IMAGE, trial_candidate p b)] =
    [(IMAGE, trial_candidate p b)]"
proof -
  have m: "MAX_UPGRADE_ROUNDS = Suc 19" by (simp add: MAX_UPGRADE_ROUNDS_def)
  show ?thesis unfolding m upgrade_rounds.simps by (simp add: trial_analysis_def upgrade_round_def upgrade_format_def)
qed

lemma trial_fit:
  assumes "10 \<le> sp"
  shows "fit_to_budget p [(IMAGE, trial_analysis p b)] b sp = Inr ([(IMAGE, trial_candidate p b)], [], [])"
proof -
  have "round4 10 = 10" using py_round_grid [OF on_grid_of_int [of 4 10]] by simp
  moreover have "baseline [(IMAGE, trial_analysis p b)] [IMAGE] [] = Inr [(IMAGE, trial_candidate p b)]" by (simp add: trial_analysis_def)
  ultimately show ?thesis using assms trial_upgrade [of p b sp]
    by (simp add: fit_to_budget_def drop_loop.simps selection_total_def)
qed

lemma trial_build:
  assumes "built_in p" and "b_formats b = [TEXT, IMAGE, VOICE, VIDEO]" and "10 \<le> sp"
  shows "\<exists>ws. build h trial_caps p b pid sp [] = Inr \<lparr>d_steps =
    [local_step h b TEXT pid, to_step h IMAGE (trial_candidate p b) (trial_analysis p b) pid], d_warnings = ws, d_dropped_formats = []\<rparr>"
proof -
  have "fa_candidates (trial_analysis p b) \<noteq> []" by (simp add: trial_analysis_def)
  moreover have "ps_format (to_step h IMAGE (trial_candidate p b) (trial_analysis p b) pid) = IMAGE" "ps_format (local_step h b TEXT pid) = TEXT"
    by (simp_all add: to_step_def local_step_def Let_def)
  ultimately show ?thesis
    using trial_fit [OF assms(3), of p b]
    by (simp add: build_def assms(2) built_in_priority [OF assms(1)] trial_models trial_analyse [OF assms(1)] build_steps_def List.map_filter_def
        has_format_def)
qed

section \<open>The plan\<close>

lemma trial_quote:
  assumes "ps_type s = Some ''image''" and "ps_model s = Some ''quick''" and "ps_params s = [(''prompt'', JStr (c # cs))]"
    and "mk_caps m = trial_caps" and "mk_price_multiplier m = 1"
  shows "quote_request env m (estimate_body s) = Inr (shop_model ''quick'' 10, [], 10, False)"
proof -
  let ?body = "estimate_body s"
  have body: "?body = [(''type'', JStr ''image''), (''model'', JStr ''quick''), (''prompt'', JStr (c # cs)), (''strict'', JBool True)]"
    by (simp add: estimate_body_def dict_merge_def opt_str_def assms)
  have spec: "spec_or_error env m ?body = Inr (shop_model ''quick'' 10)"
    by (simp add: spec_or_error_def str_or_empty_def j_or_def body cap_get_def entries_of_def trial_by_type assms)
  have m: "m_required (shop_model ''quick'' 10) = [''prompt'']" "known_params (shop_model ''quick'' 10) = [''prompt'']"
    by (simp_all add: shop_model_def parse_defs known_params_def)
  have valid: "mock_validate ?body (shop_model ''quick'' 10) = Inr ([], [])"
    by (simp add: mock_validate_def validate_missing_def validate_rejected_def m body)
  have "\<not> is_token_billed (shop_model ''quick'' 10)"
    by (simp add: is_token_billed_def shop_model_def parse_defs)
  then have price: "mock_price m ?body (shop_model ''quick'' 10) = Inr (10, False)"
    using py_round_grid [OF on_grid_of_int [of 2 10]]
    by (simp add: mock_price_def shop_bounds pb_known_def pb_indicative_def assms Let_def)
  show ?thesis by (simp add: quote_request_def spec valid price)
qed

lemma trial_price:
  assumes "sv_client sv = mock_client env" and "ps_kind s = GENERATION" and "ps_type s = Some ''image''" and "ps_model s = Some ''quick''"
    and "ps_params s = [(''prompt'', JStr (c # cs))]" and "mk_caps (w_ext w) = trial_caps" and "mk_price_multiplier (w_ext w) = 1"
  shows "\<exists>t acc' w'. price_step sv s acc w = (Inr (Some t, [], acc'), w') \<and> ps_estimated_cost_rub t = 10 \<and> same_request s t"
proof -
  let ?m = "(w_ext w)\<lparr>mk_calls := mk_calls (w_ext w) @ [(''estimate'', estimate_body s)]\<rparr>"
  have "quote_request env ?m (estimate_body s) = Inr (shop_model ''quick'' 10, [], 10, False)"
    using trial_quote [OF assms(3-5), of ?m env] assms(6,7) by simp
  then have "in_ext (cl_estimate (sv_client sv) (estimate_body s)) w = (Inr (estimate_reply ?m (shop_model ''quick'' 10) [] 10 False), w\<lparr>w_ext := ?m\<rparr>)"
    by (simp add: in_ext_def assms(1) mock_client_def mock_estimate_def recorded)
  moreover have "round4 10 = 10" using py_round_grid [OF on_grid_of_int [of 4 10]] by simp
  ultimately show ?thesis
    by (simp add: price_step_def apply_eval estimate_reply_def estimated_cost_of_def j_or_def iter_json_def same_request_def)
qed

lemma image_prompt_Cons: "\<exists>c cs. image_prompt b = c # cs"
  by (cases "image_prompt b") (simp_all add: image_prompt_def txt1_def bytes_def)

lemma trial_account:
  assumes "sv_client sv = mock_client env"
  shows "\<exists>acc w'. account_snapshot sv w = (Inr (acc, []), w') \<and> read_only (w_ext w) (w_ext w')"
proof -
  have "\<exists>acc. account_snapshot sv w = (Inr (acc, []), w\<lparr>w_ext := (w_ext w)\<lparr>mk_calls := mk_calls (w_ext w) @ [(''me'', [])]\<rparr>\<rparr>)"
    by (simp add: account_snapshot_def apply_eval in_ext_def assms mock_client_def mock_me_def record_call_def Let_def)
  then show ?thesis by force
qed

definition trial_service :: "policy \<Rightarrow> mock service" where
  "trial_service pol = demo_plan_service demo_mock_env demo_crypto default_settings pol"

lemma trial_plan:
  assumes "built_in pol" and "b_formats b = [TEXT, IMAGE, VOICE, VIDEO]" and "b_budget_rub b = 400" and "b_reference_image_urls b = []"
  shows "\<exists>p w'. create_plan (trial_service pol) b (demo_world trial_fixture 0 default_settings) = (Inr p, w') \<and>
    map ps_model (p_steps p) = [None, Some ''quick''] \<and> p_total_estimated_rub p = 10"
proof -
  let ?sv = "trial_service pol" and ?w0 = "demo_world trial_fixture 0 default_settings" and ?st = default_settings
  have sv: "sv_client ?sv = mock_client demo_mock_env" "sv_settings ?sv = ?st" "sv_policy ?sv = pol" "sv_crypto ?sv = demo_crypto"
    "sv_has_media ?sv = False"
    by (simp_all add: trial_service_def demo_plan_service_def)
  obtain pid w1 where u: "fresh_uuid ?sv ?w0 = (Inr pid, w1)" and r1: "read_only (w_ext ?w0) (w_ext w1)"
    by (simp add: fresh_uuid_def in_ext_def sv mock_client_def) force
  obtain w2 where c: "in_ext (cl_capabilities (sv_client ?sv)) w1 = (Inr trial_fixture, w2)" and r2: "read_only (w_ext w1) (w_ext w2)"
  proof -
    have "mk_payload (w_ext w1) = trial_fixture"
      using r1 by (auto simp: read_only_def demo_world_def demo_platform_def new_mock_def)
    then show thesis using that by (force simp: in_ext_def sv mock_client_def mock_capabilities_def record_call_def apply_eval)
  qed
  obtain acc w3 where a: "account_snapshot ?sv w2 = (Inr (acc, []), w3)" and r3: "read_only (w_ext w2) (w_ext w3)"
    using trial_account [OF sv(1)] by blast
  have ro: "read_only (w_ext ?w0) (w_ext w3)" using r1 r2 r3 by blast
  have m: "mk_caps (w_ext w3) = trial_caps" "mk_price_multiplier (w_ext w3) = 1"
    using ro by (auto simp: read_only_def demo_world_def demo_platform_def new_mock_def trial_caps_def)
  let ?g = "new_guard (b_budget_rub b) (budget_safety_margin ?st) (Some acc)"
  have sp: "spendable_rub ?g = 380"
    using py_round_grid [OF on_grid_of_int [of 4 20]] py_round_grid [OF on_grid_of_int [of 4 380]]
    by (simp add: spendable_new_guard assms(3) default_settings_def)
  let ?l = "local_step demo_crypto b TEXT pid" and ?s = "to_step demo_crypto IMAGE (trial_candidate pol b) (trial_analysis pol b) pid"
  obtain ws where d: "build demo_crypto trial_caps pol b pid 380 [] = Inr \<lparr>d_steps = [?l, ?s], d_warnings = ws, d_dropped_formats = []\<rparr>"
    using trial_build [OF assms(1,2), of 380 demo_crypto pid] by auto
  obtain k ks where prompt: "image_prompt b = k # ks" using image_prompt_Cons by blast
  have s: "ps_kind ?s = GENERATION" "ps_type ?s = Some ''image''" "ps_model ?s = Some ''quick''" "ps_params ?s = [(''prompt'', JStr (k # ks))]"
    by (simp_all add: to_step_def Let_def) (simp add: trial_candidate_def prompt)
  obtain t acc' w4 where p: "price_step ?sv ?s acc w3 = (Inr (Some t, [], acc'), w4)" "ps_estimated_cost_rub t = 10" "same_request ?s t"
    using trial_price [OF sv(1) s m] by blast
  have l: "ps_kind ?l = LOCAL" "ps_estimated_cost_rub ?l = 0" "ps_format ?l = TEXT" "ps_model ?l = None" by (simp_all add: local_step_def)
  have t: "ps_kind t = GENERATION" "ps_model t = Some ''quick''" using p(3) s by (simp_all add: same_request_def)
  have pr: "price_steps ?sv [?l, ?s] acc w3 = (Inr ([?l, t], [], acc'), w4)" by (simp add: l(1) s(1) bind_apply p(1))
  have total: "steps_estimated_cost [?l, t] = 10"
    using py_round_grid [OF on_grid_of_int [of 4 10]] by (simp add: steps_estimated_cost_def l(2) p(2))
  have re: "replan_with_exact_prices ?sv trial_caps b [?l, t] pid 380 acc' w4 = (Inr ([?l, t], [], acc'), w4)"
    by (simp add: replan_with_exact_prices_def total)
  have dr: "drop_until_affordable pol 380 [?l, t] = ([?l, t], [])" by (simp add: drop_until_affordable_id total)
  have en: "ensure_text demo_crypto b pid [?l, t] = ([?l, t], [])" by (simp add: ensure_text_def has_format_def l(3))
  have now: "\<exists>now. clock ?sv w4 = (Inr now, w4)" by (simp add: clock_def in_ext_def now_is_def sv mock_client_def)
  have ceiling: "\<not> max_budget_rub ?st < b_budget_rub b" by (simp add: default_settings_def assms(3))
  show ?thesis
    using now c [unfolded sv(1)]
    by (auto simp: create_plan_def Let_def apply_eval sv u a trial_caps_def [symmetric] sp d media_warnings_def pr re dr en total ceiling
        in_db_def plans_save_def t(2) l(4) simp del: price_steps.simps)
qed

section \<open>The run of the script\<close>

lemma py_len_le: "py_len s \<le> length s"
proof (induction s rule: py_chars.induct)
  case (2 c cs)
  then show ?case using length_dropWhile_le [of utf8_cont cs] by (simp add: py_len_def)
qed simp

lemma length_between_bytes: "xs \<noteq> [] \<Longrightarrow> 1 \<le> lo \<Longrightarrow> lo \<le> 1 \<Longrightarrow> length xs \<le> hi \<Longrightarrow> length_between lo hi (bytes xs)"
proof -
  assume a: "xs \<noteq> []" "1 \<le> lo" "lo \<le> 1" "length xs \<le> hi"
  then have "bytes xs \<noteq> []" by (simp add: bytes_def)
  then have "py_len (bytes xs) \<noteq> 0" by simp
  then have "1 \<le> py_len (bytes xs)" by linarith
  moreover have "py_len (bytes xs) \<le> length xs" using py_len_le [of "bytes xs"] by (simp add: bytes_def)
  ultimately show ?thesis using a by (simp add: length_between_def)
qed

lemma trial_brief: "\<exists>b. validate_brief (demo_script_brief 400) = Some b \<and> b_reference_image_urls b = []"
proof -
  have "length_between 1 200 BRIEF_product_name" "length_between 1 4000 BRIEF_product_description" "length_between 1 1000 BRIEF_target_audience"
    "length_between 1 1000 BRIEF_offer" "length_between 1 1000 BRIEF_style"
    unfolding BRIEF_product_name_def BRIEF_product_description_def BRIEF_target_audience_def BRIEF_offer_def BRIEF_style_def
    by (rule length_between_bytes; simp)+
  moreover have "py_len ''ru'' \<le> 8" using py_len_le [of "''ru''"] by simp
  ultimately have "brief_fields_ok (demo_script_brief 400)"
    by (simp add: brief_fields_ok_def demo_script_brief_def opt_all_def length_between_def)
  then show ?thesis by (simp add: validate_brief_def demo_script_brief_def)
qed

lemma trial_settings: "demo_settings default_settings = Inr default_settings"
  by (simp add: demo_settings_def make_settings_def blank_means_unset_def fields_in_range_def check_mode_requirements_def unset_def uses_network_def
      default_settings_def)

theorem demo_keeps_budget_witness:
  "\<exists>p queued j m. demo_script demo_mock_env demo_crypto trial_fixture 0 default_settings 400 = (Inr 0, demo_output 400 p queued j m) \<and>
     map ps_model (p_steps p) = [None, Some ''quick''] \<and> p_total_estimated_rub p = 10 \<and>
     j_actual_cost_rub j \<le> p_spendable_rub p \<and> p_spendable_rub p \<le> 400"
proof -
  obtain pol where pol: "policy_load (\<lambda>_. None) None = Inr pol" using builtin_policy_loads by blast
  obtain b where b: "validate_brief (demo_script_brief 400) = Some b" "b_reference_image_urls b = []" using trial_brief by blast
  obtain p w' where plan: "create_plan (demo_plan_service demo_mock_env demo_crypto default_settings pol) b (demo_world trial_fixture 0 default_settings) = (Inr p, w')"
    and p: "map ps_model (p_steps p) = [None, Some ''quick'']" "p_total_estimated_rub p = 10"
    using trial_plan [OF built_in_loads [OF pol] demo_brief_valid(1,2) [OF b(1)] b(2)] by (auto simp: trial_service_def)
  have inj: "inj (uuid5_str demo_crypto)" by (simp add: demo_crypto_def)
  have account: "account_ok default_settings" using on_grid_of_int [of 2 5000] by (simp add: account_ok_def default_settings_def)
  have budget: "on_grid 4 400" using on_grid_of_int [of 4 400] by simp
  from demo_keeps_budget [OF inj trial_fixture_ok account budget trial_settings pol b(1) plan]
  obtain q j m where "demo_script demo_mock_env demo_crypto trial_fixture 0 default_settings 400 = (Inr 0, demo_output 400 p q j m)"
    "j_actual_cost_rub j \<le> p_spendable_rub p" "p_spendable_rub p \<le> 400" by blast
  with p show ?thesis by (intro exI [of _ p] exI [of _ q] exI [of _ j] exI [of _ m]) simp
qed

end
