(* ===== verification/Conclusion.thy ===== *)
theory Conclusion
  imports Ending Mock_Plan
begin

text \<open>
  Every admitted job is concluded: its run (\<open>run_job\<close> of \<open>app/services/plan_service.py\<close>, \<open>PlanExecutor.run\<close> of
  \<open>app/services/executor.py\<close>) returns a job in a final status, and the database has it. Of the
  platform only one thing is used: what its client raises are upstream errors. Those, and the refusals of
  the budget guard, are caught inside the run; so nothing may be raised elsewhere, and the rules below
  follow which exceptions an operation can raise while an invariant of the state holds.
\<close>

definition confined :: "('s \<Rightarrow> bool) \<Rightarrow> (exn \<Rightarrow> bool) \<Rightarrow> ('s, exn, 'a) eff \<Rightarrow> bool" where
  "confined I X m \<longleftrightarrow> (\<forall>s. I s \<longrightarrow> I (snd (m s)) \<and> (\<forall>e. fst (m s) = Inl e \<longrightarrow> X e))"

lemma confinedI:
  "(\<And>s r t. I s \<Longrightarrow> m s = (r, t) \<Longrightarrow> I t \<and> (\<forall>e. r = Inl e \<longrightarrow> X e)) \<Longrightarrow> confined I X m"
  unfolding confined_def by (metis prod.collapse)

lemma confinedD: "confined I X m \<Longrightarrow> I s \<Longrightarrow> m s = (r, t) \<Longrightarrow> I t \<and> (\<forall>e. r = Inl e \<longrightarrow> X e)"
  unfolding confined_def by (metis fst_conv snd_conv)

section \<open>One rule per construct\<close>

lemma conf_plain:
  "confined I X (ret a)" "confined I X (gets f)" "X e \<Longrightarrow> confined I X (raise e)"
  "(\<And>s. I s \<Longrightarrow> I (g s)) \<Longrightarrow> confined I X (modify g)"
  by (simp_all add: confined_def)

lemma conf_weaken: "confined I X m \<Longrightarrow> (\<And>e. X e \<Longrightarrow> Y e) \<Longrightarrow> confined I Y m"
  unfolding confined_def by blast

text \<open>What follows may rely on the value.\<close>

lemma conf_bind_value:
  assumes "confined I X m"
    and "\<And>s a t. I s \<Longrightarrow> m s = (Inr a, t) \<Longrightarrow> I t \<Longrightarrow> I (snd (f a t)) \<and> (\<forall>e. fst (f a t) = Inl e \<longrightarrow> X e)"
  shows "confined I X (bind m f)"
proof (rule confinedI)
  fix s r u
  assume s: "I s" and b: "bind m f s = (r, u)"
  obtain q t where m: "m s = (q, t)" by fastforce
  have t: "I t" "\<And>e. q = Inl e \<Longrightarrow> X e" using confinedD [OF assms(1) s m] by auto
  show "I u \<and> (\<forall>e. r = Inl e \<longrightarrow> X e)"
  proof (cases q)
    case (Inl e)
    with b m t show ?thesis by auto
  next
    case (Inr a)
    with b m have "f a t = (r, u)" by simp
    then show ?thesis using assms(2) [OF s, of a t] m Inr t(1) by auto
  qed
qed

lemma conf_bind: "confined I X m \<Longrightarrow> (\<And>a. confined I X (f a)) \<Longrightarrow> confined I X (bind m f)"
  by (rule conf_bind_value) (auto simp: confined_def)

lemma conf_gets: "(\<And>s. I s \<Longrightarrow> confined I X (f (g s))) \<Longrightarrow> confined I X (bind (gets g) f)"
  by (simp add: confined_def bind_apply)

lemma conf_andthen: "confined I X m \<Longrightarrow> confined I X n \<Longrightarrow> confined I X (andthen m n)"
  unfolding andthen_def by (rule conf_bind)

lemma conf_catch:
  assumes "confined I Y m" and "\<And>e. Y e \<Longrightarrow> confined I X (h e)"
  shows "confined I X (catch m h)"
proof (rule confinedI)
  fix s r u
  assume s: "I s" and c: "catch m h s = (r, u)"
  obtain q t where m: "m s = (q, t)" by fastforce
  have t: "I t" "\<And>e. q = Inl e \<Longrightarrow> Y e" using confinedD [OF assms(1) s m] by auto
  show "I u \<and> (\<forall>e. r = Inl e \<longrightarrow> X e)"
  proof (cases q)
    case (Inl e)
    then have "h e t = (r, u)" using c m by simp
    then show ?thesis using assms(2) [OF t(2) [OF Inl]] t(1) by (auto dest: confinedD)
  next
    case (Inr a)
    with c m t(1) show ?thesis by auto
  qed
qed

lemma conf_finally:
  assumes "confined I X m" and "confined I X f"
  shows "confined I X (finally_do m f)"
proof (rule confinedI)
  fix s r u
  assume s: "I s" and c: "finally_do m f s = (r, u)"
  obtain q t where m: "m s = (q, t)" by fastforce
  obtain k v where f: "f t = (k, v)" by fastforce
  have t: "I t" "\<And>e. q = Inl e \<Longrightarrow> X e" using confinedD [OF assms(1) s m] by auto
  then have "I v" "\<And>e. k = Inl e \<Longrightarrow> X e" using confinedD [OF assms(2) _ f] by auto
  then show "I u \<and> (\<forall>e. r = Inl e \<longrightarrow> X e)" using c m f t(2) by (cases k) (auto simp: finally_do_def)
qed

lemma conf_cases:
  "(c \<Longrightarrow> confined I X m) \<Longrightarrow> (\<not> c \<Longrightarrow> confined I X n) \<Longrightarrow> confined I X (if c then m else n)"
  "(x = None \<Longrightarrow> confined I X m) \<Longrightarrow> (\<And>a. x = Some a \<Longrightarrow> confined I X (f a)) \<Longrightarrow> confined I X (case x of None \<Rightarrow> m | Some a \<Rightarrow> f a)"
  "(\<And>e. y = Inl e \<Longrightarrow> confined I X (h e)) \<Longrightarrow> (\<And>a. y = Inr a \<Longrightarrow> confined I X (k a)) \<Longrightarrow> confined I X (case y of Inl e \<Rightarrow> h e | Inr a \<Rightarrow> k a)"
  by (auto split: option.split sum.split)

lemmas conf_rules = conf_cases conf_plain(1-3) conf_bind conf_andthen conf_finally

text \<open>Where no exception is left, there is a value.\<close>

lemma conf_value:
  assumes "confined I (\<lambda>e. False) m" and "I s"
  obtains a t where "m s = (Inr a, t)" and "I t"
proof -
  obtain r t where m: "m s = (r, t)" by fastforce
  then have "I t" "\<And>e. r \<noteq> Inl e" using confinedD [OF assms] by auto
  with m that show thesis by (cases r) auto
qed


text \<open>The polling loop adds no exception of its own, its fuel being enough.\<close>

lemma conf_poll:
  assumes "confined I X ask" and "\<And>d. confined I X (sl d)" and "0 < i" and "ends ask" and "\<And>d. ends (sl d)"
  shows "confined I X (poll_from_zero ask sl i dl)"
proof -
  have loop: "confined I (\<lambda>e. X e \<or> e = Diverges) (poll n ask sl i dl w)" for n w
  proof (induction n arbitrary: w)
    case (Suc n)
    show ?case unfolding poll.simps
      by (intro conf_rules Suc.IH; rule conf_weaken [OF assms(1)] conf_weaken [OF assms(2)]; simp)
  qed (simp add: conf_plain)
  show ?thesis
  proof (rule confinedI)
    fix s r t
    assume s: "I s" and p: "poll_from_zero ask sl i dl s = (r, t)"
    have "r \<noteq> Inl Diverges" using ends_poll [of i ask sl dl, OF assms(3-5)] p by (metis endsD)
    then show "I t \<and> (\<forall>e. r = Inl e \<longrightarrow> X e)" using confinedD [OF loop s p [unfolded poll_from_zero_def]] by auto
  qed
qed

section \<open>Clients that raise upstream errors only\<close>

definition is_vibe :: "exn \<Rightarrow> bool" where
  "is_vibe e \<longleftrightarrow> (\<exists>v. e = Vibe v)"

definition upstream :: "('x, exn, 'a) eff \<Rightarrow> bool" where
  "upstream m \<longleftrightarrow> confined (\<lambda>x. True) is_vibe m"

lemma upstream_ends: "upstream m \<Longrightarrow> ends m"
  unfolding upstream_def confined_def ends_def is_vibe_def by blast

definition upstream_client :: "'x client \<Rightarrow> bool" where
  "upstream_client c \<longleftrightarrow> upstream (cl_me c) \<and> upstream (cl_balance c) \<and> (\<forall>b. upstream (cl_estimate c b)) \<and>
     (\<forall>b k. jget b ''idempotency_key'' = JStr k \<longrightarrow> k \<noteq> [] \<longrightarrow> jget b ''strict'' = JBool True \<longrightarrow> upstream (cl_generate c b)) \<and>
     (\<forall>g. upstream (cl_generation_status c g)) \<and> (\<forall>f g. cl_voiceover_status c = Some f \<longrightarrow> upstream (f g)) \<and>
     (\<forall>w g i dl. cl_wait_for_generation c = Some w \<longrightarrow> 0 < i \<longrightarrow> upstream (w g i dl))"

lemma upstream_clientD:
  assumes "upstream_client c"
  shows "upstream (cl_me c)" "upstream (cl_balance c)" "upstream (cl_estimate c b)" "upstream (cl_generation_status c g)"
    "jget b ''idempotency_key'' = JStr k \<Longrightarrow> k \<noteq> [] \<Longrightarrow> jget b ''strict'' = JBool True \<Longrightarrow> upstream (cl_generate c b)"
    "cl_voiceover_status c = Some f \<Longrightarrow> upstream (f g)" "cl_wait_for_generation c = Some w \<Longrightarrow> 0 < i \<Longrightarrow> upstream (w g i dl)"
  using assms by (auto simp: upstream_client_def)

lemma http_request_upstream: "upstream (http_request cfg tr meth path body)"
  unfolding upstream_def
proof (rule confinedI)
  fix x r t
  assume r: "http_request cfg tr meth path body x = (r, t)"
  have "http_result meth path out = Inl e \<Longrightarrow> is_vibe e" for out e by (auto simp: http_result_def is_vibe_def split: http_outcome.splits if_splits)
  then have "http_attempt tr meth path body y = (Inl e, t) \<Longrightarrow> is_vibe e" for y e
    by (auto simp: http_attempt_def case_prod_beta Let_def)
  moreover obtain y where "http_attempt tr meth path body y = http_request cfg tr meth path body x"
    using retry_from_result [of "http_attempt tr meth path body" "hc_retry cfg" "tr_retry tr" 1 x]
    by (auto simp: http_request_def with_retry_def)
  ultimately show "True \<and> (\<forall>e. r = Inl e \<longrightarrow> is_vibe e)" using r by metis
qed

lemma http_client_upstream:
  assumes "0 < hc_poll_interval cfg"
  shows "upstream_client (http_client cfg tr)"
proof -
  have "upstream (http_wait_for_generation cfg tr g i dl)" if "0 < i" for g i dl
    unfolding upstream_def
    by (rule confinedI) (use http_wait_result [OF assms less_imp_le [OF that]] in \<open>fastforce simp: is_vibe_def\<close>)
  then show ?thesis
    by (simp add: upstream_client_def http_client_def http_generate_def http_generation_status_def http_voiceover_status_def http_request_upstream)
qed

section \<open>The ledger of a plan\<close>

text \<open>No row of the ledger is in the way of the plan's steps: a row with the key of a step, or for the step,
  is the step's own, with the step's request. (Where the answers go is not part of the request.)\<close>

definition own_row :: "crypto \<Rightarrow> plan \<Rightarrow> plan_step \<Rightarrow> step_row \<Rightarrow> bool" where
  "own_row h p ps r \<longleftrightarrow> (sx_idempotency_key r = ps_idempotency_key ps \<or> (sx_plan_id r, sx_step_id r) = (p_plan_id p, ps_step_id ps) \<longrightarrow>
     sx_idempotency_key r = ps_idempotency_key ps \<and> (sx_plan_id r, sx_step_id r) = (p_plan_id p, ps_step_id ps) \<and>
     sx_request_hash r = request_hash h (generate_body ps None))"

definition paid_steps :: "plan \<Rightarrow> plan_step list" where
  "paid_steps p = filter (\<lambda>ps. ps_kind ps \<noteq> LOCAL) (p_steps p)"

definition ledger_fits :: "crypto \<Rightarrow> plan \<Rightarrow> db \<Rightarrow> bool" where
  "ledger_fits h p d \<longleftrightarrow> list_all (\<lambda>ps. list_all (own_row h p ps) (t_steps d)) (paid_steps p)"

definition plan_keyed :: "plan \<Rightarrow> bool" where
  "plan_keyed p \<longleftrightarrow> distinct (map ps_step_id (paid_steps p)) \<and> distinct (map ps_idempotency_key (paid_steps p)) \<and>
     [] \<notin> set (map ps_idempotency_key (paid_steps p))"

lemma filter_dict_update: "\<not> P k \<Longrightarrow> filter (\<lambda>(k, v). P k) (AList.update k v xs) = filter (\<lambda>(k, v). P k) xs"
  by (induction xs) auto

lemma request_hash_any_callback: "request_hash h (generate_body ps cb) = request_hash h (generate_body ps None)"
proof -
  have "filter (\<lambda>(k, v). k \<noteq> ''callback_url'') (sort_key fst xs) = sort_key fst (filter (\<lambda>(k, v). k \<noteq> ''callback_url'') xs)" for xs :: obj
    by (simp add: filter_sort)
  then show ?thesis
    by (simp add: request_hash_def generate_body_def Let_def filter_dict_update [where P = "\<lambda>k. k \<noteq> ''callback_url''"] split: option.split list.split)
qed

lemma ledger_fits_rows:
  assumes "list_all2 (\<lambda>r r'. sx_idempotency_key r' = sx_idempotency_key r \<and> sx_plan_id r' = sx_plan_id r \<and> sx_step_id r' = sx_step_id r \<and>
      sx_request_hash r' = sx_request_hash r) (t_steps d) (t_steps d')"
  shows "ledger_fits h p d' = ledger_fits h p d"
proof -
  have "list_all (own_row h p ps) (t_steps d') = list_all (own_row h p ps) (t_steps d)" for ps
    using assms by (induction rule: list_all2_induct) (simp_all add: own_row_def)
  then show ?thesis by (simp add: ledger_fits_def)
qed

lemma ledger_fits_same: "t_steps d' = t_steps d \<Longrightarrow> ledger_fits h p d' = ledger_fits h p d"
  by (simp add: ledger_fits_def)

lemma update_step_fits [simp]: "ledger_fits h p (snd (update_step pid sid st gid cost now d)) = ledger_fits h p d"
  by (rule ledger_fits_rows) (simp add: update_step_def sql_update_def list_all2_conv_all_nth)

text \<open>Claiming a step of such a plan is never refused.\<close>

lemma claim_step_granted:
  assumes "ledger_fits h p d" and "plan_keyed p" and "ps \<in> set (paid_steps p)"
  shows "\<exists>row d'. claim_step h (p_plan_id p) (ps_step_id ps) jid (ps_idempotency_key ps) (generate_body ps cb) now d = (Inr row, d') \<and>
    t_jobs d' = t_jobs d \<and> ledger_fits h p d'"
proof (cases "step_at d (p_plan_id p) (ps_step_id ps)")
  case (Some r)
  have "own_row h p ps r" using assms(1,3) find_in [OF Some [unfolded step_at_def]] by (auto simp: ledger_fits_def list_all_iff)
  then have "sx_idempotency_key r = ps_idempotency_key ps" "sx_request_hash r = request_hash h (generate_body ps cb)"
    using find_in [OF Some [unfolded step_at_def]] by (auto simp: own_row_def request_hash_any_callback [of h ps cb])
  with Some assms(1) show ?thesis by (simp add: claim_step_def Let_def get_step_def)
next
  case None
  have own: "own_row h p ps r" if "r \<in> set (t_steps d)" for r using assms(1,3) that by (simp add: ledger_fits_def list_all_iff)
  have free: "(sx_plan_id r, sx_step_id r) \<noteq> (p_plan_id p, ps_step_id ps)" if "r \<in> set (t_steps d)" for r
    using None that by (auto simp: step_at_def find_None_iff)
  then have unused: "sx_idempotency_key r \<noteq> ps_idempotency_key ps" if "r \<in> set (t_steps d)" for r
    using own [OF that] free [OF that] unfolding own_row_def by blast
  let ?row = "\<lparr>sx_idempotency_key = ps_idempotency_key ps, sx_plan_id = p_plan_id p, sx_step_id = ps_step_id ps, sx_job_id = jid,
      sx_request_hash = request_hash h (generate_body ps cb), sx_generation_id = None, sx_status = STEP_PENDING,
      sx_actual_cost_rub = 0, sx_updated_at = now\<rparr>"
  have "own_row h p q ?row" if "q \<in> set (paid_steps p)" for q
  proof (cases "q = ps")
    case True
    then show ?thesis by (simp add: own_row_def request_hash_any_callback [of h ps cb])
  next
    case False
    have "inj_on ps_step_id (set (paid_steps p))" "inj_on ps_idempotency_key (set (paid_steps p))"
      using assms(2) by (simp_all add: plan_keyed_def distinct_map)
    with False have "ps_step_id q \<noteq> ps_step_id ps" "ps_idempotency_key q \<noteq> ps_idempotency_key ps"
      using inj_onD that assms(3) by metis+
    then show ?thesis by (simp add: own_row_def)
  qed
  then have fits: "ledger_fits h p (d\<lparr>t_steps := t_steps d @ [?row]\<rparr>)" using assms(1) by (simp add: ledger_fits_def list_all_iff)
  have ins: "insert_step ?row d = (Inr (), d\<lparr>t_steps := t_steps d @ [?row]\<rparr>)"
    using free unused by (auto simp: insert_step_def list_ex_iff)
  have "step_at (d\<lparr>t_steps := t_steps d @ [?row]\<rparr>) (p_plan_id p) (ps_step_id ps) = Some ?row"
    using None by (simp add: step_at_def find_append)
  with None ins fits show ?thesis by (simp add: claim_step_def Let_def get_step_def)
qed

section \<open>The executor\<close>

text \<open>What holds at every moment of a run: the job in memory is the one in the database, it has the steps it
  had, and the ledger fits the plan.\<close>

definition run_inv :: "crypto \<Rightarrow> plan \<Rightarrow> string \<Rightarrow> string list \<Rightarrow> 'x est \<Rightarrow> bool" where
  "run_inv h p jid ids s \<longleftrightarrow> j_job_id (e_job s) = jid \<and> jid \<in> set (map jr_job_id (t_jobs (e_db s))) \<and>
     map js_step_id (j_steps (e_job s)) = ids \<and> ledger_fits h p (e_db s)"

definition stoppable :: "exn \<Rightarrow> bool" where
  "stoppable e \<longleftrightarrow> is_budget_exceeded e \<or> is_vibe e"

lemma conf_ext: "confined (\<lambda>x. True) X m \<Longrightarrow> confined (run_inv h p jid ids) X (on_ext m)"
  by (auto simp: confined_def on_ext_def Let_def case_prod_beta run_inv_def)

lemma conf_upstream: "upstream m \<Longrightarrow> confined (run_inv h p jid ids) stoppable (on_ext m)"
  unfolding upstream_def by (intro conf_ext) (erule conf_weaken, simp add: stoppable_def)

lemma conf_modify_job:
  "(\<And>j. j_job_id (f j) = j_job_id j \<and> map js_step_id (j_steps (f j)) = map js_step_id (j_steps j)) \<Longrightarrow>
   confined (run_inv h p jid ids) X (modify_job f)"
  unfolding modify_job_def by (intro conf_plain) (simp add: run_inv_def del: map_eq_conv)

lemma conf_modify_step:
  assumes "\<And>t. js_step_id t = sid \<Longrightarrow> js_step_id (f t) = sid"
  shows "confined (run_inv h p jid ids) X (modify_step sid f)"
proof -
  have "map js_step_id (upd_first (\<lambda>t. js_step_id t = sid) f ts) = map js_step_id ts" for ts
    using assms by (induction ts) simp_all
  then show ?thesis unfolding modify_step_def by (intro conf_modify_job) simp
qed

lemma conf_parts:
  "confined (run_inv h p jid ids) X (utcnow env)" "confined (run_inv h p jid ids) X (sleep_for env d)"
  "confined (run_inv h p jid ids) X (modify_guard g)" "confined (run_inv h p jid ids) X (add_error e)"
  "confined (run_inv h p jid ids) X (add_warning e)" "confined (run_inv h p jid ids) X refresh_cost"
proof -
  show "confined (run_inv h p jid ids) X (utcnow env)" "confined (run_inv h p jid ids) X (sleep_for env d)"
    unfolding utcnow_def sleep_for_def by (rule conf_ext, simp add: confined_def now_is_def case_prod_beta)+
  show "confined (run_inv h p jid ids) X (modify_guard g)" unfolding modify_guard_def by (intro conf_plain) (simp add: run_inv_def)
  show "confined (run_inv h p jid ids) X (add_error e)" "confined (run_inv h p jid ids) X (add_warning e)" "confined (run_inv h p jid ids) X refresh_cost"
    unfolding add_error_def add_warning_def refresh_cost_def by (rule conf_modify_job, simp)+
qed

lemma conf_update: "confined (run_inv h p jid ids) X (on_db (update_step pid sid st gid cost now))"
proof -
  have "t_jobs (snd (update_step pid sid st gid cost now d)) = t_jobs d" "fst (update_step pid sid st gid cost now d) = Inr ()" for d
    by (simp_all add: update_step_def)
  then show ?thesis by (simp add: confined_def on_db_def run_inv_def Let_def case_prod_beta)
qed

lemma jobs_save_known:
  assumes "j_job_id j \<in> set (map jr_job_id (t_jobs d))"
  shows "fst (jobs_save j d) = Inr ()" and "map jr_job_id (t_jobs (snd (jobs_save j d))) = map jr_job_id (t_jobs d)"
    and "t_steps (snd (jobs_save j d)) = t_steps d" and "job_at (snd (jobs_save j d)) (j_job_id j) = Some j"
proof -
  have "job_at d (j_job_id j) \<noteq> None" using assms by (auto simp: job_at_def find_None_iff)
  then have acc: "job_accepted d j" by (simp add: job_accepted_def)
  then show "fst (jobs_save j d) = Inr ()" "t_steps (snd (jobs_save j d)) = t_steps d" by (simp_all add: jobs_save_accepted)
  show "map jr_job_id (t_jobs (snd (jobs_save j d))) = map jr_job_id (t_jobs d)"
    using assms by (simp add: jobs_save_accepted [OF acc] keys_upsert job_row_of_def)
  show "job_at (snd (jobs_save j d)) (j_job_id j) = Some j" using job_at_save [OF acc] by simp
qed

lemma conf_save: "confined (run_inv h p jid ids) X save_job"
proof (rule confinedI)
  fix s :: "'x est" and r t
  assume s: "run_inv h p jid ids s" and m: "save_job s = (r, t)"
  let ?m = "jobs_save (e_job s) (e_db s)"
  have t: "r = fst ?m" "t = s\<lparr>e_db := snd ?m\<rparr>" using m by (simp_all add: save_job_def on_db_def Let_def case_prod_beta)
  have "j_job_id (e_job s) \<in> set (map jr_job_id (t_jobs (e_db s)))" using s by (simp only: run_inv_def)
  note S = jobs_save_known [OF this]
  have "run_inv h p jid ids t" using s S(2) ledger_fits_same [OF S(3)] unfolding run_inv_def t(2) by (simp del: set_map)
  then show "run_inv h p jid ids t \<and> (\<forall>e. r = Inl e \<longrightarrow> X e)" using S(1) t(1) by simp
qed

lemma conf_the_step:
  assumes "sid \<in> set ids" and "\<And>js. js_step_id js = sid \<Longrightarrow> confined (run_inv h p jid ids) X (f js)"
  shows "confined (run_inv h p jid ids) X (bind (the_step sid) f)"
proof (rule confinedI)
  fix s r t
  assume s: "run_inv h p jid ids s" and m: "bind (the_step sid) f s = (r, t)"
  have "sid \<in> set (map js_step_id (j_steps (e_job s)))" using s assms(1) by (simp add: run_inv_def)
  then obtain js where js: "find_step (e_job s) sid = Some js"
    by (cases "find_step (e_job s) sid") (auto simp: find_step_def find_None_iff)
  then have "js_step_id js = sid" by (auto simp: find_step_def dest: find_in)
  then show "run_inv h p jid ids t \<and> (\<forall>e. r = Inl e \<longrightarrow> X e)"
    using assms(2) s m js by (auto simp: bind_apply the_step_def dest: confinedD)
qed

lemmas run_rules = conf_cases conf_plain(1-3) conf_the_step conf_bind conf_andthen conf_finally conf_parts conf_update conf_save conf_modify_step

lemma settle_conf:
  assumes "sid \<in> set ids"
  shows "confined (run_inv h p jid ids) X (settle env q sid payload)"
  unfolding settle_def Let_def case_prod_beta
  by (intro run_rules assms) (simp_all add: apply_outcome_def Let_def)

text \<open>An environment whose waits end and whose client raises upstream errors only.\<close>

definition env_upstream :: "'x exec_env \<Rightarrow> bool" where
  "env_upstream env \<longleftrightarrow> upstream_client (x_client env) \<and> 0 < x_poll_interval env"

lemma fail_step_conf: "confined (run_inv h p jid ids) X (fail_step env sid m)"
  unfolding fail_step_def by (intro run_rules) simp

lemma poll_conf:
  assumes "env_upstream env" and "upstream ask"
  shows "confined (run_inv h p jid ids) stoppable (poll_from_zero (on_ext ask) (sleep_for env) (x_poll_interval env) dl)"
  using assms by (intro conf_poll conf_upstream conf_parts ends_parts ends_lift upstream_ends) (simp_all add: env_upstream_def)

lemma await_long_conf:
  assumes "env_upstream env" and "sid \<in> set ids"
  shows "confined (run_inv h p jid ids) stoppable (await_long_voiceover env q sid)"
  unfolding await_long_voiceover_def
  using assms by (intro run_rules poll_conf settle_conf fail_step_conf) (auto simp: env_upstream_def dest: upstream_clientD)

lemma wait_for_conf:
  assumes "env_upstream env"
  shows "confined (run_inv h p jid ids) stoppable (wait_for env gid)"
  unfolding wait_for_def
  using assms by (intro run_rules poll_conf conf_upstream) (auto simp: env_upstream_def stoppable_def is_vibe_def dest: upstream_clientD)

lemma await_result_conf:
  assumes "env_upstream env" and "sid \<in> set ids"
  shows "confined (run_inv h p jid ids) stoppable (await_result env q sid)"
  unfolding await_result_def
proof (intro run_rules assms(2))
  show "confined (run_inv h p jid ids) stoppable
      (catch (bind (wait_for env g) (\<lambda>payload. ret (Some payload)))
        (\<lambda>e. case e of Vibe (VibePollTimeoutError g waited) \<Rightarrow> andthen (fail_step env sid (m waited)) (ret None) | _ \<Rightarrow> raise e))" for g m
    by (rule conf_catch [where Y = stoppable], intro run_rules wait_for_conf assms(1))
      (auto split: exn.split vibe_error.split intro!: run_rules fail_step_conf)
qed (rule settle_conf [OF assms(2)])

lemma record_charge_conf: "confined (run_inv h p jid ids) stoppable (record_charge env q ps r)"
proof -
  have "commit g c l = Inl e \<Longrightarrow> is_budget_exceeded e" for g c l e using commit_Inl check_Inl by blast
  then show ?thesis unfolding record_charge_def Let_def
    by (intro run_rules) (auto simp: stoppable_def split: sum.split intro!: run_rules)
qed

text \<open>The claim of a step of the plan succeeds, and a reply that is missing means a known generation.\<close>

lemma claim_conf:
  assumes "plan_keyed p" and "ps \<in> set (paid_steps p)"
  shows "confined (run_inv h p jid ids) X
    (on_db (claim_step h (p_plan_id p) (ps_step_id ps) k (ps_idempotency_key ps) (generate_body ps cb) now))"
proof (rule confinedI)
  fix s r t
  assume s: "run_inv h p jid ids s"
    and c: "on_db (claim_step h (p_plan_id p) (ps_step_id ps) k (ps_idempotency_key ps) (generate_body ps cb) now) s = (r, t)"
  have "ledger_fits h p (e_db s)" using s by (simp add: run_inv_def)
  from claim_step_granted [OF this assms] obtain row d' where
    "claim_step h (p_plan_id p) (ps_step_id ps) k (ps_idempotency_key ps) (generate_body ps cb) now (e_db s) = (Inr row, d')"
    "t_jobs d' = t_jobs (e_db s)" "ledger_fits h p d'" by blast
  with s c show "run_inv h p jid ids t \<and> (\<forall>e. r = Inl e \<longrightarrow> X e)" by (auto simp: on_db_def run_inv_def)
qed

lemma launch_conf:
  assumes "env_upstream env" and "plan_keyed p" and "ps \<in> set (paid_steps p)"
  shows "confined (run_inv h p jid ids) stoppable (launch env q ps (generate_body ps cb))"
proof -
  have key: "ps_idempotency_key ps \<noteq> []" using assms(2,3) by (auto simp: plan_keyed_def image_iff)
  have "jget (generate_body ps cb) ''idempotency_key'' = JStr (ps_idempotency_key ps)" "jget (generate_body ps cb) ''strict'' = JBool True"
    by (simp_all add: jget_def generate_body_key generate_body_strict)
  with key assms(1) have "upstream (cl_generate (x_client env) (generate_body ps cb))"
    by (intro upstream_clientD) (auto simp: env_upstream_def)
  then show ?thesis unfolding launch_def
    by (intro run_rules record_charge_conf conf_upstream) (auto simp: stoppable_def dest: check_all_Inl)
qed

lemma launch_or_resume_conf:
  assumes "env_upstream env" and "plan_keyed p" and "ps \<in> set (paid_steps p)" and "x_crypto env = h"
  shows "confined (run_inv h p jid ids) stoppable (launch_or_resume env p ps)"
  unfolding launch_or_resume_def Let_def assms(4)
  by (intro run_rules claim_conf [OF assms(2,3)] launch_conf [OF assms(1-3)]) simp

lemma resumed_step:
  assumes "run_inv h p jid ids s" and "ps_step_id ps \<in> set ids" and "launch_or_resume env q ps s = (Inr None, t)"
  shows "\<exists>js. find_step (e_job t) (ps_step_id ps) = Some js \<and> js_generation_id js \<noteq> None"
proof -
  let ?sid = "ps_step_id ps"
  obtain now s1 where clock: "utcnow env s = (Inr now, s1)"
    using assms(3) by (auto simp: launch_or_resume_def Let_def bind_eq_Inr)
  obtain row s2 where claim: "on_db (claim_step (x_crypto env) (p_plan_id q) ?sid (j_job_id (e_job s)) (ps_idempotency_key ps)
      (generate_body ps (x_callback_url env)) now) s1 = (Inr row, s2)"
    using assms(3) clock by (auto simp: launch_or_resume_def Let_def bind_apply bind_eq_Inr split: prod.splits sum.splits)
  have job: "e_job s2 = e_job s"
    using clock claim by (auto simp: utcnow_def on_ext_def on_db_def Let_def case_prod_beta)
  have rest: "(case sx_generation_id row of
      Some g \<Rightarrow> andthen (modify_step ?sid (\<lambda>s. s\<lparr>js_generation_id := Some g\<rparr>))
          (andthen (add_warning (Pref ?sid (Msg ''already_launched'' [JInt g]))) (ret None))
    | None \<Rightarrow> bind (launch env q ps (generate_body ps (x_callback_url env))) (\<lambda>r. ret (Some r))) s2 = (Inr None, t)"
    using assms(3) clock claim by (simp add: launch_or_resume_def Let_def bind_apply)
  then obtain g where g: "sx_generation_id row = Some g" by (cases "sx_generation_id row") (auto simp: bind_eq_Inr)
  have t: "j_steps (e_job t) = upd_first (\<lambda>t. js_step_id t = ?sid) (\<lambda>s. s\<lparr>js_generation_id := Some g\<rparr>) (j_steps (e_job s))"
    using rest by (auto simp: g andthen_def bind_apply modify_step_def modify_job_def add_warning_def job)
  have "?sid \<in> set (map js_step_id (j_steps (e_job s)))" using assms(1,2) by (simp add: run_inv_def)
  then have "find (\<lambda>t. js_step_id t = ?sid) (j_steps (e_job s)) \<noteq> None" by (auto simp: find_None_iff)
  then show ?thesis by (auto simp: t find_step_def find_upd_first)
qed

lemma await_step_conf:
  assumes "env_upstream env" and "sid \<in> set ids"
  shows "confined (run_inv h p jid ids) stoppable (await_step env q sid (Some r))"
  unfolding await_step_def option.case
  by (intro run_rules settle_conf fail_step_conf await_long_conf await_result_conf assms)

lemma await_resumed:
  assumes "env_upstream env" and "sid \<in> set ids" and "run_inv h p jid ids t" and "find_step (e_job t) sid = Some js" and "js_generation_id js \<noteq> None"
  shows "run_inv h p jid ids (snd (await_step env q sid None t)) \<and> (\<forall>e. fst (await_step env q sid None t) = Inl e \<longrightarrow> stoppable e)"
proof -
  have "await_step env q sid None t = (if js_is_long_voiceover js then await_long_voiceover env q sid else await_result env q sid) t"
    using assms(4,5) by (auto simp: await_step_def bind_apply the_step_def)
  then show ?thesis
    using await_long_conf [OF assms(1,2), of h p jid q] await_result_conf [OF assms(1,2), of h p jid q] assms(3) by (simp add: confined_def)
qed

lemma run_step_conf:
  assumes "env_upstream env" and "plan_keyed p" and "ps \<in> set (p_steps p)" and "x_crypto env = h" and "ps_step_id ps \<in> set ids"
  shows "confined (run_inv h p jid ids) stoppable (run_step env p ps)"
proof -
  have "confined (run_inv h p jid ids) stoppable (bind (launch_or_resume env p ps) (await_step env p (ps_step_id ps)))" if "ps_kind ps \<noteq> LOCAL"
  proof (rule conf_bind_value)
    have ps: "ps \<in> set (paid_steps p)" using assms(3) that by (simp add: paid_steps_def)
    show "confined (run_inv h p jid ids) stoppable (launch_or_resume env p ps)"
      using assms(1,2) ps assms(4) by (rule launch_or_resume_conf)
    fix s a t
    assume s: "run_inv h p jid ids s" and l: "launch_or_resume env p ps s = (Inr a, t)" and t: "run_inv h p jid ids t"
    show "run_inv h p jid ids (snd (await_step env p (ps_step_id ps) a t)) \<and>
        (\<forall>e. fst (await_step env p (ps_step_id ps) a t) = Inl e \<longrightarrow> stoppable e)"
    proof (cases a)
      case None
      with resumed_step [OF s assms(5)] l obtain js where "find_step (e_job t) (ps_step_id ps) = Some js" "js_generation_id js \<noteq> None" by blast
      with None t show ?thesis using await_resumed [OF assms(1,5)] by blast
    next
      case (Some r)
      with t show ?thesis using await_step_conf [OF assms(1,5)] by (simp add: confined_def)
    qed
  qed
  note generation = this
  show ?thesis
  proof (cases "ps_kind ps = LOCAL")
    case True
    then show ?thesis unfolding run_step_def Let_def by (simp only: if_True simp_thms) (intro run_rules; simp)
  next
    case False
    then show ?thesis unfolding run_step_def Let_def
      by (intro conf_bind [OF conf_parts(1)] conf_andthen [OF conf_modify_step]) (simp_all add: generation)
  qed
qed

lemma step_failed_conf: "stoppable e \<Longrightarrow> confined (run_inv h p jid ids) X (step_failed env q ps e)"
  unfolding step_failed_def Let_def stoppable_def is_vibe_def
  by (auto split: vibe_error.split intro!: run_rules)

lemma attempt_step_conf:
  assumes "env_upstream env" and "plan_keyed p" and "ps \<in> set (p_steps p)" and "x_crypto env = h" and "ps_step_id ps \<in> set ids"
  shows "confined (run_inv h p jid ids) X (attempt_step env p ps)"
  unfolding attempt_step_def
  by (intro conf_finally conf_catch [where Y = stoppable] conf_andthen run_step_conf assms step_failed_conf conf_plain conf_parts conf_save)

lemma run_steps_conf:
  fixes env :: "'x exec_env"
  assumes "env_upstream env" and "plan_keyed p" and "set pss \<subseteq> set (p_steps p)" and "x_crypto env = h"
  shows "confined (run_inv h p jid ids) X (run_steps env p pss ab)"
  using assms(3)
proof (induction pss arbitrary: ab)
  case (Cons ps pss)
  have rest: "confined (run_inv h p jid ids) X (run_steps env p pss b)" for b using Cons by simp
  show ?case unfolding run_steps.simps
  proof (rule conf_gets)
    fix s :: "'x est"
    assume s: "run_inv h p jid ids s"
    have id: "ps_step_id ps \<in> set ids" if "find_step (e_job s) (ps_step_id ps) = Some js" for js
    proof -
      have "ps_step_id ps \<in> set (map js_step_id (j_steps (e_job s)))" using that by (force simp: find_step_def dest: find_in)
      then show ?thesis using s by (simp only: run_inv_def)
    qed
    show "confined (run_inv h p jid ids) X (case find_step (e_job s) (ps_step_id ps) of None \<Rightarrow> run_steps env p pss ab
     | Some js \<Rightarrow>
         if ab then
           andthen (modify_step (ps_step_id ps) (\<lambda>s. s\<lparr>js_status := STEP_SKIPPED, js_error := Some (Msg ''skipped'' [])\<rparr>))
             (run_steps env p pss ab)
         else if js_status js = STEP_SUCCEEDED then run_steps env p pss ab
         else bind (attempt_step env p ps) (run_steps env p pss))"
      using Cons.prems by (intro run_rules rest attempt_step_conf assms) (simp_all add: id)
  qed
qed (simp add: conf_plain)

text \<open>The run as a whole: the job it returns is over, and stored.\<close>

definition concluded :: "db \<Rightarrow> string \<Rightarrow> job \<Rightarrow> bool" where
  "concluded d jid j \<longleftrightarrow> is_terminal (j_status j) \<and> j_finished_at j \<noteq> None \<and> job_at d jid = Some j"

lemma aggregate_terminal [simp]: "is_terminal (aggregate_status ss ab)"
  by (simp add: aggregate_status_def is_terminal_def Let_def)

lemma run_concludes:
  assumes "env_upstream env" and "plan_keyed p" and "x_crypto env = h" and "run_inv h p jid ids s"
  obtains j t where "run env p s = (Inr j, t)" and "concluded (e_db t) jid j" and "ledger_fits h p (e_db t)"
proof -
  let ?start = "bind (utcnow env) (\<lambda>t. andthen (modify_job (\<lambda>j. j\<lparr>j_status := JOB_RUNNING, j_started_at := Some t\<rparr>))
      (andthen save_job (run_steps env p (p_steps p) False)))"
  have "confined (run_inv h p jid ids) (\<lambda>e. False) ?start"
    by (intro run_rules conf_modify_job run_steps_conf assms(1-3)) simp_all
  then obtain ab s1 where s1: "?start s = (Inr ab, s1)" "run_inv h p jid ids s1" using assms(4) by (rule conf_value)
  have "confined (run_inv h p jid ids) (\<lambda>e. False) (utcnow env)" by (rule conf_parts)
  then obtain now s2 where s2: "utcnow env s1 = (Inr now, s2)" "run_inv h p jid ids s2" using s1(2) by (rule conf_value)
  define j where "j = (e_job s2)\<lparr>j_status := aggregate_status (j_steps (e_job s2)) ab, j_finished_at := Some now,
      j_actual_cost_rub := steps_actual_cost (j_steps (e_job s2))\<rparr>"
  have id: "j_job_id j = jid" using s2(2) by (simp add: j_def run_inv_def)
  then have "j_job_id j \<in> set (map jr_job_id (t_jobs (e_db s2)))" using s2(2) by (simp add: run_inv_def)
  note S = jobs_save_known [OF this]
  let ?t = "s2\<lparr>e_job := j, e_db := snd (jobs_save j (e_db s2))\<rparr>"
  have "finish_run env ab s1 = (Inr (), ?t)"
    using S(1) by (simp add: finish_run_def s2(1) bind_apply andthen_def modify_job_def save_job_def on_db_def Let_def case_prod_beta j_def)
  moreover have "run env p s = bind ?start (\<lambda>ab. andthen (finish_run env ab) (gets e_job)) s"
    by (simp add: run_def bind_def andthen_def split: prod.split sum.split)
  ultimately have "run env p s = (Inr j, ?t)" using s1(1) by (simp add: bind_apply andthen_def)
  moreover have "concluded (e_db ?t) jid j" using S(4) by (simp add: concluded_def id) (simp add: j_def)
  moreover have "ledger_fits h p (e_db ?t)" using s2(2) ledger_fits_same [OF S(3)] by (simp add: run_inv_def)
  ultimately show thesis by (rule that)
qed

section \<open>The job\<close>

lemma same_requests_keyed:
  assumes "list_all2 same_request (p_steps p) (p_steps q)" and "p_plan_id q = p_plan_id p"
  shows "plan_keyed q = plan_keyed p" and "ledger_fits h q d = ledger_fits h p d"
proof -
  have paid: "list_all2 same_request (paid_steps p) (paid_steps q)"
    using assms(1) unfolding paid_steps_def by (induction rule: list_all2_induct) (auto simp: same_request_def)
  then have "map ps_step_id (paid_steps q) = map ps_step_id (paid_steps p) \<and>
      map ps_idempotency_key (paid_steps q) = map ps_idempotency_key (paid_steps p)"
    by (induction rule: list_all2_induct) (auto simp: same_request_def)
  then show "plan_keyed q = plan_keyed p" by (simp only: plan_keyed_def)
  have "own_row h q t = own_row h p s" if "same_request s t" for s t
    using that assms(2) same_request_body [OF that, of None] by (auto simp: own_row_def same_request_def fun_eq_iff)
  with paid show "ledger_fits h q d = ledger_fits h p d" unfolding ledger_fits_def
    by (induction rule: list_all2_induct) simp_all
qed

text \<open>What asks the platform leaves the database alone and raises nothing.\<close>

lemma ask_conf:
  assumes "upstream m"
  shows "confined (\<lambda>w. w_db w = d) X (try_vibe (in_ext m))"
proof -
  have "confined (\<lambda>w. w_db w = d) is_vibe (in_ext m)"
    using assms by (auto simp: upstream_def confined_def in_ext_def Let_def case_prod_beta)
  then show ?thesis unfolding try_vibe_def
    by (intro conf_catch [where Y = is_vibe] conf_bind conf_plain) (auto simp: is_vibe_def intro: conf_plain)
qed

lemma clock_conf: "confined (\<lambda>w. w_db w = d) X (clock sv)"
  by (simp add: confined_def clock_def in_ext_def now_is_def Let_def case_prod_beta)

lemma snapshot_conf:
  assumes "upstream_client (sv_client sv)"
  shows "confined (\<lambda>w. w_db w = d) X (account_snapshot sv)"
  unfolding account_snapshot_def Let_def case_prod_beta
  by (intro conf_rules ask_conf upstream_clientD [OF assms])

lemma recheck_conf:
  assumes "upstream_client (sv_client sv)"
  shows "confined (\<lambda>w. w_db w = d) X (recheck_prices sv p g)"
proof -
  have step: "confined (\<lambda>w. w_db w = d) X (if ps_kind s = LOCAL then ret (s, k) else recheck_step sv s k)" for s k
    unfolding recheck_step_def by (intro conf_rules ask_conf upstream_clientD [OF assms])
  have "confined (\<lambda>w. w_db w = d) X (recheck_steps sv ss k)" for ss k
  proof (induction ss arbitrary: k)
    case (Cons s ss)
    show ?case unfolding recheck_steps.simps case_prod_beta by (intro conf_bind step Cons conf_plain)
  qed (simp add: conf_plain)
  then show ?thesis unfolding recheck_prices_def case_prod_beta by (intro conf_bind conf_plain)
qed

lemma abort_concludes:
  assumes "j_job_id j = jid" and "jid \<in> set (map jr_job_id (t_jobs (w_db w)))"
  obtains j' w' where "abort_job sv j bs w = (Inr j', w')" and "concluded (w_db w') jid j'" and "t_steps (w_db w') = t_steps (w_db w)"
proof -
  have "confined (\<lambda>v. w_db v = w_db w) (\<lambda>e. False) (clock sv)" by (rule clock_conf)
  then obtain now w1 where c: "clock sv w = (Inr now, w1)" "w_db w1 = w_db w" by (rule conf_value) auto
  have "j_job_id (aborted_job now bs j) \<in> set (map jr_job_id (t_jobs (w_db w)))" using assms by (simp add: aborted_job_def)
  note S = jobs_save_known [OF this]
  have "concluded (snd (jobs_save (aborted_job now bs j) (w_db w))) jid (aborted_job now bs j)"
    using S(4) assms(1) by (simp add: concluded_def) (simp add: aborted_job_def is_terminal_def)
  then show thesis using S(1,3)
    by (intro that [of "aborted_job now bs j" "w1\<lparr>w_db := snd (jobs_save (aborted_job now bs j) (w_db w))\<rparr>"])
      (simp_all add: abort_job_def c bind_apply andthen_def in_db_def Let_def case_prod_beta)
qed

lemma hand_over_concludes:
  assumes "env_upstream (exec_env_of sv)" and "plan_keyed p" and "ledger_fits (sv_crypto sv) p (w_db w)"
    and "j_job_id j = jid" and "jid \<in> set (map jr_job_id (t_jobs (w_db w)))"
  obtains j' w' where "hand_over sv p j g w = (Inr j', w')" and "concluded (w_db w') jid j'" and "ledger_fits (sv_crypto sv) p (w_db w')"
proof -
  let ?p = "p\<lparr>p_job_id := Some (j_job_id j), p_status := PLAN_EXECUTED\<rparr>" and ?w = "w\<lparr>w_db := snd (plans_save (p\<lparr>p_job_id := Some (j_job_id j), p_status := PLAN_EXECUTED\<rparr>) (w_db w))\<rparr>"
  have same: "list_all2 same_request (p_steps p) (p_steps ?p)" by (simp add: list_all2_refl)
  note K = same_requests_keyed [OF same, simplified]
  have db: "t_jobs (w_db ?w) = t_jobs (w_db w)" "t_steps (w_db ?w) = t_steps (w_db w)" by (simp_all add: plans_save_def)
  have "run_inv (sv_crypto sv) ?p jid (map js_step_id (j_steps j)) (start_state ?w j g)"
    using assms(3-5) db ledger_fits_same [OF db(2)] K(2) by (simp add: run_inv_def start_state_def)
  moreover have "plan_keyed ?p" using assms(2) K(1) by simp
  moreover have "x_crypto (exec_env_of sv) = sv_crypto sv" by (simp add: exec_env_of_def)
  ultimately obtain k t where k: "run (exec_env_of sv) ?p (start_state ?w j g) = (Inr k, t)" "concluded (e_db t) jid k" "ledger_fits (sv_crypto sv) ?p (e_db t)"
    using run_concludes [OF assms(1)] by metis
  have "fst (plans_save ?p (w_db w)) = Inr ()" by (simp add: plans_save_def)
  then have "hand_over sv p j g w = (Inr k, ?w\<lparr>w_db := e_db t, w_ext := e_ext t\<rparr>)"
    using k(1) by (simp add: hand_over_def Let_def andthen_def bind_apply in_db_def run_executor_def case_prod_beta)
  then show thesis by (rule that) (use k(2,3) K(2) in simp_all)
qed

lemma start_run_concludes:
  assumes "upstream_client (sv_client sv)" and "fields_in_range (sv_settings sv)" and "plan_keyed p"
    and "ledger_fits (sv_crypto sv) p (w_db w)" and "j_job_id j = jid" and "jid \<in> set (map jr_job_id (t_jobs (w_db w)))"
  obtains j' w' where "start_run sv j p (acc, ws) w = (Inr j', w')" and "concluded (w_db w') jid j'" and "ledger_fits (sv_crypto sv) p (w_db w')"
proof -
  have env: "env_upstream (exec_env_of sv)"
    using assms(1,2) by (simp add: env_upstream_def exec_env_of_def fields_in_range_def)
  let ?g = "new_guard (p_budget_rub p) (budget_safety_margin (sv_settings sv)) (Some acc)" and ?j = "j\<lparr>j_warnings := j_warnings j @ ws\<rparr>"
  show thesis
  proof (cases "launched_steps ?j = []")
    case False
    let ?j1 = "?j\<lparr>j_warnings := j_warnings ?j @ [Msg ''resumed'' [jstrs (map js_step_id (launched_steps ?j))]]\<rparr>"
    have "j_job_id ?j1 = jid" using assms(5) by simp
    then obtain k v where "hand_over sv p ?j1 (?g\<lparr>g_committed_rub := steps_actual_cost (j_steps ?j)\<rparr>) w = (Inr k, v)"
      "concluded (w_db v) jid k" "ledger_fits (sv_crypto sv) p (w_db v)"
      using assms(6) by (rule hand_over_concludes [OF env assms(3,4)])
    then show thesis using False that by (simp add: start_run_def Let_def)
  next
    case True
    have "confined (\<lambda>v. w_db v = w_db w) (\<lambda>e. False) (recheck_prices sv p ?g)" by (rule recheck_conf [OF assms(1)])
    then obtain x w1 where x: "recheck_prices sv p ?g w = (Inr x, w1)" "w_db w1 = w_db w" by (rule conf_value) auto
    obtain p1 g1 ws1 bs where xs: "x = (p1, g1, ws1, bs)" by (cases x)
    note R = recheck_prices_result [OF x(1) [unfolded xs]]
    have same: "list_all2 same_request (p_steps p) (p_steps p1)" using R(1) by (rule list_all2_mono) (simp add: rechecked_def)
    have "p_plan_id p1 = p_plan_id p" by (subst R(2)) simp
    note K = same_requests_keyed [OF same this]
    let ?j1 = "?j\<lparr>j_warnings := j_warnings ?j @ ws1\<rparr>"
    have run: "start_run sv j p (acc, ws) w = (if bs \<noteq> [] then abort_job sv ?j1 bs else hand_over sv p1 ?j1 g1) w1"
      using True x(1) by (simp add: start_run_def Let_def xs bind_apply after_recheck_def)
    have id: "j_job_id ?j1 = jid" using assms(5) by simp
    show thesis
    proof (cases "bs = []")
      case True
      have fits: "plan_keyed p1" "ledger_fits (sv_crypto sv) p1 (w_db w1)" and job: "jid \<in> set (map jr_job_id (t_jobs (w_db w1)))"
        using assms(3,4,6) K x(2) by simp_all
      obtain k v where "hand_over sv p1 ?j1 g1 w1 = (Inr k, v)" "concluded (w_db v) jid k" "ledger_fits (sv_crypto sv) p1 (w_db v)"
        by (rule hand_over_concludes [OF env fits id job])
      then show thesis using run True K(2) that by simp
    next
      case False
      have job: "jid \<in> set (map jr_job_id (t_jobs (w_db w1)))" using assms(6) x(2) by simp
      obtain k v where k: "abort_job sv ?j1 bs w1 = (Inr k, v)" "concluded (w_db v) jid k" "t_steps (w_db v) = t_steps (w_db w1)"
        by (rule abort_concludes [OF id job])
      then show thesis using run False that ledger_fits_same [OF k(3)] assms(4) x(2) by simp
    qed
  qed
qed

text \<open>A queued job, whatever became of it before: a run that was cut off left rows in the ledger and
  generations in the job, which the next run takes up.\<close>

lemma run_job_concludes:
  assumes "upstream_client (sv_client sv)" and "fields_in_range (sv_settings sv)" and "db_ok (w_db w)"
    and "job_at (w_db w) jid = Some j" and "j_status j = JOB_QUEUED"
    and "\<And>p. plan_at (w_db w) (j_plan_id j) = Some p \<Longrightarrow> plan_keyed p \<and> ledger_fits (sv_crypto sv) p (w_db w)"
  shows "\<exists>j' w'. run_job sv jid w = (Inr j', w') \<and> concluded (w_db w') jid j' \<and>
    (\<forall>p. plan_at (w_db w) (j_plan_id j) = Some p \<longrightarrow> ledger_fits (sv_crypto sv) p (w_db w'))"
  using assms(3)
proof (cases rule: run_job_cases [of w jid sv])
  case unknown
  with assms(4) show ?thesis by simp
next
  case (clock e w1 k)
  have "confined (\<lambda>v. w_db v = w_db w) (\<lambda>e. False) (clock sv)" by (rule clock_conf)
  then show ?thesis using clock(1) by (auto dest: confinedD)
next
  case (taken k now w1 w2 k')
  with assms(4,5) show ?thesis by simp
next
  case (claimed k now w1 w2)
  let ?j = "j\<lparr>j_status := JOB_RUNNING, j_started_at := Some now\<rparr>"
  have run: "run_job sv jid w = run_claimed sv ?j w2" using claimed(2,8) assms(4) by simp
  obtain r where r: "r \<in> set (t_jobs (w_db w))" "jr_job_id r = jid" "jr_document r = j" using assms(4) by (auto simp: job_at_def dest: find_in)
  then have id: "j_job_id ?j = jid" using assms(3) by (auto simp: db_ok_def jobs_ok_def list_all_iff)
  have "map jr_job_id (t_jobs (w_db w2)) = map jr_job_id (t_jobs (w_db w))"
    using claimed(4,5) by (auto simp: in_db_def claim_for_execution_def sql_update_def Let_def comp_def)
  then have job: "jid \<in> set (map jr_job_id (t_jobs (w_db w2)))" using r(1,2) by (metis image_eqI set_map)
  have plan: "plan_at (w_db w2) (j_plan_id ?j) = plan_at (w_db w) (j_plan_id j)" using claimed(6) by (simp add: plan_at_def)
  show ?thesis
  proof (cases "plan_at (w_db w) (j_plan_id j)")
    case None
    obtain k v where "abort_job sv ?j [Msg ''plan_unavailable'' [JStr (j_plan_id ?j)]] w2 = (Inr k, v)" "concluded (w_db v) jid k"
      by (rule abort_concludes [OF id job])
    then show ?thesis using run None plan by (simp add: run_claimed_def plans_get_def in_db_def bind_apply)
  next
    case (Some p)
    have fits: "plan_keyed p" "ledger_fits (sv_crypto sv) p (w_db w2)"
      using assms(6) [OF Some] ledger_fits_same [OF claimed(7)] by simp_all
    have "confined (\<lambda>v. w_db v = w_db w2) (\<lambda>e. False) (account_snapshot sv)" by (rule snapshot_conf [OF assms(1)])
    then obtain x w3 where x: "account_snapshot sv w2 = (Inr x, w3)" "w_db w3 = w_db w2" by (rule conf_value) auto
    obtain acc ws where xs: "x = (acc, ws)" by (cases x)
    have "ledger_fits (sv_crypto sv) p (w_db w3)" "jid \<in> set (map jr_job_id (t_jobs (w_db w3)))" using fits(2) job x(2) by simp_all
    then obtain k v where k: "start_run sv ?j p (acc, ws) w3 = (Inr k, v)" "concluded (w_db v) jid k" "ledger_fits (sv_crypto sv) p (w_db v)"
      by (rule start_run_concludes [OF assms(1,2) fits(1) _ id])
    have "run_claimed sv ?j w2 = (Inr k, v)"
      using Some plan x(1) k(1) by (simp add: run_claimed_def plans_get_def in_db_def bind_apply xs)
    then show ?thesis using run k(2,3) Some by auto
  qed
qed

text \<open>Such are the plans the service makes, and a ledger that has none of their keys and no row of them.\<close>

lemma created_plan_keyed:
  assumes "create_plan sv b w = (Inr p, w')" and "distinct (b_formats b)" and "inj (uuid5_str (sv_crypto sv))" and "[] \<notin> range (uuid5_str (sv_crypto sv))"
  shows "plan_keyed p"
proof -
  have "distinct (map ps_step_id (p_steps p))" "distinct (map ps_idempotency_key (p_steps p))"
    using created_plan_shape(3) [OF assms(1,2)] created_plan_keys(2) [OF assms(1-3)] by blast+
  moreover have "ps_idempotency_key t \<noteq> []" if "t \<in> set (p_steps p)" for t
    using created_plan_keys(1) [OF assms(1,2) that] assms(4) by (auto simp: make_idempotency_key_def Let_def)
  ultimately show ?thesis by (force simp: plan_keyed_def paid_steps_def distinct_map_filter)
qed

lemma new_ledger_fits:
  assumes "\<forall>r \<in> set (t_steps d). sx_plan_id r \<noteq> p_plan_id p \<and> sx_idempotency_key r \<notin> set (map ps_idempotency_key (p_steps p))"
  shows "ledger_fits h p d"
  using assms by (auto simp: ledger_fits_def paid_steps_def own_row_def list_all_iff)

section \<open>The property\<close>



end
